(* ===== verification/Prelude.thy ===== *)
theory Prelude
  imports Main "HOL-Library.Word" "HOL-Library.AList" "HOL-Library.Char_ord" "HOL-Library.List_Lexorder" "HOL-Library.Product_Lexorder"
begin

text \<open>
  Shared vocabulary of the development.  A Rust \<open>Result<T, E>\<close> is the datatype
  \<open>result\<close> with the constructors \<open>Ok\<close> and \<open>Err\<close>; \<open>HashMap\<close>s that are iterated are
  association lists with distinct keys (updated by \<open>AList.update\<close> and \<open>AList.delete\<close>; their
  order stands for the unspecified iteration order); unsigned machine integers are words.
  A \<open>DateTime<Utc>\<close> is its distance from the epoch in nanoseconds, an \<open>int\<close>.  The generic
  locale \<open>transition_system\<close> carries the invariant rule that the stateful components
  (registry, journal, bridge sessions, session registry) instantiate.
\<close>

section \<open>Machine integers and time\<close>

type_synonym u8 = "8 word"
type_synonym u16 = "16 word"
type_synonym u32 = "32 word"
type_synonym u64 = "64 word"
type_synonym datetime = int

text \<open>\<open>u64::saturating_add\<close>.\<close>

definition saturating_add :: "u64 \<Rightarrow> u64 \<Rightarrow> u64" where
  "saturating_add a b = (if unat a + unat b < 2 ^ 64 then a + b else - 1)"

lemma unat_max_u64: "unat (- 1 :: u64) = 2 ^ 64 - 1"
  by (simp add: unsigned_minus_1_eq_mask mask_eq_exp_minus_1)

lemma unat_u64_less: "unat (a :: u64) < 2 ^ 64"
  using unsigned_less [of a, where ?'a = nat] by simp

lemma unat_saturating_add:
  "unat (saturating_add a b) = min (unat a + unat b) (2 ^ 64 - 1)"
  by (auto simp: saturating_add_def unat_word_ariths unat_max_u64)

lemma saturating_add_mono: "a \<le> saturating_add a b"
  using unat_u64_less [of a] by (simp add: word_le_nat_alt unat_saturating_add)

lemma saturating_add_one_less: "a \<noteq> - 1 \<Longrightarrow> a < saturating_add a 1"
proof -
  assume "a \<noteq> - 1"
  then have "unat a \<noteq> 2 ^ 64 - 1" by (metis unat_max_u64 word_unat_eq_iff)
  with unat_u64_less [of a] show ?thesis
    by (simp add: word_less_nat_alt unat_saturating_add)
qed

lemma u64_less_plus_one:
  assumes "(a :: u64) \<noteq> - 1" shows "a < a + 1" "b < a \<Longrightarrow> b < a + 1"
proof -
  have "unat a \<noteq> 2 ^ 64 - 1" using assms by (metis unat_max_u64 word_unat_eq_iff)
  with unat_u64_less [of a] have "unat (a + 1) = unat a + 1" by (simp add: unat_word_ariths)
  then show "a < a + 1" "b < a \<Longrightarrow> b < a + 1" by (simp_all add: word_less_nat_alt)
qed

text \<open>
  \<open>chrono\<close> durations: \<open>num_milliseconds\<close> and \<open>num_seconds\<close> truncate towards zero.
\<close>

definition trunc_div :: "int \<Rightarrow> int \<Rightarrow> int" where
  "trunc_div a b = (if 0 \<le> a then a div b else - ((- a) div b))"

definition num_milliseconds :: "int \<Rightarrow> int" where
  "num_milliseconds d = trunc_div d 1000000"

definition num_seconds :: "int \<Rightarrow> int" where
  "num_seconds d = trunc_div d 1000000000"

lemma le_div_iff_mult_le_int:
  fixes n d b :: int
  assumes "0 < b" shows "n \<le> d div b \<longleftrightarrow> n * b \<le> d"
proof
  assume "n \<le> d div b"
  then have "n * b \<le> (d div b) * b" using assms by (simp add: mult_right_mono)
  also have "\<dots> \<le> d" using assms by (metis div_mult_mod_eq le_add_same_cancel1 pos_mod_sign)
  finally show "n * b \<le> d" .
next
  assume "n * b \<le> d"
  then have "(n * b) div b \<le> d div b" using assms by (rule zdiv_mono1)
  moreover have "(n * b) div b = n" using assms by simp
  ultimately show "n \<le> d div b" by simp
qed

lemma trunc_div_ge_iff:
  assumes "0 < b" "0 < n" shows "n \<le> trunc_div d b \<longleftrightarrow> n * b \<le> d"
proof (cases "0 \<le> d")
  case True
  with assms show ?thesis by (simp add: trunc_div_def le_div_iff_mult_le_int)
next
  case False
  then have "0 \<le> (- d) div b" using assms(1) by (simp add: pos_imp_zdiv_nonneg_iff)
  moreover from assms have "0 < n * b" by simp
  with False have "\<not> n * b \<le> d" by linarith
  ultimately show ?thesis using False assms(2) by (simp add: trunc_div_def)
qed

lemma num_seconds_ge_iff: "0 < n \<Longrightarrow> n \<le> num_seconds d \<longleftrightarrow> n * 1000000000 \<le> d"
  by (simp add: num_seconds_def trunc_div_ge_iff)

section \<open>Results\<close>

datatype ('a, 'e) result = Ok 'a | Err 'e

definition is_ok :: "('a, 'e) result \<Rightarrow> bool" where
  "is_ok r = (case r of Ok _ \<Rightarrow> True | Err _ \<Rightarrow> False)"

lemma is_ok_simps [simp]: "is_ok (Ok a)" "\<not> is_ok (Err e)"
  by (simp_all add: is_ok_def)

definition map_ok :: "('a \<Rightarrow> 'b) \<Rightarrow> ('a, 'e) result \<Rightarrow> ('b, 'e) result" where
  "map_ok f r = (case r of Ok a \<Rightarrow> Ok (f a) | Err e \<Rightarrow> Err e)"

lemma map_ok_simps [simp]: "map_ok f (Ok a) = Ok (f a)" "map_ok f (Err e) = Err e"
  by (simp_all add: map_ok_def)

definition map_err :: "('e \<Rightarrow> 'f) \<Rightarrow> ('a, 'e) result \<Rightarrow> ('a, 'f) result" where
  "map_err f r = (case r of Ok a \<Rightarrow> Ok a | Err e \<Rightarrow> Err (f e))"

lemma map_err_simps [simp]: "map_err f (Ok a) = Ok a" "map_err f (Err e) = Err (f e)"
  by (simp_all add: map_err_def)

lemma map_err_eq_Ok [simp]: "map_err f r = Ok a \<longleftrightarrow> r = Ok a"
  by (cases r) simp_all

text \<open>The \<open>?\<close> operator.\<close>

definition res_bind :: "('a, 'e) result \<Rightarrow> ('a \<Rightarrow> ('b, 'e) result) \<Rightarrow> ('b, 'e) result" where
  "res_bind r f = (case r of Ok a \<Rightarrow> f a | Err e \<Rightarrow> Err e)"

lemma res_bind_simps [simp]: "res_bind (Ok a) f = f a" "res_bind (Err e) f = Err e"
  by (simp_all add: res_bind_def)

lemma res_bind_eq_Ok [simp]: "res_bind r f = Ok b \<longleftrightarrow> (\<exists>a. r = Ok a \<and> f a = Ok b)"
  by (cases r) simp_all

lemma res_bind_eq_Err: "res_bind r f = Err e \<longleftrightarrow> r = Err e \<or> (\<exists>a. r = Ok a \<and> f a = Err e)"
  by (cases r) simp_all

text \<open>An early return of an error when a test holds.\<close>

definition fail_if :: "bool \<Rightarrow> 'e \<Rightarrow> (unit, 'e) result" where
  "fail_if b e = (if b then Err e else Ok ())"

lemma fail_if_eq_Ok [simp]: "fail_if b e = Ok u \<longleftrightarrow> \<not> b"
  by (cases u) (simp add: fail_if_def)

lemma fail_if_simps [simp]: "fail_if True e = Err e" "fail_if False e = Ok ()"
  by (simp_all add: fail_if_def)

text \<open>
  The \<open>?\<close> operator on a computation that also changes a state: an error returns at once with
  the state reached so far.
\<close>

definition bind_st :: "('a, 'e) result \<times> 's \<Rightarrow> ('a \<Rightarrow> 's \<Rightarrow> ('b, 'e) result \<times> 's) \<Rightarrow> ('b, 'e) result \<times> 's" where
  "bind_st p f = (case p of (Ok a, s) \<Rightarrow> f a s | (Err e, s) \<Rightarrow> (Err e, s))"

lemma bind_st_simps [simp]: "bind_st (Ok a, s) f = f a s" "bind_st (Err e, s) f = (Err e, s)"
  by (simp_all add: bind_st_def)

lemma bind_st_OkE:
  assumes "bind_st p f = (Ok b, s')" obtains a s where "p = (Ok a, s)" "f a s = (Ok b, s')"
  using assms by (auto simp: bind_st_def split: prod.splits result.splits)

lemma bind_st_ErrE:
  assumes "bind_st p f = (Err e, s')"
  obtains "p = (Err e, s')" | a s where "p = (Ok a, s)" "f a s = (Err e, s')"
  using assms by (auto simp: bind_st_def split: prod.splits result.splits)

section \<open>Association lists\<close>

lemma map_of_filter_fst:
  "map_of (filter (\<lambda>(k, _). P k) al) k = (if P k then map_of al k else None)"
  by (induction al) auto

lemma map_of_filter_distinct:
  "distinct (map fst al) \<Longrightarrow>
     map_of (filter P al) k = (case map_of al k of None \<Rightarrow> None | Some v \<Rightarrow> if P (k, v) then Some v else None)"
  by (induction al) (auto split: option.splits dest: map_of_SomeD simp: image_iff)

lemma map_of_map_values:
  "map_of (map (\<lambda>(k, v). (k, f k v)) al) k = map_option (f k) (map_of al k)"
  by (induction al) auto

lemma distinct_filter_fst: "distinct (map fst al) \<Longrightarrow> distinct (map fst (filter P al))"
  by (induction al) auto

lemma map_of_update [simp]: "map_of (AList.update k v al) = (map_of al)(k \<mapsto> v)"
  by (simp add: AList.update_conv')

lemma map_of_delete [simp]: "map_of (AList.delete k al) = (map_of al)(k := None)"
  by (simp add: AList.delete_conv')

section \<open>Transition systems\<close>

text \<open>
  A stateful component is an initial predicate and a step relation.  Reachability and the
  invariant rule are stated once; a component interprets the locale with its own relation.
\<close>

inductive reachable :: "('s \<Rightarrow> bool) \<Rightarrow> ('s \<Rightarrow> 's \<Rightarrow> bool) \<Rightarrow> 's \<Rightarrow> bool"
  for init :: "'s \<Rightarrow> bool" and step :: "'s \<Rightarrow> 's \<Rightarrow> bool" where
  reach_init: "init s \<Longrightarrow> reachable init step s"
| reach_step: "reachable init step s \<Longrightarrow> step s t \<Longrightarrow> reachable init step t"

locale transition_system =
  fixes init :: "'s \<Rightarrow> bool" and step :: "'s \<Rightarrow> 's \<Rightarrow> bool" and inv :: "'s \<Rightarrow> bool"
  assumes inv_init: "init s \<Longrightarrow> inv s"
    and inv_step: "inv s \<Longrightarrow> step s t \<Longrightarrow> inv t"
begin

lemma reachable_inv: "reachable init step s \<Longrightarrow> inv s"
  by (induction rule: reachable.induct) (auto intro: inv_init inv_step)

lemma steps_inv: "step\<^sup>*\<^sup>* s t \<Longrightarrow> inv s \<Longrightarrow> inv t"
  by (induction rule: rtranclp_induct) (auto intro: inv_step)

end

end
