(* ===== verification/TaskQueue.thy ===== *)
theory TaskQueue
  imports Prelude
begin

text \<open>
  The per-pid task queue of \<open>crates/tdmcp-core/src/task_queue.rs\<close>: pending tasks in FIFO
  order beside an optional in-flight task.  The locale \<open>exclusive_fifo\<close> states the contract
  its client (the pid registry) relies on, over the abstract list of tasks, oldest first;
  the queue interprets it with \<open>snapshot\<close> as the abstraction function.
\<close>

section \<open>Data\<close>

datatype TaskMode = Shared | Exclusive

datatype TaskResult = Success | Failed

record TaskInfo =
  task_name :: string
  exclusive :: bool

datatype QueueError = Busy nat | NoInFlight

record TaskQueue =
  pending :: "TaskInfo list"
  in_flight :: "TaskInfo option"

section \<open>Operations\<close>

definition queue_new :: TaskQueue where
  "queue_new = \<lparr>pending = [], in_flight = None\<rparr>"

definition queue_len :: "TaskQueue \<Rightarrow> nat" where
  "queue_len q = length (pending q) + (if in_flight q \<noteq> None then 1 else 0)"

definition queue_is_empty :: "TaskQueue \<Rightarrow> bool" where
  "queue_is_empty q \<longleftrightarrow> queue_len q = 0"

definition snapshot :: "TaskQueue \<Rightarrow> TaskInfo list" where
  "snapshot q = (case in_flight q of Some t \<Rightarrow> [t] | None \<Rightarrow> []) @ pending q"

definition try_enqueue :: "string \<Rightarrow> TaskMode \<Rightarrow> TaskQueue \<Rightarrow> (unit, QueueError) result \<times> TaskQueue" where
  "try_enqueue name mode q =
     (let exclusive = (mode = Exclusive) in
      if exclusive \<and> \<not> queue_is_empty q then (Err (Busy (queue_len q)), q)
      else (Ok (), q\<lparr>pending := pending q @ [\<lparr>task_name = name, exclusive = exclusive\<rparr>]\<rparr>))"

definition queue_start_next :: "TaskQueue \<Rightarrow> TaskInfo option \<times> TaskQueue" where
  "queue_start_next q =
     (case in_flight q of
        Some t \<Rightarrow> (Some t, q)
      | None \<Rightarrow> (case pending q of
            [] \<Rightarrow> (None, q)
          | t # ts \<Rightarrow> (Some t, q\<lparr>pending := ts, in_flight := Some t\<rparr>)))"

definition complete_in_flight :: "TaskResult \<Rightarrow> TaskQueue \<Rightarrow> (TaskInfo, QueueError) result \<times> TaskQueue" where
  "complete_in_flight result q =
     (case in_flight q of
        Some t \<Rightarrow> (Ok t, q\<lparr>in_flight := None\<rparr>)
      | None \<Rightarrow> (Err NoInFlight, q))"

definition cancel_all :: "TaskQueue \<Rightarrow> TaskInfo list \<times> TaskQueue" where
  "cancel_all q =
     ((case in_flight q of Some t \<Rightarrow> [t] | None \<Rightarrow> []) @ pending q, q\<lparr>pending := [], in_flight := None\<rparr>)"

lemmas queue_defs = queue_new_def queue_len_def queue_is_empty_def snapshot_def try_enqueue_def
  queue_start_next_def complete_in_flight_def cancel_all_def

section \<open>The contract\<close>

locale exclusive_fifo =
  fixes tasks :: "'q \<Rightarrow> TaskInfo list"
    and running :: "'q \<Rightarrow> TaskInfo option"
    and empty :: 'q
    and enqueue :: "string \<Rightarrow> TaskMode \<Rightarrow> 'q \<Rightarrow> (unit, QueueError) result \<times> 'q"
    and start :: "'q \<Rightarrow> TaskInfo option \<times> 'q"
    and complete :: "TaskResult \<Rightarrow> 'q \<Rightarrow> (TaskInfo, QueueError) result \<times> 'q"
    and cancel :: "'q \<Rightarrow> TaskInfo list \<times> 'q"
  assumes tasks_empty: "tasks empty = []"
    and running_head: "running q = Some t \<Longrightarrow> \<exists>ts. tasks q = t # ts"
    and enqueue_refused: "tasks q \<noteq> [] \<Longrightarrow> enqueue n Exclusive q = (Err (Busy (length (tasks q))), q)"
    and enqueue_result: "mode = Shared \<or> tasks q = [] \<Longrightarrow> fst (enqueue n mode q) = Ok ()"
    and enqueue_appends: "mode = Shared \<or> tasks q = [] \<Longrightarrow>
      tasks (snd (enqueue n mode q)) = tasks q @ [\<lparr>task_name = n, exclusive = (mode = Exclusive)\<rparr>]"
    and enqueue_running: "running (snd (enqueue n mode q)) = running q"
    and start_result: "fst (start q) = (case tasks q of [] \<Rightarrow> None | t # _ \<Rightarrow> Some t)"
    and start_running: "running (snd (start q)) = fst (start q)"
    and start_tasks: "tasks (snd (start q)) = tasks q"
    and complete_idle: "running q = None \<Longrightarrow> complete r q = (Err NoInFlight, q)"
    and complete_result: "running q = Some t \<Longrightarrow> fst (complete r q) = Ok t"
    and complete_tasks: "running q = Some t \<Longrightarrow> tasks (snd (complete r q)) = tl (tasks q)"
    and complete_running: "running (snd (complete r q)) = None"
    and cancel_result: "fst (cancel q) = tasks q"
    and cancel_tasks: "tasks (snd (cancel q)) = []"
    and cancel_running: "running (snd (cancel q)) = None"
begin

lemmas contract = enqueue_refused enqueue_result enqueue_appends enqueue_running start_result
  start_running start_tasks complete_idle complete_result complete_tasks complete_running
  cancel_result cancel_tasks cancel_running

text \<open>An exclusive task only ever sits at the head of the queue.\<close>

definition exclusive_only_head :: "'q \<Rightarrow> bool" where
  "exclusive_only_head q \<longleftrightarrow> (\<forall>t \<in> set (tl (tasks q)). \<not> exclusive t)"

lemma enqueue_cases:
  obtains (refused) "mode = Exclusive" "tasks q \<noteq> []" "enqueue n mode q = (Err (Busy (length (tasks q))), q)"
  | (accepted) "mode = Shared \<or> tasks q = []" "fst (enqueue n mode q) = Ok ()"
      "tasks (snd (enqueue n mode q)) = tasks q @ [\<lparr>task_name = n, exclusive = (mode = Exclusive)\<rparr>]"
  using enqueue_refused enqueue_result enqueue_appends by (cases mode; cases "tasks q = []") auto

lemma enqueue_exclusive_only_head:
  "exclusive_only_head q \<Longrightarrow> exclusive_only_head (snd (enqueue n mode q))"
  by (rule enqueue_cases [of mode q n]; cases "tasks q") (auto simp: exclusive_only_head_def)

lemma start_exclusive_only_head: "exclusive_only_head q \<Longrightarrow> exclusive_only_head (snd (start q))"
  by (simp add: exclusive_only_head_def start_tasks)

lemma complete_exclusive_only_head:
  "exclusive_only_head q \<Longrightarrow> exclusive_only_head (snd (complete r q))"
  by (cases "running q"; cases "tasks q"; cases "tl (tasks q)")
     (auto simp: exclusive_only_head_def complete_idle complete_tasks)

lemma cancel_exclusive_only_head: "exclusive_only_head (snd (cancel q))"
  by (simp add: exclusive_only_head_def cancel_tasks)

lemma empty_exclusive_only_head: "exclusive_only_head empty"
  by (simp add: exclusive_only_head_def tasks_empty)

lemma complete_removes_head:
  assumes "fst (complete r q) = Ok t" shows "tasks q = t # tasks (snd (complete r q))"
  using assms running_head by (cases "running q") (fastforce simp: complete_idle complete_result complete_tasks)+

end

section \<open>The queue meets the contract\<close>

lemma queue_is_empty_iff: "queue_is_empty q \<longleftrightarrow> snapshot q = []"
  by (auto simp: queue_defs split: option.splits)

lemma queue_len_snapshot: "queue_len q = length (snapshot q)"
  by (auto simp: queue_defs split: option.splits)

interpretation tq: exclusive_fifo snapshot in_flight queue_new try_enqueue queue_start_next
  complete_in_flight cancel_all
proof
  fix q n show "snapshot q \<noteq> [] \<Longrightarrow> try_enqueue n Exclusive q = (Err (Busy (length (snapshot q))), q)"
    by (simp add: try_enqueue_def queue_is_empty_iff queue_len_snapshot)
qed (auto simp: queue_defs Let_def split: option.splits list.splits)

section \<open>Runs of a queue\<close>

text \<open>
  A run interleaves the four operations in any order.  \<open>queue_trace\<close> records, beside the
  resulting queue, the tasks that were accepted and the tasks that left the queue (completed
  or cancelled), both in order.
\<close>

datatype QueueOp = OpEnqueue string TaskMode | OpStart | OpComplete TaskResult | OpCancel

definition queue_step :: "QueueOp \<Rightarrow> TaskQueue \<Rightarrow> TaskInfo list \<times> TaskInfo list \<times> TaskQueue" where
  "queue_step op q =
     (case op of
        OpEnqueue n mode \<Rightarrow> (case try_enqueue n mode q of
            (Ok _, q') \<Rightarrow> ([\<lparr>task_name = n, exclusive = (mode = Exclusive)\<rparr>], [], q')
          | (Err _, q') \<Rightarrow> ([], [], q'))
      | OpStart \<Rightarrow> ([], [], snd (queue_start_next q))
      | OpComplete r \<Rightarrow> (case complete_in_flight r q of (Ok t, q') \<Rightarrow> ([], [t], q') | (Err _, q') \<Rightarrow> ([], [], q'))
      | OpCancel \<Rightarrow> (let (ts, q') = cancel_all q in ([], ts, q')))"

fun queue_trace :: "QueueOp list \<Rightarrow> TaskQueue \<Rightarrow> TaskInfo list \<times> TaskInfo list \<times> TaskQueue" where
  "queue_trace [] q = ([], [], q)"
| "queue_trace (op # ops) q =
     (let (acc, gone, q') = queue_step op q; (accs, gones, q'') = queue_trace ops q'
      in (acc @ accs, gone @ gones, q''))"

lemma queue_step_conserves:
  "queue_step op q = (acc, gone, q') \<Longrightarrow> snapshot q @ acc = gone @ snapshot q'"
proof (cases op)
  case (OpEnqueue n mode)
  assume "queue_step op q = (acc, gone, q')"
  with OpEnqueue show ?thesis
    by - (rule tq.enqueue_cases [of mode q n]; cases "try_enqueue n mode q"; auto simp: queue_step_def)
next
  case OpStart
  assume "queue_step op q = (acc, gone, q')"
  with OpStart show ?thesis by (auto simp: queue_step_def tq.start_tasks)
next
  case (OpComplete r)
  assume "queue_step op q = (acc, gone, q')"
  with OpComplete show ?thesis
    by (cases "complete_in_flight r q"; cases "in_flight q")
       (auto simp: queue_step_def complete_in_flight_def snapshot_def)
next
  case OpCancel
  assume "queue_step op q = (acc, gone, q')"
  with OpCancel show ?thesis
    using tq.cancel_result [of q] tq.cancel_tasks [of q]
    by (cases "cancel_all q") (auto simp: queue_step_def)
qed

lemma queue_step_exclusive_only_head:
  "queue_step op q = (acc, gone, q') \<Longrightarrow> tq.exclusive_only_head q \<Longrightarrow> tq.exclusive_only_head q'"
proof (cases op)
  case (OpEnqueue n mode)
  assume "queue_step op q = (acc, gone, q')" "tq.exclusive_only_head q"
  with OpEnqueue tq.enqueue_exclusive_only_head [of q n mode] show ?thesis
    by (auto simp: queue_step_def split: prod.splits result.splits)
next
  case (OpComplete r)
  assume "queue_step op q = (acc, gone, q')" "tq.exclusive_only_head q"
  with OpComplete tq.complete_exclusive_only_head [of q r] show ?thesis
    by (auto simp: queue_step_def split: prod.splits result.splits)
next
  case OpStart
  assume "queue_step op q = (acc, gone, q')" "tq.exclusive_only_head q"
  with OpStart show ?thesis by (auto simp: queue_step_def tq.start_exclusive_only_head)
next
  case OpCancel
  assume "queue_step op q = (acc, gone, q')"
  with OpCancel tq.cancel_exclusive_only_head [of q] show ?thesis
    by (auto simp: queue_step_def split: prod.splits)
qed

lemma queue_trace_conserves:
  "queue_trace ops q = (accs, gones, q') \<Longrightarrow> snapshot q @ accs = gones @ snapshot q'"
proof (induction ops arbitrary: q accs gones)
  case (Cons op ops)
  obtain acc gone q1 where step: "queue_step op q = (acc, gone, q1)" by (metis prod_cases3)
  obtain accs' gones' where rest: "queue_trace ops q1 = (accs', gones', q')"
    and split: "accs = acc @ accs'" "gones = gone @ gones'"
    using Cons.prems step by (auto split: prod.splits)
  from queue_step_conserves [OF step] Cons.IH [OF rest] split show ?case
    by (metis append.assoc)
qed simp

lemma queue_trace_exclusive_only_head:
  "queue_trace ops q = (accs, gones, q') \<Longrightarrow> tq.exclusive_only_head q \<Longrightarrow> tq.exclusive_only_head q'"
proof (induction ops arbitrary: q accs gones)
  case (Cons op ops)
  obtain acc gone q1 where step: "queue_step op q = (acc, gone, q1)" by (metis prod_cases3)
  with Cons show ?case
    using queue_step_exclusive_only_head [OF step] by (auto split: prod.splits)
qed simp

section \<open>Properties\<close>

text \<open>C39: The queue neither loses, duplicates nor reorders work: over any interleaving of
enqueue, start, complete and cancel, the tasks that left the queue followed by those still in it
are exactly those it held at first followed by those it accepted, in order; and when the run starts from
an empty queue an exclusive task is only ever at the head.\<close>

theorem queue_runs_fifo:
  assumes "queue_trace ops queue_new = (accepted, gone, q)"
  shows "accepted = gone @ snapshot q \<and> (\<forall>t \<in> set (tl (snapshot q)). \<not> exclusive t)"
  using queue_trace_conserves [OF assms] queue_trace_exclusive_only_head [OF assms tq.empty_exclusive_only_head]
  by (simp add: tq.tasks_empty tq.exclusive_only_head_def)

definition sample_ops :: "QueueOp list" where
  "sample_ops = [OpEnqueue ''a'' Exclusive, OpEnqueue ''b'' Exclusive, OpEnqueue ''c'' Shared, OpStart,
     OpComplete Success]"

theorem queue_runs_fifo_witness:
  "fst (snd (queue_trace sample_ops queue_new)) @ snapshot (snd (snd (queue_trace sample_ops queue_new)))
   = [\<lparr>task_name = ''a'', exclusive = True\<rparr>, \<lparr>task_name = ''c'', exclusive = False\<rparr>]"
proof -
  obtain acc gone q where run: "queue_trace sample_ops queue_new = (acc, gone, q)" by (metis prod_cases3)
  then have "acc = [\<lparr>task_name = ''a'', exclusive = True\<rparr>, \<lparr>task_name = ''c'', exclusive = False\<rparr>]"
    by (simp add: sample_ops_def queue_step_def queue_defs)
  then show ?thesis using queue_runs_fifo [OF run] run by simp
qed

end
