(* ===== verification/Fingerprint.thy ===== *)
theory Fingerprint
  imports Prelude
begin

text \<open>
  The best-effort same-process check of \<open>crates/tdmcp-core/src/fingerprint.rs\<close>, which the
  registry uses to tell a resurrected TouchDesigner from a process that reuses its pid.
\<close>

record ProcessFingerprint =
  title :: "string option"
  image :: "string option"
  start_time :: "string option"

definition fingerprint_default :: ProcessFingerprint where
  "fingerprint_default = \<lparr>title = None, image = None, start_time = None\<rparr>"

definition field_ok :: "string option \<Rightarrow> string option \<Rightarrow> bool" where
  "field_ok a b = (case (a, b) of (Some x, Some y) \<Rightarrow> x = y | _ \<Rightarrow> True)"

definition positive_match :: "string option \<Rightarrow> string option \<Rightarrow> bool" where
  "positive_match a b = (case (a, b) of (Some x, Some y) \<Rightarrow> x = y | _ \<Rightarrow> False)"

definition fp_matches :: "ProcessFingerprint \<Rightarrow> ProcessFingerprint \<Rightarrow> bool" where
  "fp_matches self other =
     (if \<not> field_ok (title self) (title other) \<or> \<not> field_ok (image self) (image other)
         \<or> \<not> field_ok (start_time self) (start_time other) then False
      else if start_time self = None \<and> start_time other = None then
        positive_match (title self) (title other) \<or> positive_match (image self) (image other)
      else True)"

lemma field_ok_sym: "field_ok a b = field_ok b a"
  by (auto simp: field_ok_def split: option.splits)

lemma positive_match_sym: "positive_match a b = positive_match b a"
  by (auto simp: positive_match_def split: option.splits)

lemma fp_matches_sym: "fp_matches a b = fp_matches b a"
  by (auto simp: fp_matches_def field_ok_sym positive_match_sym)

lemma positive_match_ok: "positive_match a b \<Longrightarrow> field_ok a b"
  by (auto simp: positive_match_def field_ok_def split: option.splits)

lemma field_ok_refl [simp]: "field_ok a a"
  by (simp add: field_ok_def split: option.splits)

lemma positive_match_refl: "positive_match a a \<longleftrightarrow> a \<noteq> None"
  by (simp add: positive_match_def split: option.splits)

text \<open>A fingerprint matches itself exactly when it carries some field.\<close>

lemma fp_matches_refl: "fp_matches a a \<longleftrightarrow> start_time a \<noteq> None \<or> title a \<noteq> None \<or> image a \<noteq> None"
  by (auto simp: fp_matches_def positive_match_refl)

lemma fp_matches_default: "fp_matches fingerprint_default b \<longleftrightarrow> start_time b \<noteq> None"
  by (auto simp: fp_matches_def fingerprint_default_def field_ok_def positive_match_def)

lemma field_ok_iff: "field_ok a b \<longleftrightarrow> (\<forall>x y. a = Some x \<and> b = Some y \<longrightarrow> x = y)"
  by (auto simp: field_ok_def split: option.splits)

lemma positive_match_iff: "positive_match a b \<longleftrightarrow> (\<exists>x. a = Some x \<and> b = Some x)"
  by (auto simp: positive_match_def split: option.splits)

text \<open>The process check is symmetric and never accepts on silence: two fingerprints match
exactly when no field is present on both sides with different values and, unless one side
knows the start time, some title or image is present on both sides with the same value.\<close>

theorem fp_matches_iff:
  "(fp_matches a b \<longleftrightarrow>
     (\<forall>f \<in> {title, image, start_time}. \<forall>x y. f a = Some x \<and> f b = Some y \<longrightarrow> x = y)
     \<and> (start_time a = None \<and> start_time b = None \<longrightarrow>
          (\<exists>f \<in> {title, image}. \<exists>x. f a = Some x \<and> f b = Some x)))
   \<and> fp_matches a b = fp_matches b a
   \<and> \<not> fp_matches fingerprint_default fingerprint_default"
proof (intro conjI)
  show "fp_matches a b \<longleftrightarrow>
     (\<forall>f \<in> {title, image, start_time}. \<forall>x y. f a = Some x \<and> f b = Some y \<longrightarrow> x = y)
     \<and> (start_time a = None \<and> start_time b = None \<longrightarrow>
          (\<exists>f \<in> {title, image}. \<exists>x. f a = Some x \<and> f b = Some x))"
    unfolding fp_matches_def field_ok_iff positive_match_iff
    by (cases "start_time a"; cases "start_time b"; simp)
  show "fp_matches a b = fp_matches b a" by (rule fp_matches_sym)
  show "\<not> fp_matches fingerprint_default fingerprint_default"
    by (simp add: fp_matches_default) (simp add: fingerprint_default_def)
qed

theorem fp_matches_iff_witness:
  "\<not> fp_matches (fingerprint_default\<lparr>image := Some ''x''\<rparr>) (fingerprint_default\<lparr>image := Some ''y''\<rparr>)"
  using fp_matches_iff [of "fingerprint_default\<lparr>image := Some ''x''\<rparr>" "fingerprint_default\<lparr>image := Some ''y''\<rparr>"]
  by (simp add: fingerprint_default_def)

end
