(* ===== verification/Resurrection.thy ===== *)
theory Resurrection
  imports TaskQueue
begin

text \<open>
  The per-pid record of lost work, \<open>crates/tdmcp-core/src/resurrection.rs\<close>: tasks cancelled by
  a bridge loss are stacked until the first task that succeeds after a reconnect.
\<close>

datatype CancelReason = BridgeLost

record CancelledTask =
  c_name :: string
  c_exclusive :: bool
  c_reason :: CancelReason
  c_cancelled_at :: datetime

record ResurrectionState =
  last_disconnect_at :: "datetime option"
  cancelled_tasks :: "CancelledTask list"
  resurrected :: bool

definition resurrection_default :: ResurrectionState where
  "resurrection_default = \<lparr>last_disconnect_at = None, cancelled_tasks = [], resurrected = False\<rparr>"

definition cancelled_by_loss :: "datetime \<Rightarrow> TaskInfo \<Rightarrow> CancelledTask" where
  "cancelled_by_loss now t =
     \<lparr>c_name = task_name t, c_exclusive = exclusive t, c_reason = BridgeLost, c_cancelled_at = now\<rparr>"

definition res_on_bridge_lost :: "TaskInfo list \<Rightarrow> datetime \<Rightarrow> ResurrectionState \<Rightarrow> ResurrectionState" where
  "res_on_bridge_lost cancelled now s =
     fold (\<lambda>t s. s\<lparr>cancelled_tasks := cancelled_tasks s @ [cancelled_by_loss now t]\<rparr>) cancelled
       (s\<lparr>last_disconnect_at := Some now, resurrected := False\<rparr>)"

definition on_resurrect :: "ResurrectionState \<Rightarrow> ResurrectionState" where
  "on_resurrect s = s\<lparr>resurrected := True\<rparr>"

definition on_task_outcome :: "bool \<Rightarrow> ResurrectionState \<Rightarrow> ResurrectionState" where
  "on_task_outcome success s =
     (if success \<and> (resurrected s \<or> cancelled_tasks s \<noteq> []) then
        s\<lparr>cancelled_tasks := [], resurrected := False, last_disconnect_at := None\<rparr>
      else s)"

definition res_clear :: "ResurrectionState \<Rightarrow> ResurrectionState" where
  "res_clear s = resurrection_default"

lemma res_on_bridge_lost_eq:
  "res_on_bridge_lost ts now s =
     s\<lparr>last_disconnect_at := Some now, resurrected := False,
       cancelled_tasks := cancelled_tasks s @ map (cancelled_by_loss now) ts\<rparr>"
proof -
  have "fold (\<lambda>t s. s\<lparr>cancelled_tasks := cancelled_tasks s @ [cancelled_by_loss now t]\<rparr>) ts s
      = s\<lparr>cancelled_tasks := cancelled_tasks s @ map (cancelled_by_loss now) ts\<rparr>" for s :: ResurrectionState
    by (induction ts arbitrary: s) simp_all
  then show ?thesis by (simp add: res_on_bridge_lost_def)
qed

lemma on_task_outcome_failure [simp]: "on_task_outcome False s = s"
  by (simp add: on_task_outcome_def)

lemma on_task_outcome_success_tasks [simp]: "cancelled_tasks (on_task_outcome True s) = []"
  by (simp add: on_task_outcome_def)

lemma on_task_outcome_success_resurrected [simp]: "\<not> resurrected (on_task_outcome True s)"
  by (simp add: on_task_outcome_def)

datatype LossEvent = Lost "TaskInfo list" datetime | Reconnected | Outcome bool

fun apply_loss :: "LossEvent \<Rightarrow> ResurrectionState \<Rightarrow> ResurrectionState" where
  "apply_loss (Lost ts now) s = res_on_bridge_lost ts now s"
| "apply_loss Reconnected s = on_resurrect s"
| "apply_loss (Outcome b) s = on_task_outcome b s"

lemma loss_events_no_success:
  "Outcome True \<notin> set evs \<Longrightarrow>
     cancelled_tasks (fold apply_loss evs s) = cancelled_tasks s
       @ concat (map (\<lambda>ev. case ev of Lost ts now \<Rightarrow> map (cancelled_by_loss now) ts | _ \<Rightarrow> []) evs)"
proof (induction evs arbitrary: s)
  case (Cons ev evs)
  then show ?case
    by (cases ev) (auto simp: res_on_bridge_lost_eq on_resurrect_def)
qed simp

text \<open>The trace of cancelled work survives everything but a success: after any sequence of
losses, reconnects and task outcomes the stack holds, in order, exactly the tasks lost since
the last successful task, and a success leaves no mark of the loss behind.\<close>

theorem cancelled_stack_since_success:
  assumes "Outcome True \<notin> set evs"
  shows "cancelled_tasks (fold apply_loss (evs0 @ Outcome True # evs) s) =
      concat (map (\<lambda>ev. case ev of Lost ts now \<Rightarrow> map (cancelled_by_loss now) ts | _ \<Rightarrow> []) evs)
    \<and> \<not> resurrected (fold apply_loss (evs0 @ [Outcome True]) s)
    \<and> (last_disconnect_at (fold apply_loss (evs0 @ [Outcome True]) s) = None
        \<or> fold apply_loss (evs0 @ [Outcome True]) s = fold apply_loss evs0 s)"
  using loss_events_no_success [OF assms, of "on_task_outcome True (fold apply_loss evs0 s)"]
  by (auto simp: on_task_outcome_def)

theorem cancelled_stack_since_success_witness:
  "cancelled_tasks (fold apply_loss [Lost [\<lparr>task_name = ''a'', exclusive = False\<rparr>] 1, Outcome True,
      Lost [\<lparr>task_name = ''b'', exclusive = True\<rparr>] 2, Reconnected, Outcome False] resurrection_default)
   = [\<lparr>c_name = ''b'', c_exclusive = True, c_reason = BridgeLost, c_cancelled_at = 2\<rparr>]"
  using cancelled_stack_since_success [of "[Lost [\<lparr>task_name = ''b'', exclusive = True\<rparr>] 2, Reconnected, Outcome False]"
      "[Lost [\<lparr>task_name = ''a'', exclusive = False\<rparr>] 1]" resurrection_default]
  by (simp add: cancelled_by_loss_def)

end
