(* ===== verification/BridgeMethod.thy ===== *)
theory BridgeMethod
  imports Prelude
begin

text \<open>
  The wire methods of the daemon-to-bridge pipe, \<open>crates/tdmcp-core/src/bridge_method.rs\<close>, and the
  errors of a call on it, \<open>crates/tdmcp-mcp/src/bridge_rpc.rs\<close>.
\<close>

datatype BridgeRpcError =
    NotConnected u32
  | BrUnknown u32
  | BrDisconnected u32
  | BrTimeout u32 u64
  | ReceiptUnavailable string
  | BridgeReturned string "string option"

datatype BridgeMethod =
    ExecutePython
  | Capture
  | ParamInterface
  | ProjectSnapshot
  | CompareNodes
  | ScriptSource
  | SampleData
  | Record
  | Inspect
  | MutateNodes
  | ApiHelp
  | EditorContext
  | PaletteProbe
  | Ping

fun wire_str :: "BridgeMethod \<Rightarrow> string" where
  "wire_str ExecutePython = ''execute_python''"
| "wire_str Capture = ''capture''"
| "wire_str SampleData = ''sample_data''"
| "wire_str ScriptSource = ''script_source''"
| "wire_str ParamInterface = ''param_interface''"
| "wire_str ProjectSnapshot = ''project_snapshot''"
| "wire_str CompareNodes = ''compare_nodes''"
| "wire_str Record = ''record''"
| "wire_str Inspect = ''inspect''"
| "wire_str MutateNodes = ''mutate_nodes''"
| "wire_str ApiHelp = ''api_help''"
| "wire_str EditorContext = ''editor_context''"
| "wire_str PaletteProbe = ''palette_probe''"
| "wire_str Ping = ''ping''"

fun queue_label :: "BridgeMethod \<Rightarrow> string" where
  "queue_label ExecutePython = ''PythonEval''"
| "queue_label Capture = ''Capture''"
| "queue_label SampleData = ''SampleData''"
| "queue_label ScriptSource = ''ScriptSource''"
| "queue_label ParamInterface = ''ParamInterface''"
| "queue_label ProjectSnapshot = ''ProjectSnapshot''"
| "queue_label CompareNodes = ''CompareNodes''"
| "queue_label Record = ''Record''"
| "queue_label Inspect = ''Inspect''"
| "queue_label MutateNodes = ''Mutate''"
| "queue_label ApiHelp = ''ApiHelp''"
| "queue_label EditorContext = ''EditorContext''"
| "queue_label PaletteProbe = ''PaletteProbe''"
| "queue_label Ping = ''Ping''"

definition all_methods :: "BridgeMethod list" where
  "all_methods =
    [ExecutePython, Capture, SampleData, ScriptSource, ParamInterface, ProjectSnapshot, CompareNodes,
     Record, Inspect, MutateNodes, ApiHelp, EditorContext, PaletteProbe, Ping]"

definition from_wire :: "string \<Rightarrow> BridgeMethod option" where
  "from_wire s =
    (if s = ''execute_python'' then Some ExecutePython
     else if s = ''capture'' then Some Capture
     else if s = ''sample_data'' then Some SampleData
     else if s = ''script_source'' then Some ScriptSource
     else if s = ''param_interface'' then Some ParamInterface
     else if s = ''project_snapshot'' then Some ProjectSnapshot
     else if s = ''compare_nodes'' then Some CompareNodes
     else if s = ''record'' then Some Record
     else if s = ''inspect'' then Some Inspect
     else if s = ''mutate_nodes'' then Some MutateNodes
     else if s = ''api_help'' then Some ApiHelp
     else if s = ''editor_context'' then Some EditorContext
     else if s = ''palette_probe'' then Some PaletteProbe
     else if s = ''ping'' then Some Ping
     else None)"

lemma all_methods_complete: "m \<in> set all_methods"
  by (cases m) (simp_all add: all_methods_def)

lemma all_methods_distinct: "distinct all_methods"
  by (simp add: all_methods_def)

lemma from_wire_wire_str: "from_wire (wire_str m) = Some m"
  by (cases m) (simp_all add: from_wire_def)

lemma from_wire_SomeD: "from_wire s = Some m \<Longrightarrow> s = wire_str m"
  by (auto simp: from_wire_def split: if_splits)

lemma queue_label_inj: "queue_label a = queue_label b \<Longrightarrow> a = b"
  by (cases a; cases b) simp_all

text \<open>The wire names are a code for the methods: parsing the name of a method gives the
method back, nothing else parses to it, the list of all methods is complete and without
repetition, and no two methods share a queue label.\<close>

theorem wire_roundtrip:
  "(from_wire s = Some m \<longleftrightarrow> s = wire_str m)
   \<and> (from_wire s = None \<longleftrightarrow> s \<notin> wire_str ` set all_methods)
   \<and> set all_methods = UNIV \<and> distinct all_methods \<and> inj queue_label \<and> inj wire_str"
proof -
  have iff: "from_wire s = Some m \<longleftrightarrow> s = wire_str m" for s m
    using from_wire_wire_str from_wire_SomeD by metis
  moreover have "from_wire s = None \<longleftrightarrow> s \<notin> wire_str ` set all_methods"
    using iff [of s] all_methods_complete by (metis image_iff not_Some_eq)
  ultimately show ?thesis
    using all_methods_complete all_methods_distinct queue_label_inj
    by (metis UNIV_eq_I inj_on_inverseI injI option.inject from_wire_wire_str)
qed

end
