(* ===== verification/Rust_Std.thy ===== *)
theory Rust_Std
  imports Prelude
begin

text \<open>
  The parts of the Rust standard library (and of \<open>serde_json::Value\<close>) that the code calls.
  A \<open>String\<close> is its UTF-8 byte sequence, a HOL \<open>string\<close>; \<open>length\<close> is therefore \<open>str::len\<close>.
  Character tests are written on the UTF-8 encodings of the characters they accept, which on
  valid UTF-8 is the test on the decoded scalar values.
\<close>

section \<open>Bytes and characters\<close>

definition byte :: "char \<Rightarrow> nat" where
  "byte c = of_char c"

text \<open>\<open>str::is_char_boundary\<close>: not in front of a continuation byte.\<close>

definition is_char_boundary :: "string \<Rightarrow> nat \<Rightarrow> bool" where
  "is_char_boundary s i \<longleftrightarrow>
     i = 0 \<or> i = length s \<or> (i < length s \<and> \<not> (128 \<le> byte (s ! i) \<and> byte (s ! i) < 192))"

text \<open>\<open>char::is_control\<close> of some character: U+0000 to U+001F, U+007F to U+009F.\<close>

fun has_control :: "string \<Rightarrow> bool" where
  "has_control [] = False"
| "has_control (c # cs) =
     (byte c < 32 \<or> byte c = 127
      \<or> (byte c = 194 \<and> (case cs of [] \<Rightarrow> False | d # _ \<Rightarrow> 128 \<le> byte d \<and> byte d < 160))
      \<or> has_control cs)"

text \<open>\<open>u8::to_ascii_lowercase\<close>.\<close>

definition to_ascii_lower :: "char \<Rightarrow> char" where
  "to_ascii_lower c = (if 65 \<le> byte c \<and> byte c \<le> 90 then char_of (byte c + 32) else c)"

text \<open>
  The length in bytes of the white-space character a byte sequence starts with (Unicode
  \<open>White_Space\<close>), \<open>0\<close> when it starts with another character; and the same for the character a
  reversed byte sequence starts with.
\<close>

fun ws_len :: "nat list \<Rightarrow> nat" where
  "ws_len (b # bs) =
     (if (9 \<le> b \<and> b \<le> 13) \<or> b = 32 then 1
      else (case bs of
          [] \<Rightarrow> 0
        | c # cs \<Rightarrow>
            if b = 194 \<and> (c = 133 \<or> c = 160) then 2
            else (case cs of
                [] \<Rightarrow> 0
              | d # _ \<Rightarrow>
                  if (b = 225 \<and> c = 154 \<and> d = 128)
                    \<or> (b = 226 \<and> c = 128 \<and> ((128 \<le> d \<and> d \<le> 138) \<or> d = 168 \<or> d = 169 \<or> d = 175))
                    \<or> (b = 226 \<and> c = 129 \<and> d = 159)
                    \<or> (b = 227 \<and> c = 128 \<and> d = 128) then 3 else 0)))"
| "ws_len [] = 0"

definition ws_len_rev :: "nat list \<Rightarrow> nat" where
  "ws_len_rev bs =
     (if ws_len (take 1 bs) = 1 then 1
      else if ws_len (rev (take 2 bs)) = 2 then 2
      else if ws_len (rev (take 3 bs)) = 3 then 3 else 0)"

lemma ws_len_le: "ws_len bs \<le> length bs"
  by (cases bs) (auto split: list.splits)

lemma ws_len_rev_le: "ws_len_rev bs \<le> length bs"
  using ws_len_le [of "take 1 bs"] ws_len_le [of "rev (take 2 bs)"] ws_len_le [of "rev (take 3 bs)"]
  by (auto simp: ws_len_rev_def)

lemma ws_len_pos: "0 < ws_len bs \<Longrightarrow> 0 < length bs"
  by (cases bs) simp_all

lemma ws_len_rev_pos: "0 < ws_len_rev bs \<Longrightarrow> 0 < length bs"
  by (cases bs) (simp_all add: ws_len_rev_def)

function trim_start :: "string \<Rightarrow> string" where
  "trim_start s = (let n = ws_len (map byte s) in if n = 0 then s else trim_start (drop n s))"
  by pat_completeness auto
termination
proof (relation "measure length")
  fix s :: string and n assume "n = ws_len (map byte s)" "n \<noteq> 0"
  with ws_len_pos [of "map byte s"] show "(drop n s, s) \<in> measure length" by auto
qed simp

function trim_end :: "string \<Rightarrow> string" where
  "trim_end s = (let n = ws_len_rev (map byte (rev s)) in
     if n = 0 then s else trim_end (take (length s - n) s))"
  by pat_completeness auto
termination
proof (relation "measure length")
  fix s :: string and n assume "n = ws_len_rev (map byte (rev s))" "n \<noteq> 0"
  with ws_len_rev_pos [of "map byte (rev s)"] show "(take (length s - n) s, s) \<in> measure length"
    by auto
qed simp

declare trim_start.simps [simp del] trim_end.simps [simp del]

text \<open>\<open>str::trim\<close>.\<close>

definition trim :: "string \<Rightarrow> string" where
  "trim s = trim_end (trim_start s)"

lemma trim_start_length: "length (trim_start s) \<le> length s"
proof (induction s rule: trim_start.induct)
  case (1 s)
  then show ?case
    by (subst trim_start.simps) (auto simp: Let_def intro: order_trans)
qed

lemma trim_end_length: "length (trim_end s) \<le> length s"
proof (induction s rule: trim_end.induct)
  case (1 s)
  then show ?case
    by (subst trim_end.simps) (auto simp: Let_def intro: order_trans)
qed

lemma length_trim_le: "length (trim s) \<le> length s"
  unfolding trim_def by (rule order_trans [OF trim_end_length trim_start_length])

section \<open>Decimal numbers\<close>

definition digit_value :: "char \<Rightarrow> nat option" where
  "digit_value c = (if 48 \<le> byte c \<and> byte c \<le> 57 then Some (byte c - 48) else None)"

text \<open>
  \<open>str::parse\<close> at an unsigned type with largest value \<open>mx\<close>: an optional \<open>+\<close>, at least one
  digit, only digits, no overflow.
\<close>

fun parse_digits :: "nat \<Rightarrow> nat \<Rightarrow> string \<Rightarrow> nat option" where
  "parse_digits mx acc [] = Some acc"
| "parse_digits mx acc (c # cs) =
     (case digit_value c of
        None \<Rightarrow> None
      | Some d \<Rightarrow> if acc * 10 + d \<le> mx then parse_digits mx (acc * 10 + d) cs else None)"

definition parse_uint :: "nat \<Rightarrow> string \<Rightarrow> nat option" where
  "parse_uint mx s =
     (let ds = (case s of c # cs \<Rightarrow> if c = CHR ''+'' then cs else s | [] \<Rightarrow> [])
      in if ds = [] then None else parse_digits mx 0 ds)"

text \<open>\<open>Display\<close> of an unsigned integer.\<close>

definition digit_char :: "nat \<Rightarrow> char" where
  "digit_char d = char_of (48 + d)"

fun show_nat :: "nat \<Rightarrow> string" where
  "show_nat n = (if n < 10 then [digit_char n] else show_nat (n div 10) @ [digit_char (n mod 10)])"

declare show_nat.simps [simp del]

lemma digit_value_digit_char: "d < 10 \<Longrightarrow> digit_value (digit_char d) = Some d"
  by (simp add: digit_value_def digit_char_def byte_def of_char_of)

lemma digit_char_not_plus: "d < 10 \<Longrightarrow> digit_char d \<noteq> CHR ''+''"
  using digit_value_digit_char [of d] by (auto simp: digit_value_def byte_def)

lemma show_nat_nonempty: "show_nat n \<noteq> []"
  by (subst show_nat.simps) simp

lemma hd_show_nat: "hd (show_nat n) \<noteq> CHR ''+''"
proof (induction n rule: show_nat.induct)
  case (1 n)
  then show ?case
    by (cases "n < 10") (simp_all add: show_nat.simps [of n] digit_char_not_plus show_nat_nonempty)
qed

lemma parse_digits_append:
  "parse_digits mx acc (xs @ ys) = Option.bind (parse_digits mx acc xs) (\<lambda>a. parse_digits mx a ys)"
  by (induction mx acc xs rule: parse_digits.induct) (auto split: option.splits)

lemma parse_digits_show: "n \<le> mx \<Longrightarrow> parse_digits mx 0 (show_nat n) = Some n"
proof (induction n rule: show_nat.induct)
  case (1 n)
  show ?case
  proof (cases "n < 10")
    case True
    with 1 show ?thesis by (simp add: show_nat.simps [of n] digit_value_digit_char)
  next
    case False
    have le: "n div 10 \<le> mx" using "1.prems" by (meson div_le_dividend le_trans)
    have "n div 10 * 10 + n mod 10 = n" by simp
    with False "1.IH" [OF False le] "1.prems" show ?thesis
      by (simp add: show_nat.simps [of n] parse_digits_append digit_value_digit_char)
  qed
qed

lemma parse_uint_show: "n \<le> mx \<Longrightarrow> parse_uint mx (show_nat n) = Some n"
  using hd_show_nat [of n] show_nat_nonempty [of n] parse_digits_show [of n mx]
  by (cases "show_nat n") (auto simp: parse_uint_def simp del: parse_digits.simps)

lemma parse_digits_bound: "parse_digits mx acc s = Some n \<Longrightarrow> acc \<le> mx \<Longrightarrow> n \<le> mx"
  by (induction mx acc s rule: parse_digits.induct) (auto split: option.splits if_splits)

lemma parse_uint_bound: "parse_uint mx s = Some n \<Longrightarrow> n \<le> mx"
  by (auto simp: parse_uint_def Let_def dest: parse_digits_bound split: if_splits)

section \<open>JSON values\<close>

text \<open>
  \<open>serde_json::Value\<close>.  A finite \<open>f64\<close> is the dyadic rational \<open>m * 2 ^ e\<close>; object members are an
  association list, as keys are unique.
\<close>

datatype f64 = Finite int int | Infinite bool | NaN

datatype number = PosInt u64 | NegInt int | Float f64

datatype json =
    JNull
  | JBool bool
  | JNumber number
  | JString string
  | JArray "json list"
  | JObject "(string \<times> json) list"

definition json_get :: "string \<Rightarrow> json \<Rightarrow> json option" where
  "json_get k v = (case v of JObject m \<Rightarrow> map_of m k | _ \<Rightarrow> None)"

definition as_bool :: "json \<Rightarrow> bool option" where
  "as_bool v = (case v of JBool b \<Rightarrow> Some b | _ \<Rightarrow> None)"

definition as_u64 :: "json \<Rightarrow> u64 option" where
  "as_u64 v = (case v of JNumber (PosInt n) \<Rightarrow> Some n | _ \<Rightarrow> None)"

definition as_str :: "json \<Rightarrow> string option" where
  "as_str v = (case v of JString s \<Rightarrow> Some s | _ \<Rightarrow> None)"

definition as_array :: "json \<Rightarrow> json list option" where
  "as_array v = (case v of JArray xs \<Rightarrow> Some xs | _ \<Rightarrow> None)"

definition as_object :: "json \<Rightarrow> (string \<times> json) list option" where
  "as_object v = (case v of JObject m \<Rightarrow> Some m | _ \<Rightarrow> None)"

lemmas json_defs = json_get_def as_bool_def as_u64_def as_str_def as_array_def as_object_def

end
