(* ===== verification/BridgeIdentity.thy ===== *)
theory BridgeIdentity
  imports Rust_Std
begin

text \<open>
  Bridge provenance, capability readiness and liveness observations of
  \<open>crates/tdmcp-core/src/bridge_identity.rs\<close>.  A record field is prefixed where several of the
  source's structs share the field name.
\<close>

section \<open>Data\<close>

datatype BridgeCapabilityState = CapUnknown | CapReady

record BridgeProtocolIdentity =
  proto_name :: string
  proto_version :: string

record BridgeRuntimeIdentity =
  implementation :: string
  python_version :: string
  platform :: string

record LoadedCodeIdentity =
  lc_kind :: string
  lc_algorithm :: string
  lc_digest :: string
  lc_coverage :: "string list"
  lc_missing :: "string list"
  lc_limitations :: "string list"

record BridgeSourceSnapshot =
  ss_kind :: string
  ss_provenance :: string
  ss_algorithm :: string
  ss_digest :: string
  ss_files :: "string list"
  ss_unavailable :: "string list"
  ss_limitations :: "string list"

record BridgeBundleSnapshot =
  bs_kind :: string
  bs_provenance :: string
  bs_algorithm :: string
  bs_digest :: string
  bs_files :: "string list"
  bs_unavailable :: "string list"
  bs_limitations :: "string list"

record BridgeReadyEvent =
  load_generation :: string
  protocol :: BridgeProtocolIdentity
  runtime :: BridgeRuntimeIdentity
  supported_features :: "string list"
  loaded_code :: LoadedCodeIdentity
  source_snapshot :: BridgeSourceSnapshot
  bundle_snapshot :: BridgeBundleSnapshot
  main_thread_pump_age_ms :: "u64 option"

record BridgeHeartbeatObservation =
  hb_load_generation :: string
  hb_main_thread_pump_age_ms :: "u64 option"

record BridgeObservedAge =
  observed_at :: datetime
  age_ms :: u64
  provenance :: string

record BridgeIdentitySnapshot =
  snap_connection_generation :: u64
  snap_capability_state :: BridgeCapabilityState
  snap_load_generation :: "string option"
  snap_protocol :: "BridgeProtocolIdentity option"
  snap_runtime :: "BridgeRuntimeIdentity option"
  snap_supported_features :: "string list"
  snap_loaded_code :: "LoadedCodeIdentity option"
  snap_source_snapshot :: "BridgeSourceSnapshot option"
  snap_bundle_snapshot :: "BridgeBundleSnapshot option"
  snap_ipc_liveness :: "BridgeObservedAge option"
  snap_main_thread_pump :: "BridgeObservedAge option"

record BridgeIdentityState =
  connection_generation :: u64
  ready :: "BridgeReadyEvent option"
  ipc_observed_at :: "datetime option"
  main_thread_pump :: "(datetime \<times> u64) option"

definition identity_default :: BridgeIdentityState where
  "identity_default =
     \<lparr>connection_generation = 0, ready = None, ipc_observed_at = None, main_thread_pump = None\<rparr>"

datatype BridgeCapabilityError =
    UnknownPid u32
  | BcNotConnected u32
  | StaleGeneration u32 u64 u64
  | InvalidReady string
  | LoadGenerationMismatch u32
  | UnknownCapabilities u32
  | UnsupportedFeatures u32 "string list"

section \<open>Operations\<close>

definition begin_connection :: "u64 \<Rightarrow> datetime \<Rightarrow> BridgeIdentityState \<Rightarrow> BridgeIdentityState" where
  "begin_connection generation at s =
     s\<lparr>connection_generation := generation, ready := None, ipc_observed_at := Some at,
       main_thread_pump := None\<rparr>"

definition elapsed_ms :: "datetime \<Rightarrow> datetime \<Rightarrow> u64" where
  "elapsed_ms before now =
     (let ms = max (num_milliseconds (now - before)) 0
      in if ms < 2 ^ 64 then word_of_int ms else - 1)"

definition identity_snapshot :: "datetime \<Rightarrow> BridgeIdentityState \<Rightarrow> BridgeIdentitySnapshot" where
  "identity_snapshot now s =
     \<lparr>snap_connection_generation = connection_generation s,
      snap_capability_state = (if ready s \<noteq> None then CapReady else CapUnknown),
      snap_load_generation = map_option load_generation (ready s),
      snap_protocol = map_option protocol (ready s),
      snap_runtime = map_option runtime (ready s),
      snap_supported_features = (case ready s of Some r \<Rightarrow> supported_features r | None \<Rightarrow> []),
      snap_loaded_code = map_option loaded_code (ready s),
      snap_source_snapshot = map_option source_snapshot (ready s),
      snap_bundle_snapshot = map_option bundle_snapshot (ready s),
      snap_ipc_liveness = map_option (\<lambda>at.
        \<lparr>observed_at = at, age_ms = elapsed_ms at now, provenance = ''daemonFramedTraffic''\<rparr>)
        (ipc_observed_at s),
      snap_main_thread_pump = map_option (\<lambda>(at, age).
        \<lparr>observed_at = at, age_ms = saturating_add age (elapsed_ms at now),
         provenance = ''bridgeCachedMainThreadPumpMonotonic''\<rparr>)
        (main_thread_pump s)\<rparr>"

text \<open>\<open>slice::windows(2)\<close>.\<close>

fun windows2 :: "'a list \<Rightarrow> ('a \<times> 'a) list" where
  "windows2 (x # y # zs) = (x, y) # windows2 (y # zs)"
| "windows2 _ = []"

definition is_blank :: "string \<Rightarrow> bool" where
  "is_blank s \<longleftrightarrow> trim s = []"

definition validate_ready :: "BridgeReadyEvent \<Rightarrow> (unit, BridgeCapabilityError) result" where
  "validate_ready r =
     (if is_blank (load_generation r) then Err (InvalidReady ''loadGeneration is empty'')
      else if is_blank (proto_name (protocol r)) \<or> is_blank (proto_version (protocol r)) then
        Err (InvalidReady ''protocol identity is incomplete'')
      else if is_blank (lc_algorithm (loaded_code r)) \<or> is_blank (lc_digest (loaded_code r)) then
        Err (InvalidReady ''loadedCode identity is incomplete'')
      else if is_blank (ss_provenance (source_snapshot r)) \<or> is_blank (ss_algorithm (source_snapshot r))
          \<or> is_blank (ss_digest (source_snapshot r)) then
        Err (InvalidReady ''sourceSnapshot identity/provenance is incomplete'')
      else if is_blank (bs_provenance (bundle_snapshot r)) \<or> is_blank (bs_algorithm (bundle_snapshot r))
          \<or> is_blank (bs_digest (bundle_snapshot r)) then
        Err (InvalidReady ''bundleSnapshot identity/provenance is incomplete'')
      else if list_ex is_blank (supported_features r) then
        Err (InvalidReady ''supportedFeatures contains an empty name'')
      else if list_ex (\<lambda>(a, b). a = b) (windows2 (sort (supported_features r))) then
        Err (InvalidReady ''supportedFeatures contains duplicates'')
      else Ok ())"

section \<open>Properties\<close>

text \<open>Sorting and comparing neighbours finds every duplicate.\<close>

lemma windows2_dup_iff:
  "sorted xs \<Longrightarrow> list_ex (\<lambda>(a, b). a = b) (windows2 xs) \<longleftrightarrow> \<not> distinct xs"
proof (induction xs rule: windows2.induct)
  case (1 x y zs)
  then show ?case by (cases "x = y") (auto simp: order.antisym)
qed simp_all

lemma sort_dup_iff:
  "list_ex (\<lambda>(a, b). a = b) (windows2 (sort xs)) \<longleftrightarrow> \<not> distinct (xs :: string list)"
  by (simp add: windows2_dup_iff)

lemma elapsed_ms_zero: "now \<le> before \<Longrightarrow> elapsed_ms before now = 0"
  by (auto simp: elapsed_ms_def num_milliseconds_def trunc_div_def Let_def max_def
      pos_imp_zdiv_nonneg_iff split: if_splits)

lemma num_milliseconds_mono: "a \<le> b \<Longrightarrow> num_milliseconds a \<le> num_milliseconds b"
proof -
  assume ab: "a \<le> b"
  consider "0 \<le> a" | "a < 0" "0 \<le> b" | "b < 0" by linarith
  then show ?thesis
  proof cases
    case 1
    with ab show ?thesis by (simp add: num_milliseconds_def trunc_div_def zdiv_mono1)
  next
    case 2
    then have "0 \<le> (- a) div 1000000" "0 \<le> b div 1000000" by (simp_all add: pos_imp_zdiv_nonneg_iff)
    with 2 show ?thesis by (simp add: num_milliseconds_def trunc_div_def)
  next
    case 3
    with ab have "(- b) div 1000000 \<le> (- a) div 1000000" by (intro zdiv_mono1) auto
    with 3 ab show ?thesis by (simp add: num_milliseconds_def trunc_div_def)
  qed
qed

lemma unat_elapsed_ms:
  "unat (elapsed_ms before now) = nat (min (max (num_milliseconds (now - before)) 0) (2 ^ 64 - 1))"
  by (auto simp: elapsed_ms_def Let_def unat_max_u64 unsigned_of_int take_bit_int_eq_self nat_le_iff
      min_def split: if_splits)

lemma elapsed_ms_mono: "now \<le> now' \<Longrightarrow> elapsed_ms before now \<le> elapsed_ms before now'"
  using num_milliseconds_mono [of "now - before" "now' - before"]
  by (auto simp: word_le_nat_alt unat_elapsed_ms intro!: nat_mono)

lemma is_blank_Nil [simp]: "is_blank []"
  by (simp add: is_blank_def trim_def trim_start.simps trim_end.simps ws_len_rev_def)

lemma list_ex_blank: "list_ex is_blank xs \<longleftrightarrow> (\<exists>x \<in> set xs. trim x = [])"
  by (simp add: list_ex_iff is_blank_def)

text \<open>Readiness metadata is accepted exactly when every identity field the daemon relies on is
more than white space and the advertised features are non-blank and pairwise different; every
rejection is an \<open>InvalidReady\<close>.\<close>

theorem validate_ready_iff:
  "(validate_ready r = Ok () \<longleftrightarrow>
     (\<forall>s \<in> {load_generation r, proto_name (protocol r), proto_version (protocol r),
        lc_algorithm (loaded_code r), lc_digest (loaded_code r),
        ss_provenance (source_snapshot r), ss_algorithm (source_snapshot r), ss_digest (source_snapshot r),
        bs_provenance (bundle_snapshot r), bs_algorithm (bundle_snapshot r), bs_digest (bundle_snapshot r)}
        \<union> set (supported_features r). trim s \<noteq> [])
     \<and> distinct (supported_features r))
   \<and> (\<forall>e. validate_ready r = Err e \<longrightarrow> (\<exists>reason. e = InvalidReady reason \<and> reason \<noteq> []))"
  by (auto simp: validate_ready_def list_ex_blank sort_dup_iff is_blank_def)

definition sample_ready :: BridgeReadyEvent where
  "sample_ready = \<lparr>load_generation = ''g'', protocol = \<lparr>proto_name = ''p'', proto_version = ''2''\<rparr>,
     runtime = \<lparr>implementation = [], python_version = [], platform = []\<rparr>,
     supported_features = [''b'', ''a'', ''b''],
     loaded_code = \<lparr>lc_kind = [], lc_algorithm = ''x'', lc_digest = ''x'', lc_coverage = [],
        lc_missing = [], lc_limitations = []\<rparr>,
     source_snapshot = \<lparr>ss_kind = [], ss_provenance = ''x'', ss_algorithm = ''x'', ss_digest = ''x'',
        ss_files = [], ss_unavailable = [], ss_limitations = []\<rparr>,
     bundle_snapshot = \<lparr>bs_kind = [], bs_provenance = ''x'', bs_algorithm = ''x'', bs_digest = ''x'',
        bs_files = [], bs_unavailable = [], bs_limitations = []\<rparr>,
     main_thread_pump_age_ms = None\<rparr>"

theorem validate_ready_iff_witness:
  "\<exists>reason. validate_ready sample_ready = Err (InvalidReady reason)"
proof -
  have "\<not> distinct (supported_features sample_ready)" by (simp add: sample_ready_def)
  then show ?thesis using validate_ready_iff [of sample_ready] by (cases "validate_ready sample_ready") auto
qed

text \<open>The published ages are never negative, never wrap and never shrink as time passes: a clock
that ran backwards gives age zero, and the pump age adds the bridge's own age to the time since
the report, saturating at the largest \<open>u64\<close>.\<close>

theorem identity_ages_monotone:
  assumes "t \<le> t'" "snap_main_thread_pump (identity_snapshot t s) = Some a"
  shows "(\<exists>a'. snap_main_thread_pump (identity_snapshot t' s) = Some a' \<and> age_ms a \<le> age_ms a'
      \<and> observed_at a' = observed_at a)
    \<and> (\<exists>at reported. main_thread_pump s = Some (at, reported) \<and> observed_at a = at
        \<and> reported \<le> age_ms a
        \<and> (t \<le> at \<longrightarrow> age_ms a = reported)
        \<and> (at \<le> t \<longrightarrow> unat (age_ms a) = min (unat reported + nat ((t - at) div 1000000)) (2 ^ 64 - 1)))"
proof -
  obtain at reported where p: "main_thread_pump s = Some (at, reported)"
    using assms(2) by (auto simp: identity_snapshot_def)
  then have a: "a = \<lparr>observed_at = at, age_ms = saturating_add reported (elapsed_ms at t),
      provenance = ''bridgeCachedMainThreadPumpMonotonic''\<rparr>"
    using assms(2) by (simp add: identity_snapshot_def)
  have exact: "unat (saturating_add reported (elapsed_ms at t))
      = min (unat reported + nat ((t - at) div 1000000)) (2 ^ 64 - 1)" if "at \<le> t"
  proof -
    have "0 \<le> (t - at) div 1000000" using that by (simp add: pos_imp_zdiv_nonneg_iff)
    with that show ?thesis
      by (auto simp: unat_saturating_add unat_elapsed_ms num_milliseconds_def trunc_div_def min_def)
  qed
  have "unat (elapsed_ms at t) \<le> unat (elapsed_ms at t')"
    using elapsed_ms_mono [OF assms(1)] by (simp add: word_le_nat_alt)
  then have "saturating_add reported (elapsed_ms at t) \<le> saturating_add reported (elapsed_ms at t')"
    by (simp add: word_le_nat_alt unat_saturating_add min_def)
  moreover have "saturating_add reported 0 = reported"
    using unat_u64_less [of reported] by (simp add: saturating_add_def)
  ultimately show ?thesis
    using p a exact saturating_add_mono elapsed_ms_zero [of t at]
    by (auto simp: identity_snapshot_def)
qed

theorem identity_ages_monotone_witness:
  "\<exists>a. snap_main_thread_pump (identity_snapshot 3000000
        (identity_default\<lparr>main_thread_pump := Some (1000000, 5)\<rparr>)) = Some a \<and> unat (age_ms a) = 7"
proof -
  let ?s = "identity_default\<lparr>main_thread_pump := Some (1000000, 5)\<rparr>"
  obtain a where a: "snap_main_thread_pump (identity_snapshot 3000000 ?s) = Some a"
    by (simp add: identity_snapshot_def)
  from identity_ages_monotone [OF order_refl a] a show ?thesis by auto
qed

end
