(* ===== verification/Registry.thy ===== *)
theory Registry
  imports Fingerprint Resurrection BridgeIdentity
begin

text \<open>
  The pid registry of \<open>crates/tdmcp-core/src/registry.rs\<close>: one row per TouchDesigner process,
  with its bridge status, queue, loss record and identity observations, and the counter of
  connection generations.  The row map is an association list; \<open>get_mut\<close> followed by field
  assignments is a lookup followed by \<open>put_entry\<close>.  \<open>Utc::now()\<close> is the argument \<open>now\<close>.
\<close>

section \<open>Data\<close>

datatype BridgeStatus = Starting | Connected | Disconnected

record SpawnRecord =
  started_at :: datetime
  exe_path :: string
  expected_project :: "string option"

record ProcessAttrs =
  attr_title :: "string option"
  toe_path :: "string option"
  window_status :: "string option"
  fingerprint :: ProcessFingerprint

definition attrs_default :: ProcessAttrs where
  "attrs_default =
     \<lparr>attr_title = None, toe_path = None, window_status = None, fingerprint = fingerprint_default\<rparr>"

record PidEntry =
  e_pid :: u32
  e_bridge :: BridgeStatus
  e_process :: ProcessAttrs
  e_queue :: TaskQueue
  e_resurrection :: ResurrectionState
  e_protocol_version :: "string option"
  e_identity :: BridgeIdentityState
  e_spawn :: "SpawnRecord option"

record PidRegistry =
  entries :: "(u32 \<times> PidEntry) list"
  next_connection_generation :: u64

datatype EnqueueError = EnqUnknownPid u32 | EnqBridgeDisconnected u32 | EnqQueue QueueError

section \<open>Operations\<close>

definition registry_new :: PidRegistry where
  "registry_new = \<lparr>entries = [], next_connection_generation = 0\<rparr>"

definition pids :: "PidRegistry \<Rightarrow> u32 list" where
  "pids r = sort (map fst (entries r))"

definition reg_get :: "PidRegistry \<Rightarrow> u32 \<Rightarrow> PidEntry option" where
  "reg_get r p = map_of (entries r) p"

definition put_entry :: "u32 \<Rightarrow> PidEntry \<Rightarrow> PidRegistry \<Rightarrow> PidRegistry" where
  "put_entry p e r = r\<lparr>entries := AList.update p e (entries r)\<rparr>"

definition remove_entry :: "u32 \<Rightarrow> PidRegistry \<Rightarrow> PidRegistry" where
  "remove_entry p r = r\<lparr>entries := AList.delete p (entries r)\<rparr>"

text \<open>The \<open>Some(entry)\<close> arm of the match in \<open>handshake\<close>.\<close>

definition handshake_existing :: "ProcessAttrs \<Rightarrow> string option \<Rightarrow> PidEntry \<Rightarrow> PidEntry" where
  "handshake_existing process version entry =
     (if e_bridge entry = Starting then
        entry\<lparr>e_process := process, e_protocol_version := version, e_bridge := Connected\<rparr>
      else
        let same = fp_matches (fingerprint (e_process entry)) (fingerprint process) in
        if \<not> same then
          entry\<lparr>e_queue := queue_new, e_resurrection := res_clear (e_resurrection entry),
            e_spawn := None, e_process := process, e_protocol_version := version,
            e_bridge := Connected\<rparr>
        else
          let was_disconnected = (e_bridge entry = Disconnected);
              entry' = entry\<lparr>e_process := process, e_protocol_version := version,
                e_bridge := Connected\<rparr>
          in if was_disconnected
             then entry'\<lparr>e_resurrection := on_resurrect (e_resurrection entry')\<rparr> else entry')"

definition handshake_new :: "u32 \<Rightarrow> ProcessAttrs \<Rightarrow> string option \<Rightarrow> PidEntry" where
  "handshake_new p process version =
     \<lparr>e_pid = p, e_bridge = Connected, e_process = process, e_queue = queue_new,
      e_resurrection = resurrection_default, e_protocol_version = version,
      e_identity = identity_default, e_spawn = None\<rparr>"

definition evict_all_disconnected :: "u32 option \<Rightarrow> PidRegistry \<Rightarrow> PidRegistry" where
  "evict_all_disconnected except r = r\<lparr>entries := filter (\<lambda>(p, e).
     if Some p = except then True else e_bridge e \<noteq> Disconnected) (entries r)\<rparr>"

definition handshake :: "u32 \<Rightarrow> ProcessAttrs \<Rightarrow> string option \<Rightarrow> datetime \<Rightarrow> PidRegistry
    \<Rightarrow> u64 \<times> PidRegistry" where
  "handshake p process version now r =
     (let g = max (saturating_add (next_connection_generation r) 1) 1;
          r1 = r\<lparr>next_connection_generation := g\<rparr>;
          r2 = (case reg_get r1 p of
                  Some entry \<Rightarrow> put_entry p (handshake_existing process version entry) r1
                | None \<Rightarrow> put_entry p (handshake_new p process version) r1);
          r3 = (case reg_get r2 p of
                  Some entry \<Rightarrow>
                    put_entry p (entry\<lparr>e_identity := begin_connection g now (e_identity entry)\<rparr>) r2
                | None \<Rightarrow> r2)
      in (g, evict_all_disconnected (Some p) r3))"

definition connected_generation_mut ::
    "u32 \<Rightarrow> u64 \<Rightarrow> PidRegistry \<Rightarrow> (PidEntry, BridgeCapabilityError) result" where
  "connected_generation_mut p g r =
     (case reg_get r p of
        None \<Rightarrow> Err (UnknownPid p)
      | Some entry \<Rightarrow>
          if e_bridge entry \<noteq> Connected then Err (BcNotConnected p)
          else if connection_generation (e_identity entry) \<noteq> g then
            Err (StaleGeneration p (connection_generation (e_identity entry)) g)
          else Ok entry)"

text \<open>
  The message of a protocol mismatch shows the handshake version in \<open>Debug\<close> form, whose string
  escaping follows the Unicode tables: the rendering is the argument \<open>debug\<close>.
\<close>

definition observe_bridge_ready :: "(string option \<Rightarrow> string) \<Rightarrow> u32 \<Rightarrow> u64 \<Rightarrow> BridgeReadyEvent
    \<Rightarrow> datetime \<Rightarrow> PidRegistry \<Rightarrow> (unit, BridgeCapabilityError) result \<times> PidRegistry" where
  "observe_bridge_ready debug p g rdy at r =
     (case validate_ready rdy of
        Err e \<Rightarrow> (Err e, r)
      | Ok _ \<Rightarrow>
          (case connected_generation_mut p g r of
             Err e \<Rightarrow> (Err e, r)
           | Ok entry \<Rightarrow>
               if e_protocol_version entry \<noteq> Some (proto_version (protocol rdy)) then
                 (Err (InvalidReady (''ready protocol '' @ proto_version (protocol rdy)
                    @ '' does not match handshake '' @ debug (e_protocol_version entry))), r)
               else
                 (Ok (), put_entry p (entry\<lparr>e_identity := (e_identity entry)\<lparr>
                    ipc_observed_at := Some at,
                    main_thread_pump := map_option (Pair at) (main_thread_pump_age_ms rdy),
                    ready := Some rdy\<rparr>\<rparr>) r)))"

definition observe_bridge_ipc :: "u32 \<Rightarrow> u64 \<Rightarrow> datetime \<Rightarrow> PidRegistry
    \<Rightarrow> (unit, BridgeCapabilityError) result \<times> PidRegistry" where
  "observe_bridge_ipc p g at r =
     (case connected_generation_mut p g r of
        Err e \<Rightarrow> (Err e, r)
      | Ok entry \<Rightarrow>
          (Ok (), put_entry p (entry\<lparr>e_identity := (e_identity entry)\<lparr>ipc_observed_at := Some at\<rparr>\<rparr>) r))"

definition observe_bridge_heartbeat :: "u32 \<Rightarrow> u64 \<Rightarrow> BridgeHeartbeatObservation \<Rightarrow> datetime
    \<Rightarrow> PidRegistry \<Rightarrow> (unit, BridgeCapabilityError) result \<times> PidRegistry" where
  "observe_bridge_heartbeat p g hb at r =
     (case connected_generation_mut p g r of
        Err e \<Rightarrow> (Err e, r)
      | Ok entry \<Rightarrow>
          (case ready (e_identity entry) of
             None \<Rightarrow> (Err (UnknownCapabilities p), r)
           | Some rdy \<Rightarrow>
               if load_generation rdy \<noteq> hb_load_generation hb then (Err (LoadGenerationMismatch p), r)
               else
                 let idn = (e_identity entry)\<lparr>ipc_observed_at := Some at\<rparr>;
                     idn' = (case hb_main_thread_pump_age_ms hb of
                               Some age \<Rightarrow> idn\<lparr>main_thread_pump := Some (at, age)\<rparr>
                             | None \<Rightarrow> idn)
                 in (Ok (), put_entry p (entry\<lparr>e_identity := idn'\<rparr>) r)))"

definition require_bridge_features :: "u32 \<Rightarrow> u64 \<Rightarrow> string list \<Rightarrow> PidRegistry
    \<Rightarrow> (unit, BridgeCapabilityError) result" where
  "require_bridge_features p g required r =
     (case reg_get r p of
        None \<Rightarrow> Err (UnknownPid p)
      | Some entry \<Rightarrow>
          if e_bridge entry \<noteq> Connected then Err (BcNotConnected p)
          else if connection_generation (e_identity entry) \<noteq> g then
            Err (StaleGeneration p (connection_generation (e_identity entry)) g)
          else (case ready (e_identity entry) of
              None \<Rightarrow> Err (UnknownCapabilities p)
            | Some rdy \<Rightarrow>
                let unsupported =
                  filter (\<lambda>f. \<not> list_ex (\<lambda>s. s = f) (supported_features rdy)) required
                in if unsupported = [] then Ok () else Err (UnsupportedFeatures p unsupported)))"

definition register_starting :: "u32 \<Rightarrow> SpawnRecord \<Rightarrow> PidRegistry \<Rightarrow> bool \<times> PidRegistry" where
  "register_starting p rec r =
     (let fresh = put_entry p
        \<lparr>e_pid = p, e_bridge = Starting, e_process = attrs_default, e_queue = queue_new,
         e_resurrection = resurrection_default, e_protocol_version = None,
         e_identity = identity_default, e_spawn = Some rec\<rparr> r
      in case reg_get r p of
           Some entry \<Rightarrow> if e_bridge entry = Connected then (False, r) else (True, fresh)
         | None \<Rightarrow> (True, fresh))"

definition remove_starting :: "u32 \<Rightarrow> PidRegistry \<Rightarrow> bool \<times> PidRegistry" where
  "remove_starting p r =
     (case reg_get r p of
        Some entry \<Rightarrow> if e_bridge entry = Starting then (True, remove_entry p r) else (False, r)
      | None \<Rightarrow> (False, r))"

definition on_bridge_lost :: "u32 \<Rightarrow> datetime \<Rightarrow> PidRegistry \<Rightarrow> PidRegistry" where
  "on_bridge_lost p now r =
     (case reg_get r p of
        None \<Rightarrow> r
      | Some entry \<Rightarrow>
          let (cancelled, q) = cancel_all (e_queue entry)
          in put_entry p (entry\<lparr>e_bridge := Disconnected, e_queue := q,
               e_resurrection := res_on_bridge_lost cancelled now (e_resurrection entry)\<rparr>) r)"

definition cancel_queue_keep_connected :: "u32 \<Rightarrow> PidRegistry \<Rightarrow> TaskInfo list \<times> PidRegistry" where
  "cancel_queue_keep_connected p r =
     (case reg_get r p of
        None \<Rightarrow> ([], r)
      | Some entry \<Rightarrow>
          let (cancelled, q) = cancel_all (e_queue entry)
          in (cancelled, put_entry p (entry\<lparr>e_queue := q\<rparr>) r))"

definition evict_if_disconnected :: "u32 \<Rightarrow> PidRegistry \<Rightarrow> bool \<times> PidRegistry" where
  "evict_if_disconnected p r =
     (case reg_get r p of
        Some entry \<Rightarrow> if e_bridge entry = Disconnected then (True, remove_entry p r) else (False, r)
      | None \<Rightarrow> (False, r))"

definition on_process_exit :: "u32 \<Rightarrow> PidRegistry \<Rightarrow> PidRegistry" where
  "on_process_exit p r = remove_entry p r"

definition enqueue :: "u32 \<Rightarrow> string \<Rightarrow> TaskMode \<Rightarrow> PidRegistry
    \<Rightarrow> (unit, EnqueueError) result \<times> PidRegistry" where
  "enqueue p name mode r =
     (case reg_get r p of
        None \<Rightarrow> (Err (EnqUnknownPid p), r)
      | Some entry \<Rightarrow>
          if e_bridge entry \<noteq> Connected then (Err (EnqBridgeDisconnected p), r)
          else let (res, q) = try_enqueue name mode (e_queue entry)
               in (map_err EnqQueue res, put_entry p (entry\<lparr>e_queue := q\<rparr>) r))"

definition complete_task :: "u32 \<Rightarrow> TaskResult \<Rightarrow> PidRegistry
    \<Rightarrow> (TaskInfo, EnqueueError) result \<times> PidRegistry" where
  "complete_task p result r =
     (case reg_get r p of
        None \<Rightarrow> (Err (EnqUnknownPid p), r)
      | Some entry \<Rightarrow>
          (case complete_in_flight result (e_queue entry) of
             (Err e, q) \<Rightarrow> (Err (EnqQueue e), put_entry p (entry\<lparr>e_queue := q\<rparr>) r)
           | (Ok info, q) \<Rightarrow>
               (Ok info, put_entry p (entry\<lparr>e_queue := q,
                  e_resurrection := on_task_outcome (result = Success) (e_resurrection entry)\<rparr>) r)))"

definition start_next :: "u32 \<Rightarrow> PidRegistry \<Rightarrow> (TaskInfo option, EnqueueError) result \<times> PidRegistry" where
  "start_next p r =
     (case reg_get r p of
        None \<Rightarrow> (Err (EnqUnknownPid p), r)
      | Some entry \<Rightarrow>
          let (t, q) = queue_start_next (e_queue entry)
          in (Ok t, put_entry p (entry\<lparr>e_queue := q\<rparr>) r))"

section \<open>Lookup laws\<close>

lemma reg_get_put [simp]: "reg_get (put_entry p e r) q = (if q = p then Some e else reg_get r q)"
  by (simp add: reg_get_def put_entry_def)

lemma reg_get_remove [simp]: "reg_get (remove_entry p r) q = (if q = p then None else reg_get r q)"
  by (simp add: reg_get_def remove_entry_def)

lemma reg_get_generation [simp]: "reg_get (r\<lparr>next_connection_generation := g\<rparr>) p = reg_get r p"
  by (simp add: reg_get_def)

lemma generation_put [simp]:
  "next_connection_generation (put_entry p e r) = next_connection_generation r"
  by (simp add: put_entry_def)

lemma generation_remove [simp]:
  "next_connection_generation (remove_entry p r) = next_connection_generation r"
  by (simp add: remove_entry_def)

definition keys_distinct :: "PidRegistry \<Rightarrow> bool" where
  "keys_distinct r \<longleftrightarrow> distinct (map fst (entries r))"

lemma keys_distinct_put [simp]: "keys_distinct r \<Longrightarrow> keys_distinct (put_entry p e r)"
  by (simp add: keys_distinct_def put_entry_def distinct_update)

lemma keys_distinct_remove [simp]: "keys_distinct r \<Longrightarrow> keys_distinct (remove_entry p r)"
  by (simp add: keys_distinct_def remove_entry_def distinct_delete)

lemma keys_distinct_evict [simp]: "keys_distinct r \<Longrightarrow> keys_distinct (evict_all_disconnected x r)"
  by (simp add: keys_distinct_def evict_all_disconnected_def distinct_filter_fst)

lemma keys_distinct_generation [simp]:
  "keys_distinct (r\<lparr>next_connection_generation := g\<rparr>) = keys_distinct r"
  by (simp add: keys_distinct_def)

lemma generation_evict [simp]:
  "next_connection_generation (evict_all_disconnected x r) = next_connection_generation r"
  by (simp add: evict_all_disconnected_def)

lemma reg_get_evict:
  "keys_distinct r \<Longrightarrow> reg_get (evict_all_disconnected x r) p =
     (case reg_get r p of
        None \<Rightarrow> None
      | Some e \<Rightarrow> if Some p = x \<or> e_bridge e \<noteq> Disconnected then Some e else None)"
  by (auto simp: keys_distinct_def reg_get_def evict_all_disconnected_def map_of_filter_distinct
      split: option.splits)

lemma pids_iff: "p \<in> set (pids r) \<longleftrightarrow> reg_get r p \<noteq> None"
  by (simp add: pids_def reg_get_def map_of_eq_None_iff)

section \<open>Handshakes\<close>

definition handshake_row :: "u32 \<Rightarrow> ProcessAttrs \<Rightarrow> string option \<Rightarrow> datetime \<Rightarrow> u64 \<Rightarrow> PidRegistry \<Rightarrow> PidEntry" where
  "handshake_row p process version now g r =
     (let e = (case reg_get r p of
                 Some e \<Rightarrow> handshake_existing process version e
               | None \<Rightarrow> handshake_new p process version)
      in e\<lparr>e_identity := begin_connection g now (e_identity e)\<rparr>)"

definition next_generation :: "PidRegistry \<Rightarrow> u64" where
  "next_generation r = max (saturating_add (next_connection_generation r) 1) 1"

lemma handshake_result:
  assumes "handshake p process version now r = (g, r')"
  shows "g = next_generation r" "next_connection_generation r' = g"
  using assms by (auto simp: handshake_def next_generation_def Let_def split: option.splits)

lemma handshake_keys:
  "keys_distinct r \<Longrightarrow> handshake p process version now r = (g, r') \<Longrightarrow> keys_distinct r'"
  by (auto simp: handshake_def Let_def split: option.splits)

lemma handshake_get:
  assumes "keys_distinct r" "handshake p process version now r = (g, r')"
  shows "reg_get r' q =
    (if q = p then Some (handshake_row p process version now g r)
     else case reg_get r q of
         None \<Rightarrow> None
       | Some e \<Rightarrow> if e_bridge e \<noteq> Disconnected then Some e else None)"
  using assms
  by (auto simp: handshake_def handshake_row_def Let_def reg_get_evict split: option.splits)

lemma handshake_existing_simps [simp]:
  "e_pid (handshake_existing process version e) = e_pid e"
  "e_bridge (handshake_existing process version e) = Connected"
  "e_process (handshake_existing process version e) = process"
  "e_protocol_version (handshake_existing process version e) = version"
  "e_identity (handshake_existing process version e) = e_identity e"
  by (simp_all add: handshake_existing_def Let_def)

lemma handshake_existing_queue:
  "e_queue (handshake_existing process version e) \<in> {e_queue e, queue_new}"
  by (simp add: handshake_existing_def Let_def)

lemma handshake_row_simps [simp]:
  "e_bridge (handshake_row p process version now g r) = Connected"
  "e_process (handshake_row p process version now g r) = process"
  "e_protocol_version (handshake_row p process version now g r) = version"
  "connection_generation (e_identity (handshake_row p process version now g r)) = g"
  "ready (e_identity (handshake_row p process version now g r)) = None"
  by (simp_all add: handshake_row_def Let_def handshake_new_def begin_connection_def split: option.splits)

lemma next_generation_greater:
  "next_connection_generation r \<noteq> - 1 \<Longrightarrow> next_connection_generation r < next_generation r"
  using saturating_add_one_less [of "next_connection_generation r"]
  by (simp add: next_generation_def less_max_iff_disj)

lemma next_generation_ge: "next_connection_generation r \<le> next_generation r" "1 \<le> next_generation r"
  using saturating_add_mono [of "next_connection_generation r" 1]
  by (simp_all add: next_generation_def le_max_iff_disj)

section \<open>The registry as a state machine\<close>

inductive reg_step :: "PidRegistry \<Rightarrow> PidRegistry \<Rightarrow> bool" where
  handshake: "handshake p process version now r = (g, r') \<Longrightarrow> reg_step r r'"
| ready: "observe_bridge_ready debug p g rdy at r = (res, r') \<Longrightarrow> reg_step r r'"
| ipc: "observe_bridge_ipc p g at r = (res, r') \<Longrightarrow> reg_step r r'"
| heartbeat: "observe_bridge_heartbeat p g hb at r = (res, r') \<Longrightarrow> reg_step r r'"
| spawned: "register_starting p rec r = (b, r') \<Longrightarrow> reg_step r r'"
| spawn_failed: "remove_starting p r = (b, r') \<Longrightarrow> reg_step r r'"
| lost: "on_bridge_lost p now r = r' \<Longrightarrow> reg_step r r'"
| superseded: "cancel_queue_keep_connected p r = (ts, r') \<Longrightarrow> reg_step r r'"
| evict: "evict_if_disconnected p r = (b, r') \<Longrightarrow> reg_step r r'"
| exit: "on_process_exit p r = r' \<Longrightarrow> reg_step r r'"
| enqueue: "enqueue p name mode r = (eres, r') \<Longrightarrow> reg_step r r'"
| complete: "complete_task p result r = (cres, r') \<Longrightarrow> reg_step r r'"
| start: "start_next p r = (sres, r') \<Longrightarrow> reg_step r r'"

definition entry_ok :: "u64 \<Rightarrow> u32 \<Rightarrow> PidEntry \<Rightarrow> bool" where
  "entry_ok n p e \<longleftrightarrow>
     e_pid e = p
     \<and> (e_bridge e \<noteq> Connected \<longrightarrow> snapshot (e_queue e) = [])
     \<and> tq.exclusive_only_head (e_queue e)
     \<and> connection_generation (e_identity e) \<le> n
     \<and> (e_bridge e = Connected \<longrightarrow> 1 \<le> connection_generation (e_identity e))
     \<and> (case ready (e_identity e) of
          None \<Rightarrow> True
        | Some rdy \<Rightarrow> validate_ready rdy = Ok ()
            \<and> e_protocol_version e = Some (proto_version (protocol rdy)))"

definition generations_fresh :: "PidRegistry \<Rightarrow> bool" where
  "generations_fresh r \<longleftrightarrow> (next_connection_generation r \<noteq> - 1 \<longrightarrow>
     (\<forall>p q e f. reg_get r p = Some e \<longrightarrow> reg_get r q = Some f \<longrightarrow> p \<noteq> q \<longrightarrow>
        connection_generation (e_identity e) = connection_generation (e_identity f) \<longrightarrow>
        connection_generation (e_identity e) = 0))"

definition reg_inv :: "PidRegistry \<Rightarrow> bool" where
  "reg_inv r \<longleftrightarrow> keys_distinct r \<and> generations_fresh r
     \<and> (\<forall>p e. reg_get r p = Some e \<longrightarrow> entry_ok (next_connection_generation r) p e)"

lemma reg_inv_entry:
  "reg_inv r \<Longrightarrow> reg_get r p = Some e \<Longrightarrow> entry_ok (next_connection_generation r) p e"
  by (simp add: reg_inv_def)

text \<open>Writing a row back preserves the invariant when the new row is well formed and keeps its
generation.\<close>

lemma reg_inv_put:
  assumes inv: "reg_inv r" and ok: "entry_ok (next_connection_generation r) p e"
    and gen: "connection_generation (e_identity e) = 0
      \<or> (\<exists>f. reg_get r p = Some f \<and> connection_generation (e_identity e) = connection_generation (e_identity f))"
  shows "reg_inv (put_entry p e r)"
proof -
  have "generations_fresh (put_entry p e r)"
    using gen inv unfolding generations_fresh_def reg_inv_def by (fastforce split: if_splits)
  then show ?thesis using inv ok by (simp add: reg_inv_def)
qed

lemma reg_inv_remove: "reg_inv r \<Longrightarrow> reg_inv (remove_entry p r)"
  by (auto simp: reg_inv_def generations_fresh_def)

lemma reg_inv_new: "reg_inv registry_new"
  by (simp add: reg_inv_def registry_new_def keys_distinct_def generations_fresh_def reg_get_def)

section \<open>Every operation preserves the invariant\<close>

lemma connected_generation_OkD:
  "connected_generation_mut p g r = Ok e \<Longrightarrow>
     reg_get r p = Some e \<and> e_bridge e = Connected \<and> connection_generation (e_identity e) = g"
  by (auto simp: connected_generation_mut_def split: option.splits if_splits)

lemma connected_generation_iff:
  "connected_generation_mut p g r = Ok e \<longleftrightarrow>
     reg_get r p = Some e \<and> e_bridge e = Connected \<and> connection_generation (e_identity e) = g"
  by (auto simp: connected_generation_mut_def split: option.splits if_splits)

lemma entry_ok_identity:
  assumes "entry_ok n p e"
    "connection_generation idn = connection_generation (e_identity e)"
    "ready idn = ready (e_identity e) \<or> (\<exists>rdy. ready idn = Some rdy \<and> validate_ready rdy = Ok ()
       \<and> e_protocol_version e = Some (proto_version (protocol rdy)))"
  shows "entry_ok n p (e\<lparr>e_identity := idn\<rparr>)"
  using assms by (auto simp: entry_ok_def split: option.splits)

lemma entry_ok_queue:
  assumes "entry_ok n p e" "tq.exclusive_only_head q"
    "e_bridge e \<noteq> Connected \<Longrightarrow> snapshot q = []"
  shows "entry_ok n p (e\<lparr>e_queue := q\<rparr>)" "entry_ok n p (e\<lparr>e_queue := q, e_resurrection := s\<rparr>)"
  using assms by (auto simp: entry_ok_def split: option.splits)

lemma reg_inv_identity:
  assumes "reg_inv r" "reg_get r p = Some e"
    "connection_generation idn = connection_generation (e_identity e)"
    "ready idn = ready (e_identity e) \<or> (\<exists>rdy. ready idn = Some rdy \<and> validate_ready rdy = Ok ()
       \<and> e_protocol_version e = Some (proto_version (protocol rdy)))"
  shows "reg_inv (put_entry p (e\<lparr>e_identity := idn\<rparr>) r)"
  using assms entry_ok_identity [OF reg_inv_entry [OF assms(1,2)] assms(3,4)]
  by (auto intro: reg_inv_put)

lemma reg_inv_queue:
  assumes "reg_inv r" "reg_get r p = Some e" "tq.exclusive_only_head q"
    "e_bridge e \<noteq> Connected \<Longrightarrow> snapshot q = []"
  shows "reg_inv (put_entry p (e\<lparr>e_queue := q\<rparr>) r)"
    "reg_inv (put_entry p (e\<lparr>e_queue := q, e_resurrection := s\<rparr>) r)"
  using assms entry_ok_queue [OF reg_inv_entry [OF assms(1,2)] assms(3,4)]
  by (auto intro!: reg_inv_put)

lemma reg_inv_ready:
  "reg_inv r \<Longrightarrow> observe_bridge_ready debug p g rdy at r = (res, r') \<Longrightarrow> reg_inv r'"
  by (auto simp: observe_bridge_ready_def dest!: connected_generation_OkD intro!: reg_inv_identity
      split: result.splits if_splits)

lemma reg_inv_ipc:
  "reg_inv r \<Longrightarrow> observe_bridge_ipc p g at r = (res, r') \<Longrightarrow> reg_inv r'"
  by (auto simp: observe_bridge_ipc_def dest!: connected_generation_OkD intro!: reg_inv_identity
      split: result.splits)

lemma reg_inv_heartbeat:
  "reg_inv r \<Longrightarrow> observe_bridge_heartbeat p g hb at r = (res, r') \<Longrightarrow> reg_inv r'"
  by (auto simp: observe_bridge_heartbeat_def Let_def dest!: connected_generation_OkD
      intro!: reg_inv_identity split: result.splits option.splits if_splits)

lemma entry_ok_starting:
  "entry_ok n p \<lparr>e_pid = p, e_bridge = Starting, e_process = attrs_default, e_queue = queue_new,
     e_resurrection = resurrection_default, e_protocol_version = None,
     e_identity = identity_default, e_spawn = sp\<rparr>"
  by (simp add: entry_ok_def identity_default_def tq.tasks_empty tq.empty_exclusive_only_head)

lemma reg_inv_register_starting: "reg_inv r \<Longrightarrow> register_starting p rec r = (b, r') \<Longrightarrow> reg_inv r'"
  by (auto simp: register_starting_def Let_def identity_default_def
      intro!: reg_inv_put entry_ok_starting [unfolded identity_default_def]
      split: option.splits if_splits)

lemma reg_inv_remove_starting: "reg_inv r \<Longrightarrow> remove_starting p r = (b, r') \<Longrightarrow> reg_inv r'"
  by (auto simp: remove_starting_def reg_inv_remove split: option.splits if_splits)

lemma reg_inv_evict_if: "reg_inv r \<Longrightarrow> evict_if_disconnected p r = (b, r') \<Longrightarrow> reg_inv r'"
  by (auto simp: evict_if_disconnected_def reg_inv_remove split: option.splits if_splits)

lemma reg_inv_lost:
  assumes "reg_inv r" shows "reg_inv (on_bridge_lost p now r)"
proof (cases "reg_get r p")
  case (Some e)
  obtain ts q where c: "cancel_all (e_queue e) = (ts, q)" by (cases "cancel_all (e_queue e)")
  from c tq.cancel_tasks [of "e_queue e"] tq.cancel_exclusive_only_head [of "e_queue e"]
  have "snapshot q = []" "tq.exclusive_only_head q" by simp_all
  with reg_inv_entry [OF assms Some] have "entry_ok (next_connection_generation r) p
     (e\<lparr>e_bridge := Disconnected, e_queue := q,
        e_resurrection := res_on_bridge_lost ts now (e_resurrection e)\<rparr>)"
    by (auto simp: entry_ok_def split: option.splits)
  with assms Some c show ?thesis by (auto simp: on_bridge_lost_def intro!: reg_inv_put)
qed (simp add: on_bridge_lost_def assms)

lemma cancel_all_empties:
  "cancel_all q = (ts, q') \<Longrightarrow> snapshot q' = [] \<and> tq.exclusive_only_head q' \<and> ts = snapshot q"
  using tq.cancel_tasks [of q] tq.cancel_exclusive_only_head [of q] tq.cancel_result [of q] by simp

lemma reg_inv_cancel_queue:
  "reg_inv r \<Longrightarrow> cancel_queue_keep_connected p r = (ts, r') \<Longrightarrow> reg_inv r'"
  by (auto simp: cancel_queue_keep_connected_def split: option.splits prod.splits
      intro!: reg_inv_queue dest: cancel_all_empties)

lemma reg_inv_enqueue: "reg_inv r \<Longrightarrow> enqueue p name mode r = (res, r') \<Longrightarrow> reg_inv r'"
proof -
  assume r: "reg_inv r" "enqueue p name mode r = (res, r')"
  have "tq.exclusive_only_head (snd (try_enqueue name mode (e_queue e)))" if "reg_get r p = Some e" for e
    using reg_inv_entry [OF r(1) that]
    by (simp add: entry_ok_def tq.enqueue_exclusive_only_head)
  with r show ?thesis
    by (auto simp: enqueue_def split: option.splits prod.splits if_splits intro!: reg_inv_queue)
qed

lemma reg_inv_start_next: "reg_inv r \<Longrightarrow> start_next p r = (res, r') \<Longrightarrow> reg_inv r'"
proof -
  assume r: "reg_inv r" "start_next p r = (res, r')"
  have "tq.exclusive_only_head (snd (queue_start_next (e_queue e)))"
    "e_bridge e \<noteq> Connected \<Longrightarrow> snapshot (snd (queue_start_next (e_queue e))) = []"
    if "reg_get r p = Some e" for e
    using reg_inv_entry [OF r(1) that]
    by (simp_all add: entry_ok_def tq.start_exclusive_only_head tq.start_tasks)
  with r show ?thesis
    by (auto simp: start_next_def split: option.splits prod.splits intro!: reg_inv_queue)
qed

lemma reg_inv_complete: "reg_inv r \<Longrightarrow> complete_task p result r = (res, r') \<Longrightarrow> reg_inv r'"
proof -
  assume r: "reg_inv r" "complete_task p result r = (res, r')"
  have q: "tq.exclusive_only_head (snd (complete_in_flight result (e_queue e)))"
    "e_bridge e \<noteq> Connected \<Longrightarrow> snapshot (snd (complete_in_flight result (e_queue e))) = []"
    if "reg_get r p = Some e" for e
    using reg_inv_entry [OF r(1) that] tq.complete_exclusive_only_head [of "e_queue e" result]
    by (auto simp: entry_ok_def complete_in_flight_def snapshot_def split: option.splits)
  show ?thesis
  proof (cases "reg_get r p")
    case (Some e)
    with r q [OF Some] show ?thesis
      by (cases "complete_in_flight result (e_queue e)")
         (auto simp: complete_task_def split: result.splits intro!: reg_inv_queue)
  qed (use r in \<open>simp add: complete_task_def\<close>)
qed

lemma entry_ok_mono: "entry_ok m p e \<Longrightarrow> m \<le> n \<Longrightarrow> entry_ok n p e"
  by (auto simp: entry_ok_def)

lemma entry_ok_handshake_row:
  assumes "reg_inv r"
  shows "entry_ok g p (handshake_row p process version now g r) \<longleftrightarrow> 1 \<le> g"
proof (cases "reg_get r p")
  case None
  then show ?thesis
    by (auto simp: handshake_row_def handshake_new_def entry_ok_def begin_connection_def
        tq.empty_exclusive_only_head)
next
  case (Some e)
  with reg_inv_entry [OF assms Some] handshake_existing_queue [of process version e] show ?thesis
    by (auto simp: handshake_row_def entry_ok_def begin_connection_def tq.empty_exclusive_only_head)
qed

lemma reg_inv_handshake:
  assumes inv: "reg_inv r" and h: "handshake p process version now r = (g, r')"
  shows "reg_inv r'"
proof -
  note g = handshake_result [OF h]
  have keys: "keys_distinct r" using inv by (simp add: reg_inv_def)
  note get = handshake_get [OF keys h]
  have ge: "next_connection_generation r \<le> g" "1 \<le> g"
    using next_generation_ge [of r] g by simp_all
  have rows: "entry_ok g q e" if "reg_get r' q = Some e" for q e
    using that reg_inv_entry [OF inv, of q] entry_ok_mono [OF _ ge(1)] entry_ok_handshake_row [OF inv] ge
    by (auto simp: get split: if_splits option.splits)
  have "generations_fresh r'"
    unfolding generations_fresh_def
  proof (intro impI allI)
    fix q q' e f
    assume fresh: "next_connection_generation r' \<noteq> - 1" and q: "reg_get r' q = Some e" "reg_get r' q' = Some f"
      and ne: "q \<noteq> q'" and eq: "connection_generation (e_identity e) = connection_generation (e_identity f)"
    have "next_connection_generation r \<noteq> - 1"
      using fresh g ge(1) by (metis order.antisym word_order.extremum)
    then have new: "next_connection_generation r < g"
      using next_generation_greater [of r] g by simp
    have old: "reg_get r q'' = Some e' \<and> connection_generation (e_identity e') < g"
      if "reg_get r' q'' = Some e'" "q'' \<noteq> p" for q'' e'
      using that reg_inv_entry [OF inv, of q'' e'] new
      by (auto simp: get entry_ok_def split: option.splits if_splits)
    have top: "connection_generation (e_identity e') = g" if "reg_get r' p = Some e'" for e'
      using that by (auto simp: get)
    have "q \<noteq> p \<and> q' \<noteq> p"
      using old [OF q(1)] old [OF q(2)] top q eq ne by fastforce
    with old q inv ne eq \<open>next_connection_generation r \<noteq> - 1\<close>
    show "connection_generation (e_identity e) = 0"
      unfolding reg_inv_def generations_fresh_def by blast
  qed
  with rows handshake_keys [OF keys h] g show ?thesis by (simp add: reg_inv_def)
qed

lemma reg_step_inv: "reg_step r r' \<Longrightarrow> reg_inv r \<Longrightarrow> reg_inv r'"
  by (induction rule: reg_step.induct)
     (auto simp: on_process_exit_def
       intro: reg_inv_handshake reg_inv_ready reg_inv_ipc reg_inv_heartbeat reg_inv_register_starting
         reg_inv_remove_starting reg_inv_lost reg_inv_cancel_queue reg_inv_evict_if reg_inv_remove
         reg_inv_enqueue reg_inv_complete reg_inv_start_next)

interpretation registry: transition_system "\<lambda>r. r = registry_new" reg_step reg_inv
  by unfold_locales (auto simp: reg_inv_new reg_step_inv)

abbreviation "reg_reachable \<equiv> reachable (\<lambda>r. r = registry_new) reg_step"

section \<open>Properties\<close>

lemma reg_reachable_inv: "reg_reachable r \<Longrightarrow> reg_inv r"
  by (rule registry.reachable_inv)

lemma reachable_keys: "reg_reachable r \<Longrightarrow> keys_distinct r"
  by (drule reg_reachable_inv) (simp add: reg_inv_def)

text \<open>C38: In every registry the operations can produce, a row stands under its own pid; a row
that is not connected has an empty queue; an exclusive task is never behind another one; a
readiness report on file passed validation and carries the protocol version of the handshake;
a connected row has a generation between 1 and the counter; and, until the counter saturates,
two rows never share a connection generation.\<close>

theorem registry_rows_well_formed:
  assumes "reg_reachable r" "reg_get r p = Some e"
  shows "e_pid e = p
    \<and> (e_bridge e \<noteq> Connected \<longrightarrow> snapshot (e_queue e) = [])
    \<and> (\<forall>t \<in> set (tl (snapshot (e_queue e))). \<not> exclusive t)
    \<and> (\<forall>rdy. ready (e_identity e) = Some rdy \<longrightarrow>
         validate_ready rdy = Ok () \<and> e_protocol_version e = Some (proto_version (protocol rdy)))
    \<and> (e_bridge e = Connected \<longrightarrow> 1 \<le> connection_generation (e_identity e))
    \<and> connection_generation (e_identity e) \<le> next_connection_generation r
    \<and> (next_connection_generation r \<noteq> - 1 \<longrightarrow>
         (\<forall>q f. reg_get r q = Some f \<longrightarrow> q \<noteq> p \<longrightarrow> e_bridge e = Connected \<longrightarrow>
            connection_generation (e_identity f) \<noteq> connection_generation (e_identity e)))"
proof -
  have inv: "reg_inv r" by (rule reg_reachable_inv [OF assms(1)])
  have "connection_generation (e_identity e) \<noteq> 0" if "e_bridge e = Connected"
    using reg_inv_entry [OF inv assms(2)] that by (auto simp: entry_ok_def)
  moreover have "generations_fresh r" using inv by (simp add: reg_inv_def)
  ultimately show ?thesis
    using reg_inv_entry [OF inv assms(2)] assms(2)
    by (fastforce simp: entry_ok_def tq.exclusive_only_head_def generations_fresh_def split: option.splits)
qed

definition sample_attrs :: ProcessAttrs where
  "sample_attrs = attrs_default\<lparr>fingerprint := fingerprint_default\<lparr>image := Some ''td.exe''\<rparr>\<rparr>"

definition sample_registry :: PidRegistry where
  "sample_registry = snd (enqueue 7 ''Inspect'' Shared (snd (handshake 7 sample_attrs (Some ''2'') 5 registry_new)))"

lemma sample_reachable: "reg_reachable sample_registry"
proof -
  have "reg_reachable registry_new" by (rule reach_init) (rule refl)
  then have "reg_reachable (snd (handshake 7 sample_attrs (Some ''2'') 5 registry_new))"
    by (rule reach_step) (rule reg_step.handshake, rule prod.collapse [symmetric])
  then show ?thesis
    unfolding sample_registry_def
    by (rule reach_step) (rule reg_step.enqueue, rule prod.collapse [symmetric])
qed

definition sample_row :: PidEntry where
  "sample_row = (handshake_row 7 sample_attrs (Some ''2'') 5 1 registry_new)
     \<lparr>e_queue := \<lparr>pending = [\<lparr>task_name = ''Inspect'', exclusive = False\<rparr>], in_flight = None\<rparr>\<rparr>"

lemma sample_get: "reg_get sample_registry 7 = Some sample_row"
  by (simp add: sample_registry_def sample_row_def handshake_def registry_new_def handshake_row_def
      handshake_new_def reg_get_def put_entry_def evict_all_disconnected_def enqueue_def
      try_enqueue_def queue_defs saturating_add_def)

theorem registry_rows_well_formed_witness:
  "e_pid sample_row = 7 \<and> 1 \<le> connection_generation (e_identity sample_row)
   \<and> connection_generation (e_identity sample_row) \<le> next_connection_generation sample_registry"
  using registry_rows_well_formed [OF sample_reachable sample_get]
  by (simp add: sample_row_def)

text \<open>A handshake connects the pid under a fresh generation with no readiness on file, and
the rest of the registry is exactly the rows that are not disconnected.  The row it leaves keeps
queue and spawn record when the process was starting or has a compatible fingerprint, is marked
resurrected when it was disconnected, and is wiped when the fingerprint conflicts.\<close>

theorem handshake_effect:
  assumes "reg_reachable r" "handshake p pr v now r = (g, r')"
  shows "g = max (saturating_add (next_connection_generation r) 1) 1
    \<and> next_connection_generation r' = g
    \<and> (\<forall>q. q \<noteq> p \<longrightarrow> reg_get r' q = (case reg_get r q of None \<Rightarrow> None
         | Some e \<Rightarrow> if e_bridge e = Disconnected then None else Some e))
    \<and> (\<exists>e'. reg_get r' p = Some e' \<and> e_bridge e' = Connected \<and> e_process e' = pr
         \<and> e_protocol_version e' = v
         \<and> e_identity e' = \<lparr>connection_generation = g, ready = None, ipc_observed_at = Some now,
              main_thread_pump = None\<rparr>
         \<and> (case reg_get r p of
              None \<Rightarrow> snapshot (e_queue e') = [] \<and> e_spawn e' = None \<and> e_resurrection e' = resurrection_default
            | Some e \<Rightarrow>
                if e_bridge e \<noteq> Starting \<and> \<not> fp_matches (fingerprint (e_process e)) (fingerprint pr) then
                  snapshot (e_queue e') = [] \<and> e_spawn e' = None \<and> e_resurrection e' = resurrection_default
                else e_queue e' = e_queue e \<and> e_spawn e' = e_spawn e
                  \<and> cancelled_tasks (e_resurrection e') = cancelled_tasks (e_resurrection e)
                  \<and> resurrected (e_resurrection e') =
                      (e_bridge e = Disconnected \<or> resurrected (e_resurrection e))))"
proof -
  note keys = reachable_keys [OF assms(1)]
  note get = handshake_get [OF keys assms(2)] and g = handshake_result [OF assms(2)]
  have others: "reg_get r' q = (case reg_get r q of None \<Rightarrow> None
      | Some e \<Rightarrow> if e_bridge e = Disconnected then None else Some e)" if "q \<noteq> p" for q
    using that by (auto simp: get split: option.splits)
  have row: "reg_get r' p = Some (handshake_row p pr v now g r)" by (simp add: get)
  have "e_identity (handshake_row p pr v now g r) = \<lparr>connection_generation = g, ready = None,
      ipc_observed_at = Some now, main_thread_pump = None\<rparr>"
    by (simp add: handshake_row_def Let_def begin_connection_def)
  with others row g show ?thesis
    by (cases "reg_get r p")
       (auto simp: next_generation_def handshake_row_def handshake_new_def handshake_existing_def
         tq.tasks_empty res_clear_def on_resurrect_def Let_def)
qed

theorem handshake_effect_witness:
  "\<exists>e'. reg_get (snd (handshake 8 sample_attrs None 6 sample_registry)) 8 = Some e' \<and> e_bridge e' = Connected
     \<and> reg_get (snd (handshake 8 sample_attrs None 6 sample_registry)) 7 = Some sample_row"
  using handshake_effect [OF sample_reachable prod.collapse [symmetric], of 8 sample_attrs None 6]
  by (auto simp: sample_get) (simp add: sample_row_def)

text \<open>A reconnect invalidates everything the previous connection can still say: whatever
generation was handed out before the handshake, an observation or a feature check that carries
it is answered \<open>StaleGeneration\<close> and leaves the registry as it was.\<close>

theorem stale_generation_rejected:
  assumes "reg_reachable r" "next_connection_generation r \<noteq> - 1"
    "handshake p pr v now r = (g', r')" "g \<le> next_connection_generation r"
  shows "observe_bridge_ipc p g at r' = (Err (StaleGeneration p g' g), r')
    \<and> observe_bridge_heartbeat p g hb at r' = (Err (StaleGeneration p g' g), r')
    \<and> (validate_ready rdy = Ok () \<longrightarrow>
         observe_bridge_ready debug p g rdy at r' = (Err (StaleGeneration p g' g), r'))
    \<and> require_bridge_features p g req r' = Err (StaleGeneration p g' g)"
proof -
  have new: "g' \<noteq> g"
    using next_generation_greater [OF assms(2)] handshake_result(1) [OF assms(3)] assms(4) by auto
  have row: "reg_get r' p = Some (handshake_row p pr v now g' r)"
    by (simp add: handshake_get [OF reachable_keys [OF assms(1)] assms(3)])
  have "connected_generation_mut p g r' = Err (StaleGeneration p g' g)"
    using new by (simp add: connected_generation_mut_def row)
  then show ?thesis
    using new row
    by (simp add: observe_bridge_ipc_def observe_bridge_heartbeat_def observe_bridge_ready_def
        require_bridge_features_def)
qed

theorem stale_generation_rejected_witness:
  "fst (observe_bridge_ipc 7 1 9 (snd (handshake 7 sample_attrs None 8 sample_registry)))
     = Err (StaleGeneration 7 (fst (handshake 7 sample_attrs None 8 sample_registry)) 1)"
proof -
  have "next_connection_generation sample_registry = 1"
    by (simp add: sample_registry_def handshake_def registry_new_def reg_get_def put_entry_def
        evict_all_disconnected_def enqueue_def saturating_add_def split: prod.splits)
  then show ?thesis
    using stale_generation_rejected [OF sample_reachable _ prod.collapse [symmetric],
        where g = 1 and p = 7 and pr = sample_attrs and v = None and now = 8 and at = 9]
    by simp
qed

text \<open>Losing the bridge loses no task and no trace: every task the queue held, the running one
first, is appended to the cancelled stack with its name, mode and the loss time; the queue is
then empty and refuses tasks until a handshake, and no other row changes.\<close>

theorem bridge_loss_stacks_queue:
  assumes "reg_get r p = Some e"
  shows "\<exists>e'. reg_get (on_bridge_lost p now r) p = Some e'
    \<and> e_bridge e' = Disconnected \<and> snapshot (e_queue e') = []
    \<and> cancelled_tasks (e_resurrection e') = cancelled_tasks (e_resurrection e)
        @ map (\<lambda>t. \<lparr>c_name = task_name t, c_exclusive = exclusive t, c_reason = BridgeLost,
             c_cancelled_at = now\<rparr>) (snapshot (e_queue e))
    \<and> last_disconnect_at (e_resurrection e') = Some now
    \<and> fst (enqueue p name mode (on_bridge_lost p now r)) = Err (EnqBridgeDisconnected p)
    \<and> (\<forall>q. q \<noteq> p \<longrightarrow> reg_get (on_bridge_lost p now r) q = reg_get r q)"
proof -
  obtain ts q where c: "cancel_all (e_queue e) = (ts, q)" by (cases "cancel_all (e_queue e)")
  have "snapshot q = []" "ts = snapshot (e_queue e)"
    using cancel_all_empties [OF c] by simp_all
  moreover have "cancelled_by_loss now = (\<lambda>t. \<lparr>c_name = task_name t, c_exclusive = exclusive t,
      c_reason = BridgeLost, c_cancelled_at = now\<rparr>)"
    by (simp add: cancelled_by_loss_def fun_eq_iff)
  ultimately show ?thesis
    using assms c by (simp add: on_bridge_lost_def res_on_bridge_lost_eq enqueue_def)
qed

theorem bridge_loss_stacks_queue_witness:
  "\<exists>e'. reg_get (on_bridge_lost 7 9 sample_registry) 7 = Some e'
     \<and> map c_name (cancelled_tasks (e_resurrection e')) = [''Inspect'']"
  using bridge_loss_stacks_queue [OF sample_get, where now = 9 and name = "[]" and mode = Shared]
  by (auto simp: sample_row_def snapshot_def handshake_row_def handshake_new_def
      resurrection_default_def registry_new_def reg_get_def)

text \<open>The admission check for effectful calls accepts exactly a connected pid, under the
generation asked for, whose readiness report lists every required feature; a bridge without a
report is refused as unknown, and a refusal for missing features names exactly those.\<close>

theorem require_features_iff:
  "(require_bridge_features p g req r = Ok () \<longleftrightarrow>
     (\<exists>e rdy. reg_get r p = Some e \<and> e_bridge e = Connected
        \<and> connection_generation (e_identity e) = g \<and> ready (e_identity e) = Some rdy
        \<and> set req \<subseteq> set (supported_features rdy)))
   \<and> (require_bridge_features p g req r = Err (UnknownCapabilities p) \<longleftrightarrow>
       (\<exists>e. reg_get r p = Some e \<and> e_bridge e = Connected
          \<and> connection_generation (e_identity e) = g \<and> ready (e_identity e) = None))
   \<and> (\<forall>fs. require_bridge_features p g req r = Err (UnsupportedFeatures p fs) \<longleftrightarrow>
       fs \<noteq> [] \<and> (\<exists>e rdy. reg_get r p = Some e \<and> e_bridge e = Connected
          \<and> connection_generation (e_identity e) = g \<and> ready (e_identity e) = Some rdy
          \<and> fs = filter (\<lambda>f. f \<notin> set (supported_features rdy)) req))"
  by (auto simp: require_bridge_features_def list_ex_iff Let_def filter_empty_conv
      split: option.splits if_splits)

end
