(* ===== verification/Federation.thy ===== *)
theory Federation
  imports Registry
begin

text \<open>
  The master's registry of slave daemons, \<open>crates/tdmcp-core/src/federation.rs\<close>: registration,
  fleet pushes, staleness, pid resolution and the aggregated fleet.  A \<open>DaemonId\<close> is its string;
  the \<open>HashMap\<close> of slaves is an association list, whose order stands for the iteration order.
\<close>

section \<open>Data\<close>

type_synonym DaemonId = string

datatype SlaveReachability = Reachable | SlaveDisconnected | Unreachable

record RemoteFleetProcess =
  rp_pid :: u32
  rp_title :: "string option"
  rp_toe_path :: "string option"
  rp_bridge :: BridgeStatus

record SlaveEntry =
  se_daemon_id :: DaemonId
  se_hostname :: string
  se_version :: string
  se_base_url :: string
  se_port :: u16
  se_auth_token :: string
  se_last_fleet_push :: "datetime option"
  se_reachability :: SlaveReachability
  se_fleet_processes :: "RemoteFleetProcess list"

record DaemonIdConflict =
  dc_daemon_id :: DaemonId
  dc_existing_base_url :: string
  dc_attempted_base_url :: string

datatype PidResolve = Unique DaemonId | Ambiguous "(DaemonId \<times> string) list" | Local

record AggregatedFleetProcess =
  ap_pid :: u32
  ap_title :: "string option"
  ap_toe_path :: "string option"
  ap_bridge :: BridgeStatus
  ap_daemon_id :: "DaemonId option"
  ap_hostname :: "string option"

type_synonym SlaveRegistry = "(DaemonId \<times> SlaveEntry) list"

section \<open>Operations\<close>

definition slaves_len :: "SlaveRegistry \<Rightarrow> nat" where
  "slaves_len m = length m"

definition slaves :: "SlaveRegistry \<Rightarrow> SlaveEntry list" where
  "slaves m = sort_key se_daemon_id (map snd m)"

definition slave_get :: "SlaveRegistry \<Rightarrow> DaemonId \<Rightarrow> SlaveEntry option" where
  "slave_get m d = map_of m d"

definition register_slave :: "SlaveEntry \<Rightarrow> SlaveRegistry \<Rightarrow> (unit, DaemonIdConflict) result \<times> SlaveRegistry" where
  "register_slave entry m =
     (let accept = (Ok (), AList.update (se_daemon_id entry) entry m) in
      case slave_get m (se_daemon_id entry) of
        Some existing \<Rightarrow>
          if se_base_url existing \<noteq> se_base_url entry then
            (Err \<lparr>dc_daemon_id = se_daemon_id entry, dc_existing_base_url = se_base_url existing,
                  dc_attempted_base_url = se_base_url entry\<rparr>, m)
          else accept
      | None \<Rightarrow> accept)"

definition update_fleet :: "DaemonId \<Rightarrow> RemoteFleetProcess list \<Rightarrow> datetime \<Rightarrow> SlaveRegistry
    \<Rightarrow> bool \<times> SlaveRegistry" where
  "update_fleet d processes now m =
     (case slave_get m d of
        None \<Rightarrow> (False, m)
      | Some entry \<Rightarrow>
          (True, AList.update d (entry\<lparr>se_fleet_processes := processes,
             se_last_fleet_push := Some now, se_reachability := Reachable\<rparr>) m))"

text \<open>The body of the loop of \<open>tick_stale\<close>.\<close>

definition tick_entry :: "datetime \<Rightarrow> SlaveEntry \<Rightarrow> SlaveEntry" where
  "tick_entry now entry =
     (case se_last_fleet_push entry of
        None \<Rightarrow> entry
      | Some pushed \<Rightarrow>
          let age_secs = num_seconds (now - pushed);
              greyed = map (\<lambda>p. p\<lparr>rp_bridge := Disconnected\<rparr>) (se_fleet_processes entry)
          in if 10 \<le> age_secs then
               entry\<lparr>se_reachability := Unreachable, se_fleet_processes := greyed\<rparr>
             else if 6 \<le> age_secs then
               entry\<lparr>se_reachability := SlaveDisconnected, se_fleet_processes := greyed\<rparr>
             else entry)"

definition tick_stale :: "datetime \<Rightarrow> SlaveRegistry \<Rightarrow> SlaveRegistry" where
  "tick_stale now m = map (\<lambda>(d, entry). (d, tick_entry now entry)) m"

definition owns_pid :: "u32 \<Rightarrow> SlaveEntry \<Rightarrow> bool" where
  "owns_pid p entry \<longleftrightarrow>
     list_ex (\<lambda>q. rp_pid q = p \<and> se_reachability entry \<noteq> Unreachable) (se_fleet_processes entry)"

definition resolve_pid :: "u32 \<Rightarrow> SlaveRegistry \<Rightarrow> PidResolve" where
  "resolve_pid p m =
     (let hits = map (\<lambda>e. (se_daemon_id e, se_hostname e)) (filter (owns_pid p) (map snd m))
      in case hits of
           [] \<Rightarrow> Local
         | [h] \<Rightarrow> Unique (fst h)
         | _ \<Rightarrow> Ambiguous hits)"

definition tag_local :: "DaemonId \<Rightarrow> string \<Rightarrow> AggregatedFleetProcess \<Rightarrow> AggregatedFleetProcess" where
  "tag_local local_id local_host p =
     (let p1 = (if ap_daemon_id p = None then p\<lparr>ap_daemon_id := Some local_id\<rparr> else p)
      in if ap_hostname p1 = None then p1\<lparr>ap_hostname := Some local_host\<rparr> else p1)"

definition tag_remote :: "SlaveEntry \<Rightarrow> RemoteFleetProcess \<Rightarrow> AggregatedFleetProcess" where
  "tag_remote s p =
     \<lparr>ap_pid = rp_pid p, ap_title = rp_title p, ap_toe_path = rp_toe_path p, ap_bridge = rp_bridge p,
      ap_daemon_id = Some (se_daemon_id s), ap_hostname = Some (se_hostname s)\<rparr>"

definition aggregate_fleet :: "DaemonId \<Rightarrow> string \<Rightarrow> AggregatedFleetProcess list \<Rightarrow> SlaveRegistry
    \<Rightarrow> AggregatedFleetProcess list" where
  "aggregate_fleet local_id local_host local_processes m =
     map (tag_local local_id local_host) local_processes
     @ concat (map (\<lambda>s. map (tag_remote s) (se_fleet_processes s)) (slaves m))"

section \<open>The registry as a state machine\<close>

definition slaves_inv :: "SlaveRegistry \<Rightarrow> bool" where
  "slaves_inv m \<longleftrightarrow> distinct (map fst m) \<and> (\<forall>d e. slave_get m d = Some e \<longrightarrow> se_daemon_id e = d)"

inductive fed_step :: "SlaveRegistry \<Rightarrow> SlaveRegistry \<Rightarrow> bool" where
  fed_register: "register_slave entry m = (res, m') \<Longrightarrow> fed_step m m'"
| fed_push: "update_fleet d ps now m = (b, m') \<Longrightarrow> fed_step m m'"
| fed_tick: "fed_step m (tick_stale now m)"

inductive_cases fed_stepE: "fed_step m m'"

lemma slave_get_id: "slaves_inv m \<Longrightarrow> slave_get m d = Some e \<Longrightarrow> se_daemon_id e = d"
  by (simp add: slaves_inv_def)

lemma slave_get_update: "slave_get (AList.update d e m) d' = (if d' = d then Some e else slave_get m d')"
  by (simp add: slave_get_def)

lemma slaves_inv_update: "slaves_inv m \<Longrightarrow> se_daemon_id e = d \<Longrightarrow> slaves_inv (AList.update d e m)"
  by (auto simp: slaves_inv_def distinct_update slave_get_update)

lemma slaves_inv_set: "slaves_inv m \<Longrightarrow> (d, e) \<in> set m \<Longrightarrow> slave_get m d = Some e \<and> se_daemon_id e = d"
  by (auto simp: slaves_inv_def slave_get_def)

lemma slave_get_tick: "slave_get (tick_stale now m) d = map_option (tick_entry now) (slave_get m d)"
  by (simp add: slave_get_def tick_stale_def map_of_map_values)

lemma tick_entry_id [simp]: "se_daemon_id (tick_entry now e) = se_daemon_id e"
  by (simp add: tick_entry_def Let_def split: option.splits)

lemma slaves_inv_tick: "slaves_inv m \<Longrightarrow> slaves_inv (tick_stale now m)"
  by (auto simp: slaves_inv_def slave_get_tick) (simp add: tick_stale_def comp_def case_prod_unfold)

lemma fed_step_inv: "slaves_inv m \<Longrightarrow> fed_step m m' \<Longrightarrow> slaves_inv m'"
  by (auto elim!: fed_stepE simp: register_slave_def update_fleet_def Let_def slaves_inv_tick
      slave_get_id intro!: slaves_inv_update split: option.splits if_splits)

interpretation federation: transition_system "\<lambda>m. m = []" fed_step slaves_inv
proof
  show "slaves_inv s" if "s = []" for s using that by (simp add: slaves_inv_def slave_get_def)
  show "slaves_inv t" if "slaves_inv s" "fed_step s t" for s t using that by (rule fed_step_inv)
qed

abbreviation "fed_reachable \<equiv> reachable (\<lambda>m. m = []) fed_step"

section \<open>Properties\<close>

lemma tick_entry_url [simp]: "se_base_url (tick_entry now e) = se_base_url e"
  by (simp add: tick_entry_def Let_def split: option.splits)

lemma fed_step_url:
  "fed_step m m' \<Longrightarrow> slave_get m d = Some e \<Longrightarrow>
     \<exists>e'. slave_get m' d = Some e' \<and> se_base_url e' = se_base_url e"
  by (auto elim!: fed_stepE simp: register_slave_def update_fleet_def Let_def slave_get_tick
      slave_get_update split: option.splits if_splits)

text \<open>A daemon id stays bound to the address that registered it first: no sequence of
registrations, pushes and stale ticks changes the base URL of a known id, and a registration of
the id at another address is refused, naming both addresses, without a change.\<close>

theorem daemon_id_binding:
  assumes "fed_step\<^sup>*\<^sup>* m m'" "slave_get m (se_daemon_id entry) = Some e"
    "se_base_url entry \<noteq> se_base_url e"
  shows "register_slave entry m' =
     (Err \<lparr>dc_daemon_id = se_daemon_id entry, dc_existing_base_url = se_base_url e,
           dc_attempted_base_url = se_base_url entry\<rparr>, m')"
proof -
  have "\<exists>e'. slave_get m' (se_daemon_id entry) = Some e' \<and> se_base_url e' = se_base_url e"
    using assms(1)
  proof (induction rule: rtranclp_induct)
    case base
    with assms(2) show ?case by simp
  next
    case (step m1 m2)
    then show ?case using fed_step_url by fastforce
  qed
  with assms(3) show ?thesis by (auto simp: register_slave_def)
qed

definition sample_slave :: SlaveEntry where
  "sample_slave = \<lparr>se_daemon_id = ''a'', se_hostname = ''host'', se_version = ''1'',
     se_base_url = ''http://host:1'', se_port = 1, se_auth_token = [], se_last_fleet_push = None,
     se_reachability = Reachable, se_fleet_processes = []\<rparr>"

definition sample_push :: "RemoteFleetProcess list" where
  "sample_push = [\<lparr>rp_pid = 7, rp_title = None, rp_toe_path = None, rp_bridge = Connected\<rparr>]"

definition sample_slaves :: SlaveRegistry where
  "sample_slaves = snd (update_fleet ''a'' sample_push 0 (snd (register_slave sample_slave [])))"

lemma sample_slaves_reachable: "fed_reachable sample_slaves"
proof -
  have "fed_reachable []" by (rule reach_init) (rule refl)
  then have "fed_reachable (snd (register_slave sample_slave []))"
    by (rule reach_step) (rule fed_register, rule prod.collapse [symmetric])
  then show ?thesis
    unfolding sample_slaves_def by (rule reach_step) (rule fed_push, rule prod.collapse [symmetric])
qed

theorem daemon_id_binding_witness:
  "fst (register_slave (sample_slave\<lparr>se_base_url := ''http://b''\<rparr>) (tick_stale 9 [(''a'', sample_slave)]))
     = Err \<lparr>dc_daemon_id = ''a'', dc_existing_base_url = ''http://host:1'',
            dc_attempted_base_url = ''http://b''\<rparr>"
proof -
  have "fed_step\<^sup>*\<^sup>* [(''a'', sample_slave)] (tick_stale 9 [(''a'', sample_slave)])"
    using fed_tick by (rule r_into_rtranclp)
  from daemon_id_binding [OF this, of "sample_slave\<lparr>se_base_url := ''http://b''\<rparr>" sample_slave]
  show ?thesis by (simp add: sample_slave_def slave_get_def)
qed

text \<open>A stale tick follows the documented thresholds, counted from the last push: at 10
seconds the slave is unreachable, at 6 seconds it is disconnected, and either way all its
processes are shown disconnected; below 6 seconds, or before any push, nothing changes.  As time
goes on the ticks in between do not matter: only the latest does.\<close>

theorem tick_stale_thresholds:
  assumes "slave_get m d = Some e" "se_last_fleet_push e = Some at" "now \<le> now'"
  shows "\<exists>e'. slave_get (tick_stale now m) d = Some e'
    \<and> se_reachability e' = (if 10000000000 \<le> now - at then Unreachable
         else if 6000000000 \<le> now - at then SlaveDisconnected else se_reachability e)
    \<and> (if 6000000000 \<le> now - at then (\<forall>p \<in> set (se_fleet_processes e'). rp_bridge p = Disconnected)
       else e' = e)
    \<and> map rp_pid (se_fleet_processes e') = map rp_pid (se_fleet_processes e)
    \<and> slave_get (tick_stale now' (tick_stale now m)) d = slave_get (tick_stale now' m) d"
proof -
  have tick: "tick_entry now (e :: SlaveEntry) =
      (if 10000000000 \<le> now - at then e\<lparr>se_reachability := Unreachable,
          se_fleet_processes := map (\<lambda>p. p\<lparr>rp_bridge := Disconnected\<rparr>) (se_fleet_processes e)\<rparr>
       else if 6000000000 \<le> now - at then e\<lparr>se_reachability := SlaveDisconnected,
          se_fleet_processes := map (\<lambda>p. p\<lparr>rp_bridge := Disconnected\<rparr>) (se_fleet_processes e)\<rparr>
       else e)" if "se_last_fleet_push e = Some at" for e now
    using that num_seconds_ge_iff [of 10 "now - at"] num_seconds_ge_iff [of 6 "now - at"]
    by (simp add: tick_entry_def)
  have "tick_entry now' (tick_entry now e) = tick_entry now' e"
    using assms(2,3) by (auto simp: tick comp_def)
  with assms show ?thesis by (auto simp: slave_get_tick tick comp_def)
qed

theorem tick_stale_thresholds_witness:
  "\<exists>e'. slave_get (tick_stale 7000000000 sample_slaves) ''a'' = Some e'
     \<and> se_reachability e' = SlaveDisconnected"
proof -
  have "slave_get sample_slaves ''a'' = Some (sample_slave\<lparr>se_fleet_processes := sample_push,
      se_last_fleet_push := Some 0, se_reachability := Reachable\<rparr>)"
    by (simp add: sample_slaves_def sample_slave_def update_fleet_def register_slave_def slave_get_def)
  from tick_stale_thresholds [OF this, of 0 7000000000 7000000000] show ?thesis by auto
qed

text \<open>Resolving a pid answers \<open>Local\<close> when no reachable slave runs it, \<open>Unique\<close> with the one
that does, and \<open>Ambiguous\<close> with all of them, each with its hostname, when there are several.\<close>

theorem resolve_pid_spec:
  fixes p :: u32
  assumes "fed_reachable m"
  defines "owners \<equiv> {d. \<exists>e. slave_get m d = Some e \<and> se_reachability e \<noteq> Unreachable
    \<and> p \<in> rp_pid ` set (se_fleet_processes e)}"
  shows "(resolve_pid p m = Local \<longleftrightarrow> owners = {})
    \<and> (\<forall>d. resolve_pid p m = Unique d \<longleftrightarrow> owners = {d})
    \<and> (\<forall>hits. resolve_pid p m = Ambiguous hits \<longrightarrow>
        1 < card owners \<and> distinct (map fst hits) \<and> set (map fst hits) = owners
        \<and> (\<forall>(d, h) \<in> set hits. \<exists>e. slave_get m d = Some e \<and> se_hostname e = h))"
proof -
  have inv: "slaves_inv m" by (rule federation.reachable_inv [OF assms(1)])
  let ?hs = "map (\<lambda>e. (se_daemon_id e, se_hostname e)) (filter (owns_pid p) (map snd m))"
  have keyed: "map se_daemon_id (map snd m) = map fst m"
    using slaves_inv_set [OF inv] by auto
  have dist: "distinct (map fst ?hs)"
  proof -
    have "distinct (map se_daemon_id (map snd m))" unfolding keyed using inv by (simp add: slaves_inv_def)
    then have "distinct (map se_daemon_id (filter (owns_pid p) (map snd m)))" by (rule distinct_map_filter)
    then show ?thesis by (simp add: comp_def)
  qed
  have mem: "slave_get m (se_daemon_id e) = Some e" if "e \<in> snd ` set m" for e
    using that slaves_inv_set [OF inv] by auto
  have owns: "owns_pid p e \<longleftrightarrow> se_reachability e \<noteq> Unreachable \<and> p \<in> rp_pid ` set (se_fleet_processes e)" for e
    by (auto simp: owns_pid_def list_ex_iff)
  have set: "set (map fst ?hs) = owners"
  proof (rule set_eqI, rule iffI)
    fix d assume "d \<in> set (map fst ?hs)"
    then obtain e where "e \<in> snd ` set m" "owns_pid p e" "d = se_daemon_id e" by auto
    with mem [of e] owns show "d \<in> owners" by (auto simp: owners_def)
  next
    fix d assume "d \<in> owners"
    then obtain e where e: "slave_get m d = Some e" "owns_pid p e" by (auto simp: owners_def owns)
    moreover have "(d, e) \<in> set m" using e(1) by (simp add: slave_get_def map_of_SomeD)
    ultimately show "d \<in> set (map fst ?hs)" using slave_get_id [OF inv e(1)] by force
  qed
  have host: "\<exists>e. slave_get m d = Some e \<and> se_hostname e = h" if "(d, h) \<in> set ?hs" for d h
    using that mem by auto
  have card: "card owners = length ?hs" using set dist by (metis distinct_card length_map)
  show ?thesis
  proof (cases ?hs rule: remdups_adj.cases)
    case 1
    with set show ?thesis by (auto simp: resolve_pid_def)
  next
    case (2 x)
    with set show ?thesis by (auto simp: resolve_pid_def)
  next
    case (3 x y zs)
    then have res: "resolve_pid p m = Ambiguous ?hs" by (simp add: resolve_pid_def)
    from 3 card have "1 < card owners" by simp
    then have "owners \<noteq> {}" "\<And>d. owners \<noteq> {d}" by auto
    moreover have "1 < card owners \<and> distinct (map fst hits) \<and> set (map fst hits) = owners
        \<and> (\<forall>(d, h) \<in> set hits. \<exists>e. slave_get m d = Some e \<and> se_hostname e = h)"
      if "resolve_pid p m = Ambiguous hits" for hits
    proof -
      have hits: "hits = ?hs" using that res by simp
      show ?thesis unfolding hits using set dist host \<open>1 < card owners\<close> by blast
    qed
    ultimately show ?thesis using res by simp
  qed
qed

theorem resolve_pid_spec_witness: "resolve_pid 7 sample_slaves = Unique ''a''"
proof -
  have get: "slave_get sample_slaves d = (if d = ''a'' then Some (sample_slave\<lparr>se_fleet_processes := sample_push,
      se_last_fleet_push := Some 0, se_reachability := Reachable\<rparr>) else None)" for d
    by (simp add: sample_slaves_def sample_slave_def update_fleet_def register_slave_def slave_get_def)
  show ?thesis
    using resolve_pid_spec [OF sample_slaves_reachable, of 7] by (simp add: get sample_push_def)
qed

end
