(* ===== verification/Numeric.thy ===== *)
theory Numeric
  imports Rust_Std
begin

text \<open>
  Lenient numbers on the wire, \<open>crates/tdmcp-core/src/numeric.rs\<close>: the visitor of
  \<open>impl_lenient_uint!\<close> and its three instances \<open>LenientU32\<close>, \<open>LenientU64\<close> and \<open>Pid\<close>
  (\<open>ids.rs\<close>).  \<open>deserialize_any\<close> on a JSON value calls the visitor method of its kind.
\<close>

section \<open>The visitor\<close>

datatype Unexpected = UnexpBool bool | UnexpUnsigned u64 | UnexpSigned int | UnexpFloat f64
  | UnexpStr string | UnexpUnit | UnexpSeq | UnexpMap

datatype de_error = InvalidValue Unexpected | InvalidType Unexpected

text \<open>\<open>parse_decimal\<close>, at an unsigned type whose largest value is \<open>mx\<close>.\<close>

definition parse_decimal :: "nat \<Rightarrow> string \<Rightarrow> nat option" where
  "parse_decimal mx s = parse_uint mx (trim s)"

definition visit_u64 :: "nat \<Rightarrow> u64 \<Rightarrow> (nat, de_error) result" where
  "visit_u64 mx v = (if unat v \<le> mx then Ok (unat v) else Err (InvalidValue (UnexpUnsigned v)))"

definition visit_i64 :: "nat \<Rightarrow> int \<Rightarrow> (nat, de_error) result" where
  "visit_i64 mx v = (if 0 \<le> v \<and> v \<le> int mx then Ok (nat v) else Err (InvalidValue (UnexpSigned v)))"

text \<open>The integer a finite \<open>f64\<close> stands for when \<open>fract()\<close> is zero.\<close>

definition f64_integral :: "f64 \<Rightarrow> int option" where
  "f64_integral v =
     (case v of
        Finite m e \<Rightarrow> if 0 \<le> e then Some (m * 2 ^ nat e)
                     else if m mod 2 ^ nat (- e) = 0 then Some (m div 2 ^ nat (- e)) else None
      | _ \<Rightarrow> None)"

text \<open>\<open>v as u128\<close> saturates.\<close>

definition visit_f64 :: "nat \<Rightarrow> f64 \<Rightarrow> (nat, de_error) result" where
  "visit_f64 mx v =
     (case f64_integral v of
        Some n \<Rightarrow>
          if 0 \<le> n \<and> min n (2 ^ 128 - 1) \<le> int mx then Ok (nat (min n (2 ^ 128 - 1)))
          else Err (InvalidValue (UnexpFloat v))
      | None \<Rightarrow> Err (InvalidValue (UnexpFloat v)))"

definition visit_str :: "nat \<Rightarrow> string \<Rightarrow> (nat, de_error) result" where
  "visit_str mx s =
     (case parse_decimal mx s of Some n \<Rightarrow> Ok n | None \<Rightarrow> Err (InvalidType (UnexpStr s)))"

definition lenient_uint :: "nat \<Rightarrow> json \<Rightarrow> (nat, de_error) result" where
  "lenient_uint mx v =
     (case v of
        JNumber (PosInt n) \<Rightarrow> visit_u64 mx n
      | JNumber (NegInt n) \<Rightarrow> visit_i64 mx n
      | JNumber (Float f) \<Rightarrow> visit_f64 mx f
      | JString s \<Rightarrow> visit_str mx s
      | JNull \<Rightarrow> Err (InvalidType UnexpUnit)
      | JBool b \<Rightarrow> Err (InvalidType (UnexpBool b))
      | JArray _ \<Rightarrow> Err (InvalidType UnexpSeq)
      | JObject _ \<Rightarrow> Err (InvalidType UnexpMap))"

section \<open>The wire types\<close>

datatype LenientU32 = LenientU32 u32

datatype LenientU64 = LenientU64 u64

datatype Pid = Pid u32

definition deserialize_u32 :: "json \<Rightarrow> (LenientU32, de_error) result" where
  "deserialize_u32 v = map_ok (\<lambda>n. LenientU32 (word_of_nat n)) (lenient_uint (2 ^ 32 - 1) v)"

definition deserialize_u64 :: "json \<Rightarrow> (LenientU64, de_error) result" where
  "deserialize_u64 v = map_ok (\<lambda>n. LenientU64 (word_of_nat n)) (lenient_uint (2 ^ 64 - 1) v)"

definition deserialize_pid :: "json \<Rightarrow> (Pid, de_error) result" where
  "deserialize_pid v = map_ok (\<lambda>n. Pid (word_of_nat n)) (lenient_uint (2 ^ 32 - 1) v)"

text \<open>Serialization (derived, transparent) and \<open>Display\<close>.\<close>

fun serialize_u32 :: "LenientU32 \<Rightarrow> json" where
  "serialize_u32 (LenientU32 n) = JNumber (PosInt (ucast n))"

fun serialize_u64 :: "LenientU64 \<Rightarrow> json" where
  "serialize_u64 (LenientU64 n) = JNumber (PosInt n)"

fun serialize_pid :: "Pid \<Rightarrow> json" where
  "serialize_pid (Pid n) = JNumber (PosInt (ucast n))"

fun display_u32 :: "LenientU32 \<Rightarrow> string" where
  "display_u32 (LenientU32 n) = show_nat (unat n)"

fun display_u64 :: "LenientU64 \<Rightarrow> string" where
  "display_u64 (LenientU64 n) = show_nat (unat n)"

fun display_pid :: "Pid \<Rightarrow> string" where
  "display_pid (Pid n) = show_nat (unat n)"

section \<open>Properties\<close>

lemma digit_char_byte: "d < 10 \<Longrightarrow> byte (digit_char d) = 48 + d"
  by (simp add: digit_char_def byte_def of_char_of)

text \<open>A string that neither starts nor ends with white space is its own trim.\<close>

lemma trim_ident: "ws_len (map byte s) = 0 \<Longrightarrow> ws_len_rev (map byte (rev s)) = 0 \<Longrightarrow> trim s = s"
  unfolding trim_def by (subst trim_start.simps) (simp add: trim_end.simps)

lemma ws_len_digit: "48 \<le> b \<Longrightarrow> b \<le> 57 \<Longrightarrow> ws_len (b # bs) = 0"
  by (auto split: list.splits)

lemma ws_len_rev_digit: "48 \<le> b \<Longrightarrow> b \<le> 57 \<Longrightarrow> ws_len_rev (b # bs) = 0"
proof -
  assume b: "48 \<le> b" "b \<le> 57"
  have "ws_len (c # b # cs) \<noteq> 2" "ws_len (d # c # b # cs) \<noteq> 3" for c d cs
    using b by (auto split: list.splits if_splits)
  moreover have "ws_len [c, b] \<noteq> 3" for c using ws_len_le [of "[c, b]"] by auto
  ultimately show ?thesis using b
    by (cases bs; cases "tl bs") (auto simp: ws_len_rev_def ws_len_digit simp del: ws_len.simps(1))
qed

lemma show_nat_last: "\<exists>ds d. show_nat n = ds @ [digit_char d] \<and> d < 10"
  by (subst show_nat.simps) auto

lemma show_nat_first: "\<exists>d ds. show_nat n = digit_char d # ds \<and> d < 10"
proof (induction n rule: show_nat.induct)
  case (1 n)
  then show ?case by (cases "n < 10") (auto simp: show_nat.simps [of n])
qed

lemma trim_show_nat: "trim (show_nat n) = show_nat n"
proof (rule trim_ident)
  obtain d ds where "show_nat n = digit_char d # ds" "d < 10" using show_nat_first by blast
  then show "ws_len (map byte (show_nat n)) = 0"
    by (simp add: digit_char_byte ws_len_digit del: ws_len.simps)
  obtain d ds where "show_nat n = ds @ [digit_char d]" "d < 10" using show_nat_last by blast
  then show "ws_len_rev (map byte (rev (show_nat n))) = 0"
    by (simp add: digit_char_byte ws_len_rev_digit)
qed

lemma byte_space: "byte (CHR '' '') = 32"
  by (simp add: byte_def)

lemma trim_start_space: "trim_start (CHR '' '' # s) = trim_start s"
  by (subst trim_start.simps) (simp add: byte_space)

lemma trim_end_space: "trim_end (s @ [CHR '' '']) = trim_end s"
  by (subst trim_end.simps) (simp add: byte_space ws_len_rev_def)

lemma trim_start_spaces: "trim_start (replicate i (CHR '' '') @ s) = trim_start s"
  by (induction i) (simp_all add: trim_start_space)

lemma trim_end_spaces: "trim_end (s @ replicate j (CHR '' '')) = trim_end s"
proof (induction j)
  case (Suc j)
  have "s @ replicate (Suc j) (CHR '' '') = (s @ replicate j (CHR '' '')) @ [CHR '' '']"
    by (simp add: replicate_append_same)
  then show ?case using Suc trim_end_space by metis
qed simp

lemma trim_padded:
  "trim (replicate i (CHR '' '') @ show_nat n @ replicate j (CHR '' '')) = show_nat n"
proof -
  obtain d ds where s: "show_nat n = digit_char d # ds" "d < 10" using show_nat_first by blast
  then have "ws_len (map byte (show_nat n @ r)) = 0" for r
    by (simp add: digit_char_byte ws_len_digit del: ws_len.simps)
  then have "trim_start (show_nat n @ r) = show_nat n @ r" for r
    by (subst trim_start.simps) simp
  then have "trim (replicate i (CHR '' '') @ show_nat n @ replicate j (CHR '' '')) = trim_end (show_nat n)"
    by (simp add: trim_def trim_start_spaces trim_end_spaces)
  also have "\<dots> = show_nat n"
    using trim_show_nat [of n] \<open>\<And>r. trim_start (show_nat n @ r) = show_nat n @ r\<close> [of "[]"]
    by (simp add: trim_def)
  finally show ?thesis .
qed

lemma visit_f64_Ok:
  assumes "mx < 2 ^ 128 - 1"
  shows "visit_f64 mx f = Ok n \<longleftrightarrow> f64_integral f = Some (int n) \<and> n \<le> mx"
proof (cases "f64_integral f")
  case (Some i)
  have "int mx < 2 ^ 128 - 1" using assms by simp
  with Some show ?thesis by (auto simp: visit_f64_def min_def)
qed (simp add: visit_f64_def)

lemma lenient_uint_Ok:
  assumes "mx < 2 ^ 128 - 1"
  shows "lenient_uint mx v = Ok n \<longleftrightarrow> n \<le> mx \<and>
    ((\<exists>w. v = JNumber (PosInt w) \<and> unat w = n)
     \<or> v = JNumber (NegInt (int n))
     \<or> (\<exists>f. v = JNumber (Float f) \<and> f64_integral f = Some (int n))
     \<or> (\<exists>s. v = JString s \<and> parse_decimal mx s = Some n))"
proof (cases v)
  case (JNumber k)
  then show ?thesis
    by (cases k) (auto simp: lenient_uint_def visit_u64_def visit_i64_def visit_f64_Ok [OF assms])
next
  case (JString s)
  then show ?thesis
    by (auto simp: lenient_uint_def visit_str_def parse_decimal_def dest: parse_uint_bound split: option.splits)
qed (simp_all add: lenient_uint_def)

lemma unat_ucast_u32: "unat (ucast (a :: u32) :: u64) = unat a"
  by transfer (simp add: take_bit_take_bit min_def)

text \<open>A pid is accepted from exactly these JSON values: an integer or integral float of that
value, or a string that is the number in decimal once trimmed; whatever is accepted is below
\<open>2 ^ 32\<close>, never a wrapped larger number.  The same holds of the 64-bit type.\<close>

theorem lenient_accepts_iff:
  "(deserialize_pid v = Ok (Pid p) \<longleftrightarrow>
     (\<exists>w. v = JNumber (PosInt w) \<and> unat w = unat p)
     \<or> v = JNumber (NegInt (int (unat p)))
     \<or> (\<exists>f. v = JNumber (Float f) \<and> f64_integral f = Some (int (unat p)))
     \<or> (\<exists>s. v = JString s \<and> parse_uint (2 ^ 32 - 1) (trim s) = Some (unat p)))
   \<and> (deserialize_u64 v = Ok (LenientU64 n) \<longleftrightarrow>
     v = JNumber (PosInt n)
     \<or> v = JNumber (NegInt (int (unat n)))
     \<or> (\<exists>f. v = JNumber (Float f) \<and> f64_integral f = Some (int (unat n)))
     \<or> (\<exists>s. v = JString s \<and> parse_uint (2 ^ 64 - 1) (trim s) = Some (unat n)))"
proof -
  have 32: "(2 :: nat) ^ 32 - 1 < 2 ^ 128 - 1" and 64: "(2 :: nat) ^ 64 - 1 < 2 ^ 128 - 1"
    by simp_all
  have p: "deserialize_pid v = Ok (Pid p) \<longleftrightarrow> lenient_uint (2 ^ 32 - 1) v = Ok (unat p)"
  proof (cases "lenient_uint (2 ^ 32 - 1) v")
    case (Ok m)
    then have "m < 2 ^ 32" using lenient_uint_Ok [OF 32] by fastforce
    then have "unat (word_of_nat m :: u32) = m" by (simp add: unsigned_of_nat take_bit_nat_eq_self)
    with Ok show ?thesis by (auto simp: deserialize_pid_def)
  qed (simp add: deserialize_pid_def)
  have n: "deserialize_u64 v = Ok (LenientU64 n) \<longleftrightarrow> lenient_uint (2 ^ 64 - 1) v = Ok (unat n)"
  proof (cases "lenient_uint (2 ^ 64 - 1) v")
    case (Ok m)
    then have "m < 2 ^ 64" using lenient_uint_Ok [OF 64] by fastforce
    then have "unat (word_of_nat m :: u64) = m" by (simp add: unsigned_of_nat take_bit_nat_eq_self)
    with Ok show ?thesis by (auto simp: deserialize_u64_def)
  qed (simp add: deserialize_u64_def)
  have "unat p \<le> 2 ^ 32 - 1" "unat n \<le> 2 ^ 64 - 1"
    using unsigned_less [of p, where ?'a = nat] unat_u64_less [of n] by simp_all
  then show ?thesis
    unfolding p n lenient_uint_Ok [OF 32] lenient_uint_Ok [OF 64] parse_decimal_def
    by (auto simp: word_unat_eq_iff)
qed

text \<open>Every pid and every 64-bit number survives the wire in all its forms: as the plain
number it serializes to, and as its decimal string with any padding of spaces.\<close>

theorem lenient_roundtrip:
  "deserialize_pid (serialize_pid p) = Ok p
   \<and> deserialize_pid (JString (replicate i (CHR '' '') @ display_pid p @ replicate j (CHR '' ''))) = Ok p
   \<and> deserialize_u64 (serialize_u64 n) = Ok n
   \<and> deserialize_u64 (JString (replicate i (CHR '' '') @ display_u64 n @ replicate j (CHR '' ''))) = Ok n"
proof -
  obtain a b where pn: "p = Pid a" "n = LenientU64 b" by (cases p; cases n)
  have "unat a < 2 ^ 32" using unsigned_less [of a, where ?'a = nat] by simp
  moreover have "unat (ucast a :: u64) = unat a" by (rule unat_ucast_u32)
  ultimately show ?thesis
    using pn unat_u64_less [of b]
    by (simp add: deserialize_pid_def deserialize_u64_def lenient_uint_def visit_u64_def visit_str_def
        parse_decimal_def trim_padded parse_uint_show)
qed

text \<open>Rust's integer parser takes a leading plus sign, so the string \<open>+7\<close> is accepted as
seven although the advertised pattern allows digits and white space only.\<close>

theorem plus_sign_accepted:
  "deserialize_pid (JString ''+7'') = Ok (Pid 7) \<and> digit_value (CHR ''+'') = None
   \<and> ws_len [byte (CHR ''+'')] = 0"
  by (simp add: deserialize_pid_def lenient_uint_def visit_str_def parse_decimal_def parse_uint_def
      trim_def trim_start.simps [of "''+7''"] trim_end.simps [of "''+7''"] byte_def ws_len_rev_def
      digit_value_def)

end
