(* ===== verification/Framing.thy ===== *)
theory Framing
  imports Rust_Std
begin

text \<open>
  The transport between daemon and bridge: length-prefixed frames
  (\<open>crates/tdmcp-ipc/src/framing.rs\<close>), the handshake messages (\<open>handshake.rs\<close>) and the handshake
  exchange of the listener (\<open>listener.rs\<close>).  \<open>serde_json\<close> is not under \<open>src/\<close>: a serializer
  \<open>to_vec\<close> and a parser \<open>from_slice\<close> are arguments, and what the code relies on is the hypothesis
  that parsing undoes serializing.  A socket is the bytes the peer sends before it closes and the
  bytes written to it.
\<close>

section \<open>Frames\<close>

datatype 'e FrameError = Incomplete | TooLarge nat | Json 'e | FrameIo

definition MAX_FRAME :: nat where
  "MAX_FRAME = 32 * 1024 * 1024"

definition to_le_bytes :: "u32 \<Rightarrow> u8 list" where
  "to_le_bytes w = map (\<lambda>i. word_of_nat (unat w div 256 ^ i)) [0, 1, 2, 3]"

fun from_le_bytes :: "u8 list \<Rightarrow> nat" where
  "from_le_bytes [] = 0"
| "from_le_bytes (b # bs) = unat b + 256 * from_le_bytes bs"

definition encode :: "('m \<Rightarrow> (u8 list, 'e) result) \<Rightarrow> 'm \<Rightarrow> (u8 list, 'e FrameError) result" where
  "encode to_vec msg =
     (case to_vec msg of
        Err e \<Rightarrow> Err (Json e)
      | Ok body \<Rightarrow>
          if MAX_FRAME < length body then Err (TooLarge (length body))
          else Ok (to_le_bytes (word_of_nat (length body)) @ body))"

definition try_decode :: "(u8 list \<Rightarrow> ('m, 'e) result) \<Rightarrow> u8 list
    \<Rightarrow> ('m option, 'e FrameError) result \<times> u8 list" where
  "try_decode from_slice buf =
     (if length buf < 4 then (Ok None, buf)
      else
        let len = from_le_bytes (take 4 buf) in
        if MAX_FRAME < len then (Err (TooLarge len), buf)
        else if length buf < 4 + len then (Ok None, buf)
        else
          let buf1 = drop 4 buf; body = take len buf1; buf2 = drop len buf1
          in case from_slice body of
               Err e \<Rightarrow> (Err (Json e), buf2)
             | Ok msg \<Rightarrow> (Ok (Some msg), buf2))"

text \<open>The message envelope; \<open>'v\<close> is the JSON value of a payload.\<close>

datatype 'v Message =
    Request (msg_id: string) (msg_method: string) (msg_params: 'v)
  | Response (resp_id: string) (resp_result: "'v option") (resp_error: "'v option")
  | Event (event_name: string) (event_payload: 'v)

section \<open>Handshake messages\<close>

record HandshakeRequest =
  hr_pid :: u32
  hr_protocol_version :: string
  hr_title :: "string option"
  hr_toe_path :: "string option"
  hr_image :: "string option"
  hr_start_time :: "string option"

record HandshakeOffer =
  offer_idle_dead_secs :: "u64 option"
  offer_max_call_wait_secs :: "u64 option"

record HandshakeResponse =
  bridge_package_dir :: string
  daemon_version :: string
  min_daemon :: "string option"
  idle_dead_secs :: "u64 option"
  max_call_wait_secs :: "u64 option"

section \<open>Endpoint errors and the socket\<close>

datatype 'e IpcError = Io | Frame "'e FrameError" | Handshake string | HandshakeTimeout nat
  | Bind string | NotLoopback string

datatype 'e HandshakeFailure = Timeout | Invalid "'e IpcError" | Version string

record socket =
  inbox :: "u8 list"
  outbox :: "u8 list"
  writable :: bool
  closed :: bool

definition HANDSHAKE_IO_TIMEOUT_SECS :: nat where
  "HANDSHAKE_IO_TIMEOUT_SECS = 5"

definition PROTOCOL_VERSION :: string where
  "PROTOCOL_VERSION = ''1''"

definition HANDSHAKE_TIMEOUT_CODE :: string where
  "HANDSHAKE_TIMEOUT_CODE = ''tdmcp.bridge.handshake_timeout''"

definition HANDSHAKE_INVALID_CODE :: string where
  "HANDSHAKE_INVALID_CODE = ''tdmcp.bridge.handshake_invalid''"

definition PROTOCOL_MISMATCH_CODE :: string where
  "PROTOCOL_MISMATCH_CODE = ''tdmcp.bridge.protocol_mismatch''"

text \<open>\<open>read_exact\<close>: the bytes, or an end-of-file error that consumed what there was.\<close>

definition read_exact :: "nat \<Rightarrow> socket \<Rightarrow> (u8 list, 'e IpcError) result \<times> socket" where
  "read_exact n s =
     (if n \<le> length (inbox s) then (Ok (take n (inbox s)), s\<lparr>inbox := drop n (inbox s)\<rparr>)
      else (Err Io, s\<lparr>inbox := []\<rparr>))"

definition write_all :: "u8 list \<Rightarrow> socket \<Rightarrow> (unit, 'e IpcError) result \<times> socket" where
  "write_all bs s = (if writable s then (Ok (), s\<lparr>outbox := outbox s @ bs\<rparr>) else (Err Io, s))"

definition read_msg :: "(u8 list \<Rightarrow> ('m, 'e) result) \<Rightarrow> socket \<Rightarrow> ('m, 'e IpcError) result \<times> socket" where
  "read_msg from_slice s =
     (case read_exact 4 s of
        (Err e, s1) \<Rightarrow> (Err e, s1)
      | (Ok len_buf, s1) \<Rightarrow>
          let len = from_le_bytes len_buf in
          if MAX_FRAME < len then (Err (Frame (TooLarge len)), s1)
          else (case read_exact len s1 of
              (Err e, s2) \<Rightarrow> (Err e, s2)
            | (Ok body, s2) \<Rightarrow> (map_err (\<lambda>e. Frame (Json e)) (from_slice body), s2)))"

definition write_msg :: "('m \<Rightarrow> (u8 list, 'e) result) \<Rightarrow> 'm \<Rightarrow> socket \<Rightarrow> (unit, 'e IpcError) result \<times> socket" where
  "write_msg to_vec msg s =
     (case encode to_vec msg of
        Err e \<Rightarrow> (Err (Frame e), s)
      | Ok bytes \<Rightarrow> write_all bytes s)"

section \<open>The exchange\<close>

text \<open>\<open>IpAddr\<close> parsing and the loopback test are those of \<open>std::net\<close>: 127.0.0.0/8 and ::1.\<close>

datatype IpAddr = V4 "nat list" | V6 "nat list"

definition is_loopback :: "IpAddr \<Rightarrow> bool" where
  "is_loopback ip = (case ip of V4 bs \<Rightarrow> bs \<noteq> [] \<and> hd bs = 127 | V6 hs \<Rightarrow> hs = [0, 0, 0, 0, 0, 0, 0, 1])"

definition resolve_loopback :: "(string \<Rightarrow> IpAddr option) \<Rightarrow> string \<Rightarrow> u16
    \<Rightarrow> (IpAddr \<times> u16, 'e IpcError) result" where
  "resolve_loopback parse_ip host port =
     (case (if map to_ascii_lower host = ''localhost'' then Some (V4 [127, 0, 0, 1]) else parse_ip host) of
        None \<Rightarrow> Err (NotLoopback host)
      | Some ip \<Rightarrow> if \<not> is_loopback ip then Err (NotLoopback host) else Ok (ip, port))"

text \<open>\<open>rejection\<close>: \<open>show\<close> is the \<open>Display\<close> of an error, \<open>debug\<close> the \<open>Debug\<close> of a string.\<close>

definition rejection :: "('e IpcError \<Rightarrow> string) \<Rightarrow> (string \<Rightarrow> string) \<Rightarrow> 'e HandshakeFailure
    \<Rightarrow> string \<times> string" where
  "rejection show debug f =
     (case f of
        Timeout \<Rightarrow> (HANDSHAKE_TIMEOUT_CODE,
          ''bridge sent no handshake frame within 5s; re-embed the shipped bootstrap tox'')
      | Invalid e \<Rightarrow> (HANDSHAKE_INVALID_CODE,
          ''bridge handshake frame unreadable: '' @ show e @ ''; re-embed the shipped bootstrap tox'')
      | Version v \<Rightarrow> (PROTOCOL_MISMATCH_CODE,
          ''bridge protocol_version '' @ debug v @ '' not supported, daemon speaks ''
          @ PROTOCOL_VERSION @ ''; re-embed the shipped bootstrap tox''))"

definition into_ipc_error :: "('e IpcError \<Rightarrow> string) \<Rightarrow> (string \<Rightarrow> string) \<Rightarrow> 'e HandshakeFailure
    \<Rightarrow> 'e IpcError" where
  "into_ipc_error show debug f =
     (case f of
        Timeout \<Rightarrow> HandshakeTimeout HANDSHAKE_IO_TIMEOUT_SECS
      | Invalid e \<Rightarrow> e
      | Version v \<Rightarrow> Handshake (snd (rejection show debug (Version v :: 'e HandshakeFailure))))"

record 'e codec =
  de_request :: "u8 list \<Rightarrow> (HandshakeRequest, 'e) result"
  ser_response :: "HandshakeResponse \<Rightarrow> (u8 list, 'e) result"
  ser_value :: "json \<Rightarrow> (u8 list, 'e) result"
  show_error :: "'e IpcError \<Rightarrow> string"
  debug_str :: "string \<Rightarrow> string"

definition handshake_exchange :: "'e codec \<Rightarrow> string \<Rightarrow> string \<Rightarrow> HandshakeOffer \<Rightarrow> socket
    \<Rightarrow> (HandshakeRequest, 'e HandshakeFailure) result \<times> socket" where
  "handshake_exchange c pkg version offer s =
     (case read_msg (de_request c) s of
        (Err e, s1) \<Rightarrow> (Err (Invalid e), s1)
      | (Ok req, s1) \<Rightarrow>
          if hr_protocol_version req \<noteq> PROTOCOL_VERSION then
            (Err (Version (hr_protocol_version req)), s1)
          else
            let resp = \<lparr>bridge_package_dir = pkg, daemon_version = version, min_daemon = None,
                  idle_dead_secs = offer_idle_dead_secs offer,
                  max_call_wait_secs = offer_max_call_wait_secs offer\<rparr>
            in (case write_msg (ser_response c) resp s1 of
                  (Err e, s2) \<Rightarrow> (Err (Invalid e), s2)
                | (Ok _, s2) \<Rightarrow> (Ok req, s2)))"

definition rejection_body :: "'e codec \<Rightarrow> 'e HandshakeFailure \<Rightarrow> json" where
  "rejection_body c f =
     (let (code, message) = rejection (show_error c) (debug_str c) f
      in JObject [(''ok'', JBool False), (''code'', JString code), (''message'', JString message)])"

text \<open>The error frame is best effort; then the write side is shut down and the input drained.\<close>

definition reject_handshake :: "'e codec \<Rightarrow> 'e HandshakeFailure \<Rightarrow> socket \<Rightarrow> 'e IpcError \<times> socket" where
  "reject_handshake c f s =
     (let (_, s1) = write_msg (ser_value c) (rejection_body c f) s :: (unit, 'e IpcError) result \<times> socket
      in (into_ipc_error (show_error c) (debug_str c) f, s1\<lparr>inbox := [], closed := True\<rparr>))"

text \<open>
  \<open>complete_handshake_io\<close>: the exchange runs under a timer.  \<open>expires\<close> is \<open>None\<close> when it ends
  in time, otherwise the socket as the interrupted exchange left it.
\<close>

definition complete_handshake_io :: "'e codec \<Rightarrow> string \<Rightarrow> string \<Rightarrow> HandshakeOffer \<Rightarrow> socket option
    \<Rightarrow> socket \<Rightarrow> (HandshakeRequest, 'e IpcError) result \<times> socket" where
  "complete_handshake_io c pkg version offer expires s =
     (case expires of
        Some s1 \<Rightarrow> let (e, s2) = reject_handshake c Timeout s1 in (Err e, s2)
      | None \<Rightarrow>
          (case handshake_exchange c pkg version offer s of
             (Ok req, s1) \<Rightarrow> (Ok req, s1)
           | (Err f, s1) \<Rightarrow> let (e, s2) = reject_handshake c f s1 in (Err e, s2)))"

section \<open>Properties\<close>

lemma from_to_le_bytes: "from_le_bytes (to_le_bytes w) = unat w"
proof -
  have u: "unat w < 2 ^ 32" using unsigned_less [of w, where ?'a = nat] by simp
  have b: "unat (word_of_nat n :: u8) = n mod 256" for n
    by (simp add: unsigned_of_nat take_bit_eq_mod)
  have "from_le_bytes (to_le_bytes w) = unat w mod 256 + 256 * ((unat w div 256) mod 256
      + 256 * ((unat w div 256 ^ 2) mod 256 + 256 * ((unat w div 256 ^ 3) mod 256)))"
    by (simp only: to_le_bytes_def list.map from_le_bytes.simps b power_0 div_by_1 power_one_right
        mult_0_right add_0_right)
  also have "\<dots> = unat w"
  proof -
    have d: "unat w div 256 ^ 2 = unat w div 256 div 256" "unat w div 256 ^ 3 = unat w div 256 div 256 div 256"
      by (simp_all add: div_mult2_eq [symmetric])
    have "unat w div 256 div 256 div 256 < 256"
      using u by (simp add: div_mult2_eq [symmetric] less_mult_imp_div_less)
    then have top: "(unat w div 256 div 256 div 256) mod 256 = unat w div 256 div 256 div 256"
      by (rule mod_less)
    have fold: "m mod 256 + 256 * (m div 256) = m" for m :: nat by simp
    show ?thesis unfolding d top fold ..
  qed
  finally show ?thesis .
qed

lemma length_to_le_bytes [simp]: "length (to_le_bytes w) = 4"
  by (simp add: to_le_bytes_def)

lemma encode_Ok:
  assumes "encode to_vec msg = Ok bytes"
  obtains body where "to_vec msg = Ok body" "length body \<le> MAX_FRAME"
    "bytes = to_le_bytes (word_of_nat (length body)) @ body"
    "from_le_bytes (take 4 bytes) = length body" "length bytes = 4 + length body"
proof -
  obtain body where b: "to_vec msg = Ok body" "length body \<le> MAX_FRAME"
    "bytes = to_le_bytes (word_of_nat (length body)) @ body"
    using assms by (auto simp: encode_def split: result.splits if_splits)
  then have "length body < 2 ^ 32" by (simp add: MAX_FRAME_def)
  then have "unat (word_of_nat (length body) :: u32) = length body"
    by (simp add: unsigned_of_nat take_bit_nat_eq_self)
  with b that show ?thesis by (simp add: from_to_le_bytes)
qed


definition byte_codec :: "u8 \<Rightarrow> (u8 list, unit) result" where
  "byte_codec b = Ok [b]"

definition byte_parser :: "u8 list \<Rightarrow> (u8, unit) result" where
  "byte_parser bs = (case bs of [b] \<Rightarrow> Ok b | _ \<Rightarrow> Err ())"


text \<open>The frame limit is enforced on both sides: the encoder never produces a body above 32 MiB, and
a decoder that reads such a length in a header refuses it at once, before any body byte has to
arrive, leaving the buffer as it is; a frame whose JSON is malformed is consumed whole, so the
next frame is still found.\<close>

theorem frame_limits:
  "(encode to_vec msg = Ok bytes \<longrightarrow> length bytes \<le> 4 + 33554432)
   \<and> (4 \<le> length buf \<longrightarrow> 33554432 < from_le_bytes (take 4 buf) \<longrightarrow>
        try_decode from_slice buf = (Err (TooLarge (from_le_bytes (take 4 buf))), buf))
   \<and> (try_decode from_slice buf = (Err (Json e), rest) \<longrightarrow>
        (\<exists>frame. buf = frame @ rest \<and> length frame = 4 + from_le_bytes (take 4 buf)
           \<and> from_slice (drop 4 frame) = Err e))"
proof (intro conjI impI)
  assume "encode to_vec msg = Ok bytes"
  then show "length bytes \<le> 4 + 33554432"
    by (elim encode_Ok) (simp add: MAX_FRAME_def)
next
  assume "4 \<le> length buf" "33554432 < from_le_bytes (take 4 buf)"
  then show "try_decode from_slice buf = (Err (TooLarge (from_le_bytes (take 4 buf))), buf)"
    by (simp add: try_decode_def MAX_FRAME_def)
next
  assume "try_decode from_slice buf = (Err (Json e), rest)"
  then have "\<not> length buf < 4 + from_le_bytes (take 4 buf)"
    and "rest = drop (from_le_bytes (take 4 buf)) (drop 4 buf)"
    and "from_slice (take (from_le_bytes (take 4 buf)) (drop 4 buf)) = Err e"
    by (auto simp: try_decode_def Let_def split: if_splits result.splits)
  then show "\<exists>frame. buf = frame @ rest \<and> length frame = 4 + from_le_bytes (take 4 buf)
      \<and> from_slice (drop 4 frame) = Err e"
    by (intro exI [of _ "take (4 + from_le_bytes (take 4 buf)) buf"]) (simp add: drop_take add.commute)
qed

theorem frame_limits_witness:
  "try_decode byte_parser [0, 0, 0, 3] = (Err (TooLarge 50331648), [0, 0, 0, 3])"
  using frame_limits [of byte_codec 0 "[]" "[0, 0, 0, 3]" byte_parser "()" "[]"] by simp

lemma read_exact_frame [simp]:
  "outbox (snd (read_exact n s)) = outbox s" "writable (snd (read_exact n s)) = writable s"
  "closed (snd (read_exact n s)) = closed s"
  by (simp_all add: read_exact_def)

lemma read_msg_frame:
  fixes de :: "u8 list \<Rightarrow> ('m, 'e) result"
  assumes "read_msg de s = (r, s')"
  shows "outbox s' = outbox s \<and> writable s' = writable s \<and> closed s' = closed s"
proof -
  obtain r1 :: "(u8 list, 'e IpcError) result" and s1 where 1: "read_exact 4 s = (r1, s1)"
    by (metis surj_pair)
  from read_exact_frame [of 4 s] 1 have f1: "outbox s1 = outbox s" "writable s1 = writable s" "closed s1 = closed s"
    by (metis snd_conv)+
  show ?thesis
  proof (cases r1)
    case (Ok lb)
    obtain r2 :: "(u8 list, 'e IpcError) result" and s2 where 2: "read_exact (from_le_bytes lb) s1 = (r2, s2)"
      by (metis surj_pair)
    from read_exact_frame [of "from_le_bytes lb" s1] 2
    have "outbox s2 = outbox s1" "writable s2 = writable s1" "closed s2 = closed s1" by (metis snd_conv)+
    with assms 1 2 Ok f1 show ?thesis
      by (auto simp: read_msg_def Let_def split: if_splits result.splits)
  qed (use assms 1 f1 in \<open>simp add: read_msg_def\<close>)
qed

lemma write_msg_writable:
  "writable s \<Longrightarrow> write_msg ser m s =
     (case encode ser m of Ok b \<Rightarrow> (Ok (), s\<lparr>outbox := outbox s @ b\<rparr>) | Err e \<Rightarrow> (Err (Frame e), s))"
  by (simp add: write_msg_def write_all_def split: result.splits)

text \<open>What a peer finds in the socket after a rejection.\<close>

definition rejection_frame :: "'e codec \<Rightarrow> 'e HandshakeFailure \<Rightarrow> u8 list" where
  "rejection_frame c f =
     (case encode (ser_value c) (rejection_body c f) of Ok b \<Rightarrow> b | Err _ \<Rightarrow> [])"

lemma reject_writable:
  "writable s \<Longrightarrow> reject_handshake c f s = (into_ipc_error (show_error c) (debug_str c) f,
     s\<lparr>outbox := outbox s @ rejection_frame c f, inbox := [], closed := True\<rparr>)"
  by (simp add: reject_handshake_def write_msg_writable rejection_frame_def split: result.splits)

text \<open>A connection performs exactly one handshake: it is accepted only when the first frame is
a request of the protocol version the daemon speaks, and the peer then finds the one response frame with
the offered budgets; every other outcome leaves one error frame with the code of its cause, closes the connection and is
reported as an error.\<close>

theorem handshake_outcome:
  assumes "writable s" "outbox s = []" "\<not> closed s"
    and "complete_handshake_io c pkg version offer None s = (res, s')"
  shows "case res of
      Ok req \<Rightarrow> fst (read_msg (de_request c) s) = Ok req \<and> hr_protocol_version req = ''1''
        \<and> encode (ser_response c) \<lparr>bridge_package_dir = pkg, daemon_version = version, min_daemon = None,
             idle_dead_secs = offer_idle_dead_secs offer,
             max_call_wait_secs = offer_max_call_wait_secs offer\<rparr> = Ok (outbox s') \<and> \<not> closed s'
    | Err e \<Rightarrow> closed s' \<and> (\<exists>f. e = into_ipc_error (show_error c) (debug_str c) f
        \<and> outbox s' = rejection_frame c f
        \<and> (\<forall>v. f = Version v \<longleftrightarrow> v \<noteq> ''1'' \<and>
             (\<exists>req. fst (read_msg (de_request c) s) = Ok req \<and> hr_protocol_version req = v)))"
proof -
  let ?resp = "\<lparr>bridge_package_dir = pkg, daemon_version = version, min_daemon = None,
    idle_dead_secs = offer_idle_dead_secs offer, max_call_wait_secs = offer_max_call_wait_secs offer\<rparr>"
  obtain r s1 where rd: "read_msg (de_request c) s = (r, s1)" by (cases "read_msg (de_request c) s")
  with read_msg_frame [OF rd] assms have s1: "writable s1" "outbox s1 = []" "\<not> closed s1" by simp_all
  show ?thesis
  proof (cases r)
    case (Err e)
    with rd s1 assms(4) show ?thesis
      by (auto simp: complete_handshake_io_def handshake_exchange_def reject_writable)
  next
    case (Ok req)
    show ?thesis
    proof (cases "hr_protocol_version req = ''1''")
      case False
      with Ok rd s1 assms(4) show ?thesis
        by (auto simp: complete_handshake_io_def handshake_exchange_def reject_writable PROTOCOL_VERSION_def)
    next
      case True
      with Ok rd s1 assms(4) show ?thesis
        by (cases "encode (ser_response c) ?resp")
           (auto simp: complete_handshake_io_def handshake_exchange_def reject_writable write_msg_writable
             PROTOCOL_VERSION_def)
    qed
  qed
qed

definition sample_codec :: "unit codec" where
  "sample_codec = \<lparr>de_request = (\<lambda>bs. if bs = [1] then Ok \<lparr>hr_pid = 7, hr_protocol_version = ''0'',
       hr_title = None, hr_toe_path = None, hr_image = None, hr_start_time = None\<rparr> else Err ()),
     ser_response = (\<lambda>_. Ok [2]), ser_value = (\<lambda>_. Ok [3]), show_error = (\<lambda>_. []), debug_str = id\<rparr>"

definition sample_socket :: socket where
  "sample_socket = \<lparr>inbox = [1, 0, 0, 0, 1], outbox = [], writable = True, closed = False\<rparr>"

theorem handshake_outcome_witness:
  "closed (snd (complete_handshake_io sample_codec [] [] \<lparr>offer_idle_dead_secs = None,
     offer_max_call_wait_secs = None\<rparr> None sample_socket))"
proof -
  let ?o = "\<lparr>offer_idle_dead_secs = None, offer_max_call_wait_secs = None\<rparr>"
  obtain res s' where run: "complete_handshake_io sample_codec [] [] ?o None sample_socket = (res, s')"
    by (cases "complete_handshake_io sample_codec [] [] ?o None sample_socket")
  have "fst (read_msg (de_request sample_codec) sample_socket) = Ok \<lparr>hr_pid = 7, hr_protocol_version = ''0'',
       hr_title = None, hr_toe_path = None, hr_image = None, hr_start_time = None\<rparr>"
    by (simp add: read_msg_def read_exact_def sample_codec_def sample_socket_def MAX_FRAME_def)
  moreover note handshake_outcome [OF _ _ _ run]
  ultimately show ?thesis using run by (cases res) (auto simp: sample_socket_def)
qed

end
