(* ===== verification/Receipts.thy ===== *)
theory Receipts
  imports Rust_Std
begin

text \<open>
  Receipts for operations with external effects: the vocabulary of
  \<open>crates/tdmcp-core/src/output.rs\<close>, \<open>tdmcp-mcp/src/evidence.rs\<close> (errors and owner ids) and
  the types of \<open>tdmcp-daemon/src/opjournal.rs\<close>, and the contract of the trait
  \<open>OperationJournal\<close>.  A trait object is the record \<open>journal_ops\<close> of its methods; the locale
  \<open>operation_journal\<close> states what every backend promises over the abstract \<open>view\<close> of a journal, a map from
  receipt ids to receipts, and proves once what follows for any sequence of calls.
\<close>

section \<open>Vocabulary\<close>

datatype OperationState = OpAdmitted | OpQueued | OpDispatched | OpRunning | OpWaitExpired
  | OpCompleted | OpFailed | OpCancelled | OpUnknownEffect

datatype EffectState = NotApplicable | PreventedBeforeDispatch | NoEffect | Applied
  | PartiallyApplied | EffUnknown

datatype ReceiptState = Admitted | Dispatched | WaitExpired | Completed | RFailed | Cancelled
  | UnknownEffect

datatype EvidenceError =
    InvalidInput string
  | NotFound
  | AccessDenied
  | Expired
  | Released
  | QuotaExceeded string
  | TransferTooLarge
  | OffsetMismatch u64 u64
  | HashMismatch
  | Corrupt
  | UnknownRepresentation string
  | InvalidCursor
  | AlreadyFinalized
  | EvIncomplete string
  | Conflict
  | EvIo string
  | Backend string
  | CommitUncertain string
  | IncompatibleSchema int int
  | UnsupportedPlatform string
  | InjectedFailure string

type_synonym OwnerId = string

fun is_terminal :: "ReceiptState \<Rightarrow> bool" where
  "is_terminal Completed = True"
| "is_terminal RFailed = True"
| "is_terminal Cancelled = True"
| "is_terminal UnknownEffect = True"
| "is_terminal _ = False"

fun state_str :: "ReceiptState \<Rightarrow> string" where
  "state_str Admitted = ''admitted''"
| "state_str Dispatched = ''dispatched''"
| "state_str WaitExpired = ''wait_expired''"
| "state_str Completed = ''completed''"
| "state_str RFailed = ''failed''"
| "state_str Cancelled = ''cancelled''"
| "state_str UnknownEffect = ''unknown_effect''"

definition parse_state :: "string \<Rightarrow> ReceiptState option" where
  "parse_state s =
     (if s = ''admitted'' then Some Admitted
      else if s = ''dispatched'' then Some Dispatched
      else if s = ''wait_expired'' then Some WaitExpired
      else if s = ''completed'' then Some Completed
      else if s = ''failed'' then Some RFailed
      else if s = ''cancelled'' then Some Cancelled
      else if s = ''unknown_effect'' then Some UnknownEffect
      else None)"

fun to_operation_state :: "ReceiptState \<Rightarrow> OperationState" where
  "to_operation_state Admitted = OpAdmitted"
| "to_operation_state Dispatched = OpDispatched"
| "to_operation_state WaitExpired = OpWaitExpired"
| "to_operation_state Completed = OpCompleted"
| "to_operation_state RFailed = OpFailed"
| "to_operation_state Cancelled = OpCancelled"
| "to_operation_state UnknownEffect = OpUnknownEffect"

fun effect_str :: "EffectState \<Rightarrow> string" where
  "effect_str NotApplicable = ''not_applicable''"
| "effect_str PreventedBeforeDispatch = ''prevented_before_dispatch''"
| "effect_str NoEffect = ''none''"
| "effect_str Applied = ''applied''"
| "effect_str PartiallyApplied = ''partially_applied''"
| "effect_str EffUnknown = ''unknown''"

definition parse_effect :: "string \<Rightarrow> EffectState option" where
  "parse_effect s =
     (if s = ''not_applicable'' then Some NotApplicable
      else if s = ''prevented_before_dispatch'' then Some PreventedBeforeDispatch
      else if s = ''none'' then Some NoEffect
      else if s = ''applied'' then Some Applied
      else if s = ''partially_applied'' then Some PartiallyApplied
      else if s = ''unknown'' then Some EffUnknown
      else None)"

lemma parse_state_str [simp]: "parse_state (state_str st) = Some st"
  by (cases st) (simp_all add: parse_state_def)

lemma parse_state_SomeD: "parse_state s = Some st \<Longrightarrow> s = state_str st"
  by (auto simp: parse_state_def split: if_splits)

lemma state_str_inj [simp]: "state_str a = state_str b \<longleftrightarrow> a = b"
  by (metis option.inject parse_state_str)

lemma parse_effect_str [simp]: "parse_effect (effect_str ef) = Some ef"
  by (cases ef) (simp_all add: parse_effect_def)

lemma parse_effect_SomeD: "parse_effect s = Some ef \<Longrightarrow> s = effect_str ef"
  by (auto simp: parse_effect_def split: if_splits)

text \<open>Terminal or wait-expired receipts are history; the others hold an admission slot.\<close>

definition holds_slot :: "ReceiptState \<Rightarrow> bool" where
  "holds_slot st \<longleftrightarrow> st = Admitted \<or> st = Dispatched"

lemma holds_slot_iff: "holds_slot st \<longleftrightarrow> \<not> is_terminal st \<and> st \<noteq> WaitExpired"
  by (cases st) (simp_all add: holds_slot_def)

definition unresolved_state :: "ReceiptState \<Rightarrow> bool" where
  "unresolved_state st \<longleftrightarrow> st = Dispatched \<or> st = WaitExpired \<or> st = UnknownEffect"

definition recoverable :: "ReceiptState \<Rightarrow> bool" where
  "recoverable st \<longleftrightarrow> st = Dispatched \<or> st = WaitExpired"

section \<open>Receipts\<close>

record CallerResolution =
  cr_observed_effect :: EffectState
  cr_note :: "string option"
  cr_resolved_at_ms :: int

record OperationReceipt =
  rc_id :: string
  rc_owner :: string
  rc_subject :: string
  rc_state :: ReceiptState
  rc_effect :: EffectState
  rc_detail :: "string option"
  rc_created_at_ms :: int
  rc_updated_at_ms :: int
  rc_expires_at_ms :: "int option"
  rc_resolution :: "CallerResolution option"

record OperationOutcome =
  oo_state :: OperationState
  oo_effect :: EffectState

definition receipt_outcome :: "OperationReceipt \<Rightarrow> OperationOutcome" where
  "receipt_outcome r = \<lparr>oo_state = to_operation_state (rc_state r), oo_effect = rc_effect r\<rparr>"

record OperationCounts =
  oc_total :: nat
  oc_in_flight :: nat
  oc_unresolved :: nat

record JournalConfig =
  max_rows_per_owner :: u64
  max_total_rows :: u64
  max_in_flight_per_owner :: u64
  max_in_flight_total :: u64
  max_detail_bytes :: u64
  retention_millis :: nat

definition config_default :: JournalConfig where
  "config_default = \<lparr>max_rows_per_owner = 512, max_total_rows = 4096, max_in_flight_per_owner = 64,
     max_in_flight_total = 512, max_detail_bytes = 8 * 1024, retention_millis = 24 * 60 * 60 * 1000\<rparr>"

definition retention_ms :: "JournalConfig \<Rightarrow> int" where
  "retention_ms cfg = min (int (retention_millis cfg)) (2 ^ 63 - 1)"

text \<open>
  What one call meets in its environment: the wall clock, read several times (the \<open>i\<close>-th reading
  of \<open>now_ms()\<close>), the UUID it draws, whether the mutex is free of poison, and whether its \<open>i\<close>-th
  SQL statement succeeds (with the message when it does not).
\<close>

record env =
  clock :: "nat \<Rightarrow> int"
  new_uuid :: string
  lock_ok :: bool
  db_ok :: "nat \<Rightarrow> bool"
  db_msg :: "nat \<Rightarrow> string"

definition env_ok :: "env \<Rightarrow> bool" where
  "env_ok env \<longleftrightarrow> lock_ok env \<and> (\<forall>i. db_ok env i)"

definition new_id :: "env \<Rightarrow> string" where
  "new_id env = ''op_'' @ new_uuid env"

section \<open>The trait\<close>

text \<open>\<open>list\<close> is \<open>None\<close> when \<open>u64::clamp\<close> panics (a configuration with no rows per owner).\<close>

record 'j journal_ops =
  j_admit :: "env \<Rightarrow> OwnerId \<Rightarrow> string \<Rightarrow> string option \<Rightarrow> 'j \<Rightarrow> (string, EvidenceError) result \<times> 'j"
  j_mark_dispatched :: "env \<Rightarrow> OwnerId \<Rightarrow> string \<Rightarrow> 'j \<Rightarrow> (unit, EvidenceError) result \<times> 'j"
  j_finish :: "env \<Rightarrow> OwnerId \<Rightarrow> string \<Rightarrow> ReceiptState \<Rightarrow> EffectState \<Rightarrow> string option \<Rightarrow> 'j
    \<Rightarrow> (unit, EvidenceError) result \<times> 'j"
  j_mark_wait_expired :: "env \<Rightarrow> OwnerId \<Rightarrow> string \<Rightarrow> string \<Rightarrow> 'j \<Rightarrow> (unit, EvidenceError) result \<times> 'j"
  j_mark_not_sent :: "env \<Rightarrow> OwnerId \<Rightarrow> string \<Rightarrow> string \<Rightarrow> 'j \<Rightarrow> (unit, EvidenceError) result \<times> 'j"
  j_get :: "env \<Rightarrow> OwnerId \<Rightarrow> string \<Rightarrow> 'j \<Rightarrow> (OperationReceipt option, EvidenceError) result"
  j_resolve :: "env \<Rightarrow> OwnerId \<Rightarrow> string \<Rightarrow> EffectState \<Rightarrow> string option \<Rightarrow> 'j
    \<Rightarrow> (OperationReceipt, EvidenceError) result \<times> 'j"
  j_list :: "env \<Rightarrow> OwnerId \<Rightarrow> u64 \<Rightarrow> 'j \<Rightarrow> (OperationReceipt list, EvidenceError) result option"
  j_counts :: "env \<Rightarrow> OwnerId \<Rightarrow> 'j \<Rightarrow> (OperationCounts, EvidenceError) result"
  j_recover :: "env \<Rightarrow> 'j \<Rightarrow> (OperationReceipt list, EvidenceError) result \<times> 'j"

text \<open>\<open>OwnerId::parse\<close>.\<close>

definition parse_owner :: "string \<Rightarrow> (OwnerId, EvidenceError) result" where
  "parse_owner v =
     (if v = [] \<or> 256 < length v \<or> has_control v then
        Err (InvalidInput ''OwnerId must be nonempty, bounded, and contain no control characters'')
      else Ok v)"

section \<open>Requests\<close>

text \<open>The four guarded transitions of the trait, with what each expects and records.\<close>

datatype request =
    Dispatch
  | Finish ReceiptState EffectState "string option"
  | WaitExpire string
  | NotSent string

fun req_expected :: "request \<Rightarrow> ReceiptState" where
  "req_expected Dispatch = Admitted"
| "req_expected (Finish st ef d) = Dispatched"
| "req_expected (WaitExpire d) = Dispatched"
| "req_expected (NotSent d) = Admitted"

fun req_next :: "request \<Rightarrow> ReceiptState" where
  "req_next Dispatch = Dispatched"
| "req_next (Finish st ef d) = st"
| "req_next (WaitExpire d) = WaitExpired"
| "req_next (NotSent d) = Cancelled"

fun req_effect :: "request \<Rightarrow> EffectState" where
  "req_effect Dispatch = EffUnknown"
| "req_effect (Finish st ef d) = ef"
| "req_effect (WaitExpire d) = EffUnknown"
| "req_effect (NotSent d) = PreventedBeforeDispatch"

fun req_detail :: "request \<Rightarrow> string option" where
  "req_detail Dispatch = None"
| "req_detail (Finish st ef d) = d"
| "req_detail (WaitExpire d) = Some d"
| "req_detail (NotSent d) = Some d"

fun req_sound :: "request \<Rightarrow> bool" where
  "req_sound (Finish st ef d) = (is_terminal st \<and> \<not> (st = Completed \<and> ef = EffUnknown))"
| "req_sound _ = True"

definition perform :: "'j journal_ops \<Rightarrow> env \<Rightarrow> OwnerId \<Rightarrow> string \<Rightarrow> request \<Rightarrow> 'j
    \<Rightarrow> (unit, EvidenceError) result \<times> 'j" where
  "perform ops env owner i req j =
     (case req of
        Dispatch \<Rightarrow> j_mark_dispatched ops env owner i j
      | Finish st ef d \<Rightarrow> j_finish ops env owner i st ef d j
      | WaitExpire d \<Rightarrow> j_mark_wait_expired ops env owner i d j
      | NotSent d \<Rightarrow> j_mark_not_sent ops env owner i d j)"

text \<open>What a performed request makes of a receipt; times apart, nothing else changes.\<close>

definition moved :: "request \<Rightarrow> OperationReceipt \<Rightarrow> OperationReceipt \<Rightarrow> bool" where
  "moved req r r' \<longleftrightarrow>
     rc_id r' = rc_id r \<and> rc_owner r' = rc_owner r \<and> rc_subject r' = rc_subject r
     \<and> rc_created_at_ms r' = rc_created_at_ms r \<and> rc_resolution r' = rc_resolution r
     \<and> rc_state r' = req_next req \<and> rc_effect r' = req_effect req
     \<and> rc_detail r' = (case req_detail req of None \<Rightarrow> rc_detail r | Some d \<Rightarrow> Some d)
     \<and> (rc_expires_at_ms r' = None \<longleftrightarrow> holds_slot (req_next req))"

definition recovered :: "OperationReceipt \<Rightarrow> OperationReceipt \<Rightarrow> bool" where
  "recovered r r' \<longleftrightarrow> recoverable (rc_state r) \<and>
     (\<exists>t u. r' = r\<lparr>rc_state := UnknownEffect, rc_effect := EffUnknown, rc_updated_at_ms := t,
        rc_expires_at_ms := Some u\<rparr>)"

definition resolved :: "EffectState \<Rightarrow> string option \<Rightarrow> OperationReceipt \<Rightarrow> OperationReceipt \<Rightarrow> bool" where
  "resolved ef note r r' \<longleftrightarrow> unresolved_state (rc_state r) \<and>
     (\<exists>t u. r' = r\<lparr>rc_resolution := Some \<lparr>cr_observed_effect = ef, cr_note = note,
        cr_resolved_at_ms = t\<rparr>, rc_updated_at_ms := u\<rparr>)"

definition admitted_receipt :: "string \<Rightarrow> OwnerId \<Rightarrow> string \<Rightarrow> string option \<Rightarrow> int \<Rightarrow> OperationReceipt" where
  "admitted_receipt i owner subject detail now =
     \<lparr>rc_id = i, rc_owner = owner, rc_subject = subject, rc_state = Admitted,
      rc_effect = NotApplicable, rc_detail = detail, rc_created_at_ms = now,
      rc_updated_at_ms = now, rc_expires_at_ms = None, rc_resolution = None\<rparr>"

definition visible :: "(string \<rightharpoonup> OperationReceipt) \<Rightarrow> OwnerId \<Rightarrow> string \<Rightarrow> OperationReceipt option" where
  "visible m owner i = (case m i of Some r \<Rightarrow> if rc_owner r = owner then Some r else None | None \<Rightarrow> None)"

text \<open>Pruning may only drop history.\<close>

definition survives :: "(string \<rightharpoonup> OperationReceipt) \<Rightarrow> (string \<rightharpoonup> OperationReceipt) \<Rightarrow> bool" where
  "survives m m' \<longleftrightarrow> (\<forall>i. m' i = m i \<or> (m' i = None \<and> (\<exists>r. m i = Some r \<and> rc_expires_at_ms r \<noteq> None)))"

definition receipt_ok :: "OperationReceipt \<Rightarrow> bool" where
  "receipt_ok r \<longleftrightarrow>
     (rc_expires_at_ms r = None \<longleftrightarrow> holds_slot (rc_state r))
     \<and> (rc_state r = Admitted \<longrightarrow> rc_effect r = NotApplicable)
     \<and> (rc_state r \<in> {Dispatched, WaitExpired} \<longrightarrow> rc_effect r = EffUnknown)
     \<and> (rc_state r = Completed \<longrightarrow> rc_effect r \<noteq> EffUnknown)
     \<and> (rc_resolution r \<noteq> None \<longrightarrow> rc_state r \<noteq> Admitted)"

lemma receipt_ok_admitted: "receipt_ok (admitted_receipt i owner subject detail now)"
  by (simp add: receipt_ok_def admitted_receipt_def holds_slot_def)

lemma receipt_ok_moved:
  "receipt_ok r \<Longrightarrow> rc_state r = req_expected req \<Longrightarrow> req_sound req \<Longrightarrow> moved req r r' \<Longrightarrow> receipt_ok r'"
  by (cases req) (auto simp: receipt_ok_def moved_def)

lemma receipt_ok_recovered: "receipt_ok r \<Longrightarrow> recovered r r' \<Longrightarrow> receipt_ok r'"
  by (simp add: receipt_ok_def recovered_def holds_slot_def recoverable_def) (elim conjE exE disjE; simp)

lemma receipt_ok_resolved: "receipt_ok r \<Longrightarrow> resolved ef note r r' \<Longrightarrow> receipt_ok r'"
  unfolding receipt_ok_def resolved_def unresolved_state_def by (elim conjE exE disjE; simp)

lemma resolved_id: "resolved ef note r r' \<Longrightarrow> rc_id r' = rc_id r"
  unfolding resolved_def by (elim conjE exE; simp)

lemma recovered_id: "recovered r r' \<Longrightarrow> rc_id r' = rc_id r"
  unfolding recovered_def by (elim conjE exE; simp)

lemma survives_refl [simp]: "survives m m"
  by (simp add: survives_def)

lemma survives_trans:
  assumes "survives a b" "survives b c" shows "survives a c"
  unfolding survives_def
proof
  fix i
  show "c i = a i \<or> (c i = None \<and> (\<exists>r. a i = Some r \<and> rc_expires_at_ms r \<noteq> None))"
    using assms(1) [unfolded survives_def, rule_format, of i] assms(2) [unfolded survives_def, rule_format, of i]
    by (cases "a i"; cases "b i") auto
qed

section \<open>Sequences of calls\<close>

text \<open>
  One call on a shared journal, by anybody.  The set of ids ever handed out stands for the
  uniqueness of version 4 UUIDs: an admission draws an id that was never used.
\<close>

inductive journal_step :: "'j journal_ops \<Rightarrow> string set \<times> 'j \<Rightarrow> string set \<times> 'j \<Rightarrow> bool"
  for ops :: "'j journal_ops" where
  step_perform: "perform ops env owner i req j = (res, j') \<Longrightarrow> journal_step ops (U, j) (U, j')"
| step_admit: "new_id env \<notin> U \<Longrightarrow> j_admit ops env owner subject detail j = (ares, j') \<Longrightarrow>
    journal_step ops (U, j) (insert (new_id env) U, j')"
| step_resolve: "j_resolve ops env owner i ef note j = (rres, j') \<Longrightarrow> journal_step ops (U, j) (U, j')"
| step_recover: "j_recover ops env j = (vres, j') \<Longrightarrow> journal_step ops (U, j) (U, j')"

inductive_cases journal_stepE [consumes 1, case_names perform admit resolve recover]: "journal_step ops (U, j) (U', j')"

text \<open>The lifecycle: every edge a receipt may take.\<close>

inductive lifecycle :: "ReceiptState \<Rightarrow> ReceiptState \<Rightarrow> bool" where
  "lifecycle Admitted Dispatched"
| "lifecycle Admitted Cancelled"
| "is_terminal st \<Longrightarrow> lifecycle Dispatched st"
| "lifecycle Dispatched WaitExpired"
| "lifecycle WaitExpired UnknownEffect"

inductive_simps lifecycle_from: "lifecycle a b"

lemma lifecycle_terminal: "lifecycle a b \<Longrightarrow> \<not> is_terminal a"
  by (auto elim: lifecycle.cases)

lemma lifecycle_rtranclp_terminal: "lifecycle\<^sup>*\<^sup>* a b \<Longrightarrow> is_terminal a \<Longrightarrow> b = a"
  by (induction rule: rtranclp_induct) (auto dest: lifecycle_terminal)

lemma lifecycle_rtranclp_wait: "lifecycle\<^sup>*\<^sup>* WaitExpired b \<Longrightarrow> b = WaitExpired \<or> b = UnknownEffect"
  by (induction rule: rtranclp_induct) (auto elim: lifecycle.cases)

lemma moved_lifecycle:
  "rc_state r = req_expected req \<Longrightarrow> req_sound req \<Longrightarrow> moved req r r' \<Longrightarrow> lifecycle (rc_state r) (rc_state r')"
  by (cases req) (auto simp: moved_def intro: lifecycle.intros)

lemma recovered_lifecycle: "recovered r r' \<Longrightarrow> lifecycle (rc_state r) (rc_state r')"
  using lifecycle.intros(3) [of UnknownEffect] lifecycle.intros(5)
  by (auto simp: recovered_def recoverable_def)

text \<open>What the future can make of a receipt.\<close>

definition evolves :: "OperationReceipt \<Rightarrow> OperationReceipt \<Rightarrow> bool" where
  "evolves r r' \<longleftrightarrow>
     rc_id r' = rc_id r \<and> rc_owner r' = rc_owner r \<and> rc_subject r' = rc_subject r
     \<and> rc_created_at_ms r' = rc_created_at_ms r
     \<and> lifecycle\<^sup>*\<^sup>* (rc_state r) (rc_state r')
     \<and> (is_terminal (rc_state r) \<longrightarrow> rc_effect r' = rc_effect r \<and> rc_detail r' = rc_detail r)
     \<and> (rc_state r = WaitExpired \<longrightarrow> rc_effect r' = rc_effect r)"

lemma evolves_refl [simp]: "evolves r r"
  by (simp add: evolves_def)

lemma evolves_moved:
  assumes "evolves r s" "rc_state s = req_expected req" "req_sound req" "moved req s s'"
  shows "evolves r s'"
proof -
  have nt: "\<not> is_terminal (rc_state r)"
    using assms(1,2) lifecycle_rtranclp_terminal by (cases req) (fastforce simp: evolves_def)+
  have nw: "rc_state r \<noteq> WaitExpired"
    using assms(1,2) lifecycle_rtranclp_wait by (cases req) (fastforce simp: evolves_def)+
  have "lifecycle\<^sup>*\<^sup>* (rc_state r) (rc_state s')"
    using assms(1) moved_lifecycle [OF assms(2-4)] by (auto simp: evolves_def intro: rtranclp.rtrancl_into_rtrancl)
  with assms(1,4) nt nw show ?thesis by (simp add: evolves_def moved_def)
qed

lemma evolves_recovered:
  assumes "evolves r s" "receipt_ok r" "receipt_ok s" "recovered s s'" shows "evolves r s'"
proof -
  have nt: "\<not> is_terminal (rc_state r)"
    using assms(1,4) lifecycle_rtranclp_terminal by (fastforce simp: evolves_def recovered_def recoverable_def)
  have path: "lifecycle\<^sup>*\<^sup>* (rc_state r) (rc_state s')"
    using assms(1) recovered_lifecycle [OF assms(4)]
    unfolding evolves_def by (meson rtranclp.rtrancl_into_rtrancl)
  have "rc_state r = WaitExpired \<longrightarrow> rc_effect r = EffUnknown"
    using assms(2) by (simp add: receipt_ok_def)
  moreover obtain t u where "s' = s\<lparr>rc_state := UnknownEffect, rc_effect := EffUnknown,
      rc_updated_at_ms := t, rc_expires_at_ms := Some u\<rparr>" using assms(4) by (auto simp: recovered_def)
  ultimately show ?thesis using assms(1) nt path by (simp add: evolves_def)
qed

lemma evolves_resolved: "evolves r s \<Longrightarrow> resolved ef note s s' \<Longrightarrow> evolves r s'"
  by (auto simp: evolves_def resolved_def)

text \<open>The receipts that occupy an admission slot, of one owner and of all.\<close>

definition slots :: "(string \<rightharpoonup> OperationReceipt) \<Rightarrow> OwnerId \<Rightarrow> string set" where
  "slots m owner = {i. \<exists>r. m i = Some r \<and> rc_owner r = owner \<and> rc_expires_at_ms r = None}"

definition all_slots :: "(string \<rightharpoonup> OperationReceipt) \<Rightarrow> string set" where
  "all_slots m = {i. \<exists>r. m i = Some r \<and> rc_expires_at_ms r = None}"

definition keeps_slots :: "(string \<rightharpoonup> OperationReceipt) \<Rightarrow> (string \<rightharpoonup> OperationReceipt) \<Rightarrow> bool" where
  "keeps_slots m m' \<longleftrightarrow> (\<forall>i r'. m' i = Some r' \<and> rc_expires_at_ms r' = None \<longrightarrow>
     (\<exists>r. m i = Some r \<and> rc_owner r = rc_owner r' \<and> rc_expires_at_ms r = None))"

lemma keeps_slots_sub:
  "keeps_slots m m' \<Longrightarrow> slots m' owner \<subseteq> slots m owner" "keeps_slots m m' \<Longrightarrow> all_slots m' \<subseteq> all_slots m"
  unfolding keeps_slots_def slots_def all_slots_def by blast+

lemma survives_slots:
  assumes "survives m m'" shows "slots m' owner = slots m owner" "all_slots m' = all_slots m"
proof -
  have "m' i = m i \<or> (m' i = None \<and> (\<exists>r. m i = Some r \<and> rc_expires_at_ms r \<noteq> None))" for i
    using assms by (simp add: survives_def)
  then have "(m' i = Some r \<and> rc_expires_at_ms r = None) \<longleftrightarrow> (m i = Some r \<and> rc_expires_at_ms r = None)" for i r
    by (metis option.distinct(1) option.inject)
  then show "slots m' owner = slots m owner" "all_slots m' = all_slots m"
    by (auto simp: slots_def all_slots_def)
qed

section \<open>The contract of a journal\<close>

locale operation_journal =
  fixes ops :: "'j journal_ops"
    and wf :: "'j \<Rightarrow> bool"
    and view :: "'j \<Rightarrow> string \<rightharpoonup> OperationReceipt"
    and accepts :: "request \<Rightarrow> bool"
  assumes view_ok: "wf j \<Longrightarrow> view j i = Some r \<Longrightarrow> receipt_ok r \<and> rc_id r = i"
    and perform_wf: "wf j \<Longrightarrow> perform ops env owner i req j = (res, j') \<Longrightarrow> wf j'"
    and perform_Ok: "wf j \<Longrightarrow> perform ops env owner i req j = (Ok u, j') \<Longrightarrow>
      req_sound req \<and> (\<exists>r r'. view j i = Some r \<and> rc_owner r = owner \<and> rc_state r = req_expected req
        \<and> moved req r r' \<and> view j' = (view j)(i \<mapsto> r'))"
    and perform_Err: "wf j \<Longrightarrow> perform ops env owner i req j = (Err e, j') \<Longrightarrow> view j' = view j"
    and perform_live: "wf j \<Longrightarrow> env_ok env \<Longrightarrow> req_sound req \<Longrightarrow> accepts req \<Longrightarrow>
      fst (perform ops env owner i req j) =
        (case visible (view j) owner i of
           None \<Rightarrow> Err NotFound
         | Some r \<Rightarrow> if rc_state r = req_expected req then Ok () else Err Conflict)"
    and get_Ok: "wf j \<Longrightarrow> j_get ops env owner i j = Ok x \<Longrightarrow> x = visible (view j) owner i"
    and get_live: "wf j \<Longrightarrow> env_ok env \<Longrightarrow> is_ok (j_get ops env owner i j)"
    and admit_wf: "wf j \<Longrightarrow> view j (new_id env) = None \<Longrightarrow>
      j_admit ops env owner subject detail j = (ares, j') \<Longrightarrow> wf j'"
    and admit_Ok: "wf j \<Longrightarrow> view j (new_id env) = None \<Longrightarrow>
      j_admit ops env owner subject detail j = (Ok i, j') \<Longrightarrow>
      i = new_id env \<and> (\<exists>m now. survives (view j) m \<and>
        view j' = m(i \<mapsto> admitted_receipt i owner subject detail now))"
    and admit_Err: "wf j \<Longrightarrow> view j (new_id env) = None \<Longrightarrow>
      j_admit ops env owner subject detail j = (Err e, j') \<Longrightarrow> survives (view j) (view j')"
    and resolve_wf: "wf j \<Longrightarrow> j_resolve ops env owner i ef note j = (rres, j') \<Longrightarrow> wf j'"
    and resolve_view: "wf j \<Longrightarrow> j_resolve ops env owner i ef note j = (rres, j') \<Longrightarrow>
      (view j' = view j \<and> \<not> is_ok rres) \<or> (\<exists>r r'. visible (view j) owner i = Some r \<and> resolved ef note r r'
        \<and> view j' = (view j)(i \<mapsto> r') \<and> (\<forall>x. rres = Ok x \<longrightarrow> x = r'))"
    and recover_wf: "wf j \<Longrightarrow> j_recover ops env j = (vres, j') \<Longrightarrow> wf j'"
    and recover_view: "wf j \<Longrightarrow> j_recover ops env j = (vres, j') \<Longrightarrow>
      rel_option (\<lambda>r r'. r' = r \<or> recovered r r') (view j k) (view j' k)"
    and recover_Ok: "wf j \<Longrightarrow> j_recover ops env j = (Ok rs, j') \<Longrightarrow> view j' k = Some r \<Longrightarrow>
      \<not> recoverable (rc_state r)"
    and recover_live: "wf j \<Longrightarrow> env_ok env \<Longrightarrow> is_ok (fst (j_recover ops env j))"
begin

text \<open>A call leaves the receipts it does not name alone, up to pruning of history.\<close>

lemma perform_other:
  assumes "wf j" "perform ops env owner i req j = (res, j')" "k \<noteq> i"
  shows "view j' k = view j k"
proof (cases res)
  case (Ok u)
  with assms perform_Ok [OF assms(1), of env owner i req u j'] show ?thesis by auto
next
  case (Err e)
  with assms perform_Err [OF assms(1), of env owner i req e j'] show ?thesis by simp
qed

text \<open>No call but an admission takes a slot.\<close>

lemma perform_keeps_slots:
  assumes "wf j" "perform ops env owner i req j = (res, j')"
  shows "keeps_slots (view j) (view j')"
proof (cases res)
  case (Err e)
  with perform_Err [OF assms(1), of env owner i req e j'] assms(2) show ?thesis by (simp add: keeps_slots_def)
next
  case (Ok u)
  then obtain r r' where r: "req_sound req" "view j i = Some r" "rc_state r = req_expected req"
    "moved req r r'" "view j' = (view j)(i \<mapsto> r')"
    using perform_Ok [OF assms(1), of env owner i req u j'] assms(2) by auto
  have "rc_expires_at_ms r = None" if "rc_expires_at_ms r' = None"
    using that r(1,3,4) view_ok [OF assms(1) r(2)] by (cases req) (auto simp: moved_def receipt_ok_def holds_slot_iff)
  with r(2,4,5) show ?thesis by (auto simp: keeps_slots_def moved_def)
qed

lemma resolve_keeps_slots:
  assumes "wf j" "j_resolve ops env owner i ef remark j = (rres, j')"
  shows "keeps_slots (view j) (view j')"
proof -
  have same: "resolved ef remark r r' \<Longrightarrow> rc_expires_at_ms r' = rc_expires_at_ms r \<and> rc_owner r' = rc_owner r" for r r'
    unfolding resolved_def by (elim conjE exE; simp)
  from resolve_view [OF assms] show ?thesis
    by (auto simp: keeps_slots_def visible_def dest: same split: option.splits if_splits)
qed

lemma recover_keeps_slots:
  assumes "wf j" "j_recover ops env j = (vres, j')"
  shows "keeps_slots (view j) (view j')"
  unfolding keeps_slots_def
proof (intro allI impI)
  fix i r' assume r': "view j' i = Some r' \<and> rc_expires_at_ms r' = None"
  have "\<not> recovered r r'" for r using r' unfolding recovered_def by (intro notI) (elim conjE exE; simp)
  then show "\<exists>r. view j i = Some r \<and> rc_owner r = rc_owner r' \<and> rc_expires_at_ms r = None"
    using recover_view [OF assms, of i] r' by (cases "view j i") auto
qed

lemma step_wf_used:
  assumes "journal_step ops (U, j) (U', j')" "wf j" "dom (view j) \<subseteq> U"
  shows "wf j' \<and> dom (view j') \<subseteq> U' \<and> U \<subseteq> U'"
  using assms(1)
proof (cases rule: journal_stepE)
  case (perform env owner i req res)
  have "dom (view j') \<subseteq> dom (view j)"
  proof (cases res)
    case (Ok u)
    with perform_Ok [OF assms(2), of env owner i req u j'] perform obtain r r' where
      "view j i = Some r" "view j' = (view j)(i \<mapsto> r')" by blast
    then show ?thesis by auto
  next
    case (Err e)
    with perform_Err [OF assms(2), of env owner i req e j'] perform show ?thesis by simp
  qed
  with perform assms perform_wf show ?thesis by blast
next
  case (admit env owner subject detail ares)
  then have fresh: "view j (new_id env) = None" using assms(3) by blast
  have "dom (view j') \<subseteq> insert (new_id env) (dom (view j))"
  proof (cases ares)
    case (Ok i)
    then obtain m now where "survives (view j) m" "view j' = m(i \<mapsto> admitted_receipt i owner subject detail now)"
      "i = new_id env" using admit_Ok [OF assms(2) fresh] admit by blast
    then show ?thesis by (auto simp: survives_def dom_def split: if_splits) (metis option.distinct(1))
  next
    case (Err e)
    then have "survives (view j) (view j')" using admit_Err [OF assms(2) fresh] admit by blast
    then show ?thesis by (auto simp: survives_def dom_def) (metis option.distinct(1))
  qed
  with admit assms fresh admit_wf [OF assms(2) fresh] show ?thesis by blast
next
  case (resolve env owner i ef remark rres)
  then have "dom (view j') \<subseteq> dom (view j)"
    using resolve_view [OF assms(2) resolve(2)] by (auto simp: visible_def split: option.splits if_splits)
  with resolve assms resolve_wf show ?thesis by blast
next
  case (recover env vres)
  have "dom (view j') \<subseteq> dom (view j)"
  proof
    fix x assume "x \<in> dom (view j')"
    with recover_view [OF assms(2) recover(2), of x] show "x \<in> dom (view j)"
      by (cases "view j x"; cases "view j' x") auto
  qed
  with recover assms recover_wf show ?thesis by blast
qed

lemma step_evolves:
  assumes "journal_step ops (U, j) (U', j')" "wf j" "dom (view j) \<subseteq> U" "k \<in> U" "receipt_ok r"
    and "\<And>s. view j k = Some s \<Longrightarrow> evolves r s" and "view j' k = Some s'"
  shows "evolves r s'"
  using assms(1)
proof (cases rule: journal_stepE)
  case (perform env owner i req res)
  show ?thesis
  proof (cases "k = i")
    case False
    with perform assms perform_other show ?thesis by metis
  next
    case True
    show ?thesis
    proof (cases res)
      case (Err e)
      with perform_Err [OF assms(2), of env owner i req e j'] perform assms(6,7) show ?thesis by simp
    next
      case (Ok u)
      then obtain s where "req_sound req" "view j i = Some s" "rc_state s = req_expected req" "moved req s s'"
        using perform_Ok [OF assms(2), of env owner i req u j'] perform assms(7) True by auto
      then show ?thesis using assms(6) True evolves_moved by blast
    qed
  qed
next
  case (admit env owner subject detail ares)
  then have fresh: "view j (new_id env) = None" and ne: "k \<noteq> new_id env" using assms(3,4) by auto
  have "view j k = Some s'"
  proof (cases ares)
    case (Ok i)
    then obtain m now where "survives (view j) m" "view j' = m(i \<mapsto> admitted_receipt i owner subject detail now)"
      "i = new_id env" using admit_Ok [OF assms(2) fresh] admit by blast
    then show ?thesis using assms(7) ne by (auto simp: survives_def) (metis option.distinct(1))
  next
    case (Err e)
    then have "survives (view j) (view j')" using admit_Err [OF assms(2) fresh] admit by blast
    then show ?thesis using assms(7) by (auto simp: survives_def) (metis option.distinct(1))
  qed
  then show ?thesis by (rule assms(6))
next
  case (resolve env owner i ef remark rres)
  consider "view j' = view j" | s t where "view j i = Some s" "resolved ef remark s t" "view j' = (view j)(i \<mapsto> t)"
    using resolve_view [OF assms(2) resolve(2)] by (auto simp: visible_def split: option.splits if_splits)
  then show ?thesis using assms(6,7) evolves_resolved by (cases) (auto split: if_splits)
next
  case (recover env vres)
  obtain s where s: "view j k = Some s" "s' = s \<or> recovered s s'"
    using recover_view [OF assms(2) recover(2), of k] assms(7) by (auto simp: option_rel_Some2)
  then show ?thesis using assms(5,6) view_ok [OF assms(2) s(1)] evolves_recovered by blast
qed

text \<open>Over any sequence of calls a receipt only evolves along its lifecycle.\<close>

lemma steps_evolve:
  assumes "(journal_step ops)\<^sup>*\<^sup>* (U, j) (U', j')" "wf j" "dom (view j) \<subseteq> U" "view j k = Some r"
  shows "wf j' \<and> dom (view j') \<subseteq> U' \<and> U \<subseteq> U' \<and> (\<forall>r'. view j' k = Some r' \<longrightarrow> evolves r r')"
  using assms(1)
proof (induction "(U', j')" arbitrary: U' j' rule: rtranclp_induct)
  case base
  with assms show ?case by simp
next
  case (step y)
  obtain U1 j1 where y: "y = (U1, j1)" by (cases y)
  have IH: "wf j1" "dom (view j1) \<subseteq> U1" "U \<subseteq> U1" "\<And>s. view j1 k = Some s \<Longrightarrow> evolves r s"
    using step(3) [of U1 j1] y by blast+
  have st: "journal_step ops (U1, j1) (U', j')" using step(2) y by simp
  have "k \<in> U1" using assms(3,4) IH(3) by blast
  with step_wf_used [OF st IH(1,2)] step_evolves [OF st IH(1,2) _ _ IH(4)] view_ok [OF assms(2,4)] IH(3)
  show ?case by blast
qed

text \<open>What nobody observed never turns into an observation.\<close>

lemma unobserved_stays_unknown:
  assumes "(journal_step ops)\<^sup>*\<^sup>* (U, j) (U', j')" "wf j" "dom (view j) \<subseteq> U"
    "view j k = Some r" "rc_state r = WaitExpired" "view j' k = Some r'"
  shows "rc_state r' \<in> {WaitExpired, UnknownEffect} \<and> rc_effect r' = EffUnknown"
proof -
  have "evolves r r'" using steps_evolve [OF assms(1-4)] assms(6) by blast
  moreover have "rc_effect r = EffUnknown" using view_ok [OF assms(2,4)] assms(5) by (auto simp: receipt_ok_def)
  ultimately show ?thesis using lifecycle_rtranclp_wait assms(5) by (auto simp: evolves_def)
qed

end

end
