(* ===== verification/MemoryJournal.thy ===== *)
theory MemoryJournal
  imports Receipts
begin

text \<open>
  The in-memory backend \<open>MemoryOperationJournal\<close> of \<open>crates/tdmcp-daemon/src/opjournal.rs\<close>,
  and the proof that it meets the contract \<open>operation_journal\<close>.  Its state, the mutex-guarded
  \<open>HashMap\<close>, is an association list.
\<close>

type_synonym memory_journal = "(string \<times> OperationReceipt) list"

section \<open>Operations\<close>

definition detail_exceeds :: "JournalConfig \<Rightarrow> string \<Rightarrow> bool" where
  "detail_exceeds cfg d \<longleftrightarrow> unat (max_detail_bytes cfg) < length d"

definition detail_exceeds_error :: EvidenceError where
  "detail_exceeds_error = QuotaExceeded ''operation receipt detail exceeds the configured bound''"

definition subject_error :: EvidenceError where
  "subject_error = InvalidInput ''operation subject must be nonempty and bounded''"

definition control_error :: EvidenceError where
  "control_error = InvalidInput ''operation receipt detail must not contain control characters''"

definition completed_unknown_error :: EvidenceError where
  "completed_unknown_error = InvalidInput
     ''a completed receipt must state a known effect; use unknown_effect for an unobserved dispatch''"

fun state_debug :: "ReceiptState \<Rightarrow> string" where
  "state_debug Admitted = ''Admitted''"
| "state_debug Dispatched = ''Dispatched''"
| "state_debug WaitExpired = ''WaitExpired''"
| "state_debug Completed = ''Completed''"
| "state_debug RFailed = ''Failed''"
| "state_debug Cancelled = ''Cancelled''"
| "state_debug UnknownEffect = ''UnknownEffect''"

definition not_terminal_error :: "ReceiptState \<Rightarrow> EvidenceError" where
  "not_terminal_error st = InvalidInput (''receipt state '' @ state_debug st @ '' is not terminal'')"

definition mem_view :: "memory_journal \<Rightarrow> string \<rightharpoonup> OperationReceipt" where
  "mem_view j = map_of j"

definition mem_new :: memory_journal where
  "mem_new = []"

definition mem_admit :: "JournalConfig \<Rightarrow> env \<Rightarrow> OwnerId \<Rightarrow> string \<Rightarrow> string option \<Rightarrow> memory_journal
    \<Rightarrow> (string, EvidenceError) result \<times> memory_journal" where
  "mem_admit cfg env owner subject detail j =
     (if subject = [] \<or> 128 < length subject then (Err subject_error, j)
      else if (case detail of Some d \<Rightarrow> detail_exceeds cfg d | None \<Rightarrow> False) then
        (Err detail_exceeds_error, j)
      else
        let now = clock env 0; i = new_id env;
            receipt = \<lparr>rc_id = i, rc_owner = owner, rc_subject = subject, rc_state = Admitted,
              rc_effect = NotApplicable, rc_detail = detail, rc_created_at_ms = now,
              rc_updated_at_ms = now, rc_expires_at_ms = None, rc_resolution = None\<rparr>
        in if \<not> lock_ok env then (Err Conflict, j)
           else (Ok i, AList.update i receipt j))"

text \<open>\<open>get_mut(id).filter(owner)\<close> under the lock, then the body.\<close>

definition mem_with :: "env \<Rightarrow> OwnerId \<Rightarrow> string \<Rightarrow> memory_journal
    \<Rightarrow> (OperationReceipt \<Rightarrow> (OperationReceipt, EvidenceError) result)
    \<Rightarrow> (OperationReceipt, EvidenceError) result \<times> memory_journal" where
  "mem_with env owner i j body =
     (if \<not> lock_ok env then (Err Conflict, j)
      else (case map_of j i of
          None \<Rightarrow> (Err NotFound, j)
        | Some receipt \<Rightarrow>
            if rc_owner receipt \<noteq> owner then (Err NotFound, j)
            else (case body receipt of
                Err e \<Rightarrow> (Err e, j)
              | Ok receipt' \<Rightarrow> (Ok receipt', AList.update i receipt' j))))"

definition unit_result :: "('a, 'e) result \<times> 's \<Rightarrow> (unit, 'e) result \<times> 's" where
  "unit_result p = (case p of (Ok _, s) \<Rightarrow> (Ok (), s) | (Err e, s) \<Rightarrow> (Err e, s))"

definition mem_mark_dispatched :: "env \<Rightarrow> OwnerId \<Rightarrow> string \<Rightarrow> memory_journal
    \<Rightarrow> (unit, EvidenceError) result \<times> memory_journal" where
  "mem_mark_dispatched env owner i j = unit_result (mem_with env owner i j (\<lambda>receipt.
     if rc_state receipt \<noteq> Admitted then Err Conflict
     else Ok (receipt\<lparr>rc_state := Dispatched, rc_effect := EffUnknown,
       rc_updated_at_ms := clock env 0\<rparr>)))"

definition mem_finish :: "JournalConfig \<Rightarrow> env \<Rightarrow> OwnerId \<Rightarrow> string \<Rightarrow> ReceiptState \<Rightarrow> EffectState
    \<Rightarrow> string option \<Rightarrow> memory_journal \<Rightarrow> (unit, EvidenceError) result \<times> memory_journal" where
  "mem_finish cfg env owner i st ef detail j =
     (if \<not> is_terminal st then (Err (not_terminal_error st), j)
      else if st = Completed \<and> ef = EffUnknown then (Err completed_unknown_error, j)
      else if (case detail of Some d \<Rightarrow> detail_exceeds cfg d | None \<Rightarrow> False) then
        (Err detail_exceeds_error, j)
      else
        let now = clock env 0 in
        unit_result (mem_with env owner i j (\<lambda>receipt.
          if rc_state receipt \<noteq> Dispatched then Err Conflict
          else Ok (receipt\<lparr>rc_state := st, rc_effect := ef,
            rc_detail := (if detail \<noteq> None then detail else rc_detail receipt),
            rc_updated_at_ms := now, rc_expires_at_ms := Some (now + retention_ms cfg)\<rparr>))))"

definition mem_mark_wait_expired :: "JournalConfig \<Rightarrow> env \<Rightarrow> OwnerId \<Rightarrow> string \<Rightarrow> string \<Rightarrow> memory_journal
    \<Rightarrow> (unit, EvidenceError) result \<times> memory_journal" where
  "mem_mark_wait_expired cfg env owner i detail j =
     (if detail_exceeds cfg detail then (Err detail_exceeds_error, j)
      else unit_result (mem_with env owner i j (\<lambda>receipt.
        if rc_state receipt \<noteq> Dispatched then Err Conflict
        else Ok (receipt\<lparr>rc_state := WaitExpired, rc_effect := EffUnknown, rc_detail := Some detail,
          rc_updated_at_ms := clock env 0,
          rc_expires_at_ms := Some (clock env 0 + retention_ms cfg)\<rparr>))))"

definition mem_mark_not_sent :: "JournalConfig \<Rightarrow> env \<Rightarrow> OwnerId \<Rightarrow> string \<Rightarrow> string \<Rightarrow> memory_journal
    \<Rightarrow> (unit, EvidenceError) result \<times> memory_journal" where
  "mem_mark_not_sent cfg env owner i detail j =
     (if detail_exceeds cfg detail then (Err detail_exceeds_error, j)
      else unit_result (mem_with env owner i j (\<lambda>receipt.
        if rc_state receipt \<noteq> Admitted then Err Conflict
        else Ok (receipt\<lparr>rc_state := Cancelled, rc_effect := PreventedBeforeDispatch,
          rc_detail := Some detail, rc_updated_at_ms := clock env 0,
          rc_expires_at_ms := Some (clock env 1 + retention_ms cfg)\<rparr>))))"

definition mem_resolve :: "JournalConfig \<Rightarrow> env \<Rightarrow> OwnerId \<Rightarrow> string \<Rightarrow> EffectState \<Rightarrow> string option
    \<Rightarrow> memory_journal \<Rightarrow> (OperationReceipt, EvidenceError) result \<times> memory_journal" where
  "mem_resolve cfg env owner i ef remark j =
     (if (case remark of Some n \<Rightarrow> detail_exceeds cfg n | None \<Rightarrow> False) then (Err detail_exceeds_error, j)
      else if (case remark of Some n \<Rightarrow> has_control n | None \<Rightarrow> False) then (Err control_error, j)
      else
        let now = clock env 0 in
        mem_with env owner i j (\<lambda>receipt.
          if \<not> (rc_state receipt = Dispatched \<or> rc_state receipt = WaitExpired
              \<or> rc_state receipt = UnknownEffect) then Err Conflict
          else Ok (receipt\<lparr>rc_resolution := Some \<lparr>cr_observed_effect = ef, cr_note = remark,
              cr_resolved_at_ms = now\<rparr>, rc_updated_at_ms := now\<rparr>)))"

definition mem_get :: "env \<Rightarrow> OwnerId \<Rightarrow> string \<Rightarrow> memory_journal
    \<Rightarrow> (OperationReceipt option, EvidenceError) result" where
  "mem_get env owner i j =
     (if \<not> lock_ok env then Err Conflict
      else Ok (case map_of j i of None \<Rightarrow> None | Some r \<Rightarrow> if rc_owner r = owner then Some r else None))"

text \<open>Newest first, ties broken by the larger id.\<close>

definition newest_first :: "OperationReceipt list \<Rightarrow> OperationReceipt list" where
  "newest_first rs = rev (sort_key (\<lambda>r. (rc_created_at_ms r, rc_id r)) rs)"

definition u64_clamp :: "u64 \<Rightarrow> u64 \<Rightarrow> u64 \<Rightarrow> u64 option" where
  "u64_clamp v lo hi = (if lo \<le> hi then Some (if v < lo then lo else if hi < v then hi else v) else None)"

definition mem_list :: "JournalConfig \<Rightarrow> env \<Rightarrow> OwnerId \<Rightarrow> u64 \<Rightarrow> memory_journal
    \<Rightarrow> (OperationReceipt list, EvidenceError) result option" where
  "mem_list cfg env owner limit j =
     (if \<not> lock_ok env then Some (Err Conflict)
      else
        let owned = newest_first (filter (\<lambda>r. rc_owner r = owner) (map snd j))
        in (case u64_clamp limit 1 (max_rows_per_owner cfg) of
              None \<Rightarrow> None
            | Some n \<Rightarrow> Some (Ok (take (unat n) owned))))"

definition mem_counts :: "env \<Rightarrow> OwnerId \<Rightarrow> memory_journal \<Rightarrow> (OperationCounts, EvidenceError) result" where
  "mem_counts env owner j =
     (if \<not> lock_ok env then Err Conflict
      else Ok (fold (\<lambda>r c. c\<lparr>oc_total := oc_total c + 1,
             oc_in_flight := oc_in_flight c + (if rc_expires_at_ms r = None then 1 else 0),
             oc_unresolved := oc_unresolved c +
               (if (rc_state r = Dispatched \<or> rc_state r = WaitExpired \<or> rc_state r = UnknownEffect)
                  \<and> rc_resolution r = None then 1 else 0)\<rparr>)
           (filter (\<lambda>r. rc_owner r = owner) (map snd j))
           \<lparr>oc_total = 0, oc_in_flight = 0, oc_unresolved = 0\<rparr>))"

definition recover_receipt :: "JournalConfig \<Rightarrow> int \<Rightarrow> OperationReceipt \<Rightarrow> OperationReceipt" where
  "recover_receipt cfg now r =
     r\<lparr>rc_state := UnknownEffect, rc_effect := EffUnknown, rc_updated_at_ms := now,
       rc_expires_at_ms := Some (now + retention_ms cfg)\<rparr>"

definition mem_recover_uncertain :: "JournalConfig \<Rightarrow> env \<Rightarrow> memory_journal
    \<Rightarrow> (OperationReceipt list, EvidenceError) result \<times> memory_journal" where
  "mem_recover_uncertain cfg env j =
     (let now = clock env 0 in
      if \<not> lock_ok env then (Err Conflict, j)
      else
        let hit = (\<lambda>r. rc_state r = Dispatched \<or> rc_state r = WaitExpired)
        in (Ok (map (recover_receipt cfg now) (filter hit (map snd j))),
            map (\<lambda>(i, r). (i, if hit r then recover_receipt cfg now r else r)) j))"

definition memory_ops :: "JournalConfig \<Rightarrow> memory_journal journal_ops" where
  "memory_ops cfg =
     \<lparr>j_admit = mem_admit cfg, j_mark_dispatched = mem_mark_dispatched, j_finish = mem_finish cfg,
      j_mark_wait_expired = mem_mark_wait_expired cfg, j_mark_not_sent = mem_mark_not_sent cfg,
      j_get = mem_get, j_resolve = mem_resolve cfg, j_list = mem_list cfg, j_counts = mem_counts,
      j_recover = mem_recover_uncertain cfg\<rparr>"

section \<open>The backend meets the contract\<close>

definition mem_wf :: "memory_journal \<Rightarrow> bool" where
  "mem_wf j \<longleftrightarrow> distinct (map fst j) \<and> (\<forall>i r. map_of j i = Some r \<longrightarrow> receipt_ok r \<and> rc_id r = i)"

definition mem_accepts :: "JournalConfig \<Rightarrow> request \<Rightarrow> bool" where
  "mem_accepts cfg req \<longleftrightarrow> (case req_detail req of Some d \<Rightarrow> \<not> detail_exceeds cfg d | None \<Rightarrow> True)"

lemma mem_wf_update: "mem_wf j \<Longrightarrow> receipt_ok r \<Longrightarrow> rc_id r = i \<Longrightarrow> mem_wf (AList.update i r j)"
  by (simp add: mem_wf_def distinct_update)

lemma mem_wfD: "mem_wf j \<Longrightarrow> map_of j i = Some r \<Longrightarrow> receipt_ok r \<and> rc_id r = i"
  by (simp add: mem_wf_def)

text \<open>The receipt each request writes, and the guard in front of it.\<close>

definition mem_next :: "JournalConfig \<Rightarrow> env \<Rightarrow> request \<Rightarrow> OperationReceipt \<Rightarrow> OperationReceipt" where
  "mem_next cfg env req r =
     (case req of
        Dispatch \<Rightarrow> r\<lparr>rc_state := Dispatched, rc_effect := EffUnknown, rc_updated_at_ms := clock env 0\<rparr>
      | Finish st ef detail \<Rightarrow> r\<lparr>rc_state := st, rc_effect := ef,
            rc_detail := (if detail \<noteq> None then detail else rc_detail r),
            rc_updated_at_ms := clock env 0, rc_expires_at_ms := Some (clock env 0 + retention_ms cfg)\<rparr>
      | WaitExpire detail \<Rightarrow> r\<lparr>rc_state := WaitExpired, rc_effect := EffUnknown, rc_detail := Some detail,
          rc_updated_at_ms := clock env 0, rc_expires_at_ms := Some (clock env 0 + retention_ms cfg)\<rparr>
      | NotSent detail \<Rightarrow> r\<lparr>rc_state := Cancelled, rc_effect := PreventedBeforeDispatch,
          rc_detail := Some detail, rc_updated_at_ms := clock env 0,
          rc_expires_at_ms := Some (clock env 1 + retention_ms cfg)\<rparr>)"

definition req_refused :: "JournalConfig \<Rightarrow> request \<Rightarrow> EvidenceError option" where
  "req_refused cfg req =
     (case req of
        Finish st ef d \<Rightarrow>
          if \<not> is_terminal st then Some (not_terminal_error st)
          else if st = Completed \<and> ef = EffUnknown then Some completed_unknown_error
          else if \<not> mem_accepts cfg req then Some detail_exceeds_error else None
      | _ \<Rightarrow> if \<not> mem_accepts cfg req then Some detail_exceeds_error else None)"

lemma mem_perform:
  "perform (memory_ops cfg) env owner i req j =
     (case req_refused cfg req of
        Some e \<Rightarrow> (Err e, j)
      | None \<Rightarrow> unit_result (mem_with env owner i j (\<lambda>r.
          if rc_state r \<noteq> req_expected req then Err Conflict else Ok (mem_next cfg env req r))))"
  by (cases req) (simp_all add: perform_def memory_ops_def req_refused_def mem_accepts_def mem_next_def
      mem_mark_dispatched_def mem_finish_def mem_mark_wait_expired_def mem_mark_not_sent_def Let_def
      cong: if_cong split: option.split)

lemma req_refused_None: "req_refused cfg req = None \<longleftrightarrow> req_sound req \<and> mem_accepts cfg req"
  by (cases req) (simp_all add: req_refused_def)

lemma moved_mem_next:
  "receipt_ok r \<Longrightarrow> rc_state r = req_expected req \<Longrightarrow> req_sound req \<Longrightarrow> moved req r (mem_next cfg env req r)"
  by (cases req) (auto simp: moved_def mem_next_def receipt_ok_def holds_slot_iff split: option.split)

lemma mem_with_Ok:
  "mem_with env owner i j body = (Ok r', j') \<longleftrightarrow> lock_ok env \<and>
     (\<exists>r. map_of j i = Some r \<and> rc_owner r = owner \<and> body r = Ok r' \<and> j' = AList.update i r' j)"
  by (auto simp: mem_with_def split: option.splits result.splits)

lemma mem_with_Err: "mem_with env owner i j body = (Err e, j') \<Longrightarrow> j' = j"
  by (auto simp: mem_with_def split: option.splits result.splits if_splits)

lemma unit_result_Ok: "unit_result p = (Ok u, s) \<longleftrightarrow> (\<exists>a. p = (Ok a, s))"
  by (auto simp: unit_result_def split: prod.splits result.splits)

lemma unit_result_Err: "unit_result p = (Err e, s) \<longleftrightarrow> p = (Err e, s)"
  by (auto simp: unit_result_def split: prod.splits result.splits)

lemma mem_perform_Ok:
  assumes "mem_wf j" "perform (memory_ops cfg) env owner i req j = (Ok u, j')"
  shows "req_sound req \<and> (\<exists>r. map_of j i = Some r \<and> rc_owner r = owner \<and> rc_state r = req_expected req
    \<and> moved req r (mem_next cfg env req r) \<and> j' = AList.update i (mem_next cfg env req r) j)"
proof -
  have ref: "req_refused cfg req = None" using assms(2) by (cases "req_refused cfg req") (simp_all add: mem_perform)
  then obtain r where "map_of j i = Some r" "rc_owner r = owner" "rc_state r = req_expected req"
    "j' = AList.update i (mem_next cfg env req r) j"
    using assms(2) by (auto simp: mem_perform unit_result_Ok mem_with_Ok split: if_splits)
  with ref mem_wfD [OF assms(1)] moved_mem_next show ?thesis by (simp add: req_refused_None)
qed

lemma mem_perform_Err:
  "perform (memory_ops cfg) env owner i req j = (Err e, j') \<Longrightarrow> j' = j"
  by (auto simp: mem_perform unit_result_Err split: option.splits dest: mem_with_Err)

lemma mem_perform_wf:
  assumes "mem_wf j" "perform (memory_ops cfg) env owner i req j = (res, j')" shows "mem_wf j'"
proof (cases res)
  case (Ok u)
  with mem_perform_Ok [OF assms(1), of cfg env owner i req u j'] assms(2) obtain r where
    r: "req_sound req" "map_of j i = Some r" "rc_state r = req_expected req"
    "moved req r (mem_next cfg env req r)" "j' = AList.update i (mem_next cfg env req r) j" by blast
  then have "receipt_ok (mem_next cfg env req r)" "rc_id (mem_next cfg env req r) = i"
    using mem_wfD [OF assms(1) r(2)] receipt_ok_moved by (auto simp: moved_def)
  with assms(1) r(5) show ?thesis by (simp add: mem_wf_update)
next
  case (Err e)
  with assms mem_perform_Err show ?thesis by blast
qed

lemma mem_perform_live:
  assumes "env_ok env" "req_sound req" "mem_accepts cfg req"
  shows "fst (perform (memory_ops cfg) env owner i req j) =
    (case visible (mem_view j) owner i of
       None \<Rightarrow> Err NotFound
     | Some r \<Rightarrow> if rc_state r = req_expected req then Ok () else Err Conflict)"
proof -
  have "req_refused cfg req = None" using assms by (simp add: req_refused_None)
  with assms(1) show ?thesis
    by (cases "map_of j i") (simp_all add: mem_perform visible_def mem_view_def mem_with_def
        unit_result_def env_ok_def)
qed

lemma mem_admit_cases:
  assumes "mem_admit cfg env owner subject detail j = (ares, j')"
  shows "(j' = j \<and> \<not> is_ok ares) \<or> (ares = Ok (new_id env) \<and> lock_ok env \<and>
    j' = AList.update (new_id env) (admitted_receipt (new_id env) owner subject detail (clock env 0)) j)"
  using assms by (auto simp: mem_admit_def admitted_receipt_def Let_def split: if_splits)

lemma mem_resolve_cases:
  assumes "mem_resolve cfg env owner i ef remark j = (rres, j')"
  shows "(j' = j \<and> \<not> is_ok rres) \<or> (\<exists>r r'. map_of j i = Some r \<and> rc_owner r = owner
    \<and> resolved ef remark r r' \<and> j' = AList.update i r' j \<and> rres = Ok r')"
proof (cases rres)
  case (Ok x)
  with assms obtain r where r: "map_of j i = Some r" "rc_owner r = owner" "unresolved_state (rc_state r)"
    "x = r\<lparr>rc_resolution := Some \<lparr>cr_observed_effect = ef, cr_note = remark,
       cr_resolved_at_ms = clock env 0\<rparr>, rc_updated_at_ms := clock env 0\<rparr>" "j' = AList.update i x j"
    by (auto simp: mem_resolve_def Let_def mem_with_Ok unresolved_state_def split: if_splits)
  then have "resolved ef remark r x" unfolding resolved_def by blast
  with r Ok show ?thesis by blast
next
  case (Err e)
  with assms show ?thesis
    by (auto simp: mem_resolve_def Let_def split: if_splits dest: mem_with_Err)
qed

lemma recovered_receipt: "recoverable (rc_state r) \<Longrightarrow> recovered r (recover_receipt cfg now r)"
  unfolding recovered_def recover_receipt_def by blast

lemma mem_recover_view:
  assumes "mem_recover_uncertain cfg env j = (vres, j')"
  shows "map_of j' k = (if lock_ok env then map_option (\<lambda>r. if recoverable (rc_state r)
      then recover_receipt cfg (clock env 0) r else r) (map_of j k) else map_of j k)
    \<and> (distinct (map fst j) \<longrightarrow> distinct (map fst j')) \<and> is_ok vres = lock_ok env"
  using assms map_of_map_values [of "\<lambda>k r. if recoverable (rc_state r)
      then recover_receipt cfg (clock env 0) r else r" j k]
  by (auto simp: mem_recover_uncertain_def Let_def recoverable_def comp_def case_prod_unfold split: if_splits)

lemma mem_recover_wf:
  assumes "mem_wf j" "mem_recover_uncertain cfg env j = (vres, j')" shows "mem_wf j'"
  unfolding mem_wf_def
proof (intro conjI allI impI)
  show "distinct (map fst j')" using assms mem_recover_view [OF assms(2)] by (simp add: mem_wf_def)
  fix i r assume "map_of j' i = Some r"
  then obtain r0 where r0: "map_of j i = Some r0"
    "r = r0 \<or> (recoverable (rc_state r0) \<and> r = recover_receipt cfg (clock env 0) r0)"
    using mem_recover_view [OF assms(2), of i] by (cases "map_of j i") (auto split: if_splits)
  note ok = mem_wfD [OF assms(1) r0(1)]
  from r0(2) show "receipt_ok r"
  proof
    assume "recoverable (rc_state r0) \<and> r = recover_receipt cfg (clock env 0) r0"
    then show ?thesis using ok recovered_receipt receipt_ok_recovered by blast
  qed (use ok in simp)
  from r0(2) ok show "rc_id r = i" by (elim disjE; simp add: recover_receipt_def)
qed

interpretation memory: operation_journal "memory_ops cfg" mem_wf mem_view "mem_accepts cfg" for cfg
proof
  fix j i r assume "mem_wf j" "mem_view j i = Some r"
  then show "receipt_ok r \<and> rc_id r = i" by (simp add: mem_view_def mem_wfD)
next
  fix j env owner i req res j'
  assume "mem_wf j" "perform (memory_ops cfg) env owner i req j = (res, j')"
  then show "mem_wf j'" by (rule mem_perform_wf)
next
  fix j env owner i req u j'
  assume a: "mem_wf j" "perform (memory_ops cfg) env owner i req j = (Ok u, j')"
  show "req_sound req \<and> (\<exists>r r'. mem_view j i = Some r \<and> rc_owner r = owner \<and> rc_state r = req_expected req
      \<and> moved req r r' \<and> mem_view j' = (mem_view j)(i \<mapsto> r'))"
    using mem_perform_Ok [OF a] unfolding mem_view_def by (metis map_of_update)
next
  fix j env owner i req e j'
  assume "mem_wf j" "perform (memory_ops cfg) env owner i req j = (Err e, j')"
  then show "mem_view j' = mem_view j" using mem_perform_Err by blast
next
  fix j env req owner i
  assume "mem_wf j" "env_ok env" "req_sound req" "mem_accepts cfg req"
  then show "fst (perform (memory_ops cfg) env owner i req j) = (case visible (mem_view j) owner i of
      None \<Rightarrow> Err NotFound | Some r \<Rightarrow> if rc_state r = req_expected req then Ok () else Err Conflict)"
    using mem_perform_live by blast
next
  fix j env owner i x
  assume "mem_wf j" "j_get (memory_ops cfg) env owner i j = Ok x"
  then show "x = visible (mem_view j) owner i"
    by (simp add: memory_ops_def mem_get_def visible_def mem_view_def split: if_splits option.splits)
next
  fix j env owner i
  assume "mem_wf j" "env_ok env"
  then show "is_ok (j_get (memory_ops cfg) env owner i j)"
    by (simp add: memory_ops_def mem_get_def env_ok_def)
next
  fix j env owner subject detail ares j'
  assume a: "mem_wf j" "mem_view j (new_id env) = None"
    "j_admit (memory_ops cfg) env owner subject detail j = (ares, j')"
  have "rc_id (admitted_receipt (new_id env) owner subject detail (clock env 0)) = new_id env"
    by (simp add: admitted_receipt_def)
  with a mem_admit_cases [of cfg env owner subject detail j ares j'] show "mem_wf j'"
    by (auto simp: memory_ops_def receipt_ok_admitted intro!: mem_wf_update)
next
  fix j env owner subject detail i j'
  assume "mem_wf j" "mem_view j (new_id env) = None"
    "j_admit (memory_ops cfg) env owner subject detail j = (Ok i, j')"
  then have "i = new_id env \<and>
      mem_view j' = (mem_view j)(i \<mapsto> admitted_receipt i owner subject detail (clock env 0))"
    using mem_admit_cases [of cfg env owner subject detail j "Ok i" j'] by (auto simp: memory_ops_def mem_view_def)
  then show "i = new_id env \<and> (\<exists>m now. survives (mem_view j) m \<and>
      mem_view j' = m(i \<mapsto> admitted_receipt i owner subject detail now))"
    using survives_refl by blast
next
  fix j env owner subject detail e j'
  assume "mem_wf j" "mem_view j (new_id env) = None"
    "j_admit (memory_ops cfg) env owner subject detail j = (Err e, j')"
  then show "survives (mem_view j) (mem_view j')"
    using mem_admit_cases [of cfg env owner subject detail j "Err e" j'] by (simp add: memory_ops_def)
next
  fix j env owner i ef remark rres j'
  assume a: "mem_wf j" "j_resolve (memory_ops cfg) env owner i ef remark j = (rres, j')"
  then have c: "(j' = j \<and> \<not> is_ok rres) \<or> (\<exists>r r'. map_of j i = Some r \<and> rc_owner r = owner
      \<and> resolved ef remark r r' \<and> j' = AList.update i r' j \<and> rres = Ok r')"
    using mem_resolve_cases by (simp add: memory_ops_def)
  from c a(1) show "mem_wf j'"
    using mem_wfD [OF a(1)] receipt_ok_resolved resolved_id mem_wf_update [OF a(1)] a(1) by metis
  from c show "(mem_view j' = mem_view j \<and> \<not> is_ok rres) \<or> (\<exists>r r'. visible (mem_view j) owner i = Some r
      \<and> resolved ef remark r r' \<and> mem_view j' = (mem_view j)(i \<mapsto> r') \<and> (\<forall>x. rres = Ok x \<longrightarrow> x = r'))"
    by (elim disjE exE conjE) (simp_all add: visible_def mem_view_def)
next
  fix j env vres j'
  assume a: "mem_wf j" "j_recover (memory_ops cfg) env j = (vres, j')"
  then have r: "mem_recover_uncertain cfg env j = (vres, j')" by (simp add: memory_ops_def)
  show "mem_wf j'" using a(1) r by (rule mem_recover_wf)
  fix k
  show "rel_option (\<lambda>r r'. r' = r \<or> recovered r r') (mem_view j k) (mem_view j' k)"
    using mem_recover_view [OF r, of k] recovered_receipt
    by (cases "map_of j k") (auto simp: mem_view_def)
next
  fix j env rs j' k r
  assume "mem_wf j" "j_recover (memory_ops cfg) env j = (Ok rs, j')" "mem_view j' k = Some r"
  then show "\<not> recoverable (rc_state r)"
    using mem_recover_view [of cfg env j "Ok rs" j' k]
    by (cases "map_of j k") (auto simp: memory_ops_def mem_view_def recover_receipt_def recoverable_def split: if_splits)
next
  fix j env
  assume "mem_wf j" "env_ok env"
  then show "is_ok (fst (j_recover (memory_ops cfg) env j))"
    by (simp add: memory_ops_def mem_recover_uncertain_def env_ok_def Let_def)
qed

end
