(* ===== verification/SqliteJournal.thy ===== *)
theory SqliteJournal
  imports MemoryJournal
begin

text \<open>
  The durable backend \<open>SqliteOperationJournal\<close> of \<open>crates/tdmcp-daemon/src/opjournal.rs\<close>, and
  the proof that it meets the contract \<open>operation_journal\<close>.  The SQL statements of the source are
  the list operations they denote on the table \<open>receipts\<close>, whose rows keep state and effect as text.
  A statement can fail, as its call says in \<open>env\<close>; it then changes nothing.  The resolution column holds the
  JSON text of a \<open>CallerResolution\<close>; serializing it is an argument, assumed to round trip.
\<close>

section \<open>The table\<close>

record row =
  rw_id :: string
  rw_owner :: string
  rw_subject :: string
  rw_state :: string
  rw_effect :: string
  rw_detail :: "string option"
  rw_created :: int
  rw_updated :: int
  rw_expires :: "int option"
  rw_resolution :: "string option"

type_synonym receipts_table = "row list"

record resolution_codec =
  res_to_string :: "CallerResolution \<Rightarrow> (string, string) result"
  res_from_string :: "string \<Rightarrow> CallerResolution option"

definition codec_ok :: "resolution_codec \<Rightarrow> bool" where
  "codec_ok c \<longleftrightarrow> (\<forall>r. \<exists>s. res_to_string c r = Ok s \<and> res_from_string c s = Some r)"

text \<open>A stored value this build does not know fails closed.\<close>

definition row_to_receipt :: "resolution_codec \<Rightarrow> row \<Rightarrow> OperationReceipt option" where
  "row_to_receipt c rw =
     (case parse_state (rw_state rw) of
        None \<Rightarrow> None
      | Some st \<Rightarrow> (case parse_effect (rw_effect rw) of
          None \<Rightarrow> None
        | Some ef \<Rightarrow> (case (case rw_resolution rw of
              None \<Rightarrow> Some None
            | Some txt \<Rightarrow> map_option Some (res_from_string c txt)) of
            None \<Rightarrow> None
          | Some res \<Rightarrow> Some \<lparr>rc_id = rw_id rw, rc_owner = rw_owner rw, rc_subject = rw_subject rw,
              rc_state = st, rc_effect = ef, rc_detail = rw_detail rw, rc_created_at_ms = rw_created rw,
              rc_updated_at_ms = rw_updated rw, rc_expires_at_ms = rw_expires rw,
              rc_resolution = res\<rparr>)))"

section \<open>Statements\<close>

definition db_error :: "env \<Rightarrow> nat \<Rightarrow> EvidenceError" where
  "db_error env k = Backend (db_msg env k)"

definition exec :: "env \<Rightarrow> nat \<Rightarrow> (receipts_table \<Rightarrow> receipts_table) \<Rightarrow> receipts_table
    \<Rightarrow> (unit, EvidenceError) result \<times> receipts_table" where
  "exec env k f t = (if db_ok env k then (Ok (), f t) else (Err (db_error env k), t))"

text \<open>\<open>UPDATE\<close>: the number of rows changed, and the table.\<close>

definition sql_update :: "env \<Rightarrow> nat \<Rightarrow> (row \<Rightarrow> bool) \<Rightarrow> (row \<Rightarrow> row) \<Rightarrow> receipts_table
    \<Rightarrow> (nat, EvidenceError) result \<times> receipts_table" where
  "sql_update env k P f t =
     (if db_ok env k then (Ok (length (filter P t)), map (\<lambda>rw. if P rw then f rw else rw) t)
      else (Err (db_error env k), t))"

definition row_of :: "receipts_table \<Rightarrow> string \<Rightarrow> row option" where
  "row_of t i = map_of (map (\<lambda>rw. (rw_id rw, rw)) t) i"

definition sql_count :: "u64 \<Rightarrow> nat" where
  "sql_count v = min (unat v) (2 ^ 63 - 1)"

definition newest_rows :: "row list \<Rightarrow> row list" where
  "newest_rows rs = rev (sort_key (\<lambda>rw. (rw_created rw, rw_id rw)) rs)"

text \<open>\<open>ORDER BY created_at_ms DESC, id DESC LIMIT -1 OFFSET n\<close>.\<close>

definition ids_beyond :: "nat \<Rightarrow> (row \<Rightarrow> bool) \<Rightarrow> receipts_table \<Rightarrow> string list" where
  "ids_beyond n P t = map rw_id (drop n (newest_rows (filter P t)))"

section \<open>Helpers of the backend\<close>

definition get_locked :: "resolution_codec \<Rightarrow> env \<Rightarrow> nat \<Rightarrow> OwnerId \<Rightarrow> string \<Rightarrow> receipts_table
    \<Rightarrow> (OperationReceipt option, EvidenceError) result" where
  "get_locked c env k owner i t =
     (if \<not> db_ok env k then Err (db_error env k)
      else (case filter (\<lambda>rw. rw_id rw = i \<and> rw_owner rw = owner) t of
          [] \<Rightarrow> Ok None
        | rw # _ \<Rightarrow> (case row_to_receipt c rw of
            None \<Rightarrow> Err (db_error env k)
          | Some r \<Rightarrow> Ok (Some r))))"

definition get_inner :: "resolution_codec \<Rightarrow> env \<Rightarrow> nat \<Rightarrow> string \<Rightarrow> receipts_table
    \<Rightarrow> (OperationReceipt option, EvidenceError) result" where
  "get_inner c env k i t =
     (if \<not> db_ok env k then Err (db_error env k)
      else (case filter (\<lambda>rw. rw_id rw = i) t of
          [] \<Rightarrow> Ok None
        | rw # _ \<Rightarrow> (case row_to_receipt c rw of
            None \<Rightarrow> Err (db_error env k)
          | Some r \<Rightarrow> Ok (Some r))))"

definition bound_detail :: "JournalConfig \<Rightarrow> string option \<Rightarrow> (string option, EvidenceError) result" where
  "bound_detail cfg detail =
     (case detail of
        None \<Rightarrow> Ok None
      | Some d \<Rightarrow>
          if detail_exceeds cfg d then Err detail_exceeds_error
          else if has_control d then Err control_error
          else Ok (Some d))"

definition prune :: "JournalConfig \<Rightarrow> env \<Rightarrow> OwnerId \<Rightarrow> receipts_table
    \<Rightarrow> (unit, EvidenceError) result \<times> receipts_table" where
  "prune cfg env owner t =
     bind_st (exec env 0 (\<lambda>t. filter (\<lambda>rw. \<not> (case rw_expires rw of
        Some e \<Rightarrow> e \<le> clock env 1 | None \<Rightarrow> False)) t) t) (\<lambda>_ t.
     bind_st (exec env 1 (\<lambda>t. filter (\<lambda>rw. rw_id rw \<notin> set (ids_beyond
        (sql_count (max_rows_per_owner cfg)) (\<lambda>rw. rw_owner rw = owner \<and> rw_expires rw \<noteq> None) t)) t) t) (\<lambda>_ t.
     exec env 2 (\<lambda>t. filter (\<lambda>rw. rw_id rw \<notin> set (ids_beyond
        (sql_count (max_total_rows cfg)) (\<lambda>rw. rw_expires rw \<noteq> None) t)) t) t))"

definition owner_in_flight :: "OwnerId \<Rightarrow> receipts_table \<Rightarrow> nat" where
  "owner_in_flight owner t = length (filter (\<lambda>rw. rw_owner rw = owner \<and> rw_expires rw = None) t)"

definition total_in_flight :: "receipts_table \<Rightarrow> nat" where
  "total_in_flight t = length (filter (\<lambda>rw. rw_expires rw = None) t)"

definition in_flight_bounds :: "JournalConfig \<Rightarrow> env \<Rightarrow> OwnerId \<Rightarrow> receipts_table
    \<Rightarrow> (unit, EvidenceError) result" where
  "in_flight_bounds cfg env owner t =
     (if \<not> db_ok env 3 then Err (db_error env 3)
      else if unat (max_in_flight_per_owner cfg) \<le> owner_in_flight owner t then
        Err (QuotaExceeded (''owner already has '' @ show_nat (owner_in_flight owner t)
          @ '' active operation receipts; wait for active calls to return or their callers to stop waiting; reading or resolving receipts does not stop work''))
      else if \<not> db_ok env 4 then Err (db_error env 4)
      else if unat (max_in_flight_total cfg) \<le> total_in_flight t then
        Err (QuotaExceeded (''journal already holds '' @ show_nat (total_in_flight t)
          @ '' active operation receipts; wait for active calls to return or their callers to stop waiting; reading or resolving receipts does not stop work''))
      else Ok ())"

record Transition =
  tr_expected :: ReceiptState
  tr_next :: ReceiptState
  tr_effect :: EffectState
  tr_detail :: "string option"
  tr_owner :: OwnerId
  tr_id :: string

definition transition :: "JournalConfig \<Rightarrow> env \<Rightarrow> Transition \<Rightarrow> receipts_table
    \<Rightarrow> (unit, EvidenceError) result \<times> receipts_table" where
  "transition cfg env tr t =
     (let now = clock env 0;
          expires = (if is_terminal (tr_next tr) \<or> tr_next tr = WaitExpired
                     then Some (now + retention_ms cfg) else None)
      in bind_st (sql_update env 0
           (\<lambda>rw. rw_id rw = tr_id tr \<and> rw_owner rw = tr_owner tr \<and> rw_state rw = state_str (tr_expected tr))
           (\<lambda>rw. rw\<lparr>rw_state := state_str (tr_next tr), rw_effect := effect_str (tr_effect tr),
              rw_detail := (case tr_detail tr of None \<Rightarrow> rw_detail rw | Some d \<Rightarrow> Some d),
              rw_updated := now, rw_expires := expires\<rparr>) t) (\<lambda>updated t.
         if updated = 1 then (Ok (), t)
         else if \<not> db_ok env 1 then (Err (db_error env 1), t)
         else (case filter (\<lambda>rw. rw_id rw = tr_id tr \<and> rw_owner rw = tr_owner tr) t of
             [] \<Rightarrow> (Err NotFound, t)
           | _ \<Rightarrow> (Err Conflict, t))))"

section \<open>The trait methods\<close>

definition sq_admit :: "JournalConfig \<Rightarrow> env \<Rightarrow> OwnerId \<Rightarrow> string \<Rightarrow> string option \<Rightarrow> receipts_table
    \<Rightarrow> (string, EvidenceError) result \<times> receipts_table" where
  "sq_admit cfg env owner subject detail t =
     (if subject = [] \<or> 128 < length subject then (Err subject_error, t)
      else (case bound_detail cfg detail of
          Err e \<Rightarrow> (Err e, t)
        | Ok detail \<Rightarrow>
            let i = new_id env; now = clock env 0 in
            if \<not> lock_ok env then (Err Conflict, t)
            else
              bind_st (prune cfg env owner t) (\<lambda>_ t.
              bind_st (in_flight_bounds cfg env owner t, t) (\<lambda>_ t.
              bind_st (if \<exists>rw \<in> set t. rw_id rw = i then (Err (db_error env 5), t)
                else exec env 5 (\<lambda>t. t @ [\<lparr>rw_id = i, rw_owner = owner, rw_subject = subject,
                  rw_state = state_str Admitted, rw_effect = effect_str NotApplicable, rw_detail = detail,
                  rw_created = now, rw_updated = now, rw_expires = None, rw_resolution = None\<rparr>]) t)
                (\<lambda>_ t. (Ok i, t))))))"

definition sq_mark_dispatched :: "JournalConfig \<Rightarrow> env \<Rightarrow> OwnerId \<Rightarrow> string \<Rightarrow> receipts_table
    \<Rightarrow> (unit, EvidenceError) result \<times> receipts_table" where
  "sq_mark_dispatched cfg env owner i t =
     (if \<not> lock_ok env then (Err Conflict, t)
      else transition cfg env \<lparr>tr_expected = Admitted, tr_next = Dispatched, tr_effect = EffUnknown,
        tr_detail = None, tr_owner = owner, tr_id = i\<rparr> t)"

definition sq_finish :: "JournalConfig \<Rightarrow> env \<Rightarrow> OwnerId \<Rightarrow> string \<Rightarrow> ReceiptState \<Rightarrow> EffectState
    \<Rightarrow> string option \<Rightarrow> receipts_table \<Rightarrow> (unit, EvidenceError) result \<times> receipts_table" where
  "sq_finish cfg env owner i st ef detail t =
     (if \<not> is_terminal st then (Err (not_terminal_error st), t)
      else if st = Completed \<and> ef = EffUnknown then (Err completed_unknown_error, t)
      else (case bound_detail cfg detail of
          Err e \<Rightarrow> (Err e, t)
        | Ok detail \<Rightarrow>
            if \<not> lock_ok env then (Err Conflict, t)
            else transition cfg env \<lparr>tr_expected = Dispatched, tr_next = st, tr_effect = ef,
              tr_detail = detail, tr_owner = owner, tr_id = i\<rparr> t))"

definition sq_mark_wait_expired :: "JournalConfig \<Rightarrow> env \<Rightarrow> OwnerId \<Rightarrow> string \<Rightarrow> string \<Rightarrow> receipts_table
    \<Rightarrow> (unit, EvidenceError) result \<times> receipts_table" where
  "sq_mark_wait_expired cfg env owner i detail t =
     (case bound_detail cfg (Some detail) of
        Err e \<Rightarrow> (Err e, t)
      | Ok detail \<Rightarrow>
          if \<not> lock_ok env then (Err Conflict, t)
          else transition cfg env \<lparr>tr_expected = Dispatched, tr_next = WaitExpired,
            tr_effect = EffUnknown, tr_detail = detail, tr_owner = owner, tr_id = i\<rparr> t)"

definition sq_mark_not_sent :: "JournalConfig \<Rightarrow> env \<Rightarrow> OwnerId \<Rightarrow> string \<Rightarrow> string \<Rightarrow> receipts_table
    \<Rightarrow> (unit, EvidenceError) result \<times> receipts_table" where
  "sq_mark_not_sent cfg env owner i detail t =
     (case bound_detail cfg (Some detail) of
        Err e \<Rightarrow> (Err e, t)
      | Ok detail \<Rightarrow>
          if \<not> lock_ok env then (Err Conflict, t)
          else transition cfg env \<lparr>tr_expected = Admitted, tr_next = Cancelled,
            tr_effect = PreventedBeforeDispatch, tr_detail = detail, tr_owner = owner, tr_id = i\<rparr> t)"

definition sq_get :: "resolution_codec \<Rightarrow> env \<Rightarrow> OwnerId \<Rightarrow> string \<Rightarrow> receipts_table
    \<Rightarrow> (OperationReceipt option, EvidenceError) result" where
  "sq_get c env owner i t =
     (if \<not> lock_ok env then Err Conflict else get_locked c env 0 owner i t)"

definition sq_resolve :: "resolution_codec \<Rightarrow> JournalConfig \<Rightarrow> env \<Rightarrow> OwnerId \<Rightarrow> string \<Rightarrow> EffectState
    \<Rightarrow> string option \<Rightarrow> receipts_table \<Rightarrow> (OperationReceipt, EvidenceError) result \<times> receipts_table" where
  "sq_resolve c cfg env owner i ef remark t =
     (case bound_detail cfg remark of
        Err e \<Rightarrow> (Err e, t)
      | Ok remark \<Rightarrow>
          (case res_to_string c \<lparr>cr_observed_effect = ef, cr_note = remark,
              cr_resolved_at_ms = clock env 0\<rparr> of
             Err msg \<Rightarrow> (Err (Backend msg), t)
           | Ok resolution \<Rightarrow>
               if \<not> lock_ok env then (Err Conflict, t)
               else bind_st (sql_update env 0
                 (\<lambda>rw. rw_id rw = i \<and> rw_owner rw = owner
                    \<and> rw_state rw \<in> {''dispatched'', ''wait_expired'', ''unknown_effect''})
                 (\<lambda>rw. rw\<lparr>rw_resolution := Some resolution, rw_updated := clock env 1\<rparr>) t) (\<lambda>updated t.
                   if updated = 0 then
                     (case get_locked c env 1 owner i t of
                        Err e \<Rightarrow> (Err e, t)
                      | Ok (Some _) \<Rightarrow> (Err Conflict, t)
                      | Ok None \<Rightarrow> (Err NotFound, t))
                   else
                     (case get_locked c env 1 owner i t of
                        Err e \<Rightarrow> (Err e, t)
                      | Ok (Some r) \<Rightarrow> (Ok r, t)
                      | Ok None \<Rightarrow> (Err NotFound, t)))))"

text \<open>A row that cannot be read fails the whole listing.\<close>

definition sq_list :: "resolution_codec \<Rightarrow> JournalConfig \<Rightarrow> env \<Rightarrow> OwnerId \<Rightarrow> u64 \<Rightarrow> receipts_table
    \<Rightarrow> (OperationReceipt list, EvidenceError) result option" where
  "sq_list c cfg env owner limit t =
     (case u64_clamp limit 1 (max_rows_per_owner cfg) of
        None \<Rightarrow> None
      | Some n \<Rightarrow> Some
          (if \<not> lock_ok env then Err Conflict
           else if \<not> db_ok env 0 then Err (db_error env 0)
           else (case those (map (row_to_receipt c)
               (take (sql_count n) (newest_rows (filter (\<lambda>rw. rw_owner rw = owner) t)))) of
               None \<Rightarrow> Err (db_error env 0)
             | Some rs \<Rightarrow> Ok rs)))"

definition sq_counts :: "env \<Rightarrow> OwnerId \<Rightarrow> receipts_table \<Rightarrow> (OperationCounts, EvidenceError) result" where
  "sq_counts env owner t =
     (if \<not> lock_ok env then Err Conflict
      else if \<not> db_ok env 0 then Err (db_error env 0)
      else
        let mine = filter (\<lambda>rw. rw_owner rw = owner) t in
        Ok \<lparr>oc_total = length mine,
            oc_in_flight = length (filter (\<lambda>rw. rw_expires rw = None) mine),
            oc_unresolved = length (filter (\<lambda>rw.
              rw_state rw \<in> {''dispatched'', ''wait_expired'', ''unknown_effect''}
              \<and> rw_resolution rw = None) mine)\<rparr>)"

text \<open>The loop of \<open>recover_uncertain\<close>; the \<open>n\<close>-th candidate uses statements \<open>2n+1\<close> and \<open>2n+2\<close>.\<close>

fun recover_loop :: "resolution_codec \<Rightarrow> JournalConfig \<Rightarrow> env \<Rightarrow> nat \<Rightarrow> OperationReceipt list
    \<Rightarrow> OperationReceipt list \<Rightarrow> receipts_table \<Rightarrow> (OperationReceipt list, EvidenceError) result \<times> receipts_table" where
  "recover_loop c cfg env n [] acc t = (Ok acc, t)"
| "recover_loop c cfg env n (receipt # rest) acc t =
     bind_st (sql_update env (2 * n + 1)
       (\<lambda>rw. rw_id rw = rc_id receipt \<and> rw_state rw \<in> {''dispatched'', ''wait_expired''})
       (\<lambda>rw. rw\<lparr>rw_state := state_str UnknownEffect, rw_effect := effect_str EffUnknown,
          rw_updated := clock env n, rw_expires := Some (clock env n + retention_ms cfg)\<rparr>) t) (\<lambda>updated t.
       let acc' = (if updated = 1 then
             (case get_inner c env (2 * n + 2) (rc_id receipt) t of
                Ok (Some refreshed) \<Rightarrow> acc @ [refreshed\<lparr>rc_detail := rc_detail receipt\<rparr>]
              | _ \<Rightarrow> acc) else acc)
       in recover_loop c cfg env (n + 1) rest acc' t)"

definition sq_recover_uncertain :: "resolution_codec \<Rightarrow> JournalConfig \<Rightarrow> env \<Rightarrow> receipts_table
    \<Rightarrow> (OperationReceipt list, EvidenceError) result \<times> receipts_table" where
  "sq_recover_uncertain c cfg env t =
     (if \<not> lock_ok env then (Err Conflict, t)
      else if \<not> db_ok env 0 then (Err (db_error env 0), t)
      else (case those (map (row_to_receipt c)
          (filter (\<lambda>rw. rw_state rw \<in> {''dispatched'', ''wait_expired''}) t)) of
          None \<Rightarrow> (Err (db_error env 0), t)
        | Some candidates \<Rightarrow> recover_loop c cfg env 0 candidates [] t))"

definition sqlite_ops :: "resolution_codec \<Rightarrow> JournalConfig \<Rightarrow> receipts_table journal_ops" where
  "sqlite_ops c cfg =
     \<lparr>j_admit = sq_admit cfg, j_mark_dispatched = sq_mark_dispatched cfg, j_finish = sq_finish cfg,
      j_mark_wait_expired = sq_mark_wait_expired cfg, j_mark_not_sent = sq_mark_not_sent cfg,
      j_get = sq_get c, j_resolve = sq_resolve c cfg, j_list = sq_list c cfg, j_counts = sq_counts,
      j_recover = sq_recover_uncertain c cfg\<rparr>"

section \<open>Table laws\<close>

definition keyed :: "receipts_table \<Rightarrow> bool" where
  "keyed t \<longleftrightarrow> distinct (map rw_id t)"

lemma row_of_SomeD: "row_of t i = Some rw \<Longrightarrow> rw \<in> set t \<and> rw_id rw = i"
  by (induction t) (auto simp: row_of_def split: if_splits)

lemma row_of_iff: "keyed t \<Longrightarrow> row_of t i = Some rw \<longleftrightarrow> rw \<in> set t \<and> rw_id rw = i"
  by (auto simp: row_of_def keyed_def map_of_eq_Some_iff comp_def)

lemma row_of_mem: "keyed t \<Longrightarrow> rw \<in> set t \<Longrightarrow> row_of t (rw_id rw) = Some rw"
  by (simp add: row_of_iff)

lemma row_of_None: "row_of t i = None \<longleftrightarrow> (\<forall>rw \<in> set t. rw_id rw \<noteq> i)"
  by (induction t) (auto simp: row_of_def)

lemma keyed_filter: "keyed t \<Longrightarrow> keyed (filter P t)"
  unfolding keyed_def by (rule distinct_map_filter)

lemma row_of_filter:
  assumes "keyed t"
  shows "row_of (filter P t) i = (case row_of t i of None \<Rightarrow> None | Some rw \<Rightarrow> if P rw then Some rw else None)"
proof (cases "row_of t i")
  case None
  then have "row_of (filter P t) i = None" by (simp add: row_of_None)
  with None show ?thesis by simp
next
  case (Some rw)
  then have rw: "rw \<in> set t" "rw_id rw = i" by (simp_all add: row_of_iff [OF assms])
  show ?thesis
  proof (cases "P rw")
    case True
    with rw Some show ?thesis by (simp add: row_of_iff [OF keyed_filter [OF assms]])
  next
    case False
    have "row_of (filter P t) i = None"
      unfolding row_of_None
    proof
      fix x assume "x \<in> set (filter P t)"
      then have "x \<in> set t" "x \<noteq> rw" using False by auto
      with row_of_mem [OF assms, of x] Some show "rw_id x \<noteq> i" by auto
    qed
    with False Some show ?thesis by simp
  qed
qed

lemma row_of_map: "(\<And>rw. rw_id (f rw) = rw_id rw) \<Longrightarrow> row_of (map f t) i = map_option f (row_of t i)"
  by (induction t) (auto simp: row_of_def)

lemma row_of_append: "keyed (t @ [rw]) \<Longrightarrow> row_of (t @ [rw]) i = (if i = rw_id rw then Some rw else row_of t i)"
  by (induction t) (auto simp: row_of_def keyed_def)

lemma keyed_map: "(\<And>rw. rw_id (f rw) = rw_id rw) \<Longrightarrow> keyed (map f t) = keyed t"
  by (simp add: keyed_def comp_def)

text \<open>A condition on the key selects at most one row.\<close>

lemma filter_key:
  "keyed t \<Longrightarrow> filter (\<lambda>rw. rw_id rw = i \<and> P rw) t =
     (case row_of t i of None \<Rightarrow> [] | Some rw \<Rightarrow> if P rw then [rw] else [])"
proof (induction t)
  case (Cons rw t)
  then have "keyed t" by (simp add: keyed_def)
  show ?case
  proof (cases "rw_id rw = i")
    case True
    then have "row_of t i = None" using Cons.prems unfolding row_of_None keyed_def by auto (metis imageI)
    with Cons True \<open>keyed t\<close> show ?thesis by (simp add: row_of_def)
  next
    case False
    with Cons \<open>keyed t\<close> show ?thesis by (simp add: row_of_def)
  qed
qed (simp add: row_of_def)

section \<open>The abstraction\<close>

definition sq_view :: "resolution_codec \<Rightarrow> receipts_table \<Rightarrow> string \<rightharpoonup> OperationReceipt" where
  "sq_view c t i = Option.bind (row_of t i) (row_to_receipt c)"

definition row_ok :: "resolution_codec \<Rightarrow> row \<Rightarrow> bool" where
  "row_ok c rw \<longleftrightarrow> (\<exists>r. row_to_receipt c rw = Some r \<and> receipt_ok r)"

definition sq_wf :: "resolution_codec \<Rightarrow> receipts_table \<Rightarrow> bool" where
  "sq_wf c t \<longleftrightarrow> codec_ok c \<and> keyed t \<and> (\<forall>rw \<in> set t. row_ok c rw)"

definition sq_accepts :: "JournalConfig \<Rightarrow> request \<Rightarrow> bool" where
  "sq_accepts cfg req \<longleftrightarrow>
     (case req_detail req of Some d \<Rightarrow> \<not> detail_exceeds cfg d \<and> \<not> has_control d | None \<Rightarrow> True)"

text \<open>A readable row and its receipt, field by field.\<close>

lemma row_to_receipt_SomeD:
  assumes "row_to_receipt c rw = Some r"
  shows "rc_id r = rw_id rw" "rc_owner r = rw_owner rw" "rc_subject r = rw_subject rw"
    "rw_state rw = state_str (rc_state r)" "rw_effect rw = effect_str (rc_effect r)"
    "rc_detail r = rw_detail rw" "rc_created_at_ms r = rw_created rw" "rc_updated_at_ms r = rw_updated rw"
    "rc_expires_at_ms r = rw_expires rw" "rc_resolution r = None \<longleftrightarrow> rw_resolution rw = None"
  using assms
  by (auto simp: row_to_receipt_def dest!: parse_state_SomeD parse_effect_SomeD split: option.splits)

text \<open>Updating a readable row updates its receipt in the same way.\<close>

lemma row_to_receipt_move:
  assumes "row_to_receipt c rw = Some r"
  shows "row_to_receipt c (rw\<lparr>rw_state := state_str st, rw_effect := effect_str ef, rw_detail := d,
      rw_updated := u, rw_expires := e\<rparr>)
    = Some (r\<lparr>rc_state := st, rc_effect := ef, rc_detail := d, rc_updated_at_ms := u, rc_expires_at_ms := e\<rparr>)"
  using assms by (auto simp: row_to_receipt_def split: option.splits)

lemma row_to_receipt_recover:
  assumes "row_to_receipt c rw = Some r"
  shows "row_to_receipt c (rw\<lparr>rw_state := state_str st, rw_effect := effect_str ef,
      rw_updated := u, rw_expires := e\<rparr>)
    = Some (r\<lparr>rc_state := st, rc_effect := ef, rc_updated_at_ms := u, rc_expires_at_ms := e\<rparr>)"
  using assms by (auto simp: row_to_receipt_def split: option.splits)

lemma row_to_receipt_resolve:
  assumes "row_to_receipt c rw = Some r" "res_from_string c txt = Some res"
  shows "row_to_receipt c (rw\<lparr>rw_resolution := Some txt, rw_updated := u\<rparr>)
    = Some (r\<lparr>rc_resolution := Some res, rc_updated_at_ms := u\<rparr>)"
  using assms by (auto simp: row_to_receipt_def split: option.splits)

lemma sq_wf_row: "sq_wf c t \<Longrightarrow> row_of t i = Some rw \<Longrightarrow>
    \<exists>r. row_to_receipt c rw = Some r \<and> receipt_ok r \<and> sq_view c t i = Some r"
  using row_of_SomeD [of t i rw] by (fastforce simp: sq_wf_def row_ok_def sq_view_def)

lemma sq_view_SomeE:
  assumes "sq_view c t i = Some r"
  obtains rw where "row_of t i = Some rw" "row_to_receipt c rw = Some r"
  using assms by (auto simp: sq_view_def bind_eq_Some_conv)

lemma sq_view_None: "sq_wf c t \<Longrightarrow> sq_view c t i = None \<longleftrightarrow> row_of t i = None"
  using sq_wf_row [of c t i] by (cases "row_of t i") (auto simp: sq_view_def)

lemma sq_view_ok: "sq_wf c t \<Longrightarrow> sq_view c t i = Some r \<Longrightarrow> receipt_ok r \<and> rc_id r = i"
  by (elim sq_view_SomeE) (metis option.inject row_of_SomeD row_to_receipt_SomeD(1) sq_wf_row)

text \<open>The three ways a statement changes the table: it drops history, updates the row of one
key, or appends a row.\<close>

lemma sq_filter:
  assumes "sq_wf c t" "\<And>rw. rw \<in> set t \<Longrightarrow> \<not> P rw \<Longrightarrow> rw_expires rw \<noteq> None"
  shows "sq_wf c (filter P t)" "survives (sq_view c t) (sq_view c (filter P t))"
proof -
  have k: "keyed t" using assms(1) by (simp add: sq_wf_def)
  then show "sq_wf c (filter P t)" using assms(1) by (simp add: sq_wf_def keyed_filter)
  show "survives (sq_view c t) (sq_view c (filter P t))"
    unfolding survives_def
  proof
    fix i
    show "sq_view c (filter P t) i = sq_view c t i \<or>
      (sq_view c (filter P t) i = None \<and> (\<exists>r. sq_view c t i = Some r \<and> rc_expires_at_ms r \<noteq> None))"
    proof (cases "row_of t i")
      case (Some rw)
      obtain r where r: "row_to_receipt c rw = Some r" "sq_view c t i = Some r"
        using sq_wf_row [OF assms(1) Some] by blast
      show ?thesis
        using Some r assms(2) [of rw] row_of_SomeD [OF Some] row_to_receipt_SomeD(9) [OF r(1)]
        by (simp add: sq_view_def row_of_filter [OF k])
    qed (simp add: sq_view_def row_of_filter [OF k])
  qed
qed

lemma sql_update_key:
  assumes "keyed t" "db_ok env k" "\<And>rw. rw_id (f rw) = rw_id rw"
  obtains (hit) rw t' where "row_of t i = Some rw" "Q rw"
      "sql_update env k (\<lambda>rw. rw_id rw = i \<and> Q rw) f t = (Ok 1, t')"
      "\<And>j. row_of t' j = (if j = i then Some (f rw) else row_of t j)" "keyed t'"
  | (miss) "sql_update env k (\<lambda>rw. rw_id rw = i \<and> Q rw) f t = (Ok 0, t)"
      "\<And>rw. row_of t i = Some rw \<Longrightarrow> \<not> Q rw"
proof (cases "\<exists>rw. row_of t i = Some rw \<and> Q rw")
  case True
  then obtain rw where rw: "row_of t i = Some rw" "Q rw" by blast
  let ?g = "\<lambda>rw. if rw_id rw = i \<and> Q rw then f rw else rw"
  have ids: "rw_id (?g x) = rw_id x" for x using assms(3) by simp
  have len: "length (filter (\<lambda>rw. rw_id rw = i \<and> Q rw) t) = 1"
    using rw by (simp add: filter_key [OF assms(1)])
  have "row_of (map ?g t) j = (if j = i then Some (f rw) else row_of t j)" for j
  proof (cases "row_of t j")
    case (Some x)
    with rw row_of_SomeD [OF Some] show ?thesis by (auto simp: row_of_map [of ?g, OF ids])
  qed (use rw in \<open>auto simp: row_of_map [of ?g, OF ids]\<close>)
  with rw hit show thesis
    using assms(1) len keyed_map [of ?g, OF ids] by (simp add: sql_update_def assms(2))
next
  case False
  have none: "\<not> (rw_id x = i \<and> Q x)" if "x \<in> set t" for x
    using False row_of_mem [OF assms(1) that] by auto
  then have "map (\<lambda>rw. if rw_id rw = i \<and> Q rw then f rw else rw) t = map id t"
    by (intro map_cong) auto
  moreover have "filter (\<lambda>rw. rw_id rw = i \<and> Q rw) t = []"
    using none by (auto simp: filter_empty_conv)
  ultimately show thesis using miss False by (simp add: sql_update_def assms(2))
qed

lemma sq_row_update:
  assumes "sq_wf c t" "row_of t i = Some rw" "keyed t'"
    "\<And>j. row_of t' j = (if j = i then Some rw' else row_of t j)"
    "row_to_receipt c rw' = Some r'" "receipt_ok r'"
  shows "sq_wf c t' \<and> sq_view c t' = (sq_view c t)(i \<mapsto> r')"
proof
  have "row_ok c x" if "x \<in> set t'" for x
    using that assms row_of_mem [OF assms(3) that] row_of_SomeD [of t "rw_id x" x]
    by (auto simp: sq_wf_def row_ok_def split: if_splits)
  then show "sq_wf c t'" using assms(1,3) by (simp add: sq_wf_def)
  show "sq_view c t' = (sq_view c t)(i \<mapsto> r')"
    using assms(4,5) by (simp add: sq_view_def fun_eq_iff)
qed

text \<open>Looking up a row by key and owner is the visible part of the view.\<close>

lemma filter_owned:
  assumes "sq_wf c t"
  shows "filter (\<lambda>rw. rw_id rw = i \<and> rw_owner rw = owner) t = [] \<longleftrightarrow> visible (sq_view c t) owner i = None"
proof -
  have k: "keyed t" using assms by (simp add: sq_wf_def)
  show ?thesis
  proof (cases "row_of t i")
    case (Some rw)
    obtain r where "row_to_receipt c rw = Some r" "sq_view c t i = Some r"
      using sq_wf_row [OF assms Some] by blast
    with Some row_to_receipt_SomeD(2) show ?thesis by (simp add: filter_key [OF k] visible_def)
  qed (simp add: filter_key [OF k] visible_def sq_view_def)
qed

lemma get_locked_visible:
  assumes "sq_wf c t"
  shows "get_locked c env k owner i t =
    (if db_ok env k then Ok (visible (sq_view c t) owner i) else Err (db_error env k))"
proof -
  have k: "keyed t" using assms by (simp add: sq_wf_def)
  show ?thesis
  proof (cases "row_of t i")
    case (Some rw)
    obtain r where "row_to_receipt c rw = Some r" "sq_view c t i = Some r"
      using sq_wf_row [OF assms Some] by blast
    with Some row_to_receipt_SomeD(2) show ?thesis
      by (simp add: get_locked_def filter_key [OF k] visible_def)
  qed (simp add: get_locked_def filter_key [OF k] visible_def sq_view_def)
qed

section \<open>Transitions\<close>

definition tr_of :: "OwnerId \<Rightarrow> string \<Rightarrow> request \<Rightarrow> Transition" where
  "tr_of owner i req = \<lparr>tr_expected = req_expected req, tr_next = req_next req,
     tr_effect = req_effect req, tr_detail = req_detail req, tr_owner = owner, tr_id = i\<rparr>"

definition moved_receipt :: "JournalConfig \<Rightarrow> env \<Rightarrow> request \<Rightarrow> OperationReceipt \<Rightarrow> OperationReceipt" where
  "moved_receipt cfg env req r = r\<lparr>rc_state := req_next req, rc_effect := req_effect req,
     rc_detail := (case req_detail req of None \<Rightarrow> rc_detail r | Some d \<Rightarrow> Some d),
     rc_updated_at_ms := clock env 0,
     rc_expires_at_ms := (if holds_slot (req_next req) then None else Some (clock env 0 + retention_ms cfg))\<rparr>"

lemma moved_moved_receipt: "moved req r (moved_receipt cfg env req r)"
  by (simp add: moved_def moved_receipt_def)

lemma expires_if: "(if is_terminal st \<or> st = WaitExpired then Some e else None) = (if holds_slot st then None else Some e)"
  by (simp add: holds_slot_iff)

lemma transition_cases:
  assumes "sq_wf c t" "req_sound req"
  obtains (db) k where "\<not> db_ok env k" "transition cfg env (tr_of owner i req) t = (Err (db_error env k), t)"
  | (moves) r t' where "visible (sq_view c t) owner i = Some r" "rc_state r = req_expected req"
      "transition cfg env (tr_of owner i req) t = (Ok (), t')" "sq_wf c t'"
      "sq_view c t' = (sq_view c t)(i \<mapsto> moved_receipt cfg env req r)"
  | (conflict) r where "visible (sq_view c t) owner i = Some r" "rc_state r \<noteq> req_expected req"
      "transition cfg env (tr_of owner i req) t = (Err Conflict, t)"
  | (missing) "visible (sq_view c t) owner i = None"
      "transition cfg env (tr_of owner i req) t = (Err NotFound, t)"
proof (cases "db_ok env 0")
  case False
  then show thesis by (intro db [of 0]) (simp_all add: transition_def tr_of_def Let_def sql_update_def)
next
  case True
  have k: "keyed t" using assms(1) by (simp add: sq_wf_def)
  let ?Q = "\<lambda>rw. rw_owner rw = owner \<and> rw_state rw = state_str (req_expected req)"
  let ?f = "\<lambda>rw. rw\<lparr>rw_state := state_str (req_next req), rw_effect := effect_str (req_effect req),
      rw_detail := (case req_detail req of None \<Rightarrow> rw_detail rw | Some d \<Rightarrow> Some d),
      rw_updated := clock env 0,
      rw_expires := (if holds_slot (req_next req) then None else Some (clock env 0 + retention_ms cfg))\<rparr>"
  have tr: "transition cfg env (tr_of owner i req) t =
      bind_st (sql_update env 0 (\<lambda>rw. rw_id rw = i \<and> ?Q rw) ?f t) (\<lambda>updated t.
         if updated = 1 then (Ok (), t)
         else if \<not> db_ok env 1 then (Err (db_error env 1), t)
         else (case filter (\<lambda>rw. rw_id rw = i \<and> rw_owner rw = owner) t of
             [] \<Rightarrow> (Err NotFound, t) | _ \<Rightarrow> (Err Conflict, t)))"
    unfolding transition_def tr_of_def Let_def Transition.select_convs expires_if ..
  show thesis
  proof (rule sql_update_key [OF k True, of ?f i ?Q], simp)
    fix rw t'
    assume hit: "row_of t i = Some rw" "?Q rw"
      "sql_update env 0 (\<lambda>rw. rw_id rw = i \<and> ?Q rw) ?f t = (Ok 1, t')"
      "\<And>j. row_of t' j = (if j = i then Some (?f rw) else row_of t j)" "keyed t'"
    obtain r where r: "row_to_receipt c rw = Some r" "receipt_ok r" "sq_view c t i = Some r"
      using sq_wf_row [OF assms(1) hit(1)] by blast
    have st: "rc_state r = req_expected req" "rc_owner r = owner"
      using hit(2) row_to_receipt_SomeD(2,4) [OF r(1)] by simp_all
    have conv: "row_to_receipt c (?f rw) = Some (moved_receipt cfg env req r)"
      unfolding row_to_receipt_move [OF r(1)] moved_receipt_def row_to_receipt_SomeD(6) [OF r(1)] ..
    have ok: "receipt_ok (moved_receipt cfg env req r)"
      using receipt_ok_moved [OF r(2) st(1) assms(2) moved_moved_receipt] .
    from sq_row_update [OF assms(1) hit(1,5,4) conv ok] have "sq_wf c t'"
      "sq_view c t' = (sq_view c t)(i \<mapsto> moved_receipt cfg env req r)" by blast+
    with r(3) st hit(3) show thesis by (intro moves) (simp_all add: visible_def tr)
  next
    assume miss: "sql_update env 0 (\<lambda>rw. rw_id rw = i \<and> ?Q rw) ?f t = (Ok 0, t)"
      "\<And>rw. row_of t i = Some rw \<Longrightarrow> \<not> ?Q rw"
    show thesis
    proof (cases "db_ok env 1")
      case False
      with miss(1) show thesis by (intro db [of 1]) (simp_all add: tr)
    next
      case db1: True
      show thesis
      proof (cases "visible (sq_view c t) owner i")
        case None
        with miss(1) db1 filter_owned [OF assms(1), of i owner] show thesis by (intro missing) (simp_all add: tr)
      next
        case (Some r)
        then have v: "sq_view c t i = Some r" "rc_owner r = owner"
          by (auto simp: visible_def split: option.splits if_splits)
        from v(1) obtain rw where rw: "row_of t i = Some rw" "row_to_receipt c rw = Some r"
          by (rule sq_view_SomeE)
        have "rc_state r \<noteq> req_expected req"
          using miss(2) [OF rw(1)] row_to_receipt_SomeD(2,4) [OF rw(2)] v(2) by auto
        with Some miss(1) db1 filter_owned [OF assms(1), of i owner] show thesis
          by (intro conflict) (simp_all add: tr split: list.splits)
      qed
    qed
  qed
qed

definition sq_refused :: "JournalConfig \<Rightarrow> request \<Rightarrow> EvidenceError option" where
  "sq_refused cfg req =
     (let bound = (case bound_detail cfg (req_detail req) of Err e \<Rightarrow> Some e | Ok _ \<Rightarrow> None) in
      case req of
        Finish st ef d \<Rightarrow>
          if \<not> is_terminal st then Some (not_terminal_error st)
          else if st = Completed \<and> ef = EffUnknown then Some completed_unknown_error else bound
      | _ \<Rightarrow> bound)"

lemma bound_detail_Ok: "bound_detail cfg d = Ok d' \<longleftrightarrow> d' = d \<and>
    (case d of Some x \<Rightarrow> \<not> detail_exceeds cfg x \<and> \<not> has_control x | None \<Rightarrow> True)"
  by (auto simp: bound_detail_def split: option.splits)

lemma sq_refused_None: "sq_refused cfg req = None \<longleftrightarrow> req_sound req \<and> sq_accepts cfg req"
  by (cases req) (auto simp: sq_refused_def sq_accepts_def bound_detail_def split: option.splits)

lemma sq_perform:
  "perform (sqlite_ops c cfg) env owner i req t =
     (case sq_refused cfg req of
        Some e \<Rightarrow> (Err e, t)
      | None \<Rightarrow> if \<not> lock_ok env then (Err Conflict, t) else transition cfg env (tr_of owner i req) t)"
proof (cases req)
  case Dispatch
  then show ?thesis
    by (simp add: perform_def sqlite_ops_def sq_mark_dispatched_def sq_refused_def bound_detail_def tr_of_def)
next
  case (Finish st ef d)
  show ?thesis
  proof (cases "bound_detail cfg d")
    case (Ok d')
    then have "d' = d" by (simp add: bound_detail_Ok)
    with Ok Finish show ?thesis by (simp add: perform_def sqlite_ops_def sq_finish_def sq_refused_def tr_of_def)
  qed (use Finish in \<open>simp add: perform_def sqlite_ops_def sq_finish_def sq_refused_def\<close>)
next
  case (WaitExpire d)
  show ?thesis
  proof (cases "bound_detail cfg (Some d)")
    case (Ok d')
    then have "d' = Some d" by (simp add: bound_detail_Ok)
    with Ok WaitExpire show ?thesis by (simp add: perform_def sqlite_ops_def sq_mark_wait_expired_def sq_refused_def tr_of_def)
  qed (use WaitExpire in \<open>simp add: perform_def sqlite_ops_def sq_mark_wait_expired_def sq_refused_def\<close>)
next
  case (NotSent d)
  show ?thesis
  proof (cases "bound_detail cfg (Some d)")
    case (Ok d')
    then have "d' = Some d" by (simp add: bound_detail_Ok)
    with Ok NotSent show ?thesis by (simp add: perform_def sqlite_ops_def sq_mark_not_sent_def sq_refused_def tr_of_def)
  qed (use NotSent in \<open>simp add: perform_def sqlite_ops_def sq_mark_not_sent_def sq_refused_def\<close>)
qed

lemma visible_SomeD: "visible m owner i = Some r \<Longrightarrow> m i = Some r \<and> rc_owner r = owner"
  by (auto simp: visible_def split: option.splits if_splits)

lemma sq_perform_Ok:
  assumes "sq_wf c t" "perform (sqlite_ops c cfg) env owner i req t = (Ok u, t')"
  shows "req_sound req \<and> sq_wf c t' \<and> (\<exists>r. sq_view c t i = Some r \<and> rc_owner r = owner
    \<and> rc_state r = req_expected req \<and> sq_view c t' = (sq_view c t)(i \<mapsto> moved_receipt cfg env req r))"
proof -
  have n: "sq_refused cfg req = None" using assms(2) by (cases "sq_refused cfg req") (simp_all add: sq_perform)
  then have s: "req_sound req" by (simp add: sq_refused_None)
  have tr: "transition cfg env (tr_of owner i req) t = (Ok u, t')"
    using assms(2) n by (simp add: sq_perform split: if_splits)
  show ?thesis
    using assms(1) s
  proof (rule transition_cases [of c t req env cfg owner i])
    fix r t'' assume m: "visible (sq_view c t) owner i = Some r" "rc_state r = req_expected req"
      "transition cfg env (tr_of owner i req) t = (Ok (), t'')" "sq_wf c t''"
      "sq_view c t'' = (sq_view c t)(i \<mapsto> moved_receipt cfg env req r)"
    then have "t'' = t'" using tr by simp
    with m s visible_SomeD [OF m(1)] show ?thesis by blast
  qed (use tr in simp_all)
qed

lemma sq_perform_Err:
  assumes "sq_wf c t" "perform (sqlite_ops c cfg) env owner i req t = (Err e, t')" shows "t' = t"
proof (cases "sq_refused cfg req")
  case None
  then have s: "req_sound req" by (simp add: sq_refused_None)
  show ?thesis
    using assms(1) s by (rule transition_cases [of c t req env cfg owner i])
      (use None assms(2) in \<open>auto simp: sq_perform split: if_splits\<close>)
qed (use assms(2) in \<open>simp add: sq_perform\<close>)

lemma sq_perform_live:
  assumes "sq_wf c t" "env_ok env" "req_sound req" "sq_accepts cfg req"
  shows "fst (perform (sqlite_ops c cfg) env owner i req t) =
    (case visible (sq_view c t) owner i of
       None \<Rightarrow> Err NotFound
     | Some r \<Rightarrow> if rc_state r = req_expected req then Ok () else Err Conflict)"
proof -
  have n: "sq_refused cfg req = None" using assms by (simp add: sq_refused_None)
  have p: "perform (sqlite_ops c cfg) env owner i req t = transition cfg env (tr_of owner i req) t"
    using n assms(2) by (simp add: sq_perform env_ok_def)
  show ?thesis
    using assms(1,3) by (rule transition_cases [of c t req env cfg owner i])
      (use assms(2) in \<open>auto simp: p env_ok_def\<close>)
qed

section \<open>Admission\<close>

lemma ids_beyond_sub: "i \<in> set (ids_beyond n P t) \<Longrightarrow> \<exists>rw \<in> set t. rw_id rw = i \<and> P rw"
  by (auto simp: ids_beyond_def newest_rows_def dest!: in_set_dropD)

text \<open>A \<open>DELETE\<close> of history keeps well-formedness and everything that holds a slot.\<close>

lemma exec_delete:
  assumes "sq_wf c t" "exec env k (\<lambda>t. filter (P t) t) t = (res, t')"
    "\<And>rw. rw \<in> set t \<Longrightarrow> \<not> P t rw \<Longrightarrow> rw_expires rw \<noteq> None"
  shows "sq_wf c t' \<and> survives (sq_view c t) (sq_view c t')"
  using assms sq_filter [of c t "P t"] by (auto simp: exec_def split: if_splits)

lemma beyond_history:
  assumes "sq_wf c t" "rw \<in> set t" "rw_id rw \<in> set (ids_beyond n (\<lambda>rw. Q rw \<and> rw_expires rw \<noteq> None) t)"
  shows "rw_expires rw \<noteq> None"
proof -
  obtain x where "x \<in> set t" "rw_id x = rw_id rw" "rw_expires x \<noteq> None"
    using ids_beyond_sub [OF assms(3)] by blast
  moreover have "keyed t" using assms(1) by (simp add: sq_wf_def)
  ultimately show ?thesis using row_of_mem assms(2) by (metis option.inject)
qed

lemma prune_wf:
  assumes "sq_wf c t" "prune cfg env owner t = (res, t')"
  shows "sq_wf c t' \<and> survives (sq_view c t) (sq_view c t')"
proof -
  let ?P1 = "\<lambda>(t :: receipts_table) rw. \<not> (case rw_expires rw of Some e \<Rightarrow> e \<le> clock env 1 | None \<Rightarrow> False)"
  let ?P2 = "\<lambda>t rw. rw_id rw \<notin> set (ids_beyond (sql_count (max_rows_per_owner cfg))
      (\<lambda>rw. rw_owner rw = owner \<and> rw_expires rw \<noteq> None) t)"
  let ?P3 = "\<lambda>t rw. rw_id rw \<notin> set (ids_beyond (sql_count (max_total_rows cfg)) (\<lambda>rw. rw_expires rw \<noteq> None) t)"
  obtain r1 t1 where 1: "exec env 0 (\<lambda>t. filter (?P1 t) t) t = (r1, t1)" by (rule prod.exhaust)
  obtain r2 t2 where 2: "exec env 1 (\<lambda>t. filter (?P2 t) t) t1 = (r2, t2)" by (rule prod.exhaust)
  obtain r3 t3 where 3: "exec env 2 (\<lambda>t. filter (?P3 t) t) t2 = (r3, t3)" by (rule prod.exhaust)
  have w1: "sq_wf c t1 \<and> survives (sq_view c t) (sq_view c t1)"
    by (rule exec_delete [OF assms(1) 1]) (auto split: option.splits)
  have w2: "sq_wf c t2 \<and> survives (sq_view c t1) (sq_view c t2)"
    using w1 beyond_history [of c t1 _ _ "\<lambda>rw. rw_owner rw = owner"] by (intro exec_delete [OF _ 2]) auto
  have w3: "sq_wf c t3 \<and> survives (sq_view c t2) (sq_view c t3)"
    using w2 beyond_history [of c t2 _ _ "\<lambda>_. True"] by (intro exec_delete [OF _ 3]) auto
  consider "t' = t1" | "t' = t2" | "t' = t3"
    using assms(2) 1 2 3 by (cases r1; cases r2) (auto simp: prune_def)
  then show ?thesis using w1 w2 w3 survives_trans by cases blast+
qed

lemma sq_append:
  assumes "sq_wf c t" "row_of t (rw_id rw) = None" "row_to_receipt c rw = Some r" "receipt_ok r"
  shows "sq_wf c (t @ [rw]) \<and> sq_view c (t @ [rw]) = (sq_view c t)(rw_id rw \<mapsto> r)"
proof -
  have k: "keyed (t @ [rw])" using assms(1,2) by (auto simp: sq_wf_def keyed_def row_of_None)
  then show ?thesis
    using assms by (auto simp: sq_wf_def row_ok_def sq_view_def row_of_append fun_eq_iff)
qed

lemma sq_admit_cases:
  assumes "sq_wf c t" "sq_admit cfg env owner subject detail t = (ares, t')"
  obtains (refused) e where "ares = Err e" "sq_wf c t'" "survives (sq_view c t) (sq_view c t')"
  | (admitted) t1 where "ares = Ok (new_id env)" "sq_wf c t'" "prune cfg env owner t = (Ok (), t1)"
      "sq_wf c t1" "survives (sq_view c t) (sq_view c t1)" "in_flight_bounds cfg env owner t1 = Ok ()"
      "t' = t1 @ [\<lparr>rw_id = new_id env, rw_owner = owner, rw_subject = subject,
         rw_state = state_str Admitted, rw_effect = effect_str NotApplicable, rw_detail = detail,
         rw_created = clock env 0, rw_updated = clock env 0, rw_expires = None, rw_resolution = None\<rparr>]"
      "sq_view c t' = (sq_view c t1)(new_id env \<mapsto> admitted_receipt (new_id env) owner subject detail (clock env 0))"
proof (cases "subject = [] \<or> 128 < length subject \<or> \<not> lock_ok env \<or> \<not> is_ok (bound_detail cfg detail)")
  case True
  then show thesis
    using assms refused by (auto simp: sq_admit_def split: if_splits result.splits)
next
  case False
  let ?rw = "\<lparr>rw_id = new_id env, rw_owner = owner, rw_subject = subject,
     rw_state = state_str Admitted, rw_effect = effect_str NotApplicable, rw_detail = detail,
     rw_created = clock env 0, rw_updated = clock env 0, rw_expires = None, rw_resolution = None\<rparr>"
  obtain d where "bound_detail cfg detail = Ok d" using False by (cases "bound_detail cfg detail") auto
  then have b: "bound_detail cfg detail = Ok detail" by (simp add: bound_detail_Ok)
  obtain r1 t1 where p: "prune cfg env owner t = (r1, t1)" by (cases "prune cfg env owner t")
  note w1 = prune_wf [OF assms(1) p]
  have run: "(ares, t') = bind_st (r1, t1) (\<lambda>_ t. bind_st (in_flight_bounds cfg env owner t, t) (\<lambda>_ t.
      bind_st (if \<exists>rw \<in> set t. rw_id rw = new_id env then (Err (db_error env 5), t)
        else exec env 5 (\<lambda>t. t @ [?rw]) t) (\<lambda>_ t. (Ok (new_id env), t))))"
  proof -
    have "subject \<noteq> []" "\<not> 128 < length subject" "lock_ok env" using False by auto
    then have "sq_admit cfg env owner subject detail t = bind_st (prune cfg env owner t) (\<lambda>_ t.
      bind_st (in_flight_bounds cfg env owner t, t) (\<lambda>_ t.
      bind_st (if \<exists>rw \<in> set t. rw_id rw = new_id env then (Err (db_error env 5), t)
        else exec env 5 (\<lambda>t. t @ [?rw]) t) (\<lambda>_ t. (Ok (new_id env), t))))"
      by (simp only: sq_admit_def b result.case Let_def not_False_eq_True simp_thms if_False)
    then show ?thesis using assms(2) p by simp
  qed
  show thesis
  proof (cases "r1 = Ok () \<and> in_flight_bounds cfg env owner t1 = Ok ()
      \<and> (\<forall>rw \<in> set t1. rw_id rw \<noteq> new_id env) \<and> db_ok env 5")
    case True
    then have t': "t' = t1 @ [?rw]" "ares = Ok (new_id env)" using run by (auto simp: exec_def)
    have "row_of t1 (rw_id ?rw) = None" using True by (simp add: row_of_None)
    moreover have "row_to_receipt c ?rw = Some (admitted_receipt (new_id env) owner subject detail (clock env 0))"
      unfolding row_to_receipt_def row.select_convs parse_state_str parse_effect_str
      by (simp add: admitted_receipt_def)
    ultimately show thesis
      using admitted True t' p w1 sq_append [of c t1 ?rw] receipt_ok_admitted by auto
  next
    case False
    then have "t' = t1 \<and> \<not> is_ok ares"
      using run by (cases r1; cases "in_flight_bounds cfg env owner t1") (auto simp: exec_def split: if_splits)
    then show thesis using refused w1 by (cases ares) auto
  qed
qed

section \<open>Resolution and recovery\<close>

lemma unresolved_text:
  "state_str st \<in> {''dispatched'', ''wait_expired'', ''unknown_effect''} \<longleftrightarrow> unresolved_state st"
  by (cases st) (simp_all add: unresolved_state_def)

lemma recoverable_text: "state_str st \<in> {''dispatched'', ''wait_expired''} \<longleftrightarrow> recoverable st"
  by (cases st) (simp_all add: recoverable_def)

lemma sq_resolve_cases:
  assumes "sq_wf c t" "sq_resolve c cfg env owner i ef remark t = (rres, t')"
  shows "sq_wf c t' \<and> ((sq_view c t' = sq_view c t \<and> \<not> is_ok rres) \<or>
    (\<exists>r r'. visible (sq_view c t) owner i = Some r \<and> resolved ef remark r r'
       \<and> sq_view c t' = (sq_view c t)(i \<mapsto> r') \<and> (\<forall>x. rres = Ok x \<longrightarrow> x = r')))"
proof (cases "is_ok (bound_detail cfg remark) \<and> lock_ok env \<and> db_ok env 0")
  case False
  then show ?thesis
    using assms by (auto simp: sq_resolve_def sql_update_def split: result.splits if_splits)
next
  case True
  have k: "keyed t" using assms(1) by (simp add: sq_wf_def)
  let ?res = "\<lparr>cr_observed_effect = ef, cr_note = remark, cr_resolved_at_ms = clock env 0\<rparr>"
  obtain enc where enc: "res_to_string c ?res = Ok enc" "res_from_string c enc = Some ?res"
    using assms(1) unfolding sq_wf_def codec_ok_def by blast
  obtain d where "bound_detail cfg remark = Ok d" using True by (cases "bound_detail cfg remark") auto
  then have b: "bound_detail cfg remark = Ok remark" by (simp add: bound_detail_Ok)
  let ?Q = "\<lambda>rw. rw_owner rw = owner \<and> rw_state rw \<in> {''dispatched'', ''wait_expired'', ''unknown_effect''}"
  let ?f = "\<lambda>rw. rw\<lparr>rw_resolution := Some enc, rw_updated := clock env 1\<rparr>"
  have run: "(rres, t') = bind_st (sql_update env 0 (\<lambda>rw. rw_id rw = i \<and> ?Q rw) ?f t) (\<lambda>updated t.
      if updated = 0 then
        (case get_locked c env 1 owner i t of Err e \<Rightarrow> (Err e, t)
         | Ok (Some _) \<Rightarrow> (Err Conflict, t) | Ok None \<Rightarrow> (Err NotFound, t))
      else (case get_locked c env 1 owner i t of Err e \<Rightarrow> (Err e, t)
         | Ok (Some r) \<Rightarrow> (Ok r, t) | Ok None \<Rightarrow> (Err NotFound, t)))"
    using assms(2) True
    unfolding sq_resolve_def b result.case enc(1) by simp
  show ?thesis
  proof (rule sql_update_key [of t env 0 ?f i ?Q, OF k])
    show "db_ok env 0" using True by simp
    show "rw_id (?f rw) = rw_id rw" for rw by simp
  next
    fix rw t1
    assume hit: "row_of t i = Some rw" "?Q rw"
      "sql_update env 0 (\<lambda>rw. rw_id rw = i \<and> ?Q rw) ?f t = (Ok 1, t1)"
      "\<And>j. row_of t1 j = (if j = i then Some (?f rw) else row_of t j)" "keyed t1"
    obtain r where r: "row_to_receipt c rw = Some r" "receipt_ok r" "sq_view c t i = Some r"
      using sq_wf_row [OF assms(1) hit(1)] by blast
    let ?r' = "r\<lparr>rc_resolution := Some ?res, rc_updated_at_ms := clock env 1\<rparr>"
    have "rc_owner r = owner" "unresolved_state (rc_state r)"
      using hit(2) row_to_receipt_SomeD(2,4) [OF r(1)] unresolved_text by simp_all
    then have v: "visible (sq_view c t) owner i = Some r" and res: "resolved ef remark r ?r'"
      using r(3) by (auto simp: visible_def resolved_def)
    have conv: "row_to_receipt c (?f rw) = Some ?r'" by (rule row_to_receipt_resolve [OF r(1) enc(2)])
    from sq_row_update [OF assms(1) hit(1,5,4) conv receipt_ok_resolved [OF r(2) res]]
    have w: "sq_wf c t1" and view: "sq_view c t1 = (sq_view c t)(i \<mapsto> ?r')" by blast+
    have "t' = t1 \<and> (\<forall>x. rres = Ok x \<longrightarrow> x = ?r')"
      using run hit(3) \<open>rc_owner r = owner\<close>
      by (auto simp: get_locked_visible [OF w] view visible_def split: if_splits)
    with w view v res show ?thesis by blast
  next
    assume "sql_update env 0 (\<lambda>rw. rw_id rw = i \<and> ?Q rw) ?f t = (Ok 0, t)"
    then have "t' = t \<and> \<not> is_ok rres"
      using run by (auto simp: get_locked_visible [OF assms(1)] split: if_splits option.splits)
    with assms(1) show ?thesis by simp
  qed
qed

lemma recover_update:
  assumes "sq_wf c t" "sql_update env k
       (\<lambda>rw. rw_id rw = i \<and> rw_state rw \<in> {''dispatched'', ''wait_expired''})
       (\<lambda>rw. rw\<lparr>rw_state := state_str UnknownEffect, rw_effect := effect_str EffUnknown,
          rw_updated := now, rw_expires := Some e\<rparr>) t = (res, t')"
  shows "sq_wf c t' \<and> (\<forall>k. k \<noteq> i \<longrightarrow> sq_view c t' k = sq_view c t k)
    \<and> (t' = t \<or> (\<exists>r r'. sq_view c t i = Some r \<and> sq_view c t' i = Some r' \<and> recovered r r'))
    \<and> (is_ok res \<longrightarrow> (\<forall>r. sq_view c t' i = Some r \<longrightarrow> \<not> recoverable (rc_state r)))"
proof (cases "db_ok env k")
  case False
  with assms show ?thesis by (auto simp: sql_update_def)
next
  case True
  have keyed: "keyed t" using assms(1) by (simp add: sq_wf_def)
  let ?Q = "\<lambda>rw. rw_state rw \<in> {''dispatched'', ''wait_expired''}"
  let ?f = "\<lambda>rw. rw\<lparr>rw_state := state_str UnknownEffect, rw_effect := effect_str EffUnknown,
          rw_updated := now, rw_expires := Some e\<rparr>"
  show ?thesis
  proof (rule sql_update_key [of t env k ?f i ?Q, OF keyed True])
    show "rw_id (?f rw) = rw_id rw" for rw by simp
  next
    fix rw t1
    assume hit: "row_of t i = Some rw" "?Q rw" "sql_update env k (\<lambda>rw. rw_id rw = i \<and> ?Q rw) ?f t = (Ok 1, t1)"
      "\<And>j. row_of t1 j = (if j = i then Some (?f rw) else row_of t j)" "keyed t1"
    then have t1: "t' = t1" using assms(2) by simp
    obtain r where r: "row_to_receipt c rw = Some r" "receipt_ok r" "sq_view c t i = Some r"
      using sq_wf_row [OF assms(1) hit(1)] by blast
    let ?r' = "r\<lparr>rc_state := UnknownEffect, rc_effect := EffUnknown, rc_updated_at_ms := now,
      rc_expires_at_ms := Some e\<rparr>"
    have "recoverable (rc_state r)" using hit(2) row_to_receipt_SomeD(4) [OF r(1)] recoverable_text by simp
    then have rec: "recovered r ?r'" unfolding recovered_def by blast
    have conv: "row_to_receipt c (?f rw) = Some ?r'" by (rule row_to_receipt_recover [OF r(1)])
    have w: "sq_wf c t1" and view: "sq_view c t1 = (sq_view c t)(i \<mapsto> ?r')"
      using sq_row_update [OF assms(1) hit(1,5,4) conv receipt_ok_recovered [OF r(2) rec]] by blast+
    have "\<not> recoverable UnknownEffect" by (simp add: recoverable_def)
    with t1 w view rec r(3) show ?thesis by auto
  next
    assume miss: "sql_update env k (\<lambda>rw. rw_id rw = i \<and> ?Q rw) ?f t = (Ok 0, t)"
      "\<And>rw. row_of t i = Some rw \<Longrightarrow> \<not> ?Q rw"
    have "\<not> recoverable (rc_state r)" if v: "sq_view c t i = Some r" for r
    proof -
      from v obtain rw where "row_of t i = Some rw" "row_to_receipt c rw = Some r" by (rule sq_view_SomeE)
      with miss(2) row_to_receipt_SomeD(4) recoverable_text show ?thesis by metis
    qed
    with miss(1) assms show ?thesis by simp
  qed
qed

lemma recover_loop_view:
  assumes "sq_wf c t" "recover_loop c cfg env n cands acc t = (vres, t')"
  shows "sq_wf c t' \<and> (\<forall>k. rel_option (\<lambda>r r'. r' = r \<or> recovered r r') (sq_view c t k) (sq_view c t' k))
    \<and> (is_ok vres \<longrightarrow> (\<forall>k r. sq_view c t' k = Some r \<and> recoverable (rc_state r) \<longrightarrow> k \<notin> rc_id ` set cands))"
  using assms
proof (induction cands arbitrary: n acc t)
  case Nil
  then show ?case by (auto simp: option.rel_refl)
next
  case (Cons receipt rest)
  let ?i = "rc_id receipt"
  obtain res t1 where up: "sql_update env (2 * n + 1)
       (\<lambda>rw. rw_id rw = ?i \<and> rw_state rw \<in> {''dispatched'', ''wait_expired''})
       (\<lambda>rw. rw\<lparr>rw_state := state_str UnknownEffect, rw_effect := effect_str EffUnknown,
          rw_updated := clock env n, rw_expires := Some (clock env n + retention_ms cfg)\<rparr>) t = (res, t1)"
    by (rule prod.exhaust)
  note u = recover_update [OF Cons.prems(1) up]
  show ?case
  proof (cases res)
    case (Err e)
    then have "t' = t1" "\<not> is_ok vres" using Cons.prems(2) up by auto
    moreover have "t1 = t" using up Err by (simp add: sql_update_def split: if_splits)
    ultimately show ?thesis using Cons.prems(1) by (simp add: option.rel_refl)
  next
    case (Ok m)
    obtain acc' where "recover_loop c cfg env (n + 1) rest acc' t1 = (vres, t')"
      using Cons.prems(2) up Ok by (auto simp: Let_def)
    from Cons.IH [OF conjunct1 [OF u] this] have
      w: "sq_wf c t'" and v: "\<And>k. rel_option (\<lambda>r r'. r' = r \<or> recovered r r') (sq_view c t1 k) (sq_view c t' k)"
      and d: "is_ok vres \<Longrightarrow> sq_view c t' k = Some r \<Longrightarrow> recoverable (rc_state r) \<Longrightarrow> k \<notin> rc_id ` set rest" for k r
      by blast+
    have first: "rel_option (\<lambda>r r'. r' = r \<or> recovered r r') (sq_view c t k) (sq_view c t1 k)" for k
      using u by (cases "k = ?i") (auto simp: option.rel_refl)
    have no: "recovered r r' \<Longrightarrow> recovered r' r'' \<Longrightarrow> False" for r r' r''
      unfolding recovered_def recoverable_def by (elim conjE exE) simp
    have "rel_option (\<lambda>r r'. r' = r \<or> recovered r r') (sq_view c t k) (sq_view c t' k)" for k
      using first [of k] v [of k] no by (cases "sq_view c t k"; cases "sq_view c t1 k"; cases "sq_view c t' k") auto
    moreover have "k \<noteq> ?i" if "sq_view c t' k = Some r" "recoverable (rc_state r)" for k r
    proof
      note r = that
      assume k: "k = ?i"
      have "\<not> recoverable UnknownEffect" by (simp add: recoverable_def)
      then obtain r1 where "sq_view c t1 ?i = Some r1" "recoverable (rc_state r1)"
        using v [of k] r unfolding k
        by (cases "sq_view c t1 ?i") (auto simp: recovered_def)
      with u Ok show False by auto
    qed
    ultimately show ?thesis using w d by auto
  qed
qed

section \<open>The backend meets the contract\<close>

lemma sq_recover_view:
  assumes "sq_wf c t" "sq_recover_uncertain c cfg env t = (vres, t')"
  shows "sq_wf c t' \<and> (\<forall>k. rel_option (\<lambda>r r'. r' = r \<or> recovered r r') (sq_view c t k) (sq_view c t' k))
    \<and> (is_ok vres \<longrightarrow> (\<forall>k r. sq_view c t' k = Some r \<longrightarrow> \<not> recoverable (rc_state r)))"
proof -
  let ?sel = "filter (\<lambda>rw. rw_state rw \<in> {''dispatched'', ''wait_expired''}) t"
  show ?thesis
  proof (cases "lock_ok env \<and> db_ok env 0 \<and> those (map (row_to_receipt c) ?sel) \<noteq> None")
    case False
    then have "t' = t \<and> \<not> is_ok vres"
      using assms(2) by (auto simp: sq_recover_uncertain_def split: option.splits if_splits)
    with assms(1) show ?thesis by (simp add: option.rel_refl)
  next
    case True
    then obtain cands where c: "those (map (row_to_receipt c) ?sel) = Some cands" by blast
    have run: "recover_loop c cfg env 0 cands [] t = (vres, t')"
      using assms(2) True c by (simp add: sq_recover_uncertain_def)
    note loop = recover_loop_view [OF assms(1) run]
    have ids: "those (map (row_to_receipt c) rws) = Some rs \<Longrightarrow> map rc_id rs = map rw_id rws" for rws rs
      by (induction rws arbitrary: rs) (auto split: option.splits dest: row_to_receipt_SomeD(1))
    have "\<not> recoverable (rc_state r)" if ok: "is_ok vres" and r: "sq_view c t' k = Some r" for k r
    proof
      assume rec: "recoverable (rc_state r)"
      have "rel_option (\<lambda>r r'. r' = r \<or> recovered r r') (sq_view c t k) (Some r)"
        using loop r by metis
      moreover have "\<not> recovered r0 r" for r0
        using rec unfolding recovered_def recoverable_def by (intro notI) (elim conjE exE; simp)
      ultimately have old: "sq_view c t k = Some r" by (cases "sq_view c t k") auto
      then obtain rw where rw: "row_of t k = Some rw" "row_to_receipt c rw = Some r" by (rule sq_view_SomeE)
      then have "rw \<in> set ?sel" "rw_id rw = k"
        using row_of_SomeD [OF rw(1)] row_to_receipt_SomeD(4) [OF rw(2)] rec recoverable_text by auto
      then have "k \<in> set (map rc_id cands)" unfolding ids [OF c] by auto
      with loop ok r rec show False by auto
    qed
    with loop show ?thesis by blast
  qed
qed

interpretation sqlite: operation_journal "sqlite_ops c cfg" "sq_wf c" "sq_view c" "sq_accepts cfg" for c cfg
proof
  fix t i r assume "sq_wf c t" "sq_view c t i = Some r"
  then show "receipt_ok r \<and> rc_id r = i" by (rule sq_view_ok)
next
  fix t env owner i req res t'
  assume a: "sq_wf c t" "perform (sqlite_ops c cfg) env owner i req t = (res, t')"
  show "sq_wf c t'"
  proof (cases res)
    case (Ok u)
    with a sq_perform_Ok [of c t cfg env owner i req u t'] show ?thesis by simp
  next
    case (Err e)
    with a sq_perform_Err [of c t cfg env owner i req e t'] show ?thesis by simp
  qed
next
  fix t env owner i req u t'
  assume a: "sq_wf c t" "perform (sqlite_ops c cfg) env owner i req t = (Ok u, t')"
  show "req_sound req \<and> (\<exists>r r'. sq_view c t i = Some r \<and> rc_owner r = owner \<and> rc_state r = req_expected req
      \<and> moved req r r' \<and> sq_view c t' = (sq_view c t)(i \<mapsto> r'))"
    using sq_perform_Ok [OF a] moved_moved_receipt by blast
next
  fix t env owner i req e t'
  assume "sq_wf c t" "perform (sqlite_ops c cfg) env owner i req t = (Err e, t')"
  then show "sq_view c t' = sq_view c t" using sq_perform_Err by blast
next
  fix t env req owner i
  assume "sq_wf c t" "env_ok env" "req_sound req" "sq_accepts cfg req"
  then show "fst (perform (sqlite_ops c cfg) env owner i req t) = (case visible (sq_view c t) owner i of
      None \<Rightarrow> Err NotFound | Some r \<Rightarrow> if rc_state r = req_expected req then Ok () else Err Conflict)"
    by (rule sq_perform_live)
next
  fix t env owner i x
  assume "sq_wf c t" "j_get (sqlite_ops c cfg) env owner i t = Ok x"
  then show "x = visible (sq_view c t) owner i"
    by (simp add: sqlite_ops_def sq_get_def get_locked_visible split: if_splits)
next
  fix t env owner i
  assume "sq_wf c t" "env_ok env"
  then show "is_ok (j_get (sqlite_ops c cfg) env owner i t)"
    by (simp add: sqlite_ops_def sq_get_def get_locked_visible env_ok_def)
next
  fix t env owner subject detail ares t'
  assume a: "sq_wf c t" "sq_view c t (new_id env) = None"
    "j_admit (sqlite_ops c cfg) env owner subject detail t = (ares, t')"
  then have "sq_admit cfg env owner subject detail t = (ares, t')" by (simp add: sqlite_ops_def)
  with a(1) show "sq_wf c t'" by (rule sq_admit_cases)
next
  fix t env owner subject detail i t'
  assume a: "sq_wf c t" "sq_view c t (new_id env) = None"
    "j_admit (sqlite_ops c cfg) env owner subject detail t = (Ok i, t')"
  then have "sq_admit cfg env owner subject detail t = (Ok i, t')" by (simp add: sqlite_ops_def)
  with a(1) show "i = new_id env \<and> (\<exists>m now. survives (sq_view c t) m \<and>
      sq_view c t' = m(i \<mapsto> admitted_receipt i owner subject detail now))"
    by (rule sq_admit_cases) blast+
next
  fix t env owner subject detail e t'
  assume a: "sq_wf c t" "sq_view c t (new_id env) = None"
    "j_admit (sqlite_ops c cfg) env owner subject detail t = (Err e, t')"
  then have "sq_admit cfg env owner subject detail t = (Err e, t')" by (simp add: sqlite_ops_def)
  with a(1) show "survives (sq_view c t) (sq_view c t')" by (rule sq_admit_cases) simp_all
next
  fix t env owner i ef remark rres t'
  assume a: "sq_wf c t" "j_resolve (sqlite_ops c cfg) env owner i ef remark t = (rres, t')"
  then have "sq_resolve c cfg env owner i ef remark t = (rres, t')" by (simp add: sqlite_ops_def)
  note r = sq_resolve_cases [OF a(1) this]
  then show "sq_wf c t'" by blast
  from r show "(sq_view c t' = sq_view c t \<and> \<not> is_ok rres) \<or> (\<exists>r r'. visible (sq_view c t) owner i = Some r
      \<and> resolved ef remark r r' \<and> sq_view c t' = (sq_view c t)(i \<mapsto> r') \<and> (\<forall>x. rres = Ok x \<longrightarrow> x = r'))"
    by blast
next
  fix t env vres t' k
  assume a: "sq_wf c t" "j_recover (sqlite_ops c cfg) env t = (vres, t')"
  then have "sq_recover_uncertain c cfg env t = (vres, t')" by (simp add: sqlite_ops_def)
  note r = sq_recover_view [OF a(1) this]
  then show "sq_wf c t'" by blast
  from r show "rel_option (\<lambda>r r'. r' = r \<or> recovered r r') (sq_view c t k) (sq_view c t' k)" by blast
next
  fix t env rs t' k r
  assume a: "sq_wf c t" "j_recover (sqlite_ops c cfg) env t = (Ok rs, t')" "sq_view c t' k = Some r"
  then have "sq_recover_uncertain c cfg env t = (Ok rs, t')" by (simp add: sqlite_ops_def)
  from sq_recover_view [OF a(1) this] a(3) show "\<not> recoverable (rc_state r)" by auto
next
  fix t env
  assume a: "sq_wf c t" "env_ok env"
  have rows: "(\<And>rw. rw \<in> set rws \<Longrightarrow> row_ok c rw) \<Longrightarrow> those (map (row_to_receipt c) rws) \<noteq> None" for rws
  proof (induction rws)
    case (Cons rw rws)
    then obtain r where "row_to_receipt c rw = Some r" by (auto simp: row_ok_def)
    with Cons show ?case by (auto split: option.splits)
  qed simp
  have loop: "is_ok (fst (recover_loop c cfg env n cands acc t))" for n cands acc t
    using a(2) by (induction cands arbitrary: n acc t) (simp_all add: env_ok_def sql_update_def Let_def)
  show "is_ok (fst (j_recover (sqlite_ops c cfg) env t))"
    using a rows [of "filter (\<lambda>rw. rw_state rw \<in> {''dispatched'', ''wait_expired''}) t"] loop
    by (auto simp: sqlite_ops_def sq_recover_uncertain_def env_ok_def sq_wf_def split: option.splits)
qed

section \<open>Opening the journal\<close>

text \<open>
  \<open>open\<close> and \<open>open_memory\<close>.  The file system answers (is the root a directory, is it private,
  can the lock file be opened and locked) and the stored schema version are the arguments;
  statements of \<open>open\<close> use the indices \<open>0\<close> to \<open>3\<close>, recovery runs on the following ones.
\<close>

datatype lock_result = LockAcquired | LockWouldBlock | LockError string

record journal_root =
  root_is_dir :: bool
  root_private :: "(unit, EvidenceError) result"
  lock_file :: "(unit, EvidenceError) result"
  try_lock :: lock_result
  user_version :: "int option"

definition later_env :: "nat \<Rightarrow> env \<Rightarrow> env" where
  "later_env n env = env\<lparr>db_ok := (\<lambda>k. db_ok env (k + n)), db_msg := (\<lambda>k. db_msg env (k + n))\<rparr>"

definition unsupported_schema :: "string \<Rightarrow> EvidenceError" where
  "unsupported_schema v = InvalidInput
     (''operation journal schema version '' @ v @ '' is not supported by this build'')"

definition sq_open :: "(int \<Rightarrow> string) \<Rightarrow> resolution_codec \<Rightarrow> JournalConfig \<Rightarrow> env \<Rightarrow> journal_root \<Rightarrow> receipts_table
    \<Rightarrow> (unit, EvidenceError) result \<times> int option \<times> receipts_table" where
  "sq_open show_int c cfg env root t =
     (let v = user_version root in
      if \<not> root_is_dir root then (Err (InvalidInput ''operation journal root must be a real directory''), v, t)
      else (case root_private root of
          Err e \<Rightarrow> (Err e, v, t)
        | Ok _ \<Rightarrow> (case lock_file root of
            Err e \<Rightarrow> (Err e, v, t)
          | Ok _ \<Rightarrow> (case try_lock root of
              LockWouldBlock \<Rightarrow> (Err Conflict, v, t)
            | LockError msg \<Rightarrow> (Err (EvIo msg), v, t)
            | LockAcquired \<Rightarrow>
                if \<not> db_ok env 0 then (Err (db_error env 0), v, t)
                else if \<not> db_ok env 1 then (Err (db_error env 1), v, t)
                else if \<not> db_ok env 2 then (Err (db_error env 2), v, t)
                else
                  let migrated = (Some 2 :: int option) in
                  if v = None \<or> v = Some 0 \<or> v = Some 1 then
                    (if \<not> db_ok env 3 then (Err (db_error env 3), v, t)
                     else let (res, t') = sq_recover_uncertain c cfg (later_env 4 env) t
                          in (map_ok (\<lambda>_. ()) res, migrated, t'))
                  else if v = Some 2 then
                    let (res, t') = sq_recover_uncertain c cfg (later_env 4 env) t
                    in (map_ok (\<lambda>_. ()) res, v, t')
                  else (Err (unsupported_schema (show_int (the v))), v, t)))))"

end
