(* ===== verification/Journals.thy ===== *)
theory Journals
  imports SqliteJournal
begin

text \<open>
  What the two backends of the operation journal guarantee, on the facts the locale
  \<open>operation_journal\<close> gives for both, and the admission and retention bounds of the durable one.
\<close>

section \<open>Samples\<close>

text \<open>A serialization of caller resolutions that round trips, and a call that meets no failure.\<close>

definition sample_to_string :: "CallerResolution \<Rightarrow> (string, string) result" where
  "sample_to_string r = Ok (effect_str (cr_observed_effect r) @ CHR ''.'' #
     (if 0 \<le> cr_resolved_at_ms r then CHR ''+'' else CHR ''-'') #
     replicate (nat \<bar>cr_resolved_at_ms r\<bar>) (CHR ''x'') @ CHR ''.'' #
     (case cr_note r of None \<Rightarrow> [] | Some n \<Rightarrow> CHR ''!'' # n))"

definition sample_from_string :: "string \<Rightarrow> CallerResolution option" where
  "sample_from_string s =
     (let e = takeWhile (\<lambda>c. c \<noteq> CHR ''.'') s; s1 = drop (length e + 1) s;
          n = length (takeWhile (\<lambda>c. c = CHR ''x'') (tl s1)); s2 = drop (n + 2) s1
      in map_option (\<lambda>ef. \<lparr>cr_observed_effect = ef,
           cr_note = (case s2 of [] \<Rightarrow> None | _ # m \<Rightarrow> Some m),
           cr_resolved_at_ms = (if hd s1 = CHR ''+'' then int n else - int n)\<rparr>) (parse_effect e))"

definition sample_res_codec :: resolution_codec where
  "sample_res_codec = \<lparr>res_to_string = sample_to_string, res_from_string = sample_from_string\<rparr>"

lemma takeWhile_effect: "takeWhile (\<lambda>c. c \<noteq> CHR ''.'') (effect_str ef @ CHR ''.'' # s) = effect_str ef"
  by (cases ef) simp_all

lemma takeWhile_marks:
  "takeWhile (\<lambda>c. c = CHR ''x'') (replicate n (CHR ''x'') @ CHR ''.'' # s) = replicate n (CHR ''x'')"
  by (induction n) simp_all

lemma sample_codec_ok: "codec_ok sample_res_codec"
  unfolding codec_ok_def
proof
  fix r :: CallerResolution
  let ?e = "effect_str (cr_observed_effect r)" and ?t = "cr_resolved_at_ms r"
  let ?sg = "if 0 \<le> ?t then CHR ''+'' else CHR ''-''" and ?m = "replicate (nat \<bar>?t\<bar>) (CHR ''x'')"
  let ?rest = "case cr_note r of None \<Rightarrow> [] | Some n \<Rightarrow> CHR ''!'' # n"
  let ?s = "?e @ CHR ''.'' # ?sg # ?m @ CHR ''.'' # ?rest"
  have d1: "drop (length ?e + 1) ?s = ?sg # ?m @ CHR ''.'' # ?rest" by simp
  have d2: "drop (length ?m + 2) (?sg # ?m @ CHR ''.'' # ?rest) = ?rest" by simp
  have "sample_from_string ?s = Some \<lparr>cr_observed_effect = cr_observed_effect r,
      cr_note = (case ?rest of [] \<Rightarrow> None | _ # m \<Rightarrow> Some m),
      cr_resolved_at_ms = (if ?sg = CHR ''+'' then int (length ?m) else - int (length ?m))\<rparr>"
    unfolding sample_from_string_def Let_def takeWhile_effect d1 list.sel takeWhile_marks d2
    by (simp only: parse_effect_str option.map)
  also have "\<dots> = Some r" by (cases r; cases "0 \<le> ?t") (auto split: option.splits)
  finally show "\<exists>s. res_to_string sample_res_codec r = Ok s \<and> res_from_string sample_res_codec s = Some r"
    by (simp add: sample_res_codec_def sample_to_string_def)
qed

definition sample_env :: "string \<Rightarrow> env" where
  "sample_env u = \<lparr>clock = (\<lambda>_. 1000), new_uuid = u, lock_ok = True, db_ok = (\<lambda>_. True), db_msg = (\<lambda>_. [])\<rparr>"

lemma sample_env_ok: "env_ok (sample_env u)"
  by (simp add: env_ok_def sample_env_def)

lemma sq_wf_Nil: "codec_ok c \<Longrightarrow> sq_wf c []"
  by (simp add: sq_wf_def keyed_def)

lemma sq_view_Nil: "sq_view c [] = Map.empty"
  by (simp add: sq_view_def row_of_def fun_eq_iff)

lemma mem_wf_Nil: "mem_wf []"
  by (simp add: mem_wf_def)

section \<open>Admission slots of the durable backend\<close>

lemma slots_rows:
  assumes "sq_wf c t"
  shows "slots (sq_view c t) owner = rw_id ` set (filter (\<lambda>rw. rw_owner rw = owner \<and> rw_expires rw = None) t)"
    and "all_slots (sq_view c t) = rw_id ` set (filter (\<lambda>rw. rw_expires rw = None) t)"
proof -
  have k: "keyed t" using assms by (simp add: sq_wf_def)
  have *: "(\<exists>r. sq_view c t i = Some r \<and> P (rc_owner r) \<and> rc_expires_at_ms r = None) \<longleftrightarrow>
      i \<in> rw_id ` set (filter (\<lambda>rw. P (rw_owner rw) \<and> rw_expires rw = None) t)" for i P
  proof
    assume "\<exists>r. sq_view c t i = Some r \<and> P (rc_owner r) \<and> rc_expires_at_ms r = None"
    then obtain r rw where r: "P (rc_owner r)" "rc_expires_at_ms r = None" "row_of t i = Some rw"
      "row_to_receipt c rw = Some r" by (metis sq_view_SomeE)
    then have "rw \<in> set (filter (\<lambda>rw. P (rw_owner rw) \<and> rw_expires rw = None) t)" "i = rw_id rw"
      using row_of_SomeD [OF r(3)] row_to_receipt_SomeD(2,9) [OF r(4)] by simp_all
    then show "i \<in> rw_id ` set (filter (\<lambda>rw. P (rw_owner rw) \<and> rw_expires rw = None) t)" by blast
  next
    assume "i \<in> rw_id ` set (filter (\<lambda>rw. P (rw_owner rw) \<and> rw_expires rw = None) t)"
    then obtain rw where rw: "rw \<in> set t" "P (rw_owner rw)" "rw_expires rw = None" "i = rw_id rw" by auto
    then have "row_of t i = Some rw" using row_of_mem [OF k] by simp
    from sq_wf_row [OF assms this] rw row_to_receipt_SomeD(2,9)
    show "\<exists>r. sq_view c t i = Some r \<and> P (rc_owner r) \<and> rc_expires_at_ms r = None" by metis
  qed
  show "slots (sq_view c t) owner = rw_id ` set (filter (\<lambda>rw. rw_owner rw = owner \<and> rw_expires rw = None) t)"
    using * [of _ "\<lambda>x. x = owner"] by (auto simp: slots_def)
  show "all_slots (sq_view c t) = rw_id ` set (filter (\<lambda>rw. rw_expires rw = None) t)"
    using * [of _ "\<lambda>_. True"] by (simp add: all_slots_def set_eq_iff)
qed

lemma card_keyed: "keyed t \<Longrightarrow> card (rw_id ` set (filter P t)) = length (filter P t)"
proof -
  assume "keyed t"
  then have "distinct (map rw_id (filter P t))" unfolding keyed_def by (rule distinct_map_filter)
  then show ?thesis by (metis distinct_card length_map set_map)
qed

lemma card_slots:
  assumes "sq_wf c t"
  shows "card (slots (sq_view c t) owner) = owner_in_flight owner t" "finite (slots (sq_view c t) owner)"
    "card (all_slots (sq_view c t)) = total_in_flight t" "finite (all_slots (sq_view c t))"
  using assms card_keyed [of t]
  by (simp_all add: slots_rows [OF assms] owner_in_flight_def total_in_flight_def sq_wf_def)

definition slots_bounded :: "JournalConfig \<Rightarrow> receipts_table \<Rightarrow> bool" where
  "slots_bounded cfg t \<longleftrightarrow> (\<forall>owner. owner_in_flight owner t \<le> unat (max_in_flight_per_owner cfg))
     \<and> total_in_flight t \<le> unat (max_in_flight_total cfg)"

lemma keeps_slots_bounded:
  assumes "sq_wf c t" "sq_wf c t'" "keeps_slots (sq_view c t) (sq_view c t')" "slots_bounded cfg t"
  shows "slots_bounded cfg t'"
proof -
  have "owner_in_flight owner t' \<le> owner_in_flight owner t" for owner
    using card_mono [OF card_slots(2) [OF assms(1)] keeps_slots_sub(1) [OF assms(3)], of owner]
    by (simp add: card_slots [OF assms(1)] card_slots [OF assms(2)])
  moreover have "total_in_flight t' \<le> total_in_flight t"
    using card_mono [OF card_slots(4) [OF assms(1)] keeps_slots_sub(2) [OF assms(3)]]
    by (simp add: card_slots [OF assms(1)] card_slots [OF assms(2)])
  ultimately show ?thesis using assms(4) unfolding slots_bounded_def by (meson le_trans)
qed

lemma in_flight_bounds_Ok:
  "in_flight_bounds cfg env owner t = Ok () \<Longrightarrow>
     owner_in_flight owner t < unat (max_in_flight_per_owner cfg) \<and> total_in_flight t < unat (max_in_flight_total cfg)"
  by (auto simp: in_flight_bounds_def split: if_splits)

lemma survives_bounded:
  assumes "sq_wf c t" "sq_wf c t'" "survives (sq_view c t) (sq_view c t')"
  shows "owner_in_flight owner t' = owner_in_flight owner t" "total_in_flight t' = total_in_flight t"
  using survives_slots [OF assms(3)] card_slots [OF assms(1)] card_slots [OF assms(2)] by metis+

lemma admit_bounded:
  assumes "sq_wf c t" "sq_admit cfg env owner subject detail t = (ares, t')" "slots_bounded cfg t"
  shows "slots_bounded cfg t'"
  using assms(1,2)
proof (rule sq_admit_cases)
  fix e assume "sq_wf c t'" "survives (sq_view c t) (sq_view c t')"
  then show ?thesis using assms(3) survives_bounded [OF assms(1)] by (simp add: slots_bounded_def)
next
  fix t1 assume t1: "sq_wf c t1" "survives (sq_view c t) (sq_view c t1)" "in_flight_bounds cfg env owner t1 = Ok ()"
    and t': "t' = t1 @ [\<lparr>rw_id = new_id env, rw_owner = owner, rw_subject = subject,
         rw_state = state_str Admitted, rw_effect = effect_str NotApplicable, rw_detail = detail,
         rw_created = clock env 0, rw_updated = clock env 0, rw_expires = None, rw_resolution = None\<rparr>]"
  have "owner_in_flight o' t' = owner_in_flight o' t1 + (if o' = owner then 1 else 0)" for o'
    by (simp add: owner_in_flight_def t')
  moreover have "total_in_flight t' = total_in_flight t1 + 1" by (simp add: total_in_flight_def t')
  ultimately show ?thesis
    using assms(3) in_flight_bounds_Ok [OF t1(3)] survives_bounded [OF assms(1) t1(1,2)]
    by (auto simp: slots_bounded_def)
qed

lemma sqlite_step_bounded:
  assumes "journal_step (sqlite_ops c cfg) (U, t) (U', t')" "sq_wf c t" "dom (sq_view c t) \<subseteq> U" "slots_bounded cfg t"
  shows "slots_bounded cfg t'"
proof -
  have w: "sq_wf c t'" using sqlite.step_wf_used [OF assms(1-3)] by blast
  from assms(1) show ?thesis
  proof (cases rule: journal_stepE)
    case (perform env owner i req res)
    with keeps_slots_bounded [OF assms(2) w] sqlite.perform_keeps_slots [OF assms(2)] assms(4) show ?thesis by blast
  next
    case (admit env owner subject detail ares)
    then have "sq_admit cfg env owner subject detail t = (ares, t')" by (simp add: sqlite_ops_def)
    with admit_bounded [OF assms(2)] assms(4) show ?thesis by blast
  next
    case (resolve env owner i ef remark rres)
    with keeps_slots_bounded [OF assms(2) w] sqlite.resolve_keeps_slots [OF assms(2)] assms(4) show ?thesis by blast
  next
    case (recover env vres)
    with keeps_slots_bounded [OF assms(2) w] sqlite.recover_keeps_slots [OF assms(2)] assms(4) show ?thesis by blast
  qed
qed

lemma sqlite_steps_bounded:
  assumes "(journal_step (sqlite_ops c cfg))\<^sup>*\<^sup>* (U, t) (U', t')" "sq_wf c t" "dom (sq_view c t) \<subseteq> U"
    "slots_bounded cfg t"
  shows "sq_wf c t' \<and> dom (sq_view c t') \<subseteq> U' \<and> slots_bounded cfg t'"
  using assms(1)
proof (induction "(U', t')" arbitrary: U' t' rule: rtranclp_induct)
  case base
  with assms show ?case by simp
next
  case (step y)
  obtain U1 t1 where y: "y = (U1, t1)" by (cases y)
  with step have "sq_wf c t1" "dom (sq_view c t1) \<subseteq> U1" "slots_bounded cfg t1"
    "journal_step (sqlite_ops c cfg) (U1, t1) (U', t')" by blast+
  with sqlite.step_wf_used sqlite_step_bounded show ?case by metis
qed

section \<open>A sample table\<close>

definition sample_row1 :: row where
  "sample_row1 = \<lparr>rw_id = ''op_1'', rw_owner = ''o'', rw_subject = ''record'',
     rw_state = ''dispatched'', rw_effect = ''unknown'', rw_detail = None, rw_created = 1,
     rw_updated = 1, rw_expires = None, rw_resolution = None\<rparr>"

definition sample_receipt1 :: OperationReceipt where
  "sample_receipt1 = \<lparr>rc_id = ''op_1'', rc_owner = ''o'', rc_subject = ''record'',
     rc_state = Dispatched, rc_effect = EffUnknown, rc_detail = None, rc_created_at_ms = 1,
     rc_updated_at_ms = 1, rc_expires_at_ms = None, rc_resolution = None\<rparr>"

lemma sample_row1_receipt: "row_to_receipt c sample_row1 = Some sample_receipt1"
  by (simp add: row_to_receipt_def sample_row1_def parse_state_def parse_effect_def sample_receipt1_def)

lemma sample_receipt1_ok: "receipt_ok sample_receipt1"
  by (simp add: receipt_ok_def sample_receipt1_def holds_slot_def)

lemma sample_table_wf: "sq_wf sample_res_codec [sample_row1]"
  using sample_row1_receipt sample_receipt1_ok
  by (auto simp: sq_wf_def sample_codec_ok keyed_def row_ok_def)

lemma sample_table_view: "sq_view c [sample_row1] = [''op_1'' \<mapsto> sample_receipt1]"
  using sample_row1_receipt [of c] by (simp add: sq_view_def row_of_def fun_eq_iff) (simp add: sample_row1_def)

lemma sample_mem_wf: "mem_wf [(''op_1'', sample_receipt1)]"
  by (simp add: mem_wf_def sample_receipt1_ok) (simp add: sample_receipt1_def)

section \<open>Properties\<close>

text \<open>C16: Whatever calls are made, in any order and by any owner, a receipt only moves forward
along its lifecycle, under the same owner, subject and creation time; once terminal, its state,
effect and detail never change again; and a receipt whose wait expired stays with an unknown
effect: no later call can turn it into a known result.\<close>

theorem sqlite_receipt_lifecycle:
  assumes "(journal_step (sqlite_ops c cfg))\<^sup>*\<^sup>* (U, t) (U', t')" "sq_wf c t" "dom (sq_view c t) \<subseteq> U"
    and "sq_view c t i = Some r" "sq_view c t' i = Some r'"
  shows "rc_owner r' = rc_owner r \<and> rc_subject r' = rc_subject r \<and> rc_created_at_ms r' = rc_created_at_ms r
    \<and> lifecycle\<^sup>*\<^sup>* (rc_state r) (rc_state r')
    \<and> (is_terminal (rc_state r) \<longrightarrow> rc_state r' = rc_state r \<and> rc_effect r' = rc_effect r \<and> rc_detail r' = rc_detail r)
    \<and> (rc_state r = WaitExpired \<longrightarrow> rc_state r' \<in> {WaitExpired, UnknownEffect} \<and> rc_effect r' = EffUnknown)"
proof -
  have e: "evolves r r'" using sqlite.steps_evolve [OF assms(1-4)] assms(5) by blast
  have w: "rc_state r = WaitExpired \<longrightarrow> rc_state r' \<in> {WaitExpired, UnknownEffect} \<and> rc_effect r' = EffUnknown"
    using sqlite.unobserved_stays_unknown [OF assms(1-4)] assms(5) by blast
  from e w lifecycle_rtranclp_terminal [of "rc_state r" "rc_state r'"] show ?thesis by (auto simp: evolves_def)
qed

lemma sample_step:
  "(journal_step (sqlite_ops sample_res_codec config_default))\<^sup>*\<^sup>* ({''op_1''}, [sample_row1])
     ({''op_1''}, snd (perform (sqlite_ops sample_res_codec config_default) (sample_env []) ''o'' ''op_1''
        (WaitExpire ''gone'') [sample_row1]))"
  by (rule r_into_rtranclp, rule step_perform) (rule prod.collapse [symmetric])

lemma sample_expired:
  "sq_view c (snd (perform (sqlite_ops sample_res_codec config_default) (sample_env []) ''o'' ''op_1''
      (WaitExpire ''gone'') [sample_row1])) ''op_1''
   = Some (moved_receipt config_default (sample_env []) (WaitExpire ''gone'') sample_receipt1)"
  by (simp add: perform_def sqlite_ops_def sq_mark_wait_expired_def bound_detail_def detail_exceeds_def
      config_default_def byte_def transition_def Let_def sql_update_def sample_env_def sample_row1_def
      sq_view_def row_of_def row_to_receipt_def parse_state_def parse_effect_def moved_receipt_def
      sample_receipt1_def holds_slot_def retention_ms_def)

theorem sqlite_receipt_lifecycle_witness:
  "lifecycle\<^sup>*\<^sup>* Dispatched WaitExpired"
  using sqlite_receipt_lifecycle [OF sample_step sample_table_wf _ _ sample_expired,
      of sample_receipt1]
  by (simp add: sample_table_view moved_receipt_def) (simp add: sample_receipt1_def)

text \<open>The backend without a database gives the same guarantee.\<close>

theorem memory_receipt_lifecycle:
  assumes "(journal_step (memory_ops cfg))\<^sup>*\<^sup>* (U, j) (U', j')" "mem_wf j" "dom (mem_view j) \<subseteq> U"
    and "mem_view j i = Some r" "mem_view j' i = Some r'"
  shows "rc_owner r' = rc_owner r \<and> rc_subject r' = rc_subject r \<and> rc_created_at_ms r' = rc_created_at_ms r
    \<and> lifecycle\<^sup>*\<^sup>* (rc_state r) (rc_state r')
    \<and> (is_terminal (rc_state r) \<longrightarrow> rc_state r' = rc_state r \<and> rc_effect r' = rc_effect r \<and> rc_detail r' = rc_detail r)
    \<and> (rc_state r = WaitExpired \<longrightarrow> rc_state r' \<in> {WaitExpired, UnknownEffect} \<and> rc_effect r' = EffUnknown)"
proof -
  have e: "evolves r r'" using memory.steps_evolve [OF assms(1-4)] assms(5) by blast
  have w: "rc_state r = WaitExpired \<longrightarrow> rc_state r' \<in> {WaitExpired, UnknownEffect} \<and> rc_effect r' = EffUnknown"
    using memory.unobserved_stays_unknown [OF assms(1-4)] assms(5) by blast
  from e w lifecycle_rtranclp_terminal [of "rc_state r" "rc_state r'"] show ?thesis by (auto simp: evolves_def)
qed

theorem memory_receipt_lifecycle_witness:
  "lifecycle\<^sup>*\<^sup>* Dispatched UnknownEffect"
proof -
  let ?j = "[(''op_1'', sample_receipt1)]"
  let ?j' = "snd (j_recover (memory_ops config_default) (sample_env []) ?j)"
  have st: "(journal_step (memory_ops config_default))\<^sup>*\<^sup>* ({''op_1''}, ?j) ({''op_1''}, ?j')"
    by (rule r_into_rtranclp, rule step_recover) (rule prod.collapse [symmetric])
  have v: "mem_view ?j' ''op_1'' = Some (recover_receipt config_default 1000 sample_receipt1)"
    by (simp add: mem_view_def memory_ops_def mem_recover_uncertain_def sample_env_def Let_def)
       (simp add: sample_receipt1_def)
  show ?thesis
    using memory_receipt_lifecycle [OF st sample_mem_wf _ _ v, of sample_receipt1]
    by (simp add: mem_view_def recover_receipt_def) (simp add: sample_receipt1_def)
qed



text \<open>C36: The durable backend never holds more waiting calls than configured, for one owner or in all:
starting from an empty table no sequence of calls exceeds either bound, and a refused admission
inserts nothing and removes no waiting receipt.\<close>

theorem sqlite_in_flight_bounded:
  assumes "codec_ok c" "(journal_step (sqlite_ops c cfg))\<^sup>*\<^sup>* ({}, []) (U, t)"
    and "sq_admit cfg env owner subject detail t = (ares, t')"
  shows "(\<forall>o'. owner_in_flight o' t \<le> unat (max_in_flight_per_owner cfg))
    \<and> total_in_flight t \<le> unat (max_in_flight_total cfg)
    \<and> ((\<nexists>i. ares = Ok i) \<longrightarrow> rw_id ` set t' \<subseteq> rw_id ` set t
         \<and> (\<forall>o'. owner_in_flight o' t' = owner_in_flight o' t))"
proof -
  have b: "sq_wf c t" "slots_bounded cfg t"
    using sqlite_steps_bounded [OF assms(2) sq_wf_Nil [OF assms(1)]]
    by (simp_all add: sq_view_Nil slots_bounded_def owner_in_flight_def total_in_flight_def)
  have "rw_id ` set t' \<subseteq> rw_id ` set t \<and> (\<forall>o'. owner_in_flight o' t' = owner_in_flight o' t)"
    if none: "\<nexists>i. ares = Ok i"
    using b(1) assms(3)
  proof (rule sq_admit_cases)
    fix e assume r: "sq_wf c t'" "survives (sq_view c t) (sq_view c t')"
    have "row_of t i \<noteq> None" if "row_of t' i \<noteq> None" for i
    proof -
      have "sq_view c t' i \<noteq> None" using that sq_view_None [OF r(1), of i] by simp
      then have "sq_view c t i \<noteq> None"
        using r(2) [unfolded survives_def, rule_format, of i] by (elim disjE conjE exE) simp_all
      then show ?thesis using sq_view_None [OF b(1), of i] by simp
    qed
    then show ?thesis
      using survives_bounded [OF b(1) r] by (auto simp: row_of_None image_iff) metis
  qed (use none in blast)
  with b(2) show ?thesis by (simp add: slots_bounded_def)
qed

theorem sqlite_in_flight_bounded_witness:
  "total_in_flight [] \<le> unat (max_in_flight_total config_default)"
  using sqlite_in_flight_bounded [OF sample_codec_ok rtranclp.rtrancl_refl prod.collapse [symmetric],
      of config_default]
  by blast

lemma length_beyond:
  assumes "keyed t"
  shows "length (filter P (filter (\<lambda>rw. rw_id rw \<notin> set (ids_beyond n P t)) t)) \<le> n"
proof -
  let ?new = "newest_rows (filter P t)"
  have set: "set ?new = set (filter P t)" by (simp add: newest_rows_def)
  have dist: "distinct (map rw_id ?new)"
    using assms keyed_filter [OF assms, of P]
    by (simp add: newest_rows_def keyed_def rev_map [symmetric] distinct_map inj_on_def)
  have "rw_id ` set (filter P (filter (\<lambda>rw. rw_id rw \<notin> set (ids_beyond n P t)) t)) \<subseteq> set (map rw_id (take n ?new))"
  proof
    fix i assume "i \<in> rw_id ` set (filter P (filter (\<lambda>rw. rw_id rw \<notin> set (ids_beyond n P t)) t))"
    then obtain rw where "rw \<in> set ?new" "i = rw_id rw" "i \<notin> set (map rw_id (drop n ?new))"
      using set by (auto simp: ids_beyond_def)
    then show "i \<in> set (map rw_id (take n ?new))"
      by (metis Un_iff append_take_drop_id image_eqI list.set_map set_append)
  qed
  then have "card (rw_id ` set (filter P (filter (\<lambda>rw. rw_id rw \<notin> set (ids_beyond n P t)) t)))
      \<le> card (set (map rw_id (take n ?new)))" by (intro card_mono) simp_all
  also have "\<dots> \<le> length (map rw_id (take n ?new))" by (rule card_length)
  also have "\<dots> \<le> n" by simp
  finally show ?thesis using card_keyed [OF keyed_filter [OF assms]] by metis
qed

lemma length_filter_filter: "length (filter P (filter Q xs)) \<le> length (filter P xs)"
  by (induction xs) simp_all

lemma prune_Ok:
  assumes "prune cfg env owner t = (Ok (), t3)"
  obtains t1 t2 where
    "t1 = filter (\<lambda>rw. \<not> (case rw_expires rw of Some e \<Rightarrow> e \<le> clock env 1 | None \<Rightarrow> False)) t"
    "t2 = filter (\<lambda>rw. rw_id rw \<notin> set (ids_beyond (sql_count (max_rows_per_owner cfg))
        (\<lambda>rw. rw_owner rw = owner \<and> rw_expires rw \<noteq> None) t1)) t1"
    "t3 = filter (\<lambda>rw. rw_id rw \<notin> set (ids_beyond (sql_count (max_total_rows cfg))
        (\<lambda>rw. rw_expires rw \<noteq> None) t2)) t2"
  using assms unfolding prune_def exec_def by (simp split: if_splits)

lemma prune_keeps_active:
  assumes "sq_wf c t" "prune cfg env owner t = (Ok (), t3)" "rw \<in> set t" "rw_expires rw = None"
  shows "rw \<in> set t3"
proof (rule prune_Ok [OF assms(2)])
  fix t1 t2
  assume t1: "t1 = filter (\<lambda>rw. \<not> (case rw_expires rw of Some e \<Rightarrow> e \<le> clock env 1 | None \<Rightarrow> False)) t"
    and t2: "t2 = filter (\<lambda>rw. rw_id rw \<notin> set (ids_beyond (sql_count (max_rows_per_owner cfg))
        (\<lambda>rw. rw_owner rw = owner \<and> rw_expires rw \<noteq> None) t1)) t1"
    and t3: "t3 = filter (\<lambda>rw. rw_id rw \<notin> set (ids_beyond (sql_count (max_total_rows cfg))
        (\<lambda>rw. rw_expires rw \<noteq> None) t2)) t2"
  have w1: "sq_wf c t1" unfolding t1 by (rule sq_filter(1) [OF assms(1)]) (auto split: option.splits)
  have w2: "sq_wf c t2" using w1 unfolding t2 sq_wf_def by (auto intro: keyed_filter)
  have m1: "rw \<in> set t1" using assms(3,4) by (simp add: t1)
  have m2: "rw \<in> set t2"
    using m1 assms(4) beyond_history [OF w1 m1, of _ "\<lambda>rw. rw_owner rw = owner"] by (auto simp: t2)
  show ?thesis
    using m2 assms(4) beyond_history [OF w2 m2, of _ "\<lambda>_. True"] by (auto simp: t3)
qed
text \<open>An admission leaves bounded history: afterwards no expired receipt is left, the settled
receipts of the owner and of the whole table are within the configured numbers, and every receipt
that still holds a slot was kept.\<close>

theorem sqlite_history_bounded:
  assumes "sq_wf c t" "sq_admit cfg env owner subject detail t = (Ok i, t')"
  shows "i = new_id env
    \<and> (\<forall>rw \<in> set t'. \<forall>e. rw_expires rw = Some e \<longrightarrow> clock env 1 < e)
    \<and> length (filter (\<lambda>rw. rw_owner rw = owner \<and> rw_expires rw \<noteq> None) t') \<le> sql_count (max_rows_per_owner cfg)
    \<and> length (filter (\<lambda>rw. rw_expires rw \<noteq> None) t') \<le> sql_count (max_total_rows cfg)
    \<and> (\<forall>rw \<in> set t. rw_expires rw = None \<longrightarrow> rw \<in> set t')"
  using assms
proof (rule sq_admit_cases)
  let ?new = "\<lparr>rw_id = new_id env, rw_owner = owner, rw_subject = subject,
         rw_state = state_str Admitted, rw_effect = effect_str NotApplicable, rw_detail = detail,
         rw_created = clock env 0, rw_updated = clock env 0, rw_expires = None, rw_resolution = None\<rparr>"
  fix t3 assume p: "prune cfg env owner t = (Ok (), t3)" and t': "t' = t3 @ [?new]" and i: "Ok i = Ok (new_id env)"
  have k: "keyed t" using assms(1) by (simp add: sq_wf_def)
  have act: "\<forall>rw \<in> set t. rw_expires rw = None \<longrightarrow> rw \<in> set t'"
    using prune_keeps_active [OF assms(1) p] by (simp add: t')
  show ?thesis
  proof (rule prune_Ok [OF p])
    fix t1 t2
    assume t1: "t1 = filter (\<lambda>rw. \<not> (case rw_expires rw of Some e \<Rightarrow> e \<le> clock env 1 | None \<Rightarrow> False)) t"
      and t2: "t2 = filter (\<lambda>rw. rw_id rw \<notin> set (ids_beyond (sql_count (max_rows_per_owner cfg))
          (\<lambda>rw. rw_owner rw = owner \<and> rw_expires rw \<noteq> None) t1)) t1"
      and t3: "t3 = filter (\<lambda>rw. rw_id rw \<notin> set (ids_beyond (sql_count (max_total_rows cfg))
          (\<lambda>rw. rw_expires rw \<noteq> None) t2)) t2"
    have k1: "keyed t1" and k2: "keyed t2" unfolding t1 t2 using k by (simp_all add: keyed_filter)
    have "length (filter (\<lambda>rw. rw_owner rw = owner \<and> rw_expires rw \<noteq> None) t2) \<le> sql_count (max_rows_per_owner cfg)"
      unfolding t2 by (rule length_beyond [OF k1])
    moreover have "length (filter (\<lambda>rw. rw_owner rw = owner \<and> rw_expires rw \<noteq> None) t3)
        \<le> length (filter (\<lambda>rw. rw_owner rw = owner \<and> rw_expires rw \<noteq> None) t2)"
      unfolding t3 by (rule length_filter_filter)
    moreover have "length (filter (\<lambda>rw. rw_expires rw \<noteq> None) t3) \<le> sql_count (max_total_rows cfg)"
      unfolding t3 by (rule length_beyond [OF k2])
    moreover have "\<forall>rw \<in> set t3. \<forall>e. rw_expires rw = Some e \<longrightarrow> clock env 1 < e"
      unfolding t3 t2 t1 by auto
    ultimately show ?thesis using i act by (simp add: t')
  qed
qed simp_all

theorem sqlite_history_bounded_witness:
  "length (filter (\<lambda>rw. rw_expires rw \<noteq> None) (snd (sq_admit config_default (sample_env ''2'') ''o'' ''t'' None
     [sample_row1]))) \<le> 4096"
proof -
  have run: "sq_admit config_default (sample_env ''2'') ''o'' ''t'' None [sample_row1] = (Ok ''op_2'',
      [sample_row1, \<lparr>rw_id = ''op_2'', rw_owner = ''o'', rw_subject = ''t'', rw_state = ''admitted'',
         rw_effect = ''not_applicable'', rw_detail = None, rw_created = 1000, rw_updated = 1000,
         rw_expires = None, rw_resolution = None\<rparr>])"
    by (simp add: sq_admit_def bound_detail_def sample_env_def new_id_def prune_def exec_def in_flight_bounds_def
        owner_in_flight_def total_in_flight_def config_default_def sample_row1_def ids_beyond_def newest_rows_def Let_def)
  have "sql_count (max_total_rows config_default) = 4096" by (simp add: config_default_def sql_count_def)
  with sqlite_history_bounded [OF sample_table_wf run] show ?thesis unfolding run snd_conv by simp
qed

text \<open>Recovery reports honestly and acts on nothing: once it succeeds no receipt is left that
looks merely dispatched or waiting; each of those is now an unknown effect, with its owner, subject, detail and
resolution kept; every other receipt is exactly as before, an admitted one included, and running recovery
again changes nothing.\<close>

theorem sqlite_recovery_honest:
  assumes "sq_wf c t" "sq_recover_uncertain c cfg env t = (Ok rs, t')"
  shows "(\<forall>i. case sq_view c t i of
        None \<Rightarrow> sq_view c t' i = None
      | Some r \<Rightarrow>
          if rc_state r \<in> {Dispatched, WaitExpired}
          then (\<exists>u e. sq_view c t' i = Some (r\<lparr>rc_state := UnknownEffect, rc_effect := EffUnknown,
                  rc_updated_at_ms := u, rc_expires_at_ms := Some e\<rparr>))
          else sq_view c t' i = Some r)
    \<and> (\<forall>i. sq_view c (snd (sq_recover_uncertain c cfg env' t')) i = sq_view c t' i)"
proof (intro conjI allI)
  note v = sq_recover_view [OF assms]
  fix i
  have rel: "rel_option (\<lambda>r r'. r' = r \<or> recovered r r') (sq_view c t i) (sq_view c t' i)" using v by blast
  have no: "\<not> recoverable (rc_state r)" if "sq_view c t' i = Some r" for r using v that by auto
  show "case sq_view c t i of
        None \<Rightarrow> sq_view c t' i = None
      | Some r \<Rightarrow>
          if rc_state r \<in> {Dispatched, WaitExpired}
          then (\<exists>u e. sq_view c t' i = Some (r\<lparr>rc_state := UnknownEffect, rc_effect := EffUnknown,
                  rc_updated_at_ms := u, rc_expires_at_ms := Some e\<rparr>))
          else sq_view c t' i = Some r"
  proof (cases "sq_view c t i")
    case None
    with rel show ?thesis by simp
  next
    case (Some r)
    then obtain r' where r': "sq_view c t' i = Some r'" "r' = r \<or> recovered r r'"
      using rel by (cases "sq_view c t' i") auto
    show ?thesis
    proof (cases "recoverable (rc_state r)")
      case True
      with r' no have "recovered r r'" by auto
      with True Some r'(1) show ?thesis by (simp add: recovered_def recoverable_def)
    next
      case False
      with r'(2) have "r' = r" by (auto simp: recovered_def)
      with False Some r'(1) show ?thesis by (simp add: recoverable_def)
    qed
  qed
  obtain res t'' where again: "sq_recover_uncertain c cfg env' t' = (res, t'')" by (rule prod.exhaust)
  have "rel_option (\<lambda>r r'. r' = r \<or> recovered r r') (sq_view c t' i) (sq_view c t'' i)"
    using sq_recover_view [OF conjunct1 [OF v] again] by blast
  then show "sq_view c (snd (sq_recover_uncertain c cfg env' t')) i = sq_view c t' i"
    using no again by (cases "sq_view c t' i"; cases "sq_view c t'' i") (auto simp: recovered_def)
qed

theorem sqlite_recovery_honest_witness:
  "\<exists>r. sq_view sample_res_codec (snd (sq_recover_uncertain sample_res_codec config_default (sample_env []) [sample_row1]))
      ''op_1'' = Some r \<and> rc_state r = UnknownEffect"
proof -
  obtain res t' where run: "sq_recover_uncertain sample_res_codec config_default (sample_env []) [sample_row1] = (res, t')"
    by (rule prod.exhaust)
  have "is_ok res"
    using sqlite.recover_live [OF sample_table_wf sample_env_ok, of config_default "[]"] run by (simp add: sqlite_ops_def)
  then obtain rs where "res = Ok rs" by (cases res) auto
  with run sqlite_recovery_honest [OF sample_table_wf, of config_default "sample_env []" rs t',
      THEN conjunct1, THEN spec, of "''op_1''"] show ?thesis
    by (auto simp: sample_table_view) (auto simp: sample_receipt1_def)
qed

text \<open>The owner's own account never becomes an observation: resolving a receipt succeeds exactly when it
is the owner's and unobserved; it then only attaches the account beside the unchanged state and
effect, and otherwise it changes nothing and is refused as missing or as a conflict.\<close>

theorem sqlite_resolve_annotates:
  assumes "sq_wf c t" "env_ok env" "sq_accepts cfg (WaitExpire remark)"
    and "sq_resolve c cfg env owner i ef (Some remark) t = (res, t')"
  shows "case visible (sq_view c t) owner i of
      None \<Rightarrow> res = Err NotFound \<and> sq_view c t' = sq_view c t
    | Some r \<Rightarrow>
        if rc_state r \<in> {Dispatched, WaitExpired, UnknownEffect} then
          (let r' = r\<lparr>rc_resolution := Some \<lparr>cr_observed_effect = ef, cr_note = Some remark,
              cr_resolved_at_ms = clock env 0\<rparr>, rc_updated_at_ms := clock env 1\<rparr>
           in res = Ok r' \<and> sq_view c t' = (sq_view c t)(i \<mapsto> r'))
        else res = Err Conflict \<and> sq_view c t' = sq_view c t"
proof -
  have k: "keyed t" using assms(1) by (simp add: sq_wf_def)
  have db: "db_ok env 0" "db_ok env 1" "lock_ok env" using assms(2) by (simp_all add: env_ok_def)
  let ?res = "\<lparr>cr_observed_effect = ef, cr_note = Some remark, cr_resolved_at_ms = clock env 0\<rparr>"
  obtain enc where enc: "res_to_string c ?res = Ok enc" "res_from_string c enc = Some ?res"
    using assms(1) unfolding sq_wf_def codec_ok_def by blast
  have b: "bound_detail cfg (Some remark) = Ok (Some remark)"
    using assms(3) by (simp add: sq_accepts_def bound_detail_def)
  let ?Q = "\<lambda>rw. rw_owner rw = owner \<and> rw_state rw \<in> {''dispatched'', ''wait_expired'', ''unknown_effect''}"
  let ?f = "\<lambda>rw. rw\<lparr>rw_resolution := Some enc, rw_updated := clock env 1\<rparr>"
  have run: "(res, t') = bind_st (sql_update env 0 (\<lambda>rw. rw_id rw = i \<and> ?Q rw) ?f t) (\<lambda>updated t.
      if updated = 0 then
        (case get_locked c env 1 owner i t of Err e \<Rightarrow> (Err e, t)
         | Ok (Some _) \<Rightarrow> (Err Conflict, t) | Ok None \<Rightarrow> (Err NotFound, t))
      else (case get_locked c env 1 owner i t of Err e \<Rightarrow> (Err e, t)
         | Ok (Some r) \<Rightarrow> (Ok r, t) | Ok None \<Rightarrow> (Err NotFound, t)))"
    using assms(4) db unfolding sq_resolve_def b result.case enc(1) by simp
  have vis: "visible (sq_view c t) owner i = Some r \<Longrightarrow> \<exists>rw. row_of t i = Some rw \<and>
      (?Q rw \<longleftrightarrow> unresolved_state (rc_state r))" for r
  proof -
    assume "visible (sq_view c t) owner i = Some r"
    from visible_SomeD [OF this] obtain rw where rw: "row_of t i = Some rw" "row_to_receipt c rw = Some r"
      and "rc_owner r = owner" by (metis sq_view_SomeE)
    with row_to_receipt_SomeD(2,4) [OF rw(2)] unresolved_text show ?thesis by auto
  qed
  have uns: "st \<in> {Dispatched, WaitExpired, UnknownEffect} \<longleftrightarrow> unresolved_state st" for st
    by (simp add: unresolved_state_def)
  show ?thesis
  proof (rule sql_update_key [of t env 0 ?f i ?Q, OF k db(1)], simp)
    fix rw t1
    assume hit: "row_of t i = Some rw" "?Q rw"
      "sql_update env 0 (\<lambda>rw. rw_id rw = i \<and> ?Q rw) ?f t = (Ok 1, t1)"
      "\<And>j. row_of t1 j = (if j = i then Some (?f rw) else row_of t j)" "keyed t1"
    obtain r where r: "row_to_receipt c rw = Some r" "receipt_ok r" "sq_view c t i = Some r"
      using sq_wf_row [OF assms(1) hit(1)] by blast
    let ?r' = "r\<lparr>rc_resolution := Some ?res, rc_updated_at_ms := clock env 1\<rparr>"
    have o: "rc_owner r = owner" "unresolved_state (rc_state r)"
      using hit(2) row_to_receipt_SomeD(2,4) [OF r(1)] unresolved_text by simp_all
    then have v: "visible (sq_view c t) owner i = Some r" and rs: "resolved ef (Some remark) r ?r'"
      using r(3) by (auto simp: visible_def resolved_def)
    have conv: "row_to_receipt c (?f rw) = Some ?r'" by (rule row_to_receipt_resolve [OF r(1) enc(2)])
    from sq_row_update [OF assms(1) hit(1,5,4) conv receipt_ok_resolved [OF r(2) rs]]
    have w: "sq_wf c t1" and view: "sq_view c t1 = (sq_view c t)(i \<mapsto> ?r')" by blast+
    have "res = Ok ?r' \<and> t' = t1"
      using run hit(3) o(1) db by (simp add: get_locked_visible [OF w] view visible_def)
    then have "res = Ok ?r' \<and> sq_view c t' = (sq_view c t)(i \<mapsto> ?r')" using view by simp
    then show ?thesis unfolding v option.case uns using o(2) by (simp only: if_True Let_def)
  next
    assume miss: "sql_update env 0 (\<lambda>rw. rw_id rw = i \<and> ?Q rw) ?f t = (Ok 0, t)"
      "\<And>rw. row_of t i = Some rw \<Longrightarrow> \<not> ?Q rw"
    then have out: "t' = t \<and> res = (case visible (sq_view c t) owner i of None \<Rightarrow> Err NotFound | Some _ \<Rightarrow> Err Conflict)"
      using run db by (auto simp: get_locked_visible [OF assms(1)] split: option.splits)
    show ?thesis
    proof (cases "visible (sq_view c t) owner i")
      case (Some r)
      with vis [OF Some] miss(2) have "\<not> unresolved_state (rc_state r)" by blast
      with Some out show ?thesis unfolding uns by simp
    qed (use out in simp)
  qed
qed

theorem sqlite_resolve_annotates_witness:
  "fst (sq_resolve sample_res_codec config_default (sample_env []) ''eve'' ''op_1'' Applied (Some ''seen'') [sample_row1])
     = Err NotFound"
proof -
  have a: "sq_accepts config_default (WaitExpire ''seen'')"
    by (simp add: sq_accepts_def detail_exceeds_def config_default_def byte_def)
  have v: "visible (sq_view sample_res_codec [sample_row1]) ''eve'' ''op_1'' = None"
    by (simp add: sample_table_view visible_def) (simp add: sample_receipt1_def)
  obtain res t' where run: "sq_resolve sample_res_codec config_default (sample_env []) ''eve'' ''op_1'' Applied
      (Some ''seen'') [sample_row1] = (res, t')" by (rule prod.exhaust)
  from sqlite_resolve_annotates [OF sample_table_wf sample_env_ok a run] v run show ?thesis by simp
qed



end
