(* ===== verification/OpDispatch.thy ===== *)
theory OpDispatch
  imports Receipts BridgeMethod Registry
begin

text \<open>
  Attaching the operation journal to a dispatch: \<open>crates/tdmcp-daemon/src/opdispatch.rs\<close> (the
  pending dispatch, its settlement and its destructor, \<open>call_and_record\<close>),
  \<open>tdmcp-daemon/src/receipt_port.rs\<close> and \<open>tdmcp-mcp/src/receipts.rs\<close> (the port and its guard), and
  \<open>enqueue_and_call\<close> of \<open>tdmcp-mcp/src/tools.rs\<close>, through which every tool reaches a bridge.

  Every definition takes the journal as its trait object \<open>journal_ops\<close>; the \<open>k\<close>-th journal call of an
  operation runs in the environment \<open>envs k\<close>.  The bridge is an argument, a function of the shared
  state: what happens while the caller waits, whoever does it, is what that function does to the
  state.  The lemmas about receipts are proved in the locale \<open>operation_journal\<close>, once for every backend.
\<close>

section \<open>Errors of a bridge call\<close>

definition show_int :: "int \<Rightarrow> string" where
  "show_int n = (if n < 0 then CHR ''-'' # show_nat (nat (- n)) else show_nat (nat n))"

fun evidence_error_str :: "EvidenceError \<Rightarrow> string" where
  "evidence_error_str (InvalidInput s) = ''invalid evidence input: '' @ s"
| "evidence_error_str NotFound = ''evidence object not found''"
| "evidence_error_str AccessDenied = ''evidence access denied''"
| "evidence_error_str Expired = ''evidence has expired''"
| "evidence_error_str Released = ''evidence was released''"
| "evidence_error_str (QuotaExceeded s) = ''evidence quota exceeded: '' @ s"
| "evidence_error_str TransferTooLarge = ''evidence transfer exceeds configured bound''"
| "evidence_error_str (OffsetMismatch e a) = ''chunk offset mismatch: expected '' @ show_nat (unat e)
     @ '', got '' @ show_nat (unat a)"
| "evidence_error_str HashMismatch = ''evidence hash mismatch''"
| "evidence_error_str Corrupt = ''stored evidence is corrupt''"
| "evidence_error_str (UnknownRepresentation s) =
     ''stored evidence uses an unrecognized representation: '' @ s"
| "evidence_error_str InvalidCursor = ''invalid evidence cursor''"
| "evidence_error_str AlreadyFinalized = ''evidence object is already finalized''"
| "evidence_error_str (EvIncomplete s) = ''evidence upload is incomplete: '' @ s"
| "evidence_error_str Conflict = ''evidence state conflict''"
| "evidence_error_str (EvIo s) = ''evidence I/O failed: '' @ s"
| "evidence_error_str (Backend s) = ''evidence backend failed: '' @ s"
| "evidence_error_str (CommitUncertain s) = ''evidence commit outcome is uncertain: '' @ s"
| "evidence_error_str (IncompatibleSchema f s) = ''incompatible evidence schema version '' @ show_int f
     @ ''; supported version is '' @ show_int s"
| "evidence_error_str (UnsupportedPlatform s) = ''evidence backend unsupported on this platform: '' @ s"
| "evidence_error_str (InjectedFailure s) = ''injected evidence failure at '' @ s"

section \<open>Pending dispatches\<close>

record DispatchTicket =
  tk_id :: string
  tk_owner :: OwnerId
  tk_subject :: string

record PendingDispatch =
  pd_ticket :: DispatchTicket
  pd_settled :: bool

definition pd_id :: "PendingDispatch \<Rightarrow> string" where
  "pd_id p = tk_id (pd_ticket p)"

definition dispatched :: "'j journal_ops \<Rightarrow> env \<Rightarrow> PendingDispatch \<Rightarrow> 'j
    \<Rightarrow> (unit, EvidenceError) result \<times> 'j" where
  "dispatched ops env p j = j_mark_dispatched ops env (tk_owner (pd_ticket p)) (tk_id (pd_ticket p)) j"

text \<open>A completed call whose effect nobody established is recorded as an unknown effect.\<close>

definition returned_state :: "bool \<Rightarrow> EffectState \<Rightarrow> ReceiptState" where
  "returned_state ok effect =
     (let state = (if ok then Completed else RFailed)
      in if state = Completed \<and> effect = EffUnknown then UnknownEffect else state)"

definition unestablished :: string where
  "unestablished = ''the call returned, but the payload did not establish its effect''"

definition returned_detail :: "ReceiptState \<Rightarrow> string option \<Rightarrow> string option" where
  "returned_detail state detail =
     (case detail of
        Some d \<Rightarrow> Some d
      | None \<Rightarrow> if state = UnknownEffect then Some unestablished else None)"

definition returned :: "'j journal_ops \<Rightarrow> (nat \<Rightarrow> env) \<Rightarrow> bool \<Rightarrow> EffectState \<Rightarrow> string option
    \<Rightarrow> PendingDispatch \<Rightarrow> 'j \<Rightarrow> (unit, EvidenceError) result \<times> PendingDispatch \<times> 'j" where
  "returned ops envs ok effect detail p j =
     (case dispatched ops (envs 0) p j of
        (Err e, j) \<Rightarrow> (Err e, p, j)
      | (Ok _, j) \<Rightarrow>
          let state = returned_state ok effect
          in (case j_finish ops (envs 1) (tk_owner (pd_ticket p)) (tk_id (pd_ticket p)) state effect
                (returned_detail state detail) j of
                (Err e, j) \<Rightarrow> (Err e, p, j)
              | (Ok _, j) \<Rightarrow> (Ok (), p\<lparr>pd_settled := True\<rparr>, j)))"

definition not_sent :: "'j journal_ops \<Rightarrow> env \<Rightarrow> string \<Rightarrow> PendingDispatch \<Rightarrow> 'j
    \<Rightarrow> (unit, EvidenceError) result \<times> PendingDispatch \<times> 'j" where
  "not_sent ops env detail p j =
     (case j_mark_not_sent ops env (tk_owner (pd_ticket p)) (tk_id (pd_ticket p)) detail j of
        (Err e, j) \<Rightarrow> (Err e, p, j)
      | (Ok _, j) \<Rightarrow> (Ok (), p\<lparr>pd_settled := True\<rparr>, j))"

definition drop_detail :: string where
  "drop_detail = ''the caller stopped waiting''"

text \<open>The destructor, with both results of the journal ignored.\<close>

definition drop_pending :: "'j journal_ops \<Rightarrow> (nat \<Rightarrow> env) \<Rightarrow> PendingDispatch \<Rightarrow> 'j \<Rightarrow> 'j" where
  "drop_pending ops envs p j =
     (if pd_settled p then j
      else let j = snd (dispatched ops (envs 0) p j)
           in snd (j_mark_wait_expired ops (envs 1) (tk_owner (pd_ticket p)) (tk_id (pd_ticket p))
                drop_detail j))"

definition into_abandoned :: "'j journal_ops \<Rightarrow> (nat \<Rightarrow> env) \<Rightarrow> PendingDispatch \<Rightarrow> 'j \<Rightarrow> string \<times> 'j" where
  "into_abandoned ops envs p j = (pd_id p, drop_pending ops envs (p\<lparr>pd_settled := True\<rparr>) j)"

text \<open>\<open>OperationRecorder::admit\<close>: the owner is the recorder's, never the caller's.\<close>

definition recorder_admit :: "'j journal_ops \<Rightarrow> env \<Rightarrow> OwnerId \<Rightarrow> string \<Rightarrow> string option \<Rightarrow> 'j
    \<Rightarrow> (PendingDispatch, EvidenceError) result \<times> 'j" where
  "recorder_admit ops env owner subject detail j =
     (case j_admit ops env owner subject detail j of
        (Err e, j) \<Rightarrow> (Err e, j)
      | (Ok i, j) \<Rightarrow> (Ok \<lparr>pd_ticket = \<lparr>tk_id = i, tk_owner = owner, tk_subject = subject\<rparr>,
          pd_settled = False\<rparr>, j))"

section \<open>Outcomes\<close>

datatype DispatchOutcome =
    DoNotSent string
  | DoReturned bool EffectState
  | DoWaitEnded string

fun outcome_apply :: "'j journal_ops \<Rightarrow> (nat \<Rightarrow> env) \<Rightarrow> DispatchOutcome \<Rightarrow> PendingDispatch \<Rightarrow> 'j
    \<Rightarrow> (unit, EvidenceError) result \<times> PendingDispatch \<times> 'j" where
  "outcome_apply ops envs (DoNotSent why) p j = not_sent ops (envs 0) why p j"
| "outcome_apply ops envs (DoReturned ok effect) p j = returned ops envs ok effect None p j"
| "outcome_apply ops envs (DoWaitEnded why) p j =
     (case dispatched ops (envs 0) p j of
        (Err e, j) \<Rightarrow> (Err e, p, j)
      | (Ok _, j) \<Rightarrow>
          (case j_mark_wait_expired ops (envs 1) (tk_owner (pd_ticket p)) (tk_id (pd_ticket p)) why j of
             (Err e, j) \<Rightarrow> (Err e, p, j)
           | (Ok _, j) \<Rightarrow> (Ok (), p\<lparr>pd_settled := True\<rparr>, j)))"

definition payload_ok :: "json \<Rightarrow> bool" where
  "payload_ok value = (case json_get ''ok'' value of Some (JBool ok) \<Rightarrow> ok | _ \<Rightarrow> True)"

definition read_mutate_effect :: "json \<Rightarrow> EffectState" where
  "read_mutate_effect value =
     (case Option.bind (json_get ''applied'' value) as_u64 of
        None \<Rightarrow> EffUnknown
      | Some applied \<Rightarrow>
          let failed = (case Option.bind (json_get ''failedAt'' value) as_u64 of Some n \<Rightarrow> n | None \<Rightarrow> 0)
          in if 0 < failed then PartiallyApplied else if 0 < applied then Applied else NoEffect)"

definition read_read_effect :: "json \<Rightarrow> EffectState" where
  "read_read_effect value = NotApplicable"

record RecordedCall =
  rec_receipt_id :: string
  rec_result :: "(json, BridgeRpcError) result"
  rec_receipt_error :: "EvidenceError option"

definition outcome_of :: "(json \<Rightarrow> EffectState) \<Rightarrow> (json, BridgeRpcError) result \<Rightarrow> DispatchOutcome" where
  "outcome_of read_eff res =
     (case res of
        Ok value \<Rightarrow> DoReturned (payload_ok value) (read_eff value)
      | Err (BrTimeout _ _) \<Rightarrow> DoWaitEnded ''timed out''
      | Err (BrDisconnected _) \<Rightarrow> DoWaitEnded ''the bridge disconnected mid-call''
      | Err (NotConnected _) \<Rightarrow> DoNotSent ''no connected bridge for the target''
      | Err (BrUnknown _) \<Rightarrow> DoNotSent ''no connected bridge for the target''
      | Err (BridgeReturned _ _) \<Rightarrow> DoReturned False EffUnknown
      | Err (ReceiptUnavailable _) \<Rightarrow> DoNotSent ''the daemon refused the dispatch before sending it'')"

text \<open>
  The pending dispatch is dropped at the end, where it acts when the outcome could not be recorded.
\<close>

definition call_and_record :: "'j journal_ops \<Rightarrow> (nat \<Rightarrow> env)
    \<Rightarrow> (u32 \<Rightarrow> string \<Rightarrow> json \<Rightarrow> 'j \<Rightarrow> (json, BridgeRpcError) result \<times> 'j) \<Rightarrow> OwnerId \<Rightarrow> u32 \<Rightarrow> string
    \<Rightarrow> json \<Rightarrow> (json \<Rightarrow> EffectState) \<Rightarrow> 'j \<Rightarrow> (RecordedCall, EvidenceError) result \<times> 'j" where
  "call_and_record ops envs bridge owner pid method params read_eff j =
     (case recorder_admit ops (envs 0) owner method (Some (''pid '' @ show_nat (unat pid))) j of
        (Err e, j) \<Rightarrow> (Err e, j)
      | (Ok p, j) \<Rightarrow>
          let (res, j) = bridge pid method params j;
              (applied, p', j) = outcome_apply ops (\<lambda>k. envs (Suc k)) (outcome_of read_eff res) p j;
              j = drop_pending ops (\<lambda>k. envs (k + 3)) p' j
          in (Ok \<lparr>rec_receipt_id = pd_id p, rec_result = res,
                rec_receipt_error = (case applied of Ok _ \<Rightarrow> None | Err e \<Rightarrow> Some e)\<rparr>, j))"

section \<open>The receipt port of the tool layer\<close>

datatype EffectClass = CRead | CApplying | CUnknown

datatype JobAction = JStart | JStatus | JCancel | JRead | JRelease

definition classify_effect :: "string \<Rightarrow> EffectClass" where
  "classify_effect m =
     (if m \<in> {''api_help'', ''compare_nodes'', ''editor_context'', ''inspect'', ''palette_index'',
              ''palette_probe'', ''project_lint'', ''td_installs''} then CRead
      else if m \<in> {''execute_python'', ''mutate_nodes''} then CApplying
      else CUnknown)"

fun classify_job :: "JobAction \<Rightarrow> EffectClass" where
  "classify_job JStatus = CRead"
| "classify_job JRead = CRead"
| "classify_job JStart = CUnknown"
| "classify_job JCancel = CUnknown"
| "classify_job JRelease = CUnknown"

fun read_effect :: "EffectClass \<Rightarrow> json \<Rightarrow> EffectState" where
  "read_effect CRead value = NotApplicable"
| "read_effect CApplying value = read_mutate_effect value"
| "read_effect CUnknown value = EffUnknown"

text \<open>
  A guard holds the handle of one pending dispatch until it is settled.  The handle is consumed by
  \<open>settled\<close> and \<open>prevented\<close>: it goes out of scope there, so its pending dispatch is dropped at the end
  of either, after the journal's answer.
\<close>

type_synonym guard = "PendingDispatch option"

definition port_begin :: "'j journal_ops \<Rightarrow> env \<Rightarrow> OwnerId \<Rightarrow> string \<Rightarrow> 'j \<Rightarrow> (guard, string) result \<times> 'j" where
  "port_begin ops env owner subject j =
     (let (res, j) = recorder_admit ops env owner subject None j
      in (map_err (\<lambda>e. ''could not record the dispatch: '' @ evidence_error_str e) (map_ok Some res), j))"

definition guard_id :: "guard \<Rightarrow> string option" where
  "guard_id g = map_option pd_id g"

definition handle_settled :: "'j journal_ops \<Rightarrow> (nat \<Rightarrow> env) \<Rightarrow> bool \<Rightarrow> EffectState \<Rightarrow> string option
    \<Rightarrow> PendingDispatch \<Rightarrow> 'j \<Rightarrow> (unit, string) result \<times> PendingDispatch \<times> 'j" where
  "handle_settled ops envs ok effect detail p j =
     (let (res, p, j) = returned ops envs ok effect detail p j
      in (map_err (\<lambda>e. ''the work finished but its receipt was not recorded: ''
            @ evidence_error_str e) res, p, j))"

definition handle_prevented :: "'j journal_ops \<Rightarrow> env \<Rightarrow> string
    \<Rightarrow> PendingDispatch \<Rightarrow> 'j \<Rightarrow> (unit, string) result \<times> PendingDispatch \<times> 'j" where
  "handle_prevented ops env detail p j =
     (let (res, p, j) = not_sent ops env detail p j
      in (map_err (\<lambda>e. ''nothing was sent, but its receipt was not recorded: ''
            @ evidence_error_str e) res, p, j))"

definition guard_settled :: "'j journal_ops \<Rightarrow> (nat \<Rightarrow> env) \<Rightarrow> bool \<Rightarrow> EffectState \<Rightarrow> string option
    \<Rightarrow> guard \<Rightarrow> 'j \<Rightarrow> (unit, string) result \<times> guard \<times> 'j" where
  "guard_settled ops envs ok effect detail g j =
     (case g of
        None \<Rightarrow> (Ok (), None, j)
      | Some p \<Rightarrow>
          let (res, p, j) = handle_settled ops envs ok effect detail p j
          in (res, None, drop_pending ops (\<lambda>k. envs (k + 2)) p j))"

definition guard_prevented :: "'j journal_ops \<Rightarrow> (nat \<Rightarrow> env) \<Rightarrow> string
    \<Rightarrow> guard \<Rightarrow> 'j \<Rightarrow> (unit, string) result \<times> guard \<times> 'j" where
  "guard_prevented ops envs detail g j =
     (case g of
        None \<Rightarrow> (Ok (), None, j)
      | Some p \<Rightarrow>
          let (res, p, j) = handle_prevented ops (envs 0) detail p j
          in (res, None, drop_pending ops (\<lambda>k. envs (k + 1)) p j))"

definition drop_guard :: "'j journal_ops \<Rightarrow> (nat \<Rightarrow> env) \<Rightarrow> guard \<Rightarrow> 'j \<Rightarrow> 'j" where
  "drop_guard ops envs g j = (case g of None \<Rightarrow> j | Some p \<Rightarrow> drop_pending ops envs p j)"

section \<open>Calling a bridge from a tool\<close>

datatype BridgeOutcome = BoOk json | QueueBusy | Transport BridgeRpcError

text \<open>
  How the wait for a bridge ends: with its answer, with the budget elapsed, or because the caller's
  own future was dropped.
\<close>

datatype waited = Answered "(json, BridgeRpcError) result" | Elapsed | CallerGone

definition clear_queue_keep_connected :: "u32 \<Rightarrow> PidRegistry \<Rightarrow> PidRegistry" where
  "clear_queue_keep_connected pid r = snd (cancel_queue_keep_connected pid r)"

text \<open>
  The state is the shared registry and the journal; \<open>port\<close> is the owner the receipt port is bound to,
  if the caller has one; \<open>budget_ms\<close> the effective timeout.  The result is \<open>None\<close> when the future
  was dropped at its await.
\<close>

definition enqueue_and_call :: "'j journal_ops \<Rightarrow> (nat \<Rightarrow> env)
    \<Rightarrow> (u32 \<Rightarrow> string \<Rightarrow> json \<Rightarrow> PidRegistry \<times> 'j \<Rightarrow> waited \<times> PidRegistry \<times> 'j) \<Rightarrow> u64 \<Rightarrow> u32
    \<Rightarrow> BridgeMethod \<Rightarrow> EffectClass \<Rightarrow> json \<Rightarrow> OwnerId option \<Rightarrow> PidRegistry \<times> 'j
    \<Rightarrow> BridgeOutcome option \<times> PidRegistry \<times> 'j" where
  "enqueue_and_call ops envs bridge budget_ms pid method effect_class params port s =
     (let (reg, j) = s
      in case enqueue pid (queue_label method) Exclusive reg of
           (Err e, reg) \<Rightarrow>
             (Some (case e of EnqQueue _ \<Rightarrow> QueueBusy | _ \<Rightarrow> Transport (NotConnected pid)), reg, j)
         | (Ok _, reg) \<Rightarrow>
             (case (case port of
                      None \<Rightarrow> (Ok None, j)
                    | Some owner \<Rightarrow> port_begin ops (envs 0) owner (wire_str method) j) of
                (Err error, j) \<Rightarrow>
                  (Some (Transport (ReceiptUnavailable error)), clear_queue_keep_connected pid reg, j)
              | (Ok receipt, j) \<Rightarrow>
                  (case bridge pid (wire_str method) params (reg, j) of
                     (CallerGone, reg, j) \<Rightarrow> (None, reg, drop_guard ops (\<lambda>k. envs (Suc k)) receipt j)
                   | (Elapsed, reg, j) \<Rightarrow>
                       (Some (Transport (BrTimeout pid budget_ms)), clear_queue_keep_connected pid reg,
                        drop_guard ops (\<lambda>k. envs (Suc k)) receipt j)
                   | (Answered (Err err), reg, j) \<Rightarrow>
                       (Some (Transport err),
                        (case err of
                           NotConnected _ \<Rightarrow> clear_queue_keep_connected pid reg
                         | BrDisconnected _ \<Rightarrow> clear_queue_keep_connected pid reg
                         | _ \<Rightarrow> reg),
                        drop_guard ops (\<lambda>k. envs (Suc k)) receipt j)
                   | (Answered (Ok value), reg, j) \<Rightarrow>
                       let ok = (case Option.bind (json_get ''ok'' value) as_bool of Some b \<Rightarrow> b | None \<Rightarrow> True);
                           (_, _, j) = guard_settled ops (\<lambda>k. envs (Suc k)) ok
                              (read_effect effect_class value) None receipt j
                       in (Some (BoOk value), reg, j))))"

section \<open>What a dispatch does to its receipt\<close>

text \<open>The texts the code itself writes into a receipt.\<close>

definition own_details :: "string list" where
  "own_details = [unestablished, drop_detail, ''timed out'', ''the bridge disconnected mid-call'',
     ''no connected bridge for the target'', ''the daemon refused the dispatch before sending it'']"

definition accepts_own :: "(request \<Rightarrow> bool) \<Rightarrow> bool" where
  "accepts_own acc \<longleftrightarrow> acc Dispatch \<and> (\<forall>st ef. acc (Finish st ef None)) \<and>
     (\<forall>d \<in> set own_details. \<forall>st ef. acc (Finish st ef (Some d)) \<and> acc (WaitExpire d) \<and> acc (NotSent d))"

definition live_envs :: "(nat \<Rightarrow> env) \<Rightarrow> bool" where
  "live_envs envs \<longleftrightarrow> (\<forall>k. env_ok (envs k))"

lemma live_envs_at: "live_envs envs \<Longrightarrow> env_ok (envs k)"
  by (simp add: live_envs_def)

lemma live_envs_shift: "live_envs envs \<Longrightarrow> live_envs (\<lambda>k. envs (k + n))"
  "live_envs envs \<Longrightarrow> live_envs (\<lambda>k. envs (Suc k))"
  by (simp_all add: live_envs_def)

lemma dispatched_perform:
  "dispatched ops env p j = perform ops env (tk_owner (pd_ticket p)) (tk_id (pd_ticket p)) Dispatch j"
  by (simp add: dispatched_def perform_def)

lemma finish_perform: "j_finish ops env owner i st ef d j = perform ops env owner i (Finish st ef d) j"
  by (simp add: perform_def)

lemma wait_perform: "j_mark_wait_expired ops env owner i d j = perform ops env owner i (WaitExpire d) j"
  by (simp add: perform_def)

lemma not_sent_perform: "j_mark_not_sent ops env owner i d j = perform ops env owner i (NotSent d) j"
  by (simp add: perform_def)

lemmas to_perform = dispatched_perform finish_perform wait_perform not_sent_perform

text \<open>The receipt of a pending dispatch whose call has not been observed.\<close>

definition unobserved :: "(string \<rightharpoonup> OperationReceipt) \<Rightarrow> string \<Rightarrow> OwnerId \<Rightarrow> string \<Rightarrow> bool" where
  "unobserved m i owner subject \<longleftrightarrow> (\<exists>r. m i = Some r \<and> rc_owner r = owner \<and> rc_subject r = subject
     \<and> rc_state r \<in> {Admitted, Dispatched, WaitExpired})"

text \<open>The receipt of \<open>i\<close> stands as told, every other receipt is as before.\<close>

definition stands :: "(string \<rightharpoonup> OperationReceipt) \<Rightarrow> (string \<rightharpoonup> OperationReceipt) \<Rightarrow> string \<Rightarrow> OwnerId \<Rightarrow> string
    \<Rightarrow> ReceiptState \<Rightarrow> EffectState \<Rightarrow> bool" where
  "stands m m' i owner subject st ef \<longleftrightarrow> (\<exists>r. m' = m(i \<mapsto> r) \<and> rc_owner r = owner
     \<and> rc_subject r = subject \<and> rc_state r = st \<and> rc_effect r = ef)"

lemma standsI: "m' = m(i \<mapsto> r) \<Longrightarrow> rc_owner r = owner \<Longrightarrow> rc_subject r = subject \<Longrightarrow> rc_state r = st
    \<Longrightarrow> rc_effect r = ef \<Longrightarrow> stands m m' i owner subject st ef"
  by (auto simp: stands_def)

context operation_journal
begin

lemma perform_enabled:
  assumes "wf j" "env_ok env" "req_sound req" "accepts req"
    and "view j i = Some r" "rc_owner r = owner" "rc_state r = req_expected req"
  obtains r' j' where "perform ops env owner i req j = (Ok (), j')" "wf j'" "moved req r r'"
    "view j' = (view j)(i \<mapsto> r')"
proof -
  obtain res j' where run: "perform ops env owner i req j = (res, j')" by (rule prod.exhaust)
  have ok: "res = Ok ()"
    using perform_live [OF assms(1-4), of owner i] run assms(5-7) by (simp add: visible_def)
  from perform_Ok [OF assms(1), of env owner i req "()" j'] run ok assms(5) obtain r' where
    "moved req r r'" "view j' = (view j)(i \<mapsto> r')" by auto
  with run ok perform_wf [OF assms(1) run] that show ?thesis by blast
qed

lemma perform_disabled:
  assumes "wf j" "view j i = Some r" "rc_state r \<noteq> req_expected req"
  obtains e j' where "perform ops env owner i req j = (Err e, j')" "wf j'" "view j' = view j"
proof -
  obtain res j' where run: "perform ops env owner i req j = (res, j')" by (rule prod.exhaust)
  obtain e where e: "res = Err e"
    using perform_Ok [OF assms(1), of env owner i req _ j'] run assms(2,3) by (cases res) auto
  from that [of e j'] run e perform_wf [OF assms(1) run] perform_Err [OF assms(1), of env owner i req e j']
  show ?thesis by blast
qed

lemma perform_unobserved:
  assumes "wf j" "unobserved (view j) i owner subject" "req = Dispatch \<or> (\<exists>d. req = WaitExpire d)"
  shows "wf (snd (perform ops env owner i req j))
    \<and> unobserved (view (snd (perform ops env owner i req j))) i owner subject"
proof -
  obtain res j' where run: "perform ops env owner i req j = (res, j')" by (rule prod.exhaust)
  have "unobserved (view j') i owner subject"
  proof (cases res)
    case (Ok u)
    from perform_Ok [OF assms(1), of env owner i req u j'] run Ok obtain r r' where
      "view j i = Some r" "moved req r r'" "view j' = (view j)(i \<mapsto> r')" by auto
    with assms(2,3) show ?thesis by (auto simp: unobserved_def moved_def)
  next
    case (Err e)
    with perform_Err [OF assms(1), of env owner i req e j'] run assms(2) show ?thesis by simp
  qed
  with run perform_wf [OF assms(1) run] show ?thesis by simp
qed

text \<open>Whatever fails, dropping a pending dispatch never records an observation.\<close>

lemma drop_pending_unobserved:
  assumes "wf j" "unobserved (view j) (pd_id p) (tk_owner (pd_ticket p)) subject"
  shows "wf (drop_pending ops envs p j)
    \<and> unobserved (view (drop_pending ops envs p j)) (pd_id p) (tk_owner (pd_ticket p)) subject"
proof (cases "pd_settled p")
  case True
  with assms show ?thesis by (simp add: drop_pending_def)
next
  case False
  have d: "wf (snd (dispatched ops (envs 0) p j))"
    "unobserved (view (snd (dispatched ops (envs 0) p j))) (pd_id p) (tk_owner (pd_ticket p)) subject"
    using perform_unobserved [OF assms, of Dispatch] by (simp_all add: dispatched_perform pd_id_def)
  from perform_unobserved [OF d, of "WaitExpire drop_detail" "envs 1"] False show ?thesis
    by (simp add: drop_pending_def wait_perform pd_id_def Let_def)
qed

lemma drop_pending_live:
  assumes "wf j" "live_envs envs" "accepts_own accepts" "\<not> pd_settled p"
    and "view j (pd_id p) = Some r" "rc_owner r = tk_owner (pd_ticket p)" "rc_state r \<in> {Admitted, Dispatched}"
  shows "wf (drop_pending ops envs p j) \<and> stands (view j) (view (drop_pending ops envs p j)) (pd_id p)
    (rc_owner r) (rc_subject r) WaitExpired EffUnknown"
proof -
  let ?o = "tk_owner (pd_ticket p)" and ?w = "WaitExpire drop_detail"
  have acc: "accepts Dispatch" "accepts ?w" using assms(3) by (simp_all add: accepts_own_def own_details_def)
  obtain res j1 where run: "perform ops (envs 0) ?o (pd_id p) Dispatch j = (res, j1)" by (rule prod.exhaust)
  have "\<exists>r1. wf j1 \<and> view j1 = (view j)(pd_id p \<mapsto> r1) \<and> rc_owner r1 = ?o \<and> rc_subject r1 = rc_subject r
    \<and> rc_state r1 = Dispatched"
  proof (cases "rc_state r = Admitted")
    case True
    show ?thesis
    proof (rule perform_enabled [OF assms(1) live_envs_at [OF assms(2), of 0] _ acc(1) assms(5,6)])
      fix r1 j' assume "perform ops (envs 0) ?o (pd_id p) Dispatch j = (Ok (), j')" "wf j'"
        "moved Dispatch r r1" "view j' = (view j)(pd_id p \<mapsto> r1)"
      with run assms(6) show ?thesis by (auto simp: moved_def)
    qed (simp_all add: True)
  next
    case False
    show ?thesis
    proof (rule perform_disabled [OF assms(1,5), of Dispatch "envs 0" ?o])
      fix e j' assume "perform ops (envs 0) ?o (pd_id p) Dispatch j = (Err e, j')" "wf j'" "view j' = view j"
      with run have "wf j1" "view j1 = (view j)(pd_id p \<mapsto> r)" using assms(5) by (simp_all add: fun_upd_idem)
      with False assms(6,7) show ?thesis by blast
    qed (simp add: False)
  qed
  then obtain r1 where r1: "wf j1" "view j1 = (view j)(pd_id p \<mapsto> r1)" "rc_owner r1 = ?o"
    "rc_subject r1 = rc_subject r" "rc_state r1 = Dispatched" by blast
  then have here: "view j1 (pd_id p) = Some r1" by simp
  show ?thesis
  proof (rule perform_enabled [OF r1(1) live_envs_at [OF assms(2), of 1] _ acc(2) here r1(3)])
    fix r2 j2 assume s: "perform ops (envs 1) ?o (pd_id p) ?w j1 = (Ok (), j2)" "wf j2" "moved ?w r1 r2"
      "view j2 = (view j1)(pd_id p \<mapsto> r2)"
    have "drop_pending ops envs p j = j2"
      using run s(1) assms(4) by (simp add: drop_pending_def to_perform pd_id_def)
    with s r1 assms(6) show ?thesis by (auto simp: moved_def intro: standsI)
  qed (simp_all add: r1)
qed

lemma returned_live:
  assumes "wf j" "live_envs envs" "accepts_own accepts"
    and "view j (pd_id p) = Some r" "rc_owner r = tk_owner (pd_ticket p)" "rc_state r = Admitted"
  obtains j' where "returned ops envs ok ef None p j = (Ok (), p\<lparr>pd_settled := True\<rparr>, j')" "wf j'"
    "stands (view j) (view j') (pd_id p) (rc_owner r) (rc_subject r) (returned_state ok ef) ef"
proof -
  let ?o = "tk_owner (pd_ticket p)" and ?st = "returned_state ok ef"
  let ?f = "Finish ?st ef (returned_detail ?st None)"
  have acc: "accepts Dispatch" "accepts ?f"
    using assms(3) by (simp_all add: accepts_own_def own_details_def returned_detail_def)
  have sound: "req_sound ?f" by (simp add: returned_state_def Let_def)
  show ?thesis
  proof (rule perform_enabled [OF assms(1) live_envs_at [OF assms(2), of 0] _ acc(1) assms(4,5)])
    fix r1 j1 assume d: "perform ops (envs 0) ?o (pd_id p) Dispatch j = (Ok (), j1)" "wf j1"
      "moved Dispatch r r1" "view j1 = (view j)(pd_id p \<mapsto> r1)"
    have here: "view j1 (pd_id p) = Some r1" "rc_owner r1 = ?o" "rc_state r1 = Dispatched"
      using d(3,4) assms(5) by (simp_all add: moved_def)
    show ?thesis
    proof (rule perform_enabled [OF d(2) live_envs_at [OF assms(2), of 1] sound acc(2) here(1,2)])
      fix r2 j2 assume f: "perform ops (envs 1) ?o (pd_id p) ?f j1 = (Ok (), j2)" "wf j2" "moved ?f r1 r2"
        "view j2 = (view j1)(pd_id p \<mapsto> r2)"
      have run: "returned ops envs ok ef None p j = (Ok (), p\<lparr>pd_settled := True\<rparr>, j2)"
        using d(1) f(1) by (simp add: returned_def to_perform pd_id_def Let_def)
      have "stands (view j) (view j2) (pd_id p) (rc_owner r) (rc_subject r) ?st ef"
        using d(3,4) f(3,4) by (auto simp: moved_def intro: standsI)
      with that run f(2) show ?thesis by blast
    qed (simp add: here)
  qed (simp_all add: assms(6))
qed

lemma not_sent_live:
  assumes "wf j" "live_envs envs" "accepts (NotSent why)"
    and "view j (pd_id p) = Some r" "rc_owner r = tk_owner (pd_ticket p)" "rc_state r = Admitted"
  obtains j' where "not_sent ops (envs 0) why p j = (Ok (), p\<lparr>pd_settled := True\<rparr>, j')" "wf j'"
    "stands (view j) (view j') (pd_id p) (rc_owner r) (rc_subject r) Cancelled PreventedBeforeDispatch"
proof (rule perform_enabled [OF assms(1) live_envs_at [OF assms(2), of 0] _ assms(3-5)])
  fix r1 j1 assume d: "perform ops (envs 0) (tk_owner (pd_ticket p)) (pd_id p) (NotSent why) j = (Ok (), j1)"
    "wf j1" "moved (NotSent why) r r1" "view j1 = (view j)(pd_id p \<mapsto> r1)"
  then have "not_sent ops (envs 0) why p j = (Ok (), p\<lparr>pd_settled := True\<rparr>, j1)"
    "stands (view j) (view j1) (pd_id p) (rc_owner r) (rc_subject r) Cancelled PreventedBeforeDispatch"
    by (auto simp: not_sent_def to_perform pd_id_def moved_def intro: standsI)
  with that d(2) show ?thesis by blast
qed (simp_all add: assms(6))

lemma wait_ended_live:
  assumes "wf j" "live_envs envs" "accepts Dispatch" "accepts (WaitExpire why)"
    and "view j (pd_id p) = Some r" "rc_owner r = tk_owner (pd_ticket p)" "rc_state r = Admitted"
  obtains j' where "outcome_apply ops envs (DoWaitEnded why) p j = (Ok (), p\<lparr>pd_settled := True\<rparr>, j')" "wf j'"
    "stands (view j) (view j') (pd_id p) (rc_owner r) (rc_subject r) WaitExpired EffUnknown"
proof (rule perform_enabled [OF assms(1) live_envs_at [OF assms(2), of 0] _ assms(3,5,6)])
  let ?o = "tk_owner (pd_ticket p)"
  fix r1 j1 assume d: "perform ops (envs 0) ?o (pd_id p) Dispatch j = (Ok (), j1)"
    "wf j1" "moved Dispatch r r1" "view j1 = (view j)(pd_id p \<mapsto> r1)"
  have here: "view j1 (pd_id p) = Some r1" "rc_owner r1 = ?o" "rc_state r1 = Dispatched"
    using d(3,4) assms(6) by (simp_all add: moved_def)
  show ?thesis
  proof (rule perform_enabled [OF d(2) live_envs_at [OF assms(2), of 1] _ assms(4) here(1,2)])
    fix r2 j2 assume f: "perform ops (envs 1) ?o (pd_id p) (WaitExpire why) j1 = (Ok (), j2)" "wf j2"
      "moved (WaitExpire why) r1 r2" "view j2 = (view j1)(pd_id p \<mapsto> r2)"
    have run: "outcome_apply ops envs (DoWaitEnded why) p j = (Ok (), p\<lparr>pd_settled := True\<rparr>, j2)"
      using d(1) f(1) by (simp add: to_perform pd_id_def)
    have "stands (view j) (view j2) (pd_id p) (rc_owner r) (rc_subject r) WaitExpired EffUnknown"
      using d(3,4) f(3,4) by (auto simp: moved_def intro: standsI)
    with that run f(2) show ?thesis by blast
  qed (simp_all add: here)
qed (simp_all add: assms(7))

end

text \<open>The bridge, and whoever else runs meanwhile, leaves the receipt of this call alone.\<close>

definition leaves_receipt :: "('j \<Rightarrow> bool) \<Rightarrow> ('j \<Rightarrow> string \<rightharpoonup> OperationReceipt) \<Rightarrow> string \<Rightarrow> ('s \<Rightarrow> 'j) \<Rightarrow> ('s \<Rightarrow> 's)
    \<Rightarrow> bool" where
  "leaves_receipt jwf jview i journal act \<longleftrightarrow>
     (\<forall>s. jwf (journal s) \<longrightarrow> jwf (journal (act s)) \<and> jview (journal (act s)) i = jview (journal s) i)"

text \<open>What a recorded call writes into its receipt.\<close>

fun call_record :: "(json \<Rightarrow> EffectState) \<Rightarrow> (json, BridgeRpcError) result \<Rightarrow> ReceiptState \<times> EffectState" where
  "call_record read_eff (Ok v) = (returned_state (payload_ok v) (read_eff v), read_eff v)"
| "call_record read_eff (Err (BrTimeout p b)) = (WaitExpired, EffUnknown)"
| "call_record read_eff (Err (BrDisconnected p)) = (WaitExpired, EffUnknown)"
| "call_record read_eff (Err (NotConnected p)) = (Cancelled, PreventedBeforeDispatch)"
| "call_record read_eff (Err (BrUnknown p)) = (Cancelled, PreventedBeforeDispatch)"
| "call_record read_eff (Err (ReceiptUnavailable s)) = (Cancelled, PreventedBeforeDispatch)"
| "call_record read_eff (Err (BridgeReturned s c)) = (RFailed, EffUnknown)"

lemma drop_settled [simp]: "pd_settled p \<Longrightarrow> drop_pending ops envs p j = j"
  by (simp add: drop_pending_def)

context operation_journal
begin

lemma recorder_admit_Ok:
  assumes "wf j" "view j (new_id env) = None" "recorder_admit ops env owner subject detail j = (Ok p, j')"
  shows "pd_id p = new_id env \<and> tk_owner (pd_ticket p) = owner \<and> \<not> pd_settled p \<and> wf j'
    \<and> (\<exists>now. view j' (new_id env) = Some (admitted_receipt (new_id env) owner subject detail now))"
proof -
  obtain i where i: "j_admit ops env owner subject detail j = (Ok i, j')"
    "p = \<lparr>pd_ticket = \<lparr>tk_id = i, tk_owner = owner, tk_subject = subject\<rparr>, pd_settled = False\<rparr>"
    using assms(3) by (auto simp: recorder_admit_def split: prod.splits result.splits)
  from admit_Ok [OF assms(1,2) i(1)] admit_wf [OF assms(1,2) i(1)] i(2) show ?thesis
    by (auto simp: pd_id_def)
qed

lemma outcome_apply_live:
  assumes "wf j" "live_envs envs" "accepts_own accepts"
    and "view j (pd_id p) = Some r" "rc_owner r = tk_owner (pd_ticket p)" "rc_state r = Admitted"
  obtains j' where "outcome_apply ops envs (outcome_of read_eff res) p j = (Ok (), p\<lparr>pd_settled := True\<rparr>, j')"
    "wf j'" "stands (view j) (view j') (pd_id p) (rc_owner r) (rc_subject r)
      (fst (call_record read_eff res)) (snd (call_record read_eff res))"
proof -
  have acc: "accepts Dispatch" "d \<in> set own_details \<Longrightarrow> accepts (NotSent d) \<and> accepts (WaitExpire d)" for d
    using assms(3) by (simp_all add: accepts_own_def)
  consider v where "res = Ok v" | e where "res = Err e" by (cases res)
  then show ?thesis
  proof (cases)
    case (1 v)
    show ?thesis
      by (rule returned_live [OF assms(1-6), of "payload_ok v" "read_eff v"], rule that)
        (simp_all add: 1 outcome_of_def)
  next
    case (2 e)
    show ?thesis
    proof (cases e)
      case (BridgeReturned m c)
      show ?thesis
        by (rule returned_live [OF assms(1-6), of False EffUnknown], rule that)
          (simp_all add: 2 BridgeReturned outcome_of_def returned_state_def)
    next
      case (BrTimeout q b)
      have "accepts (WaitExpire ''timed out'')" using acc(2) by (simp add: own_details_def)
      then show ?thesis
        by (rule wait_ended_live [OF assms(1,2) acc(1) _ assms(4-6)], intro that)
          (simp_all add: 2 BrTimeout outcome_of_def)
    next
      case (BrDisconnected q)
      have "accepts (WaitExpire ''the bridge disconnected mid-call'')" using acc(2) by (simp add: own_details_def)
      then show ?thesis
        by (rule wait_ended_live [OF assms(1,2) acc(1) _ assms(4-6)], intro that)
          (simp_all add: 2 BrDisconnected outcome_of_def)
    next
      case (NotConnected q)
      have "accepts (NotSent ''no connected bridge for the target'')" using acc(2) by (simp add: own_details_def)
      then show ?thesis
        by (rule not_sent_live [OF assms(1,2) _ assms(4-6)], intro that) (simp_all add: 2 NotConnected outcome_of_def)
    next
      case (BrUnknown q)
      have "accepts (NotSent ''no connected bridge for the target'')" using acc(2) by (simp add: own_details_def)
      then show ?thesis
        by (rule not_sent_live [OF assms(1,2) _ assms(4-6)], intro that) (simp_all add: 2 BrUnknown outcome_of_def)
    next
      case (ReceiptUnavailable m)
      have "accepts (NotSent ''the daemon refused the dispatch before sending it'')"
        using acc(2) by (simp add: own_details_def)
      then show ?thesis
        by (rule not_sent_live [OF assms(1,2) _ assms(4-6)], intro that)
          (simp_all add: 2 ReceiptUnavailable outcome_of_def)
    qed
  qed
qed

lemma call_and_record_live:
  assumes "wf j" "view j (new_id (envs 0)) = None" "live_envs envs" "accepts_own accepts"
    and "leaves_receipt wf view (new_id (envs 0)) (\<lambda>s. s) (\<lambda>s. snd (bridge pid method params s))"
    and "call_and_record ops envs bridge owner pid method params read_eff j = (Ok rc, j')"
  shows "rec_receipt_id rc = new_id (envs 0) \<and> rec_receipt_error rc = None
    \<and> (\<exists>r. view j' (new_id (envs 0)) = Some r \<and> rc_owner r = owner \<and> rc_subject r = method
         \<and> (rc_state r, rc_effect r) = call_record read_eff (rec_result rc))"
proof -
  obtain p j1 where adm: "recorder_admit ops (envs 0) owner method (Some (''pid '' @ show_nat (unat pid))) j
      = (Ok p, j1)"
    using assms(6) unfolding call_and_record_def by (auto split: prod.splits result.splits)
  obtain res j2 where br: "bridge pid method params j1 = (res, j2)" by (rule prod.exhaust)
  let ?r = "admitted_receipt (new_id (envs 0)) owner method (Some (''pid '' @ show_nat (unat pid)))"
  obtain now where a: "pd_id p = new_id (envs 0)" "tk_owner (pd_ticket p) = owner" "wf j1"
    "view j1 (new_id (envs 0)) = Some (?r now)"
    using recorder_admit_Ok [OF assms(1,2) adm] by blast
  have w: "wf j2" "view j2 (new_id (envs 0)) = Some (?r now)"
    using assms(5) a(3,4) br unfolding leaves_receipt_def by (metis snd_conv)+
  show ?thesis
  proof (rule outcome_apply_live [OF w(1) live_envs_shift(2) [OF assms(3)] assms(4),
        of p "?r now" read_eff res])
    fix j3 assume o: "outcome_apply ops (\<lambda>k. envs (Suc k)) (outcome_of read_eff res) p j2
        = (Ok (), p\<lparr>pd_settled := True\<rparr>, j3)"
      "stands (view j2) (view j3) (pd_id p) (rc_owner (?r now)) (rc_subject (?r now))
        (fst (call_record read_eff res)) (snd (call_record read_eff res))"
    have "rc = \<lparr>rec_receipt_id = pd_id p, rec_result = res, rec_receipt_error = None\<rparr> \<and> j' = j3"
      using assms(6) adm br o(1) by (simp add: call_and_record_def)
    with a(1) o(2) show ?thesis by (auto simp: stands_def admitted_receipt_def)
  qed (simp_all add: a w admitted_receipt_def)
qed

end

text \<open>What a tool call writes into its receipt.\<close>

fun tool_record :: "EffectClass \<Rightarrow> BridgeOutcome option \<Rightarrow> ReceiptState \<times> EffectState" where
  "tool_record c (Some (BoOk v)) = (returned_state (payload_ok v) (read_effect c v), read_effect c v)"
| "tool_record c _ = (WaitExpired, EffUnknown)"

lemma payload_ok_as_bool:
  "(case Option.bind (json_get ''ok'' v) as_bool of Some b \<Rightarrow> b | None \<Rightarrow> True) = payload_ok v"
  by (cases "json_get ''ok'' v") (auto simp: payload_ok_def as_bool_def split: json.splits)

lemma clear_queue_empty:
  "reg_get (clear_queue_keep_connected pid r) pid = Some row \<Longrightarrow> snapshot (e_queue row) = []"
  by (auto simp: clear_queue_keep_connected_def cancel_queue_keep_connected_def cancel_all_def snapshot_def
      split: option.splits)

text \<open>The four ways a tool call can go on after its task was enqueued.\<close>

lemma enqueue_and_call_cases:
  assumes "enqueue_and_call ops envs bridge budget pid m c params (Some owner) (reg, j) = (out, reg', j')"
  obtains
    (refused) e reg1 where "enqueue pid (queue_label m) Exclusive reg = (Err e, reg1)" "reg' = reg1" "j' = j"
      "out = Some (case e of EnqQueue _ \<Rightarrow> QueueBusy | _ \<Rightarrow> Transport (NotConnected pid))"
  | (unrecorded) reg1 e where "enqueue pid (queue_label m) Exclusive reg = (Ok (), reg1)"
      "port_begin ops (envs 0) owner (wire_str m) j = (Err e, j')"
      "out = Some (Transport (ReceiptUnavailable e))" "reg' = clear_queue_keep_connected pid reg1"
  | (returned) reg1 g j1 v j2 where "enqueue pid (queue_label m) Exclusive reg = (Ok (), reg1)"
      "port_begin ops (envs 0) owner (wire_str m) j = (Ok g, j1)"
      "bridge pid (wire_str m) params (reg1, j1) = (Answered (Ok v), reg', j2)" "out = Some (BoOk v)"
      "j' = snd (snd (guard_settled ops (\<lambda>k. envs (Suc k)) (payload_ok v) (read_effect c v) None g j2))"
  | (unseen) reg1 g j1 w reg2 j2 where "enqueue pid (queue_label m) Exclusive reg = (Ok (), reg1)"
      "port_begin ops (envs 0) owner (wire_str m) j = (Ok g, j1)"
      "bridge pid (wire_str m) params (reg1, j1) = (w, reg2, j2)"
      "(w = CallerGone \<and> out = None \<and> reg' = reg2)
       \<or> (w = Elapsed \<and> out = Some (Transport (BrTimeout pid budget)) \<and> reg' = clear_queue_keep_connected pid reg2)
       \<or> (\<exists>e. w = Answered (Err e) \<and> out = Some (Transport e) \<and>
            reg' = (case e of NotConnected _ \<Rightarrow> clear_queue_keep_connected pid reg2
              | BrDisconnected _ \<Rightarrow> clear_queue_keep_connected pid reg2 | _ \<Rightarrow> reg2))"
      "j' = drop_guard ops (\<lambda>k. envs (Suc k)) g j2"
proof -
  obtain eres reg1 where e: "enqueue pid (queue_label m) Exclusive reg = (eres, reg1)" by (rule prod.exhaust)
  obtain pres j1 where p: "port_begin ops (envs 0) owner (wire_str m) j = (pres, j1)" by (rule prod.exhaust)
  show ?thesis
  proof (cases eres)
    case (Err x)
    show ?thesis by (rule refused) (use assms e Err in \<open>auto simp: enqueue_and_call_def\<close>)
  next
    case en: (Ok u)
    show ?thesis
    proof (cases pres)
      case (Err x)
      show ?thesis by (rule unrecorded) (use assms e en p Err in \<open>auto simp: enqueue_and_call_def\<close>)
    next
      case pn: (Ok g)
      obtain w reg2 j2 where b: "bridge pid (wire_str m) params (reg1, j1) = (w, reg2, j2)"
        by (metis prod.exhaust)
      show ?thesis
      proof (cases "\<exists>v. w = Answered (Ok v)")
        case True
        then obtain v where v: "w = Answered (Ok v)" ..
        show ?thesis
          by (rule returned [of reg1 g j1 v j2])
            (use assms e en p pn b v in \<open>auto simp: enqueue_and_call_def payload_ok_as_bool split: prod.splits\<close>)
      next
        case False
        have ep: "enqueue pid (queue_label m) Exclusive reg = (Ok (), reg1)"
          "port_begin ops (envs 0) owner (wire_str m) j = (Ok g, j1)" using e en p pn by simp_all
        consider "w = CallerGone" | "w = Elapsed" | x where "w = Answered (Err x)"
          using False by (metis result.exhaust waited.exhaust)
        then show ?thesis
          by (cases; intro unseen [OF ep b]) (use assms ep b in \<open>simp_all add: enqueue_and_call_def\<close>)
      qed
    qed
  qed
qed

context operation_journal
begin

lemma port_begin_Ok:
  assumes "wf j" "view j (new_id env) = None" "port_begin ops env owner subject j = (Ok g, j')"
  obtains p now where "g = Some p" "pd_id p = new_id env" "tk_owner (pd_ticket p) = owner" "\<not> pd_settled p"
    "wf j'" "view j' (new_id env) = Some (admitted_receipt (new_id env) owner subject None now)"
proof -
  obtain res where r: "recorder_admit ops env owner subject None j = (res, j')"
    using assms(3) by (auto simp: port_begin_def Let_def split: prod.splits)
  then obtain p where "res = Ok p" "g = Some p"
    using assms(3) by (cases res) (auto simp: port_begin_def Let_def)
  with r recorder_admit_Ok [OF assms(1,2), of owner subject None p j'] that show ?thesis by blast
qed

lemma port_begin_Err:
  assumes "wf j" "view j (new_id env) = None" "port_begin ops env owner subject j = (Err e, j')"
  shows "view j' (new_id env) = None"
proof -
  obtain x where "j_admit ops env owner subject None j = (Err x, j')"
    using assms(3) by (auto simp: port_begin_def recorder_admit_def Let_def split: prod.splits result.splits)
  from admit_Err [OF assms(1,2) this] assms(2) show ?thesis
    by (auto simp: survives_def) (metis option.distinct(1))
qed

text \<open>Whatever fails on the way, a call without an observed result leaves no observation behind.\<close>

lemma tool_call_unobserved:
  assumes "wf j" "view j (new_id (envs 0)) = None"
    and "leaves_receipt wf view (new_id (envs 0)) snd (\<lambda>s. snd (bridge pid (wire_str m) params s))"
    and "enqueue_and_call ops envs bridge budget pid m c params (Some owner) (reg, j) = (out, reg', j')"
    and "\<And>v. out \<noteq> Some (BoOk v)"
  shows "view j' (new_id (envs 0)) = None \<or> unobserved (view j') (new_id (envs 0)) owner (wire_str m)"
  using assms(4)
proof (cases rule: enqueue_and_call_cases)
  case (unseen reg1 g j1 w reg2 j2)
  obtain p now where p: "g = Some p" "pd_id p = new_id (envs 0)" "tk_owner (pd_ticket p) = owner" "wf j1"
    "view j1 (new_id (envs 0)) = Some (admitted_receipt (new_id (envs 0)) owner (wire_str m) None now)"
    by (rule port_begin_Ok [OF assms(1,2) unseen(2)]) blast
  have w: "wf j2" "view j2 (new_id (envs 0)) = view j1 (new_id (envs 0))"
    using assms(3) p(4) unseen(3) unfolding leaves_receipt_def by (metis snd_conv)+
  have "unobserved (view j2) (pd_id p) (tk_owner (pd_ticket p)) (wire_str m)"
    using w(2) p by (simp add: unobserved_def admitted_receipt_def)
  from drop_pending_unobserved [OF w(1) this] p unseen(5) show ?thesis by (simp add: drop_guard_def)
qed (use assms in \<open>auto dest: port_begin_Err\<close>)

text \<open>When the journal works, the receipt says exactly what was seen.\<close>

lemma tool_call_live:
  assumes "wf j" "view j (new_id (envs 0)) = None" "live_envs envs" "accepts_own accepts"
    and "leaves_receipt wf view (new_id (envs 0)) snd (\<lambda>s. snd (bridge pid (wire_str m) params s))"
    and "enqueue_and_call ops envs bridge budget pid m c params (Some owner) (reg, j) = (out, reg', j')"
    and "is_ok (fst (enqueue pid (queue_label m) Exclusive reg))"
    and "is_ok (fst (port_begin ops (envs 0) owner (wire_str m) j))"
  shows "\<exists>r. view j' (new_id (envs 0)) = Some r \<and> rc_owner r = owner \<and> rc_subject r = wire_str m
    \<and> (rc_state r, rc_effect r) = tool_record c out"
proof -
  let ?i = "new_id (envs 0)"
  have keep: "wf j2 \<and> view j2 ?i = view j1 ?i"
    if "wf j1" "bridge pid (wire_str m) params (r1, j1) = (w, r2, j2)" for j1 j2 r1 r2 w
    using assms(5) that unfolding leaves_receipt_def by (metis snd_conv)
  show ?thesis
    using assms(6)
  proof (cases rule: enqueue_and_call_cases)
    case (unseen reg1 g j1 w reg2 j2)
    obtain p now where p: "g = Some p" "pd_id p = ?i" "tk_owner (pd_ticket p) = owner" "\<not> pd_settled p" "wf j1"
      "view j1 ?i = Some (admitted_receipt ?i owner (wire_str m) None now)"
      by (rule port_begin_Ok [OF assms(1,2) unseen(2)]) blast
    with keep [OF p(5) unseen(3)] drop_pending_live [OF _ live_envs_shift(2) [OF assms(3)] assms(4) p(4),
        of j2 "admitted_receipt ?i owner (wire_str m) None now"] unseen(5)
    have "stands (view j2) (view j') ?i owner (wire_str m) WaitExpired EffUnknown"
      by (simp add: drop_guard_def admitted_receipt_def)
    moreover have "tool_record c out = (WaitExpired, EffUnknown)" using unseen(4) by auto
    ultimately show ?thesis by (auto simp: stands_def)
  next
    case (returned reg1 g j1 v j2)
    obtain p now where p: "g = Some p" "pd_id p = ?i" "tk_owner (pd_ticket p) = owner" "\<not> pd_settled p" "wf j1"
      "view j1 ?i = Some (admitted_receipt ?i owner (wire_str m) None now)"
      by (rule port_begin_Ok [OF assms(1,2) returned(2)]) blast
    let ?r = "admitted_receipt ?i owner (wire_str m) None now"
    have w: "wf j2" "view j2 (pd_id p) = Some ?r" using keep [OF p(5) returned(3)] p by simp_all
    show ?thesis
    proof (rule returned_live [OF w(1) live_envs_shift(2) [OF assms(3)] assms(4) w(2),
          of "payload_ok v" "read_effect c v"])
      fix j3 assume o: "OpDispatch.returned ops (\<lambda>k. envs (Suc k)) (payload_ok v) (read_effect c v) None p j2
          = (Ok (), p\<lparr>pd_settled := True\<rparr>, j3)"
        "stands (view j2) (view j3) (pd_id p) (rc_owner ?r) (rc_subject ?r)
          (returned_state (payload_ok v) (read_effect c v)) (read_effect c v)"
      have "j' = j3" using returned(5) p(1) o(1) by (simp add: guard_settled_def handle_settled_def)
      with o(2) p(2) returned(4) show ?thesis by (auto simp: stands_def admitted_receipt_def)
    qed (simp_all add: p admitted_receipt_def)
  qed (use assms(7,8) in simp_all)
qed

end

end
