(* ===== verification/Dispatching.thy ===== *)
theory Dispatching
  imports OpDispatch Journals
begin

text \<open>
  The properties of dispatching a tool call (\<open>OpDispatch\<close>) over the durable journal
  (\<open>SqliteJournal\<close>): what the receipt of a call says afterwards, with and without failures of the
  journal, and what becomes of the queue of the process.
\<close>

lemma sq_accepts_own: "80 \<le> unat (max_detail_bytes cfg) \<Longrightarrow> accepts_own (sq_accepts cfg)"
  by (simp add: accepts_own_def own_details_def sq_accepts_def detail_exceeds_def unestablished_def
      drop_detail_def byte_def)

text \<open>The lemmas of the journal contract on dispatched calls, for the durable backend.\<close>

lemmas sqlite_tool_call_live = operation_journal.tool_call_live [OF sqlite.operation_journal_axioms]
lemmas sqlite_tool_call_unobserved = operation_journal.tool_call_unobserved [OF sqlite.operation_journal_axioms]
lemmas sqlite_call_and_record_live = operation_journal.call_and_record_live [OF sqlite.operation_journal_axioms]

lemma enqueue_refused_row:
  assumes "enqueue pid name mode reg = (Err x, reg1)" "\<not> (\<exists>q. x = EnqQueue q)" "reg_get reg1 pid = Some row"
  shows "e_bridge row \<noteq> Connected"
proof (cases "reg_get reg pid")
  case None
  with assms(1,3) show ?thesis by (simp add: enqueue_def)
next
  case (Some entry)
  obtain res q where q: "try_enqueue name mode (e_queue entry) = (res, q)" by (rule prod.exhaust)
  show ?thesis
  proof (cases "e_bridge entry = Connected")
    case True
    with assms(1,2) Some q show ?thesis by (cases res) (auto simp: enqueue_def)
  next
    case False
    with assms(1,3) Some show ?thesis by (auto simp: enqueue_def)
  qed
qed

definition idle_registry :: PidRegistry where
  "idle_registry = snd (handshake 7 sample_attrs (Some ''2'') 5 registry_new)"

lemma idle_enqueue: "is_ok (fst (enqueue 7 name Exclusive idle_registry))"
  by (simp add: idle_registry_def handshake_def registry_new_def handshake_row_def handshake_new_def reg_get_def
      put_entry_def evict_all_disconnected_def enqueue_def try_enqueue_def queue_defs Let_def)

lemma idle_inv: "reg_inv idle_registry"
  unfolding idle_registry_def by (rule reg_inv_handshake [OF reg_inv_new], rule prod.collapse [symmetric])

text \<open>A bridge that answers at once with the given result.\<close>

definition answering :: "waited \<Rightarrow> u32 \<Rightarrow> string \<Rightarrow> json \<Rightarrow> PidRegistry \<times> 'j \<Rightarrow> waited \<times> PidRegistry \<times> 'j" where
  "answering w pid method params s = (w, s)"

lemma sample_live: "live_envs (\<lambda>_. sample_env u)"
  by (simp add: live_envs_def sample_env_ok)

lemma sample_new_id: "new_id (sample_env ''2'') = ''op_2''"
  by (simp add: new_id_def sample_env_def)

lemma sample_fresh: "sq_view c [sample_row1] (new_id (sample_env ''2'')) = None"
  by (simp add: sample_table_view sample_new_id)

lemma sample_admit:
  "fst (sq_admit config_default (sample_env ''2'') ''o'' subject None [sample_row1]) = Ok (new_id (sample_env ''2''))"
  if "\<not> has_control subject" "subject \<noteq> []" "length subject \<le> 128"
  using that by (simp add: sq_admit_def bound_detail_def sample_env_def new_id_def prune_def exec_def
      in_flight_bounds_def owner_in_flight_def total_in_flight_def config_default_def sample_row1_def
      ids_beyond_def newest_rows_def Let_def)

lemma sample_begin:
  "is_ok (fst (port_begin (sqlite_ops c config_default) (sample_env ''2'') ''o'' ''mutate_nodes'' [sample_row1]))"
proof -
  have "fst (sq_admit config_default (sample_env ''2'') ''o'' ''mutate_nodes'' None [sample_row1])
      = Ok (new_id (sample_env ''2''))"
    by (rule sample_admit) (simp_all add: byte_def)
  then obtain t1 where "sq_admit config_default (sample_env ''2'') ''o'' ''mutate_nodes'' None [sample_row1]
      = (Ok (new_id (sample_env ''2'')), t1)" by (metis prod.collapse)
  then show ?thesis by (simp add: port_begin_def recorder_admit_def sqlite_ops_def)
qed

lemma sample_leaves:
  "leaves_receipt jwf jview i snd (\<lambda>s. snd (answering w p m params s))"
  by (simp add: leaves_receipt_def answering_def)

definition applied_two :: json where
  "applied_two = JObject [(''ok'', JBool True), (''applied'', JNumber (PosInt 2))]"

abbreviation sample_call :: "waited \<Rightarrow> BridgeOutcome option \<times> PidRegistry \<times> row list" where
  "sample_call w \<equiv> enqueue_and_call (sqlite_ops sample_res_codec config_default) (\<lambda>_. sample_env ''2'')
     (answering w) 75000 7 MutateNodes CApplying JNull (Some ''o'') (idle_registry, [sample_row1])"

lemma sample_outcome:
  "fst (sample_call w) = (case w of Answered (Ok v) \<Rightarrow> Some (BoOk v) | Answered (Err e) \<Rightarrow> Some (Transport e)
     | Elapsed \<Rightarrow> Some (Transport (BrTimeout 7 75000)) | CallerGone \<Rightarrow> None)"
proof -
  obtain out reg' j' where run: "sample_call w = (out, reg', j')" by (metis prod.exhaust)
  then have "out = (case w of Answered (Ok v) \<Rightarrow> Some (BoOk v) | Answered (Err e) \<Rightarrow> Some (Transport e)
     | Elapsed \<Rightarrow> Some (Transport (BrTimeout 7 75000)) | CallerGone \<Rightarrow> None)"
    using idle_enqueue [of "queue_label MutateNodes"] sample_begin [of sample_res_codec]
    by (cases rule: enqueue_and_call_cases) (auto simp: answering_def)
  with run show ?thesis by simp
qed



text \<open>Whatever SQL statement fails on the way, a tool call that returned no result of the bridge never
leaves an observation in its receipt: if the receipt exists at all it belongs to the caller and is still
admitted, dispatched or waiting.\<close>

theorem tool_call_claims_nothing:
  assumes "sq_wf c t" "sq_view c t (new_id (envs 0)) = None"
    and "leaves_receipt (sq_wf c) (sq_view c) (new_id (envs 0)) snd (\<lambda>s. snd (bridge pid (wire_str m) params s))"
    and "enqueue_and_call (sqlite_ops c cfg) envs bridge budget pid m cls params (Some owner) (reg, t)
      = (out, reg', t')"
    and "\<And>v. out \<noteq> Some (BoOk v)" "sq_view c t' (new_id (envs 0)) = Some r"
  shows "rc_owner r = owner \<and> rc_subject r = wire_str m \<and> rc_state r \<in> {Admitted, Dispatched, WaitExpired}"
  using sqlite_tool_call_unobserved [OF assms(1-5)] assms(6) by (auto simp: unobserved_def)

theorem tool_call_claims_nothing_witness:
  "\<exists>r. sq_view sample_res_codec (snd (snd (sample_call CallerGone))) ''op_2'' = Some r
     \<and> rc_state r \<in> {Admitted, Dispatched, WaitExpired}"
proof -
  obtain out reg' t' where run: "sample_call CallerGone = (out, reg', t')" by (metis prod.exhaust)
  then have out: "out = None" using sample_outcome [of CallerGone] by simp
  have acc: "accepts_own (sq_accepts config_default)" by (rule sq_accepts_own) (simp add: config_default_def)
  obtain r where r: "sq_view sample_res_codec t' (new_id (sample_env ''2'')) = Some r"
    using sqlite_tool_call_live [OF sample_table_wf sample_fresh sample_live acc sample_leaves run idle_enqueue]
      sample_begin by auto
  with tool_call_claims_nothing [OF sample_table_wf sample_fresh sample_leaves run _ r] out run show ?thesis
    by (simp add: sample_new_id)
qed


lemma sample_keeps_row: "\<exists>row. reg_get (fst (snd (sample_call Elapsed))) 7 = Some row"
proof -
  obtain out reg' j' where run: "sample_call Elapsed = (out, reg', j')" by (metis prod.exhaust)
  have row: "\<exists>row. reg_get (snd (enqueue 7 name Exclusive idle_registry)) 7 = Some row" for name
    by (simp add: idle_registry_def handshake_def registry_new_def handshake_row_def handshake_new_def reg_get_def
      put_entry_def evict_all_disconnected_def enqueue_def try_enqueue_def queue_defs Let_def)
  have clear: "\<exists>row. reg_get r 7 = Some row \<Longrightarrow> \<exists>row. reg_get (clear_queue_keep_connected 7 r) 7 = Some row" for r
    by (auto simp: clear_queue_keep_connected_def cancel_queue_keep_connected_def split: prod.splits)
  from run have "\<exists>row. reg_get reg' 7 = Some row"
    using row [of "queue_label MutateNodes"] clear sample_begin [of sample_res_codec]
      idle_enqueue [of "queue_label MutateNodes"]
    by (cases rule: enqueue_and_call_cases) (auto simp: answering_def)
  with run show ?thesis by simp
qed


text \<open>A recorded call reports its bridge result unchanged and leaves a receipt that says how it ended:
settled from the payload or from the bridge's own error, prevented when nothing was sent, and
unsettled when the wait ended.\<close>

theorem recorded_call_receipt:
  assumes "sq_wf c t" "sq_view c t (new_id (envs 0)) = None" "live_envs envs" "80 \<le> unat (max_detail_bytes cfg)"
    and "leaves_receipt (sq_wf c) (sq_view c) (new_id (envs 0)) (\<lambda>s. s) (\<lambda>s. snd (bridge pid method params s))"
    and "call_and_record (sqlite_ops c cfg) envs bridge owner pid method params read_eff t = (Ok rc, t')"
  shows "rec_receipt_id rc = new_id (envs 0) \<and> rec_receipt_error rc = None
    \<and> (\<exists>r. sq_view c t' (new_id (envs 0)) = Some r \<and> rc_owner r = owner \<and> rc_subject r = method
         \<and> (rc_state r, rc_effect r) =
            (case rec_result rc of
               Ok v \<Rightarrow> (if \<not> payload_ok v then RFailed
                   else if read_eff v = EffUnknown then UnknownEffect else Completed, read_eff v)
             | Err (BrTimeout _ _) \<Rightarrow> (WaitExpired, EffUnknown)
             | Err (BrDisconnected _) \<Rightarrow> (WaitExpired, EffUnknown)
             | Err (BridgeReturned _ _) \<Rightarrow> (RFailed, EffUnknown)
             | Err _ \<Rightarrow> (Cancelled, PreventedBeforeDispatch)))"
proof -
  have "call_record read_eff res =
            (case res of
               Ok v \<Rightarrow> (if \<not> payload_ok v then RFailed
                   else if read_eff v = EffUnknown then UnknownEffect else Completed, read_eff v)
             | Err (BrTimeout _ _) \<Rightarrow> (WaitExpired, EffUnknown)
             | Err (BrDisconnected _) \<Rightarrow> (WaitExpired, EffUnknown)
             | Err (BridgeReturned _ _) \<Rightarrow> (RFailed, EffUnknown)
             | Err _ \<Rightarrow> (Cancelled, PreventedBeforeDispatch))" for res
    by (auto simp: returned_state_def split: result.splits BridgeRpcError.splits)
  with sqlite_call_and_record_live [OF assms(1-3) sq_accepts_own [OF assms(4)] assms(5,6)]
  show ?thesis by simp
qed

theorem recorded_call_receipt_witness:
  "\<exists>r. sq_view sample_res_codec (snd (call_and_record (sqlite_ops sample_res_codec config_default)
       (\<lambda>_. sample_env ''2'') (\<lambda>p m v s. (Err (BrTimeout p 45000), s)) ''o'' 7 ''capture'' JNull read_read_effect
       [sample_row1])) ''op_2'' = Some r \<and> rc_state r = WaitExpired"
proof -
  let ?b = "\<lambda>p m v s. (Err (BrTimeout p 45000) :: (json, BridgeRpcError) result, s :: row list)"
  obtain res t' where run: "call_and_record (sqlite_ops sample_res_codec config_default)
       (\<lambda>_. sample_env ''2'') ?b ''o'' 7 ''capture'' JNull read_read_effect [sample_row1] = (res, t')"
    by (rule prod.exhaust)
  have "fst (sq_admit config_default (sample_env ''2'') ''o'' ''capture'' (Some (''pid '' @ show_nat (unat (7 :: u32))))
      [sample_row1]) = Ok (new_id (sample_env ''2''))"
    by (simp add: sq_admit_def bound_detail_def sample_env_def new_id_def prune_def exec_def
      in_flight_bounds_def owner_in_flight_def total_in_flight_def config_default_def sample_row1_def
      ids_beyond_def newest_rows_def Let_def detail_exceeds_def byte_def show_nat.simps digit_char_def)
  then obtain rc where rc: "res = Ok rc" "rec_result rc = Err (BrTimeout 7 45000)"
    using run by (auto simp: call_and_record_def recorder_admit_def sqlite_ops_def Let_def split: prod.splits)
  have "80 \<le> unat (max_detail_bytes config_default)" by (simp add: config_default_def)
  with recorded_call_receipt [OF sample_table_wf sample_fresh sample_live _ _ run [unfolded rc(1)]] rc(2) run
  show ?thesis by (auto simp: sample_new_id leaves_receipt_def)
qed

end
