(* ===== verification/Sessions.thy ===== *)
theory Sessions
  imports Prelude
begin

text \<open>
  The registry of live MCP sessions and their bridged-call slots,
  \<open>crates/tdmcp-mcp/src/session_registry.rs\<close>.  The two mutexes are the two parts of the record, each
  with a flag that says whether it can still be locked (a poisoned mutex makes the code skip the
  change).  A slot guard is the value \<open>BridgeCallSlot\<close>; dropping it ends the call.
\<close>

record McpSessionInfo =
  ms_id :: string
  ms_client_name :: string
  ms_client_version :: string
  ms_connected_at :: u64

type_synonym call_key = "string \<times> string \<times> u32"

record McpSessionRegistry =
  leases :: "McpSessionInfo list"
  leases_ok :: bool
  bridge_inflight :: "call_key set"
  inflight_ok :: bool

record BridgeCallSlot =
  slot_session :: string
  slot_scope :: string
  slot_pid :: u32

definition slot_key :: "BridgeCallSlot \<Rightarrow> call_key" where
  "slot_key s = (slot_session s, slot_scope s, slot_pid s)"

definition sessions_new :: McpSessionRegistry where
  "sessions_new = \<lparr>leases = [], leases_ok = True, bridge_inflight = {}, inflight_ok = True\<rparr>"

definition acquire :: "string \<Rightarrow> u64 \<Rightarrow> McpSessionRegistry \<Rightarrow> string \<times> McpSessionRegistry" where
  "acquire uuid now r =
     (uuid, if leases_ok r then r\<lparr>leases := leases r @ [\<lparr>ms_id = uuid, ms_client_name = ''pending'',
        ms_client_version = [], ms_connected_at = now\<rparr>]\<rparr> else r)"

definition release :: "string \<Rightarrow> McpSessionRegistry \<Rightarrow> McpSessionRegistry" where
  "release i r =
     (let r = (if leases_ok r then r\<lparr>leases := filter (\<lambda>s. ms_id s \<noteq> i) (leases r)\<rparr> else r)
      in if inflight_ok r then r\<lparr>bridge_inflight := {k \<in> bridge_inflight r. fst k \<noteq> i}\<rparr> else r)"

definition try_begin_bridge_call :: "string \<Rightarrow> string \<Rightarrow> u32 \<Rightarrow> McpSessionRegistry
    \<Rightarrow> BridgeCallSlot option \<times> McpSessionRegistry" where
  "try_begin_bridge_call session scope pid r =
     (let key = (session, scope, pid);
          inserted = inflight_ok r \<and> key \<notin> bridge_inflight r;
          r = (if inflight_ok r then r\<lparr>bridge_inflight := insert key (bridge_inflight r)\<rparr> else r)
      in if \<not> inserted then (None, r)
         else (Some \<lparr>slot_session = session, slot_scope = scope, slot_pid = pid\<rparr>, r))"

definition end_bridge_call :: "string \<Rightarrow> string \<Rightarrow> u32 \<Rightarrow> McpSessionRegistry \<Rightarrow> McpSessionRegistry" where
  "end_bridge_call session scope pid r =
     (if inflight_ok r then r\<lparr>bridge_inflight := bridge_inflight r - {(session, scope, pid)}\<rparr> else r)"

definition drop_slot :: "BridgeCallSlot \<Rightarrow> McpSessionRegistry \<Rightarrow> McpSessionRegistry" where
  "drop_slot s r = end_bridge_call (slot_session s) (slot_scope s) (slot_pid s) r"

definition has_bridge_call :: "string \<Rightarrow> string \<Rightarrow> u32 \<Rightarrow> McpSessionRegistry \<Rightarrow> bool" where
  "has_bridge_call session scope pid r \<longleftrightarrow> inflight_ok r \<and> (session, scope, pid) \<in> bridge_inflight r"

text \<open>\<open>iter_mut().find(P)\<close> followed by an update of the row found, which is returned as it was.\<close>

fun update_first :: "('a \<Rightarrow> bool) \<Rightarrow> ('a \<Rightarrow> 'a) \<Rightarrow> 'a list \<Rightarrow> 'a option \<times> 'a list" where
  "update_first P f [] = (None, [])"
| "update_first P f (x # xs) =
     (if P x then (Some x, f x # xs) else let (y, ys) = update_first P f xs in (y, x # ys))"

definition set_identity :: "string \<Rightarrow> string \<Rightarrow> McpSessionInfo \<Rightarrow> McpSessionInfo" where
  "set_identity name version s = s\<lparr>ms_client_name := name, ms_client_version := version\<rparr>"

definition annotate :: "string \<Rightarrow> string \<Rightarrow> string \<Rightarrow> McpSessionRegistry \<Rightarrow> bool \<times> McpSessionRegistry" where
  "annotate i name version r =
     (if leases_ok r then
        let (found, rows) = update_first (\<lambda>s. ms_id s = i) (set_identity name version) (leases r)
        in (found \<noteq> None, r\<lparr>leases := rows\<rparr>)
      else (False, r))"

definition set_client_info :: "string \<Rightarrow> string \<Rightarrow> string \<Rightarrow> McpSessionRegistry \<Rightarrow> McpSessionRegistry" where
  "set_client_info i name version r =
     (if leases_ok r then
        r\<lparr>leases := snd (update_first (\<lambda>s. ms_id s = i) (set_identity name version) (leases r))\<rparr>
      else r)"

definition annotate_latest_matching :: "string \<Rightarrow> string \<Rightarrow> string \<Rightarrow> McpSessionRegistry
    \<Rightarrow> string option \<times> McpSessionRegistry" where
  "annotate_latest_matching match_name name version r =
     (if leases_ok r then
        let (found, rows) = update_first (\<lambda>s. ms_client_name s = match_name) (set_identity name version)
              (rev (leases r))
        in (map_option ms_id found, r\<lparr>leases := rev rows\<rparr>)
      else (None, r))"

definition session_list :: "McpSessionRegistry \<Rightarrow> McpSessionInfo list" where
  "session_list r = (if leases_ok r then leases r else [])"

definition session_len :: "McpSessionRegistry \<Rightarrow> nat" where
  "session_len r = (if leases_ok r then length (leases r) else 0)"

definition session_is_empty :: "McpSessionRegistry \<Rightarrow> bool" where
  "session_is_empty r \<longleftrightarrow> session_len r = 0"

lemmas session_defs = acquire_def release_def try_begin_bridge_call_def end_bridge_call_def drop_slot_def
  annotate_def set_client_info_def annotate_latest_matching_def

section \<open>Runs\<close>

text \<open>
  A run of the registry: the ids drawn so far, the sessions acquired and not yet released, the slot guards
  alive, and the registry.  An id is drawn fresh (a UUID), a call is begun by a live session, a
  guard is dropped once; locks may be poisoned at any time.
\<close>

record session_run =
  drawn :: "string set"
  live :: "string set"
  guards :: "BridgeCallSlot list"
  registry :: McpSessionRegistry

inductive session_step :: "session_run \<Rightarrow> session_run \<Rightarrow> bool" where
  acquire: "i \<notin> drawn s \<Longrightarrow> acquire i now (registry s) = (j, r) \<Longrightarrow>
     session_step s (s\<lparr>drawn := insert i (drawn s), live := insert i (live s), registry := r\<rparr>)"
| release: "release i (registry s) = r \<Longrightarrow>
     session_step s (s\<lparr>live := live s - {i}, registry := r\<rparr>)"
| begin_call: "i \<in> live s \<Longrightarrow> try_begin_bridge_call i scope pid (registry s) = (Some g, r) \<Longrightarrow>
     session_step s (s\<lparr>guards := guards s @ [g], registry := r\<rparr>)"
| refuse_call: "i \<in> live s \<Longrightarrow> try_begin_bridge_call i scope pid (registry s) = (None, r) \<Longrightarrow>
     session_step s (s\<lparr>registry := r\<rparr>)"
| end_call: "g \<in> set (guards s) \<Longrightarrow>
     session_step s (s\<lparr>guards := remove1 g (guards s), registry := drop_slot g (registry s)\<rparr>)"
| annotate: "annotate i name version (registry s) = (b, r) \<Longrightarrow> session_step s (s\<lparr>registry := r\<rparr>)"
| client_info: "session_step s (s\<lparr>registry := set_client_info i name version (registry s)\<rparr>)"
| latest: "annotate_latest_matching m name version (registry s) = (x, r) \<Longrightarrow>
     session_step s (s\<lparr>registry := r\<rparr>)"
| poison_leases: "session_step s (s\<lparr>registry := (registry s)\<lparr>leases_ok := False\<rparr>\<rparr>)"
| poison_inflight: "session_step s (s\<lparr>registry := (registry s)\<lparr>inflight_ok := False\<rparr>\<rparr>)"

definition session_init :: "session_run \<Rightarrow> bool" where
  "session_init s \<longleftrightarrow> s = \<lparr>drawn = {}, live = {}, guards = [], registry = sessions_new\<rparr>"

definition session_inv :: "session_run \<Rightarrow> bool" where
  "session_inv s \<longleftrightarrow>
     live s \<subseteq> drawn s
     \<and> (\<forall>g \<in> set (guards s). slot_session g \<in> drawn s)
     \<and> distinct (guards s)
     \<and> (\<forall>g \<in> set (guards s). slot_session g \<in> live s \<longrightarrow> slot_key g \<in> bridge_inflight (registry s))
     \<and> (inflight_ok (registry s) \<longrightarrow> bridge_inflight (registry s) \<subseteq> slot_key ` set (guards s))
     \<and> (leases_ok (registry s) \<longrightarrow> map ms_id (leases (registry s)) \<in> {xs. distinct xs \<and> set xs = live s})"

lemma slot_key_inj: "slot_key g = slot_key h \<longleftrightarrow> g = h"
  by (cases g; cases h) (auto simp: slot_key_def)

lemma update_first_ids:
  "(\<And>x. h (f x) = h x) \<Longrightarrow> map h (snd (update_first P f xs)) = map h xs"
  by (induction xs) (auto split: prod.splits)

lemma set_identity_id [simp]: "ms_id (set_identity name version s) = ms_id s"
  by (simp add: set_identity_def)

lemma try_begin_Some:
  "try_begin_bridge_call i scope pid r = (Some g, r') \<longleftrightarrow>
     inflight_ok r \<and> (i, scope, pid) \<notin> bridge_inflight r
     \<and> g = \<lparr>slot_session = i, slot_scope = scope, slot_pid = pid\<rparr>
     \<and> r' = r\<lparr>bridge_inflight := insert (i, scope, pid) (bridge_inflight r)\<rparr>"
  by (auto simp: try_begin_bridge_call_def Let_def split: if_splits)

lemma try_begin_None:
  "try_begin_bridge_call i scope pid r = (None, r') \<longleftrightarrow>
     (\<not> inflight_ok r \<or> (i, scope, pid) \<in> bridge_inflight r) \<and> r' = r"
  by (auto simp: try_begin_bridge_call_def Let_def insert_absorb split: if_splits)

lemma annotate_frame:
  "annotate i name version r = (b, r') \<Longrightarrow> leases_ok r' = leases_ok r \<and> bridge_inflight r' = bridge_inflight r
     \<and> inflight_ok r' = inflight_ok r \<and> map ms_id (leases r') = map ms_id (leases r)"
  using update_first_ids [of ms_id "set_identity name version" "\<lambda>s. ms_id s = i" "leases r"]
  by (auto simp: annotate_def split: if_splits prod.splits)

lemma client_info_frame:
  "leases_ok (set_client_info i name version r) = leases_ok r
   \<and> bridge_inflight (set_client_info i name version r) = bridge_inflight r
   \<and> inflight_ok (set_client_info i name version r) = inflight_ok r
   \<and> map ms_id (leases (set_client_info i name version r)) = map ms_id (leases r)"
  using update_first_ids [of ms_id "set_identity name version" "\<lambda>s. ms_id s = i" "leases r"]
  by (simp add: set_client_info_def)

lemma latest_frame:
  "annotate_latest_matching m name version r = (x, r') \<Longrightarrow> leases_ok r' = leases_ok r
     \<and> bridge_inflight r' = bridge_inflight r
     \<and> inflight_ok r' = inflight_ok r \<and> map ms_id (leases r') = map ms_id (leases r)"
  using update_first_ids [of ms_id "set_identity name version" "\<lambda>s. ms_client_name s = m" "rev (leases r)"]
  by (auto simp: annotate_latest_matching_def rev_map split: if_splits prod.splits) (metis rev_map rev_rev_ident)

section \<open>One call at a time\<close>

lemma session_inv_frame:
  assumes "session_inv s" "bridge_inflight r = bridge_inflight (registry s)"
    "inflight_ok r \<longrightarrow> inflight_ok (registry s)" "leases_ok r \<longrightarrow> leases_ok (registry s)"
    "map ms_id (leases r) = map ms_id (leases (registry s))"
  shows "session_inv (s\<lparr>registry := r\<rparr>)"
  using assms by (simp add: session_inv_def)

lemma session_inv_acquire:
  assumes "session_inv s" "i \<notin> drawn s" "acquire i now (registry s) = (j, r)"
  shows "session_inv (s\<lparr>drawn := insert i (drawn s), live := insert i (live s), registry := r\<rparr>)"
proof -
  have r: "bridge_inflight r = bridge_inflight (registry s)" "inflight_ok r = inflight_ok (registry s)"
    "leases_ok r = leases_ok (registry s)"
    "leases_ok (registry s) \<Longrightarrow> map ms_id (leases r) = map ms_id (leases (registry s)) @ [i]"
    using assms(3) by (auto simp: acquire_def split: if_splits)
  have "i \<notin> live s" "\<forall>g \<in> set (guards s). slot_session g \<noteq> i" using assms(1,2) by (auto simp: session_inv_def)
  then show ?thesis using assms(1) r by (auto simp: session_inv_def)
qed

lemma session_inv_release:
  assumes "session_inv s" shows "session_inv (s\<lparr>live := live s - {i}, registry := release i (registry s)\<rparr>)"
proof -
  let ?r = "release i (registry s)"
  have r: "inflight_ok ?r = inflight_ok (registry s)" "leases_ok ?r = leases_ok (registry s)"
    "bridge_inflight ?r = (if inflight_ok (registry s) then {k \<in> bridge_inflight (registry s). fst k \<noteq> i}
       else bridge_inflight (registry s))"
    "leases_ok (registry s) \<Longrightarrow> leases ?r = filter (\<lambda>s. ms_id s \<noteq> i) (leases (registry s))"
    by (simp_all add: release_def Let_def)
  have "leases_ok (registry s) \<Longrightarrow> distinct (map ms_id (leases ?r)) \<and> set (map ms_id (leases ?r)) = live s - {i}"
    using assms r(4) by (auto simp: session_inv_def distinct_map intro: inj_on_subset)
  then show ?thesis using assms r(1-3) by (auto simp: session_inv_def slot_key_def)
qed

lemma session_inv_begin:
  assumes "session_inv s" "i \<in> live s" "try_begin_bridge_call i scope pid (registry s) = (Some g, r)"
  shows "session_inv (s\<lparr>guards := guards s @ [g], registry := r\<rparr>)"
proof -
  have b: "inflight_ok (registry s)" "(i, scope, pid) \<notin> bridge_inflight (registry s)"
    "slot_key g = (i, scope, pid)" "slot_session g = i"
    "r = (registry s)\<lparr>bridge_inflight := insert (i, scope, pid) (bridge_inflight (registry s))\<rparr>"
    using assms(3) by (auto simp: try_begin_Some slot_key_def)
  have "g \<notin> set (guards s)" using assms(1,2) b(2-4) by (auto simp: session_inv_def)
  then show ?thesis using assms(1,2) b by (auto simp: session_inv_def)
qed

lemma session_inv_end:
  assumes "session_inv s" "g \<in> set (guards s)"
  shows "session_inv (s\<lparr>guards := remove1 g (guards s), registry := drop_slot g (registry s)\<rparr>)"
proof -
  let ?r = "drop_slot g (registry s)"
  have r: "inflight_ok ?r = inflight_ok (registry s)" "leases_ok ?r = leases_ok (registry s)"
    "leases ?r = leases (registry s)"
    "bridge_inflight ?r = (if inflight_ok (registry s) then bridge_inflight (registry s) - {slot_key g}
       else bridge_inflight (registry s))"
    by (simp_all add: drop_slot_def end_bridge_call_def slot_key_def)
  have "set (remove1 g (guards s)) = set (guards s) - {g}" using assms(1) by (simp add: session_inv_def)
  then show ?thesis using assms(1) r by (auto simp: session_inv_def slot_key_inj)
qed

interpretation sessions: transition_system session_init session_step session_inv
proof
  fix s assume "session_init s"
  then show "session_inv s" by (simp add: session_init_def session_inv_def sessions_new_def)
next
  fix s t assume inv: "session_inv s" and step: "session_step s t"
  from step show "session_inv t"
  proof (cases rule: session_step.cases)
    case (acquire i now j r)
    with session_inv_acquire [OF inv] show ?thesis by simp
  next
    case (release i r)
    with session_inv_release [OF inv, of i] show ?thesis by simp
  next
    case (begin_call i scope pid g r)
    with session_inv_begin [OF inv] show ?thesis by simp
  next
    case (refuse_call i scope pid r)
    with inv show ?thesis by (simp add: try_begin_None)
  next
    case (end_call g)
    with session_inv_end [OF inv] show ?thesis by simp
  next
    case (annotate i name version b r)
    with annotate_frame [of i name version "registry s" b r] show ?thesis
      by (simp add: session_inv_frame [OF inv])
  next
    case (client_info i name version)
    with client_info_frame [of i name version "registry s"] show ?thesis
      by (simp add: session_inv_frame [OF inv])
  next
    case (latest m name version x r)
    with latest_frame [of m name version "registry s" x r] show ?thesis
      by (simp add: session_inv_frame [OF inv])
  next
    case poison_leases
    then show ?thesis by (simp add: session_inv_frame [OF inv])
  next
    case poison_inflight
    then show ?thesis by (simp add: session_inv_frame [OF inv])
  qed
qed

text \<open>C24: At any time a session has at most one bridged call in flight per daemon and process: the
guards alive are pairwise different, and a live session can begin a call exactly when it holds
no guard for that key and the lock is sound - no slot is leaked and none is handed out twice,
although sessions come and go while their calls still run.\<close>

theorem session_calls_exclusive:
  assumes "reachable session_init session_step s" "i \<in> live s"
  shows "distinct (map slot_key (guards s))
    \<and> (fst (try_begin_bridge_call i scope pid (registry s)) \<noteq> None \<longleftrightarrow>
         inflight_ok (registry s) \<and> (i, scope, pid) \<notin> slot_key ` set (guards s))
    \<and> (has_bridge_call i scope pid (registry s) \<longleftrightarrow>
         inflight_ok (registry s) \<and> (i, scope, pid) \<in> slot_key ` set (guards s))"
proof -
  have inv: "session_inv s" using assms(1) by (rule sessions.reachable_inv)
  have key: "inflight_ok (registry s) \<Longrightarrow>
      (i, scope, pid) \<in> bridge_inflight (registry s) \<longleftrightarrow> (i, scope, pid) \<in> slot_key ` set (guards s)"
    using inv assms(2) by (auto simp: session_inv_def slot_key_def)
  have "fst (try_begin_bridge_call i scope pid (registry s)) \<noteq> None \<longleftrightarrow>
      inflight_ok (registry s) \<and> (i, scope, pid) \<notin> bridge_inflight (registry s)"
    by (auto simp: try_begin_bridge_call_def Let_def)
  moreover have "distinct (map slot_key (guards s))"
    using inv by (simp add: session_inv_def distinct_map inj_on_def slot_key_inj)
  ultimately show ?thesis using key by (auto simp: has_bridge_call_def)
qed

definition sample_run :: session_run where
  "sample_run = \<lparr>drawn = {''a''}, live = {''a''}, guards = [\<lparr>slot_session = ''a'', slot_scope = ''local'', slot_pid = 7\<rparr>],
     registry = \<lparr>leases = [\<lparr>ms_id = ''a'', ms_client_name = ''pending'', ms_client_version = [], ms_connected_at = 3\<rparr>],
       leases_ok = True, bridge_inflight = {(''a'', ''local'', 7)}, inflight_ok = True\<rparr>\<rparr>"

lemma sample_run_reachable: "reachable session_init session_step sample_run"
proof -
  let ?s0 = "\<lparr>drawn = {}, live = {}, guards = [], registry = sessions_new\<rparr>"
  let ?r1 = "snd (acquire ''a'' 3 sessions_new)"
  let ?s1 = "\<lparr>drawn = {''a''}, live = {''a''}, guards = [], registry = ?r1\<rparr>"
  have 0: "reachable session_init session_step ?s0" by (rule reach_init) (simp add: session_init_def)
  have "session_step ?s0 ?s1"
    using session_step.acquire [of "''a''" ?s0 3 "''a''" ?r1] by (simp add: acquire_def)
  with 0 have 1: "reachable session_init session_step ?s1" by (rule reach_step)
  have "session_step ?s1 sample_run"
    using session_step.begin_call [of "''a''" ?s1 "''local''" 7
        "\<lparr>slot_session = ''a'', slot_scope = ''local'', slot_pid = 7\<rparr>"]
    by (simp add: try_begin_Some acquire_def sessions_new_def sample_run_def)
  with 1 show ?thesis by (rule reach_step)
qed

theorem session_calls_exclusive_witness:
  "fst (try_begin_bridge_call ''a'' ''local'' 7 (registry sample_run)) = None
   \<and> fst (try_begin_bridge_call ''a'' ''local'' 8 (registry sample_run)) \<noteq> None"
  using session_calls_exclusive [OF sample_run_reachable, of "''a''" "''local''" 7]
    session_calls_exclusive [OF sample_run_reachable, of "''a''" "''local''" 8]
  by (simp add: sample_run_def slot_key_def)

text \<open>The lease list is exact while its lock is sound: it lists every session acquired and not
released, each once; a released session is gone together with its slots, and the others keep
their rows and their slots.\<close>

theorem session_leases_exact:
  assumes "reachable session_init session_step s" "leases_ok (registry s)"
  shows "distinct (map ms_id (session_list (registry s)))
    \<and> ms_id ` set (session_list (registry s)) = live s
    \<and> session_len (registry s) = card (live s)
    \<and> session_list (release i (registry s)) = filter (\<lambda>l. ms_id l \<noteq> i) (session_list (registry s))
    \<and> has_bridge_call j scope pid (release i (registry s)) =
        (j \<noteq> i \<and> has_bridge_call j scope pid (registry s))"
proof -
  have inv: "session_inv s" using assms(1) by (rule sessions.reachable_inv)
  then have ids: "distinct (map ms_id (leases (registry s)))" "set (map ms_id (leases (registry s))) = live s"
    using assms(2) by (simp_all add: session_inv_def)
  then have "length (leases (registry s)) = card (live s)" by (metis distinct_card length_map)
  with ids assms(2) show ?thesis
    by (auto simp: session_list_def session_len_def release_def has_bridge_call_def Let_def)
qed

theorem session_leases_exact_witness:
  "session_len (registry sample_run) = 1 \<and> \<not> has_bridge_call ''a'' ''local'' 7 (release ''a'' (registry sample_run))"
  using session_leases_exact [OF sample_run_reachable, of "''a''" "''a''" "''local''" 7]
  by (simp add: sample_run_def)

end
