(* ===== verification/Idle.thy ===== *)
theory Idle
  imports Rust_Std
begin

text \<open>
  The idle watcher of the daemon, \<open>crates/tdmcp-daemon/src/idle.rs\<close>: the timeout read from the
  environment, and the polling loop that ends the daemon once nobody has been connected for long enough.
  Durations and instants are natural numbers of nanoseconds.  One iteration of the loop reads the
  counters once and the clock up to three times; a \<open>poll\<close> is what it reads.
\<close>

definition DEFAULT_IDLE_EXIT_SECS :: nat where
  "DEFAULT_IDLE_EXIT_SECS = 30"

definition from_secs :: "nat \<Rightarrow> nat" where
  "from_secs n = n * 1000000000"

definition DEFAULT_IDLE_STARTUP_GRACE :: nat where
  "DEFAULT_IDLE_STARTUP_GRACE = from_secs 5"

definition idle_exit_timeout_from_env :: "string option \<Rightarrow> nat option" where
  "idle_exit_timeout_from_env raw =
     (case raw of
        None \<Rightarrow> Some (from_secs DEFAULT_IDLE_EXIT_SECS)
      | Some s \<Rightarrow>
          (case parse_uint (2 ^ 64 - 1) (trim s) of
             Some secs \<Rightarrow> if secs = 0 then None else Some (from_secs secs)
           | None \<Rightarrow> Some (from_secs DEFAULT_IDLE_EXIT_SECS)))"

definition poll_interval :: "nat \<Rightarrow> nat" where
  "poll_interval timeout =
     (let quarter = timeout div 4
      in if quarter = 0 then 50000000 else min quarter (from_secs 1))"

record poll =
  p_cancelled :: bool
  p_bridges :: nat
  p_leases :: nat
  p_disabled :: bool
  p_clock_grace :: nat
  p_clock_since :: nat
  p_clock_elapsed :: nat
  p_cancelled_asleep :: bool

definition p_busy :: "poll \<Rightarrow> bool" where
  "p_busy p \<longleftrightarrow> p_disabled p \<or> 0 < p_bridges p \<or> 0 < p_leases p"

datatype watch = Watching "nat option" | Stopped | Exited

text \<open>One iteration, from the state \<open>idle_since\<close> to the next one, or out of the loop.\<close>

definition idle_poll :: "nat \<Rightarrow> nat \<Rightarrow> nat \<Rightarrow> nat option \<Rightarrow> poll \<Rightarrow> watch" where
  "idle_poll timeout grace started idle_since p =
     (if p_cancelled p then Stopped
      else
        let sleep = (\<lambda>since. if p_cancelled_asleep p then Stopped else Watching since);
            in_startup_grace = p_clock_grace p - started < grace
        in if p_busy p \<or> in_startup_grace then sleep None
           else
             let since = (case idle_since of Some t \<Rightarrow> t | None \<Rightarrow> p_clock_since p)
             in if timeout \<le> p_clock_elapsed p - since then Exited else sleep (Some since))"

fun idle_watch :: "nat \<Rightarrow> nat \<Rightarrow> nat \<Rightarrow> nat option \<Rightarrow> poll list \<Rightarrow> watch" where
  "idle_watch timeout grace started since [] = Watching since"
| "idle_watch timeout grace started since (p # ps) =
     (case idle_poll timeout grace started since p of
        Watching since' \<Rightarrow> idle_watch timeout grace started since' ps
      | w \<Rightarrow> w)"

definition run_idle_watcher :: "nat \<Rightarrow> nat \<Rightarrow> poll list \<Rightarrow> watch" where
  "run_idle_watcher timeout started ps = idle_watch timeout DEFAULT_IDLE_STARTUP_GRACE started None ps"

section \<open>When the daemon ends itself\<close>

definition quiet :: "nat \<Rightarrow> nat \<Rightarrow> poll \<Rightarrow> bool" where
  "quiet grace started p \<longleftrightarrow> \<not> p_cancelled p \<and> \<not> p_busy p \<and> grace \<le> p_clock_grace p - started"

lemma idle_poll_Watching:
  "idle_poll timeout grace started since p = Watching since' \<Longrightarrow>
     \<not> p_cancelled p \<and> \<not> p_cancelled_asleep p
     \<and> since' = (if quiet grace started p then Some (case since of Some t \<Rightarrow> t | None \<Rightarrow> p_clock_since p) else None)
     \<and> (quiet grace started p \<longrightarrow> p_clock_elapsed p - (case since of Some t \<Rightarrow> t | None \<Rightarrow> p_clock_since p) < timeout)"
  by (auto simp: idle_poll_def quiet_def Let_def split: if_splits)

lemma idle_poll_Exited:
  "idle_poll timeout grace started since p = Exited \<longleftrightarrow>
     quiet grace started p
     \<and> timeout \<le> p_clock_elapsed p - (case since of Some t \<Rightarrow> t | None \<Rightarrow> p_clock_since p)"
  by (auto simp: idle_poll_def quiet_def Let_def)

lemma idle_watch_exit_since:
  "idle_watch timeout grace started since ps = Exited \<Longrightarrow>
     (\<exists>n<length ps. \<exists>k\<le>n. (\<forall>m. k \<le> m \<and> m \<le> n \<longrightarrow> quiet grace started (ps ! m))
        \<and> timeout \<le> p_clock_elapsed (ps ! n) - p_clock_since (ps ! k))
     \<or> (\<exists>t. since = Some t \<and> (\<exists>n<length ps. (\<forall>m\<le>n. quiet grace started (ps ! m))
        \<and> timeout \<le> p_clock_elapsed (ps ! n) - t))"
proof (induction ps arbitrary: since)
  case (Cons p ps)
  show ?case
  proof (cases "idle_poll timeout grace started since p")
    case (Watching since')
    note w = idle_poll_Watching [OF Watching]
    from Cons.prems Watching have "idle_watch timeout grace started since' ps = Exited" by simp
    from Cons.IH [OF this] show ?thesis
    proof (elim disjE exE conjE)
      fix n k assume "n < length ps" "k \<le> n" "\<forall>m. k \<le> m \<and> m \<le> n \<longrightarrow> quiet grace started (ps ! m)"
        "timeout \<le> p_clock_elapsed (ps ! n) - p_clock_since (ps ! k)"
      then have "Suc n < length (p # ps) \<and> Suc k \<le> Suc n
          \<and> (\<forall>m. Suc k \<le> m \<and> m \<le> Suc n \<longrightarrow> quiet grace started ((p # ps) ! m))
          \<and> timeout \<le> p_clock_elapsed ((p # ps) ! Suc n) - p_clock_since ((p # ps) ! Suc k)"
        by (auto simp: nth_Cons split: nat.splits)
      then show ?thesis by blast
    next
      fix t n assume t: "since' = Some t" "n < length ps" "\<forall>m\<le>n. quiet grace started (ps ! m)"
        "timeout \<le> p_clock_elapsed (ps ! n) - t"
      then have q: "\<forall>m\<le>Suc n. quiet grace started ((p # ps) ! m)"
        using w by (auto simp: nth_Cons split: nat.splits if_splits)
      have s: "t = (case since of Some t \<Rightarrow> t | None \<Rightarrow> p_clock_since p)" using w t(1) by (auto split: if_splits)
      show ?thesis
      proof (cases since)
        case None
        with s q t(2,4) have "Suc n < length (p # ps) \<and> 0 \<le> Suc n
          \<and> (\<forall>m. 0 \<le> m \<and> m \<le> Suc n \<longrightarrow> quiet grace started ((p # ps) ! m))
          \<and> timeout \<le> p_clock_elapsed ((p # ps) ! Suc n) - p_clock_since ((p # ps) ! 0)" by simp
        then show ?thesis by blast
      next
        case (Some u)
        with s q t(2,4) have "Suc n < length (p # ps) \<and> (\<forall>m\<le>Suc n. quiet grace started ((p # ps) ! m))
          \<and> timeout \<le> p_clock_elapsed ((p # ps) ! Suc n) - u" by simp
        with Some show ?thesis by blast
      qed
    qed
  next
    case Exited
    then have e: "quiet grace started p"
      "timeout \<le> p_clock_elapsed p - (case since of Some t \<Rightarrow> t | None \<Rightarrow> p_clock_since p)"
      by (simp_all add: idle_poll_Exited)
    show ?thesis
    proof (cases since)
      case None
      with e have "0 < length (p # ps) \<and> (0::nat) \<le> 0 \<and> (\<forall>m. 0 \<le> m \<and> m \<le> 0 \<longrightarrow> quiet grace started ((p # ps) ! m))
        \<and> timeout \<le> p_clock_elapsed ((p # ps) ! 0) - p_clock_since ((p # ps) ! 0)" by simp
      then show ?thesis by blast
    next
      case (Some u)
      with e have "0 < length (p # ps) \<and> (\<forall>m\<le>0. quiet grace started ((p # ps) ! m))
        \<and> timeout \<le> p_clock_elapsed ((p # ps) ! 0) - u" by simp
      with Some show ?thesis by blast
    qed
  qed (use Cons.prems in simp)
qed simp

text \<open>While nothing was decided, the watcher remembers an instant no later than the first quiet poll.\<close>

lemma idle_watch_quiet_run:
  assumes "idle_watch timeout grace started (Some t) ps = Watching since'"
    and "\<forall>p \<in> set ps. quiet grace started p"
  shows "since' = Some t \<and> (\<forall>p \<in> set ps. p_clock_elapsed p - t < timeout)"
  using assms
proof (induction ps)
  case (Cons p ps)
  then obtain s where s: "idle_poll timeout grace started (Some t) p = Watching s"
    by (cases "idle_poll timeout grace started (Some t) p") auto
  from idle_poll_Watching [OF s] Cons.prems(2) have "s = Some t" "p_clock_elapsed p - t < timeout" by auto
  with s Cons show ?case by simp
qed simp

lemma idle_watch_append:
  "idle_watch timeout grace started since (ps @ qs) =
     (case idle_watch timeout grace started since ps of
        Watching since' \<Rightarrow> idle_watch timeout grace started since' qs
      | w \<Rightarrow> w)"
  by (induction ps arbitrary: since) (auto split: watch.splits)

lemma idle_poll_not_stopped:
  "\<not> p_cancelled p \<Longrightarrow> \<not> p_cancelled_asleep p \<Longrightarrow> idle_poll timeout grace started since p \<noteq> Stopped"
  by (simp add: idle_poll_def Let_def)

lemma idle_watch_since_le:
  assumes "idle_watch timeout grace started since ps = w" "\<forall>p \<in> set ps. \<not> p_cancelled p \<and> \<not> p_cancelled_asleep p"
    and "\<forall>p \<in> set ps. p_clock_since p \<le> b" "\<forall>t. since = Some t \<longrightarrow> t \<le> b"
  shows "w = Exited \<or> (\<exists>since'. w = Watching since' \<and> (\<forall>t. since' = Some t \<longrightarrow> t \<le> b))"
  using assms
proof (induction ps arbitrary: since)
  case (Cons p ps)
  show ?case
  proof (cases "idle_poll timeout grace started since p")
    case (Watching since')
    from idle_poll_Watching [OF Watching] Cons.prems(3,4) have "\<forall>t. since' = Some t \<longrightarrow> t \<le> b"
      by (auto split: option.splits if_splits)
    with Cons.IH [of since'] Cons.prems Watching show ?thesis by simp
  next
    case Stopped
    with idle_poll_not_stopped Cons.prems(2) show ?thesis by (metis list.set_intros(1))
  qed (use Cons.prems(1) in simp)
qed auto

lemma idle_watch_quiet_exit:
  assumes "\<forall>p \<in> set ps. quiet grace started p \<and> \<not> p_cancelled_asleep p" "p \<in> set ps" "t + timeout \<le> p_clock_elapsed p"
  shows "idle_watch timeout grace started (Some t) ps = Exited"
proof (cases "idle_watch timeout grace started (Some t) ps")
  case (Watching since')
  from idle_watch_quiet_run [OF this] assms have "p_clock_elapsed p - t < timeout" by blast
  with assms(3) show ?thesis by simp
next
  case Stopped
  have "\<forall>p \<in> set ps. \<not> p_cancelled p \<and> \<not> p_cancelled_asleep p" using assms(1) by (simp add: quiet_def)
  with Stopped idle_watch_since_le [OF Stopped this, of "Max (insert t (p_clock_since ` set ps))"] show ?thesis by simp
qed

text \<open>C33: The daemon ends itself only when it was idle all along: there are consecutive polls, past the
startup grace and with no bridge, no session and idle exit enabled, whose clocks span the timeout,
and nothing had been cancelled before.\<close>

theorem idle_exit_only_when_idle:
  assumes "run_idle_watcher timeout started ps = Exited"
  shows "\<exists>n<length ps. \<exists>k\<le>n.
    (\<forall>m. k \<le> m \<and> m \<le> n \<longrightarrow> \<not> p_cancelled (ps ! m) \<and> \<not> p_disabled (ps ! m) \<and> p_bridges (ps ! m) = 0
       \<and> p_leases (ps ! m) = 0 \<and> from_secs 5 \<le> p_clock_grace (ps ! m) - started)
    \<and> timeout \<le> p_clock_elapsed (ps ! n) - p_clock_since (ps ! k)"
  using idle_watch_exit_since [OF assms [unfolded run_idle_watcher_def]]
  by (auto simp: quiet_def p_busy_def DEFAULT_IDLE_STARTUP_GRACE_def)

definition sample_poll :: "nat \<Rightarrow> poll" where
  "sample_poll t = \<lparr>p_cancelled = False, p_bridges = 0, p_leases = 0, p_disabled = False, p_clock_grace = t,
     p_clock_since = t, p_clock_elapsed = t, p_cancelled_asleep = False\<rparr>"

definition sample_polls :: "poll list" where
  "sample_polls = [sample_poll (from_secs 5), sample_poll (from_secs 6), sample_poll (from_secs 7)]"

lemma sample_polls_exit: "run_idle_watcher (from_secs 2) 0 sample_polls = Exited"
  by (simp add: sample_polls_def run_idle_watcher_def idle_poll_def sample_poll_def p_busy_def from_secs_def
      DEFAULT_IDLE_STARTUP_GRACE_def Let_def)

theorem idle_exit_only_when_idle_witness:
  "\<exists>n<length sample_polls. \<exists>k\<le>n.
     from_secs 2 \<le> p_clock_elapsed (sample_polls ! n) - p_clock_since (sample_polls ! k)"
  using idle_exit_only_when_idle [OF sample_polls_exit] by blast

text \<open>C34: And it does end: once every poll from some point on is idle and a clock reading lies the timeout
after the first of them, the watcher has exited, however the polls before went.\<close>

theorem idle_exit_happens:
  assumes "\<forall>p \<in> set (ps @ q # qs). \<not> p_cancelled p \<and> \<not> p_cancelled_asleep p"
    and "\<forall>p \<in> set (q # qs). \<not> p_disabled p \<and> p_bridges p = 0 \<and> p_leases p = 0
       \<and> from_secs 5 \<le> p_clock_grace p - started"
    and "\<forall>p \<in> set ps. p_clock_since p \<le> p_clock_since q"
    and "r \<in> set (q # qs)" "p_clock_since q + timeout \<le> p_clock_elapsed r"
  shows "run_idle_watcher timeout started (ps @ q # qs) = Exited"
proof -
  let ?g = "DEFAULT_IDLE_STARTUP_GRACE"
  have quiet: "\<forall>p \<in> set (q # qs). quiet ?g started p \<and> \<not> p_cancelled_asleep p"
    using assms(1,2) by (simp add: quiet_def p_busy_def DEFAULT_IDLE_STARTUP_GRACE_def)
  consider "idle_watch timeout ?g started None ps = Exited"
    | since where "idle_watch timeout ?g started None ps = Watching since"
      "\<forall>t. since = Some t \<longrightarrow> t \<le> p_clock_since q"
    using idle_watch_since_le [OF refl, of ps "p_clock_since q" None timeout ?g started] assms(1,3) by auto
  then show ?thesis
  proof (cases)
    case 1
    then show ?thesis by (simp add: run_idle_watcher_def idle_watch_append)
  next
    case (2 since)
    have "idle_watch timeout ?g started since (q # qs) = Exited"
    proof (cases since)
      case (Some t)
      with 2(2) assms(5) have "t + timeout \<le> p_clock_elapsed r" by simp
      with Some idle_watch_quiet_exit [OF quiet assms(4)] show ?thesis by blast
    next
      case None
      have same: "idle_poll timeout ?g started None q = idle_poll timeout ?g started (Some (p_clock_since q)) q"
        by (simp add: idle_poll_def)
      then show ?thesis using None idle_watch_quiet_exit [OF quiet assms(4,5)] by simp
    qed
    with 2(1) show ?thesis by (simp add: run_idle_watcher_def idle_watch_append)
  qed
qed

theorem idle_exit_happens_witness:
  "run_idle_watcher (from_secs 2) 0 ([(sample_poll (from_secs 5))\<lparr>p_bridges := 1\<rparr>]
     @ sample_poll (from_secs 6) # [sample_poll (from_secs 8)]) = Exited"
  by (rule idle_exit_happens [where r = "sample_poll (from_secs 8)"]) (simp_all add: sample_poll_def from_secs_def)

end
