(* ===== verification/LogRing.thy ===== *)
theory LogRing
  imports Rust_Std
begin

text \<open>
  The central log: records (\<open>crates/tdmcp-daemon/src/logrecord.rs\<close>), the bounded ring with its
  cursor reads, the ingestion of records from bridges and proxies and the retention sweep
  (\<open>logring.rs\<close>), and the route that reads the ring (\<open>admin_logs\<close> of \<open>admin.rs\<close>).  The arrival time, the
  JSON rendering of a value and the date parser are arguments.
\<close>

section \<open>Records\<close>

datatype Level = LTrace | LDebug | LInfo | LWarn | LError

fun level_rank :: "Level \<Rightarrow> nat" where
  "level_rank LTrace = 0"
| "level_rank LDebug = 1"
| "level_rank LInfo = 2"
| "level_rank LWarn = 3"
| "level_rank LError = 4"

datatype Src = SDaemon | SIpc | SMcp | SProxy | SGui | SBridge

fun starts_with :: "string \<Rightarrow> string \<Rightarrow> bool" where
  "starts_with s [] = True"
| "starts_with [] (p # ps) = False"
| "starts_with (c # cs) (p # ps) = (c = p \<and> starts_with cs ps)"

definition infer_from_target :: "string \<Rightarrow> Src" where
  "infer_from_target target =
     (if starts_with target ''tdmcp_ipc'' then SIpc
      else if starts_with target ''tdmcp_mcp'' then SMcp
      else if starts_with target ''tdmcp_gui'' then SGui
      else SDaemon)"

text \<open>\<open>kvs\<close> is a \<open>BTreeMap\<close>; of its order nothing depends here.\<close>

record Record =
  r_seq :: u64
  r_ts :: string
  r_level :: Level
  r_src :: Src
  r_pid :: u32
  r_target :: string
  r_msg :: string
  r_code :: "string option"
  r_kvs :: "(string \<times> string) list"

text \<open>Deserialising a lower-case level or source name.\<close>

definition level_of_name :: "string \<Rightarrow> Level option" where
  "level_of_name s =
     (if s = ''trace'' then Some LTrace else if s = ''debug'' then Some LDebug
      else if s = ''info'' then Some LInfo else if s = ''warn'' then Some LWarn
      else if s = ''error'' then Some LError else None)"

definition src_of_name :: "string \<Rightarrow> Src option" where
  "src_of_name s =
     (if s = ''daemon'' then Some SDaemon else if s = ''ipc'' then Some SIpc
      else if s = ''mcp'' then Some SMcp else if s = ''proxy'' then Some SProxy
      else if s = ''gui'' then Some SGui else if s = ''bridge'' then Some SBridge else None)"

section \<open>The ring\<close>

definition RING_CAPACITY :: nat where
  "RING_CAPACITY = 2048"

record LogRing =
  rq :: "Record list"
  rnext_seq :: u64
  rcapacity :: nat

definition ring_new :: "nat \<Rightarrow> LogRing" where
  "ring_new capacity = \<lparr>rq = [], rnext_seq = 1, rcapacity = capacity\<rparr>"

text \<open>\<open>while queue.len() > capacity { queue.pop_front(); }\<close>\<close>

function evict_front :: "nat \<Rightarrow> 'a list \<Rightarrow> 'a list" where
  "evict_front capacity q = (if capacity < length q then evict_front capacity (tl q) else q)"
  by pat_completeness auto
termination by (relation "measure (\<lambda>(_, q). length q)") auto

declare evict_front.simps [simp del]

definition ring_push :: "Record \<Rightarrow> LogRing \<Rightarrow> Record \<times> LogRing" where
  "ring_push rec ring =
     (let rec = rec\<lparr>r_seq := rnext_seq ring\<rparr>
      in (rec, ring\<lparr>rq := evict_front (rcapacity ring) (rq ring @ [rec]), rnext_seq := rnext_seq ring + 1\<rparr>))"

definition passes :: "Level option \<Rightarrow> Src list \<Rightarrow> Record \<Rightarrow> bool" where
  "passes min_level srcs r \<longleftrightarrow>
     (case min_level of Some m \<Rightarrow> level_rank m \<le> level_rank (r_level r) | None \<Rightarrow> True)
     \<and> (srcs = [] \<or> r_src r \<in> set srcs)"

definition snapshot_after :: "u64 \<Rightarrow> nat \<Rightarrow> Level option \<Rightarrow> Src list \<Rightarrow> LogRing \<Rightarrow> Record list \<times> u64" where
  "snapshot_after after limit min_level srcs ring =
     (let cursor = (if rnext_seq ring = 0 then 0 else rnext_seq ring - 1)
      in (take limit (filter (passes min_level srcs) (filter (\<lambda>r. after < r_seq r) (rq ring))), cursor))"

text \<open>\<open>None\<close> when the lock is taken or poisoned.\<close>

definition try_tail :: "bool \<Rightarrow> nat \<Rightarrow> LogRing \<Rightarrow> Record list option" where
  "try_tail lock_free limit ring =
     (if lock_free then Some (drop (length (rq ring) - limit) (rq ring)) else None)"

definition path_hint :: "LogRing \<Rightarrow> nat" where
  "path_hint ring = length (rq ring)"

text \<open>The sink: the ring and the lines handed to the file writer, which may fail.\<close>

record LogSink =
  sink_ring :: LogRing
  sink_lines :: "string list"

definition sink_push :: "(Record \<Rightarrow> string) \<Rightarrow> bool \<Rightarrow> Record \<Rightarrow> LogSink \<Rightarrow> Record \<times> LogSink" where
  "sink_push to_line writer_ok rec sink =
     (let (arc, ring) = ring_push rec (sink_ring sink)
      in (arc, sink\<lparr>sink_ring := ring,
            sink_lines := (if writer_ok then sink_lines sink @ [to_line arc] else sink_lines sink)\<rparr>))"

section \<open>Ingestion\<close>

definition MAX_EXTERNAL_MSG_BYTES :: nat where
  "MAX_EXTERNAL_MSG_BYTES = 64 * 1024"

definition MAX_EXTERNAL_BATCH :: nat where
  "MAX_EXTERNAL_BATCH = 256"

fun floor_boundary :: "string \<Rightarrow> nat \<Rightarrow> nat" where
  "floor_boundary s 0 = 0"
| "floor_boundary s (Suc n) = (if is_char_boundary s (Suc n) then Suc n else floor_boundary s n)"

definition truncate_to_byte_cap :: "nat \<Rightarrow> string \<Rightarrow> string" where
  "truncate_to_byte_cap max_bytes s =
     (if length s \<le> max_bytes then s else take (floor_boundary s max_bytes) s)"

definition json_value_to_string :: "(json \<Rightarrow> string) \<Rightarrow> json \<Rightarrow> string" where
  "json_value_to_string render v = (case as_str v of Some s \<Rightarrow> s | None \<Rightarrow> render v)"

record ExternalFields =
  x_level :: Level
  x_target :: string
  x_msg :: string
  x_code :: "string option"
  x_kvs :: "(string \<times> string) list"

definition obj_str :: "(string \<times> json) list \<Rightarrow> string \<Rightarrow> string option" where
  "obj_str obj k = Option.bind (map_of obj k) as_str"

definition parse_external_fields :: "(json \<Rightarrow> string) \<Rightarrow> json \<Rightarrow> ExternalFields option" where
  "parse_external_fields render entry =
     (case as_object entry of
        None \<Rightarrow> None
      | Some obj \<Rightarrow>
          let level = (case Option.bind (obj_str obj ''level'') level_of_name of Some l \<Rightarrow> l | None \<Rightarrow> LInfo);
              target = (case obj_str obj ''target'' of Some t \<Rightarrow> t | None \<Rightarrow> ''bridge'');
              msg = truncate_to_byte_cap MAX_EXTERNAL_MSG_BYTES
                (case obj_str obj ''msg'' of Some m \<Rightarrow> m | None \<Rightarrow> []);
              code = obj_str obj ''code'';
              kvs = (case Option.bind (map_of obj ''kvs'') as_object of
                  Some m \<Rightarrow> map (\<lambda>(k, v). (k, json_value_to_string render v)) m
                | None \<Rightarrow> []);
              kvs = (case obj_str obj ''ts'' of Some ts \<Rightarrow> AList.update ''sentTs'' ts kvs | None \<Rightarrow> kvs)
          in Some \<lparr>x_level = level, x_target = target, x_msg = msg, x_code = code, x_kvs = kvs\<rparr>)"

text \<open>What the sink, the clock and the writer are during one ingestion; \<open>now i\<close> is the \<open>i\<close>-th arrival time.\<close>

record ingest_env =
  ie_render :: "json \<Rightarrow> string"
  ie_to_line :: "Record \<Rightarrow> string"
  ie_writer_ok :: bool
  ie_now :: "nat \<Rightarrow> string"

fun ingest_loop :: "ingest_env \<Rightarrow> (string \<Rightarrow> ExternalFields \<Rightarrow> Record) \<Rightarrow> json list \<Rightarrow> nat \<Rightarrow> LogSink \<Rightarrow> nat \<times> LogSink" where
  "ingest_loop env to_record [] n sink = (n, sink)"
| "ingest_loop env to_record (entry # entries) n sink =
     (case parse_external_fields (ie_render env) entry of
        None \<Rightarrow> ingest_loop env to_record entries n sink
      | Some flds \<Rightarrow> ingest_loop env to_record entries (n + 1)
          (snd (sink_push (ie_to_line env) (ie_writer_ok env) (to_record (ie_now env n) flds) sink)))"

definition ingest_entries :: "ingest_env \<Rightarrow> (string \<Rightarrow> ExternalFields \<Rightarrow> Record) \<Rightarrow> json list \<Rightarrow> LogSink \<Rightarrow> nat \<times> LogSink" where
  "ingest_entries env to_record entries sink = ingest_loop env to_record (take MAX_EXTERNAL_BATCH entries) 0 sink"

definition bridge_record :: "u32 \<Rightarrow> string \<Rightarrow> ExternalFields \<Rightarrow> Record" where
  "bridge_record pid ts flds =
     \<lparr>r_seq = 0, r_ts = ts, r_level = x_level flds, r_src = SBridge, r_pid = pid, r_target = x_target flds,
      r_msg = x_msg flds, r_code = x_code flds, r_kvs = x_kvs flds\<rparr>"

definition ingest_bridge_logs :: "ingest_env \<Rightarrow> u32 \<Rightarrow> json \<Rightarrow> LogSink \<Rightarrow> nat \<times> LogSink" where
  "ingest_bridge_logs env pid payload sink =
     (case Option.bind (json_get ''records'' payload) as_array of
        None \<Rightarrow> (0, sink)
      | Some entries \<Rightarrow> ingest_entries env (bridge_record pid) entries sink)"

definition proxy_record :: "u32 \<Rightarrow> string \<Rightarrow> ExternalFields \<Rightarrow> Record" where
  "proxy_record proxy_pid ts flds =
     \<lparr>r_seq = 0, r_ts = ts, r_level = x_level flds, r_src = SProxy, r_pid = 0, r_target = x_target flds,
      r_msg = x_msg flds, r_code = x_code flds,
      r_kvs = AList.update ''proxyPid'' (show_nat (unat proxy_pid)) (x_kvs flds)\<rparr>"

definition ingest_proxy_logs :: "ingest_env \<Rightarrow> u32 \<Rightarrow> json \<Rightarrow> LogSink \<Rightarrow> nat \<times> LogSink" where
  "ingest_proxy_logs env proxy_pid payload sink =
     (case Option.bind (json_get ''lines'' payload) as_array of
        None \<Rightarrow> (0, sink)
      | Some entries \<Rightarrow> ingest_entries env (proxy_record proxy_pid) entries sink)"

section \<open>Reading the ring from the outside\<close>

definition LOGS_DEFAULT_LIMIT :: nat where
  "LOGS_DEFAULT_LIMIT = 256"

definition LOGS_MAX_LIMIT :: nat where
  "LOGS_MAX_LIMIT = 512"

definition parse_level :: "string \<Rightarrow> Level option" where
  "parse_level s = level_of_name (map to_ascii_lower s)"

definition parse_src :: "string \<Rightarrow> Src option" where
  "parse_src s = src_of_name (map to_ascii_lower s)"

record LogsQuery =
  lq_after :: u64
  lq_limit :: "nat option"
  lq_level :: "string option"
  lq_src :: "string option"

text \<open>\<open>str::split\<close> at a character; the error of a bad query is the text after the colon.\<close>

fun split_at :: "char \<Rightarrow> string \<Rightarrow> string list" where
  "split_at d [] = [[]]"
| "split_at d (c # cs) =
     (if c = d then [] # split_at d cs
      else (case split_at d cs of part # parts \<Rightarrow> (c # part) # parts | [] \<Rightarrow> [[c]]))"

fun parse_srcs :: "string list \<Rightarrow> (Src list, string) result" where
  "parse_srcs [] = Ok []"
| "parse_srcs (part # parts) =
     (case parse_src part of
        None \<Rightarrow> Err (''invalid src: '' @ part)
      | Some v \<Rightarrow> map_ok (\<lambda>vs. v # vs) (parse_srcs parts))"

definition admin_logs :: "LogsQuery \<Rightarrow> LogRing \<Rightarrow> (Record list \<times> u64, string) result" where
  "admin_logs q ring =
     (let limit = min (max (case lq_limit q of Some n \<Rightarrow> n | None \<Rightarrow> LOGS_DEFAULT_LIMIT) 1) LOGS_MAX_LIMIT
      in case (case lq_level q of
                 None \<Rightarrow> Ok None
               | Some s \<Rightarrow> (case parse_level s of Some l \<Rightarrow> Ok (Some l) | None \<Rightarrow> Err (''invalid level: '' @ s))) of
           Err e \<Rightarrow> Err e
         | Ok min_level \<Rightarrow>
             (case (case lq_src q of
                      None \<Rightarrow> Ok []
                    | Some s \<Rightarrow> if s = [] then Ok [] else parse_srcs (split_at CHR '','' s)) of
                Err e \<Rightarrow> Err e
              | Ok srcs \<Rightarrow> Ok (snapshot_after (lq_after q) limit min_level srcs ring)))"

section \<open>Retention\<close>

text \<open>
  A directory entry: its name, whether it is a regular file, its modification time when it can be
  read, and whether removing it succeeds.  Times are seconds; \<open>valid_date\<close> is the date parser.
\<close>

record log_file =
  lf_name :: string
  lf_regular :: bool
  lf_modified :: "nat option"
  lf_removable :: bool

definition strip_prefix :: "string \<Rightarrow> string \<Rightarrow> string option" where
  "strip_prefix p s = (if starts_with s p then Some (drop (length p) s) else None)"

definition strip_suffix :: "string \<Rightarrow> string \<Rightarrow> string option" where
  "strip_suffix p s =
     (if length p \<le> length s \<and> drop (length s - length p) s = p then Some (take (length s - length p) s) else None)"

definition is_rotated_log_name :: "(string \<Rightarrow> bool) \<Rightarrow> string \<Rightarrow> bool" where
  "is_rotated_log_name valid_date name =
     (case Option.bind (strip_prefix ''daemon.'' name) (strip_suffix ''.log'') of
        Some date \<Rightarrow> length date = 10 \<and> valid_date date
      | None \<Rightarrow> False)"

definition is_older_than :: "nat \<Rightarrow> nat \<Rightarrow> u32 \<Rightarrow> bool" where
  "is_older_than modified now retention_days \<longleftrightarrow>
     modified \<le> now \<and> unat retention_days * 24 * 60 * 60 \<le> now - modified"

fun sweep_loop :: "string \<Rightarrow> nat \<Rightarrow> u32 \<Rightarrow> nat \<Rightarrow> nat \<Rightarrow> log_file list \<Rightarrow> nat \<times> log_file list" where
  "sweep_loop current now retention_days excess index [] = (0, [])"
| "sweep_loop current now retention_days excess index (f # fs) =
     (let (removed, kept) = sweep_loop current now retention_days excess (index + 1) fs;
          expired = retention_days \<noteq> 0
            \<and> (case lf_modified f of Some m \<Rightarrow> is_older_than m now retention_days | None \<Rightarrow> False)
      in if lf_name f = current then (removed, f # kept)
         else if (index < excess \<or> expired) \<and> lf_removable f then (removed + 1, kept)
         else (removed, f # kept))"

text \<open>\<open>dir\<close> is \<open>None\<close> when the directory cannot be read; the result is the number of files removed
and the recognised logs left.\<close>

definition sweep_logs :: "(string \<Rightarrow> bool) \<Rightarrow> string \<Rightarrow> nat \<Rightarrow> log_file list option \<Rightarrow> u32 \<Rightarrow> u32 \<Rightarrow> nat \<times> log_file list" where
  "sweep_logs valid_date today now dir retention_days max_files =
     (let current = ''daemon.'' @ today @ ''.log''
      in case dir of
           None \<Rightarrow> (0, [])
         | Some entries \<Rightarrow>
             let files = sort_key lf_name
                   (filter (\<lambda>f. lf_regular f \<and> is_rotated_log_name valid_date (lf_name f)) entries);
                 excess = (if max_files = 0 then 0 else length files - unat max_files)
             in sweep_loop current now retention_days excess 0 files)"

section \<open>The ring as a window on the whole log\<close>

text \<open>The specification: every record ever pushed, numbered from \<open>n\<close> on.\<close>

fun stamp :: "nat \<Rightarrow> Record list \<Rightarrow> Record list" where
  "stamp n [] = []"
| "stamp n (r # rs) = r\<lparr>r_seq := of_nat n\<rparr> # stamp (n + 1) rs"

definition push_all :: "Record list \<Rightarrow> LogRing \<Rightarrow> LogRing" where
  "push_all rs ring = fold (\<lambda>r ring. snd (ring_push r ring)) rs ring"

text \<open>The ring shows the last \<open>rcapacity\<close> records of a history.\<close>

definition shows_log :: "Record list \<Rightarrow> LogRing \<Rightarrow> bool" where
  "shows_log hist ring \<longleftrightarrow> rq ring = drop (length hist - rcapacity ring) hist
     \<and> rnext_seq ring = of_nat (length hist + 1)"

lemma length_stamp [simp]: "length (stamp n rs) = length rs"
  by (induction rs arbitrary: n) simp_all

lemma stamp_append: "stamp n (rs @ ss) = stamp n rs @ stamp (n + length rs) ss"
  by (induction rs arbitrary: n) (simp_all add: ac_simps)

lemma drop_stamp: "drop k (stamp n rs) = stamp (n + k) (drop k rs)"
proof (induction rs arbitrary: n k)
  case (Cons r rs)
  then show ?case by (cases k) simp_all
qed simp

lemma evict_front_drop: "evict_front cap q = drop (length q - cap) q"
proof (induction cap q rule: evict_front.induct)
  case (1 cap q)
  show ?case
  proof (cases "cap < length q")
    case True
    then obtain k where k: "length q - cap = Suc k" by (metis zero_less_diff gr0_conv_Suc)
    with True have "length (tl q) - cap = k" by simp
    with 1 [OF True] k show ?thesis
      by (subst evict_front.simps) (simp add: True drop_Suc)
  qed (subst evict_front.simps, simp)
qed

lemma ring_push_shows:
  assumes "shows_log hist ring"
  shows "shows_log (hist @ [r\<lparr>r_seq := of_nat (length hist + 1)\<rparr>]) (snd (ring_push r ring))
    \<and> rcapacity (snd (ring_push r ring)) = rcapacity ring"
  using assms
  by (cases "length hist < rcapacity ring")
    (auto simp: shows_log_def ring_push_def evict_front_drop Let_def Suc_diff_le drop_Suc [symmetric] drop_append)

lemma push_all_simps [simp]:
  "push_all [] ring = ring"
  "push_all (r # rs) ring = push_all rs (snd (ring_push r ring))"
  by (simp_all add: push_all_def)

lemma push_all_append: "push_all (rs @ ss) ring = push_all ss (push_all rs ring)"
  by (induction rs arbitrary: ring) simp_all

lemma push_all_shows:
  "shows_log hist ring \<Longrightarrow> shows_log (hist @ stamp (length hist + 1) rs) (push_all rs ring)
     \<and> rcapacity (push_all rs ring) = rcapacity ring"
proof (induction rs arbitrary: hist ring)
  case (Cons r rs)
  from Cons.IH [OF ring_push_shows [OF Cons.prems, of r, THEN conjunct1]] ring_push_shows [OF Cons.prems, of r]
  show ?case by simp
qed simp

lemma ring_new_shows: "shows_log [] (ring_new cap)"
  by (simp add: shows_log_def ring_new_def)

text \<open>With sequence numbers below the width, a cursor cuts the history where it says.\<close>

lemma filter_stamp:
  assumes "n + length rs \<le> 2 ^ 64"
  shows "filter (\<lambda>r. after < r_seq r) (stamp n rs) = drop (unat after + 1 - n) (stamp n rs)"
  using assms
proof (induction rs arbitrary: n)
  case (Cons r rs)
  have "(after < of_nat n) = (unat after < n)"
    using Cons.prems by (simp add: word_less_nat_alt unat_of_nat take_bit_nat_eq_self)
  with Cons.IH [of "n + 1"] Cons.prems show ?case
    by (cases "unat after + 1 - n") (auto simp: Suc_diff_le)
qed simp

lemma snapshot_shows:
  assumes "shows_log (stamp 1 rs) ring" "length rs < 2 ^ 64 - 1"
  shows "snapshot_after after limit lvl srcs ring
    = (take limit (filter (passes lvl srcs) (drop (max (unat after) (length rs - rcapacity ring)) (stamp 1 rs))),
       of_nat (length rs))"
proof -
  let ?d = "length rs - rcapacity ring"
  have "rnext_seq ring = of_nat (length rs) + 1" using assms(1) by (simp add: shows_log_def)
  moreover have "(of_nat (length rs) + 1 :: u64) \<noteq> 0"
  proof -
    have "unat (of_nat (length rs + 1) :: u64) = length rs + 1"
      using assms(2) by (simp only: unat_of_nat) (simp add: take_bit_nat_eq_self)
    then show ?thesis by (metis add.commute add_is_0 of_nat_Suc one_neq_zero plus_1_eq_Suc unat_0 Suc_eq_plus1)
  qed
  moreover have "filter (\<lambda>r. after < r_seq r) (rq ring) = drop (max (unat after) ?d) (stamp 1 rs)"
    using assms filter_stamp [of "1 + ?d" "drop ?d rs" after]
    by (simp add: shows_log_def drop_stamp max_def)
  ultimately show ?thesis by (simp add: snapshot_after_def Let_def)
qed

text \<open>C35: The ring refines the unbounded log: after any number of pushes it holds exactly the last
\<open>capacity\<close> of them, numbered from one without a gap, and a read returns the oldest \<open>limit\<close> records
after the cursor that are still held and pass the filters, together with the number of the last record.\<close>

theorem ring_refines_log:
  assumes "length rs < 2 ^ 64 - 1"
  shows "rq (push_all rs (ring_new cap)) = drop (length rs - cap) (stamp 1 rs)
    \<and> path_hint (push_all rs (ring_new cap)) = min cap (length rs)
    \<and> try_tail True k (push_all rs (ring_new cap)) = Some (drop (length rs - min k cap) (stamp 1 rs))
    \<and> snapshot_after after limit lvl srcs (push_all rs (ring_new cap))
        = (take limit (filter (passes lvl srcs) (drop (max (unat after) (length rs - cap)) (stamp 1 rs))),
           of_nat (length rs))"
proof -
  let ?ring = "push_all rs (ring_new cap)"
  have s: "shows_log (stamp 1 rs) ?ring" "rcapacity ?ring = cap"
    using push_all_shows [OF ring_new_shows, of rs cap] by (simp_all add: ring_new_def)
  have q: "rq ?ring = drop (length rs - cap) (stamp 1 rs)" using s by (simp add: shows_log_def)
  then have "try_tail True k ?ring = Some (drop (length rs - min k cap) (stamp 1 rs))"
  proof -
    have "length rs - (length rs - cap) - k + (length rs - cap) = length rs - min k cap" by (cases "k \<le> cap") auto
    with q show ?thesis by (simp add: try_tail_def)
  qed
  with q snapshot_shows [OF s(1) assms] s(2) show ?thesis by (simp add: path_hint_def min_def)
qed

definition sample_record :: Record where
  "sample_record = \<lparr>r_seq = 0, r_ts = [], r_level = LWarn, r_src = SBridge, r_pid = 7, r_target = [], r_msg = [],
     r_code = None, r_kvs = []\<rparr>"

theorem ring_refines_log_witness:
  "map r_seq (rq (push_all (replicate 3 sample_record) (ring_new 2))) = [2, 3]"
  using ring_refines_log [of "replicate 3 sample_record" 2] by (simp add: numeral_3_eq_3)

text \<open>A reader that returns with the cursor it was given.\<close>

lemma matching_seqs:
  assumes "n + length rs \<le> 2 ^ 64" "r \<in> set (stamp n rs)"
  shows "n \<le> unat (r_seq r) \<and> unat (r_seq r) < n + length rs"
  using assms
proof (induction rs arbitrary: n)
  case (Cons x rs)
  have "unat (of_nat n :: u64) = n" using Cons.prems(1) by (simp add: unat_of_nat take_bit_nat_eq_self)
  with Cons.prems Cons.IH [of "n + 1"] show ?case by auto
qed simp

text \<open>Following the cursor loses nothing as long as the ring does not overflow between two reads and the
limit covers it: the two reads together return every matching record after the first cursor, in order
and once.\<close>

theorem cursor_reads_complete:
  assumes "length (rs @ ss) < 2 ^ 64 - 1" "cap \<le> limit" "length ss \<le> cap"
    and "ring1 = push_all rs (ring_new cap)" "ring2 = push_all ss ring1"
    and "(page1, next1) = snapshot_after after limit lvl srcs ring1" "unat after \<le> length rs"
    and "(page2, next2) = snapshot_after next1 limit lvl srcs ring2"
  shows "page1 @ page2 = filter (passes lvl srcs) (drop (max (unat after) (length rs - cap)) (stamp 1 (rs @ ss)))
    \<and> next2 = of_nat (length (rs @ ss))"
proof -
  have len: "length rs < 2 ^ 64 - 1" using assms(1) by simp
  have n1: "unat (of_nat (length rs) :: u64) = length rs" using len by (simp add: unat_of_nat take_bit_nat_eq_self)
  have r2: "ring2 = push_all (rs @ ss) (ring_new cap)" using assms(4,5) by (simp add: push_all_append)
  have p1: "page1 = take limit (filter (passes lvl srcs) (drop (max (unat after) (length rs - cap)) (stamp 1 rs)))"
    "next1 = of_nat (length rs)"
    using ring_refines_log [OF len, of cap undefined after limit lvl srcs] assms(4,6) by simp_all
  have p2: "page2 = take limit (filter (passes lvl srcs) (drop (length rs) (stamp 1 (rs @ ss))))"
    "next2 = of_nat (length (rs @ ss))"
    using ring_refines_log [OF assms(1), of cap undefined next1 limit lvl srcs] assms(3,8) r2 p1(2) n1
    by (simp_all add: max_absorb1)
  have l1: "length (filter (passes lvl srcs) (drop (max (unat after) (length rs - cap)) (stamp 1 rs))) \<le> limit"
    by (rule order_trans [OF length_filter_le]) (use assms(2) in simp)
  have l2: "length (filter (passes lvl srcs) (drop (length rs) (stamp 1 (rs @ ss)))) \<le> limit"
    by (rule order_trans [OF length_filter_le]) (use assms(2,3) in simp)
  have "max (unat after) (length rs - cap) \<le> length rs" using assms(7) by simp
  then show ?thesis using p1(1) p2 l1 l2 by (simp add: stamp_append)
qed

theorem cursor_reads_complete_witness:
  "snd (snapshot_after 0 2048 None [] (push_all [sample_record] (ring_new RING_CAPACITY))) = 1
   \<and> map r_seq (fst (snapshot_after 1 2048 None [] (push_all [sample_record] (push_all [sample_record]
       (ring_new RING_CAPACITY))))) = [2]"
proof -
  let ?r1 = "push_all [sample_record] (ring_new RING_CAPACITY)" and ?r2 = "push_all [sample_record] (push_all [sample_record] (ring_new RING_CAPACITY))"
  obtain p1 n1 where p1: "(p1, n1) = snapshot_after 0 2048 None [] ?r1" by (metis prod.exhaust)
  obtain p2 n2 where p2: "(p2, n2) = snapshot_after n1 2048 None [] ?r2" by (metis prod.exhaust)
  from p1 have r1: "map r_seq p1 = [1]" "n1 = 1"
    by (simp_all add: snapshot_after_def ring_push_def ring_new_def evict_front_drop RING_CAPACITY_def passes_def Let_def)
  have "map r_seq (p1 @ p2) = [1, 2]"
    using cursor_reads_complete [OF _ _ _ refl refl p1 _ p2] by (simp add: RING_CAPACITY_def passes_def)
  with r1 p1 p2 show ?thesis by (metis append_Cons append_Nil fst_conv list.inject map_append snd_conv)
qed

text \<open>With a smaller limit it does lose records: whatever matches beyond the first \<open>limit\<close> records of a
read lies at or below the cursor that read returns, so no later read from that cursor, with any
limit and after any further pushes, returns it.\<close>

theorem limited_read_skips:
  assumes "length (rs @ ss) < 2 ^ 64 - 1"
    and "r \<in> set (drop limit (filter (passes lvl srcs) (drop (max (unat after) (length rs - cap)) (stamp 1 rs))))"
  shows "unat (r_seq r) \<le> unat (snd (snapshot_after after limit lvl srcs (push_all rs (ring_new cap))))
    \<and> r \<notin> set (fst (snapshot_after (snd (snapshot_after after limit lvl srcs (push_all rs (ring_new cap))))
         limit' lvl srcs (push_all (rs @ ss) (ring_new cap))))"
proof -
  have len: "length rs < 2 ^ 64 - 1" using assms(1) by simp
  let ?next = "snd (snapshot_after after limit lvl srcs (push_all rs (ring_new cap)))"
  have n: "?next = of_nat (length rs)" using ring_refines_log [OF len] by (metis snd_conv)
  have n1: "unat (of_nat (length rs) :: u64) = length rs" using len by (simp add: unat_of_nat take_bit_nat_eq_self)
  have "r \<in> set (stamp 1 rs)" using assms(2) by (metis filter_is_subset in_set_dropD subsetD)
  with matching_seqs [of 1 rs r] len have le: "unat (r_seq r) \<le> length rs" by simp
  have "?next < r_seq x" if "x \<in> set (fst (snapshot_after ?next limit' lvl srcs (push_all (rs @ ss) (ring_new cap))))" for x
    using that unfolding snapshot_after_def Let_def fst_conv by (auto dest!: in_set_takeD)
  moreover have "\<not> ?next < r_seq r" using le n n1 by (simp add: word_less_nat_alt)
  ultimately show ?thesis using le n n1 by auto
qed

theorem limited_read_skips_witness:
  "let ring = push_all (replicate 3 sample_record) (ring_new 8); page = snapshot_after 0 2 None [] ring
   in map r_seq (fst page) = [1, 2] \<and> snd page = 3
      \<and> sample_record\<lparr>r_seq := 3\<rparr> \<notin> set (fst (snapshot_after (snd page) 9 None [] ring))"
proof -
  have "sample_record\<lparr>r_seq := 3\<rparr> \<in> set (drop 2 (filter (passes None []) (drop (max (unat 0) (3 - 8))
      (stamp 1 (replicate 3 sample_record)))))" by (simp add: numeral_3_eq_3 passes_def)
  with limited_read_skips [of "replicate 3 sample_record" "[]" "sample_record\<lparr>r_seq := 3\<rparr>" 2 None "[]" 0 8 9]
    ring_refines_log [of "replicate 3 sample_record" 8 0 0 2 None "[]"]
  show ?thesis by (simp add: numeral_3_eq_3 passes_def Let_def)
qed

section \<open>What ingestion and retention guarantee\<close>

lemma floor_boundary_greatest:
  "floor_boundary s n \<le> n \<and> is_char_boundary s (floor_boundary s n)
   \<and> (\<forall>k. floor_boundary s n < k \<and> k \<le> n \<longrightarrow> \<not> is_char_boundary s k)"
  by (induction n) (auto simp: is_char_boundary_def le_Suc_eq)

lemma truncate_length: "length (truncate_to_byte_cap n s) \<le> n"
  using floor_boundary_greatest [of s n] by (auto simp: truncate_to_byte_cap_def)

text \<open>Cutting a message to a byte cap never splits a character and cuts no more than that takes:
the result is the longest prefix within the cap that ends on a character boundary.\<close>

theorem truncate_longest_prefix:
  shows "\<exists>k. truncate_to_byte_cap n s = take k s \<and> k \<le> n \<and> k \<le> length s \<and> is_char_boundary s k
    \<and> (\<forall>m. m \<le> n \<and> m \<le> length s \<and> is_char_boundary s m \<longrightarrow> m \<le> k)"
proof (cases "length s \<le> n")
  case True
  then show ?thesis by (intro exI [of _ "length s"]) (simp add: truncate_to_byte_cap_def is_char_boundary_def)
next
  case False
  with floor_boundary_greatest [of s n] show ?thesis
    by (intro exI [of _ "floor_boundary s n"]) (auto simp: truncate_to_byte_cap_def not_less [symmetric])
qed

theorem truncate_longest_prefix_witness:
  "truncate_to_byte_cap 2 [CHR ''a'', CHR 0xC3, CHR 0xA9] = ''a''"
proof -
  obtain k where k: "truncate_to_byte_cap 2 [CHR ''a'', CHR 0xC3, CHR 0xA9] = take k [CHR ''a'', CHR 0xC3, CHR 0xA9]"
    "k \<le> 2" "is_char_boundary [CHR ''a'', CHR 0xC3, CHR 0xA9] k"
    "\<forall>m. m \<le> 2 \<and> m \<le> length [CHR ''a'', CHR 0xC3, CHR 0xA9] \<and> is_char_boundary [CHR ''a'', CHR 0xC3, CHR 0xA9] m \<longrightarrow> m \<le> k"
    using truncate_longest_prefix by blast
  have "is_char_boundary [CHR ''a'', CHR 0xC3, CHR 0xA9] 1" "\<not> is_char_boundary [CHR ''a'', CHR 0xC3, CHR 0xA9] 2"
    by (simp_all add: is_char_boundary_def byte_def)
  with k have "k = 1" by (metis le_antisym le_less_Suc_eq length_Cons less_Suc_eq_le linorder_not_le list.size(3) numeral_2_eq_2
    One_nat_def Suc_leI le_SucE le0)
  with k(1) show ?thesis by simp
qed

definition accepted :: "json list \<Rightarrow> json list" where
  "accepted entries = filter (\<lambda>e. as_object e \<noteq> None) entries"

lemma parse_external_None: "parse_external_fields render e = None \<longleftrightarrow> as_object e = None"
  by (simp add: parse_external_fields_def Let_def split: option.splits)

lemma parse_external_msg: "parse_external_fields render e = Some f \<Longrightarrow> length (x_msg f) \<le> MAX_EXTERNAL_MSG_BYTES"
  by (auto simp: parse_external_fields_def Let_def truncate_length split: option.splits)

lemma ingest_loop_result:
  assumes "\<And>ts f. length (x_msg f) \<le> MAX_EXTERNAL_MSG_BYTES \<Longrightarrow> P (to_record ts f)"
    and "ingest_loop env to_record entries n sink = (m, sink')"
  shows "m = n + length (accepted entries)
    \<and> (\<exists>recs. length recs = length (accepted entries) \<and> (\<forall>r \<in> set recs. P r)
         \<and> sink_ring sink' = push_all recs (sink_ring sink))"
  using assms(2)
proof (induction entries arbitrary: n sink)
  case Nil
  then show ?case by (auto simp: accepted_def)
next
  case (Cons e es)
  show ?case
  proof (cases "parse_external_fields (ie_render env) e")
    case None
    with Cons parse_external_None show ?thesis by (simp add: accepted_def)
  next
    case (Some f)
    let ?r = "to_record (ie_now env n) f"
    let ?sink = "snd (sink_push (ie_to_line env) (ie_writer_ok env) ?r sink)"
    from Some Cons.prems have "ingest_loop env to_record es (n + 1) ?sink = (m, sink')" by simp
    from Cons.IH [OF this] obtain recs where recs: "m = n + 1 + length (accepted es)"
      "length recs = length (accepted es)" "\<forall>r \<in> set recs. P r" "sink_ring sink' = push_all recs (sink_ring ?sink)"
      by blast
    have "sink_ring ?sink = snd (ring_push ?r (sink_ring sink))" by (simp add: sink_push_def split: prod.splits)
    with recs(4) have "sink_ring sink' = push_all (?r # recs) (sink_ring sink)" by simp
    moreover have "P ?r" using assms(1) parse_external_msg [OF Some] by blast
    moreover have "accepted (e # es) = e # accepted es" 
      using Some parse_external_None [of "ie_render env" e] by (auto simp: accepted_def)
    ultimately show ?thesis using recs by (intro conjI exI [of _ "?r # recs"]) auto
  qed
qed

text \<open>A batch from outside is bounded and cannot forge its origin: at most 256 entries are read, exactly
the objects among them become records, and every record carries the source of its channel, the
process id of the connection (zero for a proxy) and a message of at most 64 KiB.\<close>

theorem ingest_bounded_and_stamped:
  assumes "json_get key payload = Some (JArray entries)"
    and "key = ''records'' \<and> ingest_bridge_logs env pid payload sink = (n, sink') \<and> src = SBridge \<and> owner = pid
       \<or> key = ''lines'' \<and> ingest_proxy_logs env pid payload sink = (n, sink') \<and> src = SProxy \<and> owner = 0"
  shows "n = length (accepted (take 256 entries)) \<and> n \<le> 256
    \<and> (\<exists>recs. length recs = n \<and> sink_ring sink' = push_all recs (sink_ring sink)
         \<and> (\<forall>r \<in> set recs. r_src r = src \<and> r_pid r = owner \<and> length (r_msg r) \<le> 64 * 1024))"
proof -
  define to_record where "to_record = (if key = ''records'' then bridge_record pid else proxy_record pid)"
  have run: "ingest_loop env to_record (take 256 entries) 0 sink = (n, sink')"
    using assms by (auto simp: to_record_def ingest_bridge_logs_def ingest_proxy_logs_def ingest_entries_def
        MAX_EXTERNAL_BATCH_def as_array_def)
  have stamped: "length (x_msg f) \<le> MAX_EXTERNAL_MSG_BYTES \<Longrightarrow>
      r_src (to_record ts f) = src \<and> r_pid (to_record ts f) = owner \<and> length (r_msg (to_record ts f)) \<le> 64 * 1024" for ts f
    using assms(2) by (auto simp: to_record_def bridge_record_def proxy_record_def MAX_EXTERNAL_MSG_BYTES_def)
  have "length (accepted (take 256 entries)) \<le> 256"
    unfolding accepted_def by (rule order_trans [OF length_filter_le]) simp
  with ingest_loop_result [of "\<lambda>r. r_src r = src \<and> r_pid r = owner \<and> length (r_msg r) \<le> 64 * 1024", OF stamped run]
  show ?thesis by auto
qed

definition sample_sink :: LogSink where
  "sample_sink = \<lparr>sink_ring = ring_new RING_CAPACITY, sink_lines = []\<rparr>"

definition sample_ingest :: ingest_env where
  "sample_ingest = \<lparr>ie_render = (\<lambda>_. []), ie_to_line = (\<lambda>_. []), ie_writer_ok = True, ie_now = (\<lambda>_. [])\<rparr>"

theorem ingest_bounded_and_stamped_witness:
  "fst (ingest_bridge_logs sample_ingest 7 (JObject [(''records'', JArray [JObject [(''msg'', JString ''x'')], JNull])])
     sample_sink) = 1"
proof -
  let ?p = "JObject [(''records'', JArray [JObject [(''msg'', JString ''x'')], JNull])]"
  obtain n s where run: "ingest_bridge_logs sample_ingest 7 ?p sample_sink = (n, s)" by (rule prod.exhaust)
  have "json_get ''records'' ?p = Some (JArray [JObject [(''msg'', JString ''x'')], JNull])" by (simp add: json_get_def)
  from ingest_bounded_and_stamped [OF this, of sample_ingest 7 sample_sink n s SBridge 7] run
  show ?thesis by (simp add: accepted_def as_object_def)
qed

text \<open>The files of a sweep that are removed, by position.\<close>

definition sweeps :: "string \<Rightarrow> nat \<Rightarrow> u32 \<Rightarrow> bool \<Rightarrow> log_file \<Rightarrow> bool" where
  "sweeps current now days in_excess f \<longleftrightarrow> lf_name f \<noteq> current \<and> lf_removable f
     \<and> (in_excess \<or> days \<noteq> 0 \<and> (case lf_modified f of Some m \<Rightarrow> is_older_than m now days | None \<Rightarrow> False))"

lemma sweep_loop_split:
  "sweep_loop current now days excess index fs =
     (length (filter (sweeps current now days True) (take (excess - index) fs))
        + length (filter (sweeps current now days False) (drop (excess - index) fs)),
      filter (\<lambda>f. \<not> sweeps current now days True f) (take (excess - index) fs)
        @ filter (\<lambda>f. \<not> sweeps current now days False f) (drop (excess - index) fs))"
proof (induction fs arbitrary: index)
  case (Cons f fs)
  show ?case
  proof (cases "index < excess")
    case True
    then obtain k where k: "excess - index = Suc k" "excess - Suc index = k" by (metis Suc_diff_Suc)
    with Cons [of "Suc index"] True show ?thesis by (auto simp: sweeps_def Let_def split: option.splits)
  next
    case False
    with Cons [of "Suc index"] show ?thesis by (auto simp: sweeps_def Let_def split: option.splits)
  qed
qed simp

text \<open>A retention sweep removes only what it may: the log of the day stays, a file goes only when it
is older than the retention or among the oldest beyond the count, nothing else in the directory
is touched, and when removals succeed at most one file more than the count is left.\<close>

theorem sweep_removes_only_stale:
  assumes "sweep_logs valid_date today now (Some entries) days max_files = (removed, kept)"
  shows "removed + length kept = length (filter (\<lambda>f. lf_regular f \<and> is_rotated_log_name valid_date (lf_name f)) entries)
    \<and> (\<forall>f \<in> set entries. lf_regular f \<and> is_rotated_log_name valid_date (lf_name f)
         \<and> (lf_name f = ''daemon.'' @ today @ ''.log''
            \<or> max_files = 0 \<and> (days = 0 \<or> (\<exists>m. lf_modified f = Some m \<and> \<not> is_older_than m now days))) \<longrightarrow> f \<in> set kept)
    \<and> set kept \<subseteq> set entries
    \<and> ((\<forall>f \<in> set entries. lf_removable f) \<and> distinct (map lf_name entries) \<and> max_files \<noteq> 0
         \<longrightarrow> length kept \<le> unat max_files + 1)"
proof -
  define files where "files = sort_key lf_name
    (filter (\<lambda>f. lf_regular f \<and> is_rotated_log_name valid_date (lf_name f)) entries)"
  define current where "current = ''daemon.'' @ today @ ''.log''"
  define excess where "excess = (if max_files = 0 then 0 else length files - unat max_files)"
  let ?T = "take excess files" and ?D = "drop excess files"
  let ?s = "sweeps current now days"
  have "sweep_loop current now days excess 0 files = (removed, kept)"
    using assms by (simp only: sweep_logs_def files_def current_def excess_def Let_def option.case)
  then have r: "removed = length (filter (?s True) ?T) + length (filter (?s False) ?D)"
    and kp: "kept = filter (\<lambda>f. \<not> ?s True f) ?T @ filter (\<lambda>f. \<not> ?s False f) ?D"
    by (simp_all add: sweep_loop_split)
  have mem: "f \<in> set files \<longleftrightarrow> f \<in> set entries \<and> lf_regular f \<and> is_rotated_log_name valid_date (lf_name f)" for f
    by (auto simp: files_def)
  have count: "removed + length kept = length files"
    using sum_length_filter_compl [of "?s True" ?T] sum_length_filter_compl [of "?s False" ?D] r kp
    by (simp add: min_def split: if_splits)
  have keep: "f \<in> set kept" if "f \<in> set files"
    and "lf_name f = current \<or> max_files = 0 \<and> (days = 0 \<or> (\<exists>m. lf_modified f = Some m \<and> \<not> is_older_than m now days))" for f
  proof -
    have "f \<in> set ?T \<or> f \<in> set ?D" using that(1) by (metis append_take_drop_id Un_iff set_append)
    moreover have "\<not> ?s False f" using that(2) by (auto simp: sweeps_def)
    moreover have "f \<in> set ?T \<Longrightarrow> \<not> ?s True f" using that(2) by (auto simp: sweeps_def excess_def)
    ultimately show ?thesis by (auto simp: kp)
  qed
  have sub: "set kept \<subseteq> set entries" using mem by (auto simp: kp dest: in_set_takeD in_set_dropD)
  have bound: "length kept \<le> unat max_files + 1"
    if "\<forall>f \<in> set entries. lf_removable f" "distinct (map lf_name entries)" "max_files \<noteq> 0"
  proof -
    have "filter (\<lambda>f. \<not> ?s True f) ?T = filter (\<lambda>f. lf_name f = current) ?T"
      using that(1) mem by (intro filter_cong) (auto simp: sweeps_def dest!: in_set_takeD)
    moreover have "length (filter (\<lambda>f. lf_name f = current) ?T) \<le> 1"
    proof -
      have "distinct (map lf_name files)"
        using that(2) by (simp add: files_def distinct_map inj_on_def)
      then have "distinct (map lf_name ?T)" by (simp add: take_map [symmetric])
      then have "distinct (map lf_name (filter (\<lambda>f. lf_name f = current) ?T))" by (rule distinct_map_filter)
      moreover have "set (map lf_name (filter (\<lambda>f. lf_name f = current) ?T)) \<subseteq> {current}" by auto
      ultimately have "length (map lf_name (filter (\<lambda>f. lf_name f = current) ?T)) \<le> card {current}"
        by (metis card_mono distinct_card finite.emptyI finite.insertI)
      then show ?thesis by simp
    qed
    moreover have "length (filter (\<lambda>f. \<not> ?s False f) ?D) \<le> unat max_files"
      by (rule order_trans [OF length_filter_le]) (use that(3) in \<open>simp add: excess_def\<close>)
    ultimately show ?thesis by (simp add: kp)
  qed
  have "length files = length (filter (\<lambda>f. lf_regular f \<and> is_rotated_log_name valid_date (lf_name f)) entries)"
    by (simp add: files_def)
  with count keep sub bound mem show ?thesis unfolding current_def by auto
qed

definition sample_log :: "string \<Rightarrow> nat \<Rightarrow> log_file" where
  "sample_log day modified = \<lparr>lf_name = ''daemon.'' @ day @ ''.log'', lf_regular = True, lf_modified = Some modified,
     lf_removable = True\<rparr>"

theorem sweep_removes_only_stale_witness:
  "sample_log ''2026-01-02'' 9 \<in> set (snd (sweep_logs (\<lambda>_. True) ''2026-01-02'' 9
     (Some [sample_log ''2026-01-02'' 9, sample_log ''2026-01-01'' 2]) 1 1))"
proof -
  obtain n kept where run: "sweep_logs (\<lambda>_. True) ''2026-01-02'' 9
     (Some [sample_log ''2026-01-02'' 9, sample_log ''2026-01-01'' 2]) 1 1 = (n, kept)" by (rule prod.exhaust)
  have "is_rotated_log_name (\<lambda>_. True) (lf_name (sample_log ''2026-01-02'' 9))"
    by (simp add: is_rotated_log_name_def strip_prefix_def strip_suffix_def sample_log_def)
  with sweep_removes_only_stale [OF run] run show ?thesis by (simp add: sample_log_def)
qed

end
