(* ===== verification/WireSession.thy ===== *)
theory WireSession
  imports Registry Framing LogRing BridgeMethod
begin

text \<open>
  The work of one bridge session actor on its stream, \<open>crates/tdmcp-daemon/src/bridge.rs\<close>: the wait for
  the response to a request, a tool job, a heartbeat, and the budgets of both.  What one pass of the
  wait meets is a \<open>wait_event\<close>; which of several ready events \<open>select!\<close> takes is their order in the
  list.  Other tasks may change the registry during a wait.  Deserialising a payload is an argument.
\<close>

section \<open>Budgets\<close>

record BridgeSection =
  bs_call_timeout_secs :: u64
  bs_script_timeout_secs :: u64
  bs_heartbeat_interval_secs :: u64
  bs_pong_timeout_secs :: u64
  bs_idle_dead_secs :: u64

record HeartbeatConfig =
  hb_enabled :: bool
  hb_interval_secs :: u64
  hb_pong_timeout_secs :: u64
  hb_idle_dead_secs :: u64

definition heartbeat_from :: "BridgeSection \<Rightarrow> HeartbeatConfig" where
  "heartbeat_from b = \<lparr>hb_enabled = True, hb_interval_secs = bs_heartbeat_interval_secs b,
     hb_pong_timeout_secs = bs_pong_timeout_secs b, hb_idle_dead_secs = bs_idle_dead_secs b\<rparr>"

record BridgeTimeouts =
  bt_call :: u64
  bt_script :: u64

definition timeouts_from :: "BridgeSection \<Rightarrow> BridgeTimeouts" where
  "timeouts_from b = \<lparr>bt_call = bs_call_timeout_secs b, bt_script = bs_script_timeout_secs b\<rparr>"

definition for_method :: "BridgeTimeouts \<Rightarrow> string \<Rightarrow> u64" where
  "for_method t m =
     (case from_wire m of
        Some ExecutePython \<Rightarrow> bt_script t
      | Some MutateNodes \<Rightarrow> bt_script t
      | Some PaletteProbe \<Rightarrow> bt_script t
      | _ \<Rightarrow> bt_call t)"

definition effective_timeouts :: "BridgeSection option \<Rightarrow> BridgeTimeouts \<Rightarrow> BridgeTimeouts" where
  "effective_timeouts settings t = (case settings of Some b \<Rightarrow> timeouts_from b | None \<Rightarrow> t)"

definition idle_dead_secs :: "HeartbeatConfig \<Rightarrow> u64" where
  "idle_dead_secs h = max (hb_idle_dead_secs h) 1"

definition max_call_wait_secs :: "BridgeSection option \<Rightarrow> BridgeTimeouts \<Rightarrow> u64" where
  "max_call_wait_secs settings t =
     (let e = effective_timeouts settings t in max (max (bt_call e) (bt_script e)) 1)"

section \<open>Waiting for a response\<close>

datatype wait_event =
    WCancelled
  | WExpired
  | WFailed
  | WMessage datetime "json Message"
  | WOthers "PidRegistry \<Rightarrow> PidRegistry"

datatype RecvOutcome = Matched "json option" "json option" | TimedOut | RecvDisconnected

record wire_env =
  we_debug :: "string option \<Rightarrow> string"
  we_ready :: "json \<Rightarrow> BridgeReadyEvent option"
  we_heartbeat :: "json \<Rightarrow> BridgeHeartbeatObservation option"
  we_ingest :: ingest_env

text \<open>What a session works on: the shared registry and, if one is wired, the log sink.\<close>

type_synonym session_io = "PidRegistry \<times> LogSink option"

definition handle_event :: "wire_env \<Rightarrow> u32 \<Rightarrow> u64 \<Rightarrow> datetime \<Rightarrow> string \<Rightarrow> json \<Rightarrow> session_io \<Rightarrow> session_io" where
  "handle_event env pid g at name payload io =
     (if name = ''log'' then
        (fst io, map_option (\<lambda>sink. snd (ingest_bridge_logs (we_ingest env) pid payload sink)) (snd io))
      else if name = ''bridge_ready'' then
        (case we_ready env payload of
           Some rdy \<Rightarrow> (snd (observe_bridge_ready (we_debug env) pid g rdy at (fst io)), snd io)
         | None \<Rightarrow> io)
      else io)"

text \<open>The result is \<open>None\<close> while the wait goes on; the events not consumed are returned.\<close>

fun await_matching_response :: "wire_env \<Rightarrow> u32 \<Rightarrow> u64 \<Rightarrow> string \<Rightarrow> wait_event list \<Rightarrow> session_io
    \<Rightarrow> RecvOutcome option \<times> wait_event list \<times> session_io" where
  "await_matching_response env pid g want_id [] io = (None, [], io)"
| "await_matching_response env pid g want_id (WCancelled # es) io = (Some RecvDisconnected, es, io)"
| "await_matching_response env pid g want_id (WExpired # es) io = (Some TimedOut, es, io)"
| "await_matching_response env pid g want_id (WFailed # es) io = (Some RecvDisconnected, es, io)"
| "await_matching_response env pid g want_id (WOthers f # es) io =
     await_matching_response env pid g want_id es (f (fst io), snd io)"
| "await_matching_response env pid g want_id (WMessage at message # es) io =
     (let io = (snd (observe_bridge_ipc pid g at (fst io)), snd io)
      in case message of
           Response rid result error \<Rightarrow>
             if rid = want_id then (Some (Matched result error), es, io)
             else await_matching_response env pid g want_id es io
         | Event name payload \<Rightarrow>
             await_matching_response env pid g want_id es (handle_event env pid g at name payload io)
         | Request _ _ _ \<Rightarrow> (Some RecvDisconnected, es, io))"

section \<open>A tool job\<close>

datatype JobLoop = JobContinue | JobDisconnect

type_synonym reply = "(json, BridgeRpcError) result"

definition is_bridge_error :: "json \<Rightarrow> bool" where
  "is_bridge_error value = (case Option.bind (json_get ''ok'' value) as_bool of Some ok \<Rightarrow> \<not> ok | None \<Rightarrow> False)"

definition job_params :: "u64 \<Rightarrow> json \<Rightarrow> json" where
  "job_params budget params =
     (case params of
        JObject m \<Rightarrow> JObject (AList.update ''_tdmcp_wait_secs'' (JNumber (PosInt (saturating_add budget 60))) m)
      | _ \<Rightarrow> params)"

definition job_request :: "string \<Rightarrow> string \<Rightarrow> u64 \<Rightarrow> json \<Rightarrow> json Message" where
  "job_request i meth budget params = Request i meth (job_params budget params)"

definition response_reply :: "json option \<Rightarrow> json option \<Rightarrow> reply" where
  "response_reply result error =
     (case error of
        Some err \<Rightarrow> Err (BridgeReturned
          (case Option.bind (json_get ''message'' err) as_str of Some s \<Rightarrow> s | None \<Rightarrow> ''bridge returned an error'')
          (Option.bind (json_get ''code'' err) as_str))
      | None \<Rightarrow> Ok (case result of Some v \<Rightarrow> v | None \<Rightarrow> JNull))"

definition reply_success :: "reply \<Rightarrow> bool" where
  "reply_success rp = (case rp of Ok v \<Rightarrow> \<not> is_bridge_error v | _ \<Rightarrow> False)"

definition complete_job :: "u32 \<Rightarrow> reply \<Rightarrow> session_io \<Rightarrow> session_io" where
  "complete_job pid rp io =
     (snd (complete_task pid (if reply_success rp then Success else Failed) (fst io)), snd io)"

text \<open>
  \<open>budget\<close> is in seconds.  The reply goes to the caller's channel; \<open>None\<close> while the job still waits.
\<close>

definition run_tool_job :: "wire_env \<Rightarrow> u32 \<Rightarrow> u64 \<Rightarrow> BridgeTimeouts \<Rightarrow> string \<Rightarrow> string \<Rightarrow> json \<Rightarrow> bool
    \<Rightarrow> wait_event list \<Rightarrow> session_io \<Rightarrow> (JobLoop \<times> reply) option \<times> json Message \<times> wait_event list \<times> session_io" where
  "run_tool_job env pid g timeouts i meth params send_ok es io =
     (let io = (snd (start_next pid (fst io)), snd io);
          budget = for_method timeouts meth;
          req = job_request i meth budget params
      in if \<not> send_ok then (Some (JobDisconnect, Err (BrDisconnected pid)), req, es, io)
         else (case await_matching_response env pid g i es io of
             (None, es, io) \<Rightarrow> (None, req, es, io)
           | (Some RecvDisconnected, es, io) \<Rightarrow> (Some (JobDisconnect, Err (BrDisconnected pid)), req, es, io)
           | (Some TimedOut, es, io) \<Rightarrow>
               let rp = Err (BrTimeout pid (word_of_nat (unat budget * 1000)))
               in (Some (JobContinue, rp), req, es, complete_job pid rp io)
           | (Some (Matched result error), es, io) \<Rightarrow>
               let rp = response_reply result error
               in (Some (JobContinue, rp), req, es, complete_job pid rp io)))"

section \<open>A heartbeat\<close>

definition heartbeat_request :: "string \<Rightarrow> json Message" where
  "heartbeat_request i = Request i (wire_str Ping) (JObject [(''_tdmcp_heartbeat'', JBool True)])"

definition observe_pong :: "wire_env \<Rightarrow> u32 \<Rightarrow> u64 \<Rightarrow> datetime \<Rightarrow> json option \<Rightarrow> session_io \<Rightarrow> session_io" where
  "observe_pong env pid g now result io =
     (case Option.bind (Option.bind result (json_get ''bridge'')) (we_heartbeat env) of
        Some observation \<Rightarrow> (snd (observe_bridge_heartbeat pid g observation now (fst io)), snd io)
      | None \<Rightarrow> io)"

text \<open>\<open>Some True\<close> keeps the session, \<open>Some False\<close> ends it.\<close>

definition run_heartbeat_ping :: "wire_env \<Rightarrow> u32 \<Rightarrow> u64 \<Rightarrow> string \<Rightarrow> bool \<Rightarrow> datetime \<Rightarrow> wait_event list \<Rightarrow> session_io
    \<Rightarrow> bool option \<times> wait_event list \<times> session_io" where
  "run_heartbeat_ping env pid g i send_ok now es io =
     (if \<not> send_ok then (Some False, es, io)
      else (case await_matching_response env pid g i es io of
          (None, es, io) \<Rightarrow> (None, es, io)
        | (Some (Matched result None), es, io) \<Rightarrow>
            let ok = (case Option.bind (Option.bind result (json_get ''ok'')) as_bool of Some b \<Rightarrow> b | None \<Rightarrow> True)
            in (Some ok, es, observe_pong env pid g now result io)
        | (Some _, es, io) \<Rightarrow> (Some False, es, io)))"

section \<open>What the wait guarantees\<close>

text \<open>Events that leave the wait waiting: late answers to other requests, events, other tasks.\<close>

fun skips :: "string \<Rightarrow> wait_event \<Rightarrow> bool" where
  "skips want (WMessage at (Response rid result error)) = (rid \<noteq> want)"
| "skips want (WMessage at (Event name payload)) = True"
| "skips want (WMessage at (Request i m p)) = False"
| "skips want (WOthers f) = True"
| "skips want _ = False"

lemma await_skips:
  "\<forall>ev \<in> set pre. skips want ev \<Longrightarrow>
     \<exists>io'. \<forall>es. await_matching_response env pid g want (pre @ es) io = await_matching_response env pid g want es io'"
proof (induction pre arbitrary: io)
  case Nil
  show ?case by (rule exI [of _ io]) simp
next
  case (Cons ev pre)
  from Cons.prems have "skips want ev" "\<forall>ev \<in> set pre. skips want ev" by simp_all
  then show ?case
  proof (cases ev)
    case (WMessage at msg)
    with Cons.prems Cons.IH show ?thesis by (cases msg) (simp_all add: Let_def)
  qed (use Cons in simp_all)
qed

lemma await_outcome:
  "fst (await_matching_response env pid g want es io) = Some out \<Longrightarrow>
     \<exists>pre ev rest. es = pre @ ev # rest \<and> (\<forall>x \<in> set pre. skips want x) \<and> \<not> skips want ev
       \<and> fst (snd (await_matching_response env pid g want es io)) = rest
       \<and> out = (case ev of WMessage at (Response rid r e) \<Rightarrow> Matched r e | WExpired \<Rightarrow> TimedOut | _ \<Rightarrow> RecvDisconnected)"
proof (induction es arbitrary: io)
  case (Cons ev es)
  show ?case
  proof (cases "skips want ev")
    case False
    with Cons.prems have "fst (snd (await_matching_response env pid g want (ev # es) io)) = es
       \<and> out = (case ev of WMessage at (Response rid r e) \<Rightarrow> Matched r e | WExpired \<Rightarrow> TimedOut | _ \<Rightarrow> RecvDisconnected)"
      by (cases ev rule: wait_event.exhaust; cases "case ev of WMessage at m \<Rightarrow> m | _ \<Rightarrow> Event [] JNull")
        (auto simp: Let_def)
    with False show ?thesis by (intro exI [of _ "[]"] exI [of _ ev] exI [of _ es]) simp
  next
    case True
    from await_skips [of "[ev]" want env pid g io] True obtain io' where
      io': "await_matching_response env pid g want (ev # es) io = await_matching_response env pid g want es io'" by auto
    with Cons.IH [of io'] Cons.prems obtain pre x rest where "es = pre @ x # rest" "\<forall>x \<in> set pre. skips want x"
      "\<not> skips want x" "fst (snd (await_matching_response env pid g want es io')) = rest"
      "out = (case x of WMessage at (Response rid r e) \<Rightarrow> Matched r e | WExpired \<Rightarrow> TimedOut | _ \<Rightarrow> RecvDisconnected)"
      by auto
    with True io' show ?thesis by (intro exI [of _ "ev # pre"] exI [of _ x] exI [of _ rest]) simp
  qed
qed simp

text \<open>A wait without other tasks changes no queue, no status and no cancelled stack.\<close>

definition same_tasks :: "PidRegistry \<Rightarrow> PidRegistry \<Rightarrow> bool" where
  "same_tasks r r' \<longleftrightarrow> (\<forall>p. map_option (\<lambda>e. (e_bridge e, e_queue e, e_resurrection e)) (reg_get r' p)
     = map_option (\<lambda>e. (e_bridge e, e_queue e, e_resurrection e)) (reg_get r p))"

lemma same_tasks_refl [simp]: "same_tasks r r"
  by (simp add: same_tasks_def)

lemma same_tasks_trans: "same_tasks r s \<Longrightarrow> same_tasks s t \<Longrightarrow> same_tasks r t"
  by (simp add: same_tasks_def)

lemma same_tasks_put:
  "reg_get r p = Some e \<Longrightarrow> same_tasks r (put_entry p (e\<lparr>e_identity := i\<rparr>) r)"
  by (simp add: same_tasks_def)

lemma connected_generation_get: "connected_generation_mut p g r = Ok e \<Longrightarrow> reg_get r p = Some e"
  by (auto simp: connected_generation_mut_def split: option.splits if_splits)

lemma same_tasks_ipc: "same_tasks r (snd (observe_bridge_ipc p g at r))"
  using same_tasks_put connected_generation_get by (simp add: observe_bridge_ipc_def split: result.splits)

lemma same_tasks_ready: "same_tasks r (snd (observe_bridge_ready debug p g rdy at r))"
  using same_tasks_put connected_generation_get by (simp add: observe_bridge_ready_def split: result.splits)

lemma same_tasks_heartbeat: "same_tasks r (snd (observe_bridge_heartbeat p g hb at r))"
  using same_tasks_put connected_generation_get
  by (simp add: observe_bridge_heartbeat_def Let_def split: result.splits option.splits)

lemmas same_tasks_observe = same_tasks_ipc same_tasks_ready same_tasks_heartbeat

lemma same_tasks_event: "same_tasks (fst io) (fst (handle_event env pid g at name payload io))"
  by (auto simp: handle_event_def same_tasks_observe split: option.splits)

definition alone :: "wait_event list \<Rightarrow> bool" where
  "alone es \<longleftrightarrow> (\<forall>ev \<in> set es. case ev of WOthers _ \<Rightarrow> False | _ \<Rightarrow> True)"

lemma same_tasks_await:
  "alone es \<Longrightarrow> same_tasks (fst io) (fst (snd (snd (await_matching_response env pid g want es io))))"
proof (induction es arbitrary: io)
  case (Cons ev es)
  then have al: "alone es" by (simp add: alone_def)
  show ?case
  proof (cases ev)
    case (WMessage at msg)
    let ?io = "(snd (observe_bridge_ipc pid g at (fst io)), snd io)"
    have ipc: "same_tasks (fst io) (fst ?io)" by (simp add: same_tasks_observe)
    show ?thesis
    proof (cases msg)
      case (Request a b c)
      with WMessage ipc show ?thesis by (simp add: Let_def)
    next
      case (Response a b c)
      with WMessage ipc Cons.IH [OF al, of ?io] show ?thesis
        by (auto simp: Let_def intro: same_tasks_trans)
    next
      case (Event a b)
      have "same_tasks (fst ?io) (fst (handle_event env pid g at a b ?io))" by (rule same_tasks_event)
      with ipc Cons.IH [OF al, of "handle_event env pid g at a b ?io"] Event WMessage show ?thesis
        by (auto simp: Let_def intro: same_tasks_trans)
    qed
  qed (use Cons.prems in \<open>simp_all add: alone_def\<close>)
qed simp

text \<open>A reply is never the answer to another request: the wait ends with a match exactly when the next
frame that is neither an event nor a late response is the response with the request's id, and every
frame before it was passed over; it ends as timed out or disconnected on what comes first
otherwise.\<close>

theorem await_correlates:
  "(\<exists>io'. await_matching_response env pid g want es io = (Some (Matched result error), rest, io'))
   \<longleftrightarrow> (\<exists>pre at. es = pre @ WMessage at (Response want result error) # rest \<and> (\<forall>ev \<in> set pre. skips want ev))"
proof
  assume "\<exists>io'. await_matching_response env pid g want es io = (Some (Matched result error), rest, io')"
  then obtain io' where run: "await_matching_response env pid g want es io = (Some (Matched result error), rest, io')" ..
  obtain pre ev where ev: "es = pre @ ev # rest" "\<forall>x \<in> set pre. skips want x" "\<not> skips want ev"
    "Matched result error = (case ev of WMessage at (Response rid r e) \<Rightarrow> Matched r e | WExpired \<Rightarrow> TimedOut | _ \<Rightarrow> RecvDisconnected)"
    using await_outcome [of env pid g want es io "Matched result error"] run by auto
  then obtain at rid where "ev = WMessage at (Response rid result error)"
    by (auto split: wait_event.splits Message.splits)
  with ev show "\<exists>pre at. es = pre @ WMessage at (Response want result error) # rest \<and> (\<forall>ev \<in> set pre. skips want ev)"
    by auto
next
  assume "\<exists>pre at. es = pre @ WMessage at (Response want result error) # rest \<and> (\<forall>ev \<in> set pre. skips want ev)"
  then obtain pre at where es: "es = pre @ WMessage at (Response want result error) # rest" "\<forall>ev \<in> set pre. skips want ev"
    by blast
  from await_skips [OF es(2), of env pid g io] obtain io' where
    "await_matching_response env pid g want es io
       = await_matching_response env pid g want (WMessage at (Response want result error) # rest) io'"
    using es(1) by auto
  then show "\<exists>io'. await_matching_response env pid g want es io = (Some (Matched result error), rest, io')"
    by (simp add: Let_def)
qed

definition sample_env_wire :: wire_env where
  "sample_env_wire = \<lparr>we_debug = (\<lambda>_. []), we_ready = (\<lambda>_. None), we_heartbeat = (\<lambda>_. None), we_ingest = sample_ingest\<rparr>"

theorem await_correlates_witness:
  "\<exists>io'. await_matching_response sample_env_wire 7 1 ''2'' [WMessage 5 (Response ''1'' (Some JNull) None),
      WMessage 6 (Event ''log'' JNull), WMessage 7 (Response ''2'' None None), WFailed] (registry_new, None)
    = (Some (Matched None None), [WFailed], io')"
  unfolding await_correlates
  by (rule exI [of _ "[WMessage 5 (Response ''1'' (Some JNull) None), WMessage 6 (Event ''log'' JNull)]"]) simp


definition queued_row :: PidEntry where
  "queued_row = (handshake_row 7 sample_attrs (Some ''2'') 5 1 registry_new)
     \<lparr>e_queue := \<lparr>pending = [\<lparr>task_name = ''Inspect'', exclusive = True\<rparr>], in_flight = None\<rparr>\<rparr>"


text \<open>A heartbeat ends the session unless a sound pong arrives, and never touches the tasks.\<close>

lemma heartbeat_outcome:
  assumes "run_heartbeat_ping env pid g i send_ok now es io = (out, rest, io')" "alone es"
  shows "same_tasks (fst io) (fst io')
    \<and> (out = Some True \<longrightarrow> send_ok \<and> (\<exists>at result. WMessage at (Response i result None) \<in> set es
         \<and> Option.bind (Option.bind result (json_get ''ok'')) as_bool \<noteq> Some False))"
proof (cases send_ok)
  case True
  obtain o' rest2 io2 where aw: "await_matching_response env pid g i es io = (o', rest2, io2)" by (metis prod.exhaust)
  have st: "same_tasks (fst io) (fst io2)" using same_tasks_await [OF assms(2), of io env pid g i] aw by simp
  have pong: "same_tasks (fst io2) (fst (observe_pong env pid g now result io2))" for result
    by (simp add: observe_pong_def same_tasks_heartbeat split: option.splits)
  show ?thesis
  proof (cases "\<exists>result. o' = Some (Matched result None)")
    case False
    with True assms(1) aw st show ?thesis
      by (auto simp: run_heartbeat_ping_def split: option.splits RecvOutcome.splits)
  next
    case True
    then obtain result where r: "o' = Some (Matched result None)" ..
    with \<open>send_ok\<close> assms(1) aw have e: "io' = observe_pong env pid g now result io2"
      "out = Some (case Option.bind (Option.bind result (json_get ''ok'')) as_bool of Some b \<Rightarrow> b | None \<Rightarrow> True)"
      by (auto simp: run_heartbeat_ping_def Let_def)
    have "\<exists>at. WMessage at (Response i result None) \<in> set es"
      using await_correlates [of env pid g i es io result None rest2] aw r by auto
    moreover have "out = Some True \<Longrightarrow> Option.bind (Option.bind result (json_get ''ok'')) as_bool \<noteq> Some False"
      using e(2) by (auto simp: fun_eq_iff)
    moreover have "same_tasks (fst io) (fst io')" using e(1) st pong same_tasks_trans by blast
    ultimately show ?thesis using \<open>send_ok\<close> by blast
  qed
qed (use assms in \<open>auto simp: run_heartbeat_ping_def\<close>)

section \<open>The actor's loop\<close>

text \<open>
  What \<open>select!\<close> of one iteration takes, with what the arm meets.  Instants are nanoseconds; the
  durations of the configuration are seconds.
\<close>

datatype session_event =
    SeCancelled
  | SeJobsClosed
  | SeJob (sj_settings: "BridgeSection option") (sj_id: string) (sj_method: string) (sj_params: json)
      (sj_send_ok: bool) (sj_wait: "wait_event list") (sj_after: nat)
  | SeIdle nat
  | SeTick (st_now: nat) (st_id: string) (st_send_ok: bool) (st_wall: datetime) (st_wait: "wait_event list")
      (st_after: nat)

datatype session_end = Ended | Busy_waiting | Looping nat

definition secs :: "u64 \<Rightarrow> nat" where
  "secs n = unat n * 1000000000"

fun run_session :: "wire_env \<Rightarrow> u32 \<Rightarrow> u64 \<Rightarrow> HeartbeatConfig \<Rightarrow> BridgeTimeouts \<Rightarrow> nat \<Rightarrow> session_event list
    \<Rightarrow> session_io \<Rightarrow> session_end \<times> session_io" where
  "run_session env pid g hb timeouts active [] io = (Looping active, io)"
| "run_session env pid g hb timeouts active (SeCancelled # es) io = (Ended, io)"
| "run_session env pid g hb timeouts active (SeJobsClosed # es) io = (Ended, io)"
| "run_session env pid g hb timeouts active (SeJob settings i meth params send_ok ws after # es) io =
     (case run_tool_job env pid g (effective_timeouts settings timeouts) i meth params send_ok ws io of
        (None, _, _, io) \<Rightarrow> (Busy_waiting, io)
      | (Some (JobContinue, _), _, _, io) \<Rightarrow> run_session env pid g hb timeouts after es io
      | (Some (JobDisconnect, _), _, _, io) \<Rightarrow> (Ended, io))"
| "run_session env pid g hb timeouts active (SeIdle now # es) io =
     (if hb_enabled hb \<and> secs (hb_idle_dead_secs hb) \<le> now - active then (Ended, io)
      else run_session env pid g hb timeouts active es io)"
| "run_session env pid g hb timeouts active (SeTick now i send_ok wall ws after # es) io =
     (if \<not> hb_enabled hb \<or> now - active < secs (hb_interval_secs hb) then
        run_session env pid g hb timeouts active es io
      else (case run_heartbeat_ping env pid g i send_ok wall ws io of
          (None, _, io) \<Rightarrow> (Busy_waiting, io)
        | (Some True, _, io) \<Rightarrow> run_session env pid g hb timeouts after es io
        | (Some False, _, io) \<Rightarrow> (Ended, io)))"

text \<open>
  A job whose wait timed out refreshes the activity, so the idle check after it counts from its end and
  a budget longer than the idle limit does not cost the session.
\<close>

lemma timed_out_job_keeps_session:
  assumes "send_ok" "fst (await_matching_response env pid g i ws (snd (start_next pid (fst io)), snd io)) = Some TimedOut"
    and "now - after < secs (hb_idle_dead_secs hb)"
  shows "fst (run_session env pid g hb timeouts active (SeJob settings i meth params send_ok ws after # [SeIdle now]) io)
    = Looping after"
  using assms by (auto simp: run_tool_job_def Let_def split: prod.splits)

text \<open>A session that is sent no request, is not cancelled and whose checks find recent activity goes on.\<close>

lemma quiet_session_loops:
  "\<forall>e \<in> set es. \<exists>now. e = SeIdle now \<and> now - active < secs (hb_idle_dead_secs hb) \<Longrightarrow>
     run_session env pid g hb timeouts active es io = (Looping active, io)"
  by (induction es) (auto simp: not_le)

end
