(* ===== verification/BridgeSessions.thy ===== *)
theory BridgeSessions
  imports WireSession
begin

text \<open>
  The map of bridge sessions and the life of their actors, \<open>crates/tdmcp-daemon/src/bridge.rs\<close>, over the
  shared registry.  Every section of code that runs under one lock is one step: the handshake of an
  accepted connection, the spawn of its actor, what an actor or another task does to the registry, and
  the two halves of a teardown, between which the code holds no lock.
\<close>

section \<open>Sessions\<close>

record BridgeHandle =
  bh_generation :: u64

type_synonym sessions_map = "(u32 \<times> BridgeHandle) list"

text \<open>\<open>BridgeSessions::connected_count\<close>, and the answer of \<open>call\<close> when no job can be handed over.\<close>

definition connected_count :: "sessions_map \<Rightarrow> nat" where
  "connected_count m = length m"

definition call_target :: "u32 \<Rightarrow> sessions_map \<Rightarrow> PidRegistry \<Rightarrow> (BridgeHandle, BridgeRpcError) result" where
  "call_target pid m reg =
     (case map_of m pid of
        Some handle \<Rightarrow> Ok handle
      | None \<Rightarrow> if reg_get reg pid \<noteq> None then Err (NotConnected pid) else Err (BrUnknown pid))"

text \<open>An actor's inbox may be closed, its answer channel dropped, or it answers.\<close>

datatype inbox = InboxClosed | AnswerDropped | Answers reply

definition bridge_call :: "u32 \<Rightarrow> sessions_map \<Rightarrow> PidRegistry \<Rightarrow> (BridgeHandle \<Rightarrow> inbox) \<Rightarrow> reply" where
  "bridge_call pid m reg actor =
     (case call_target pid m reg of
        Err e \<Rightarrow> Err e
      | Ok handle \<Rightarrow>
          (case actor handle of
             InboxClosed \<Rightarrow> Err (BrDisconnected pid)
           | AnswerDropped \<Rightarrow> Err (BrDisconnected pid)
           | Answers rp \<Rightarrow> rp))"

text \<open>Inserting the handle of a new actor; the replaced handle's token is cancelled.\<close>

definition spawn_handle :: "u32 \<Rightarrow> u64 \<Rightarrow> sessions_map \<Rightarrow> BridgeHandle option \<times> sessions_map" where
  "spawn_handle pid generation m = (map_of m pid, AList.update pid \<lparr>bh_generation = generation\<rparr> m)"

definition teardown_sessions :: "u32 \<Rightarrow> u64 \<Rightarrow> sessions_map \<Rightarrow> bool \<times> sessions_map" where
  "teardown_sessions pid generation m =
     (case map_of m pid of
        Some handle \<Rightarrow> if bh_generation handle = generation then (False, AList.delete pid m) else (True, m)
      | None \<Rightarrow> (True, m))"

definition teardown_registry :: "bool \<Rightarrow> u32 \<Rightarrow> datetime \<Rightarrow> PidRegistry \<Rightarrow> PidRegistry" where
  "teardown_registry superseded pid now reg =
     (if superseded then snd (cancel_queue_keep_connected pid reg) else on_bridge_lost pid now reg)"

section \<open>Runs of the daemon\<close>

datatype phase = Running | Leaving bool

record actor =
  a_pid :: u32
  a_generation :: u64
  a_connection :: u64
  a_phase :: phase

record daemon =
  d_registry :: PidRegistry
  d_sessions :: sessions_map
  d_next_generation :: u64
  d_accepted :: "(u32 \<times> u64) list"
  d_actors :: "actor list"
  d_cancelled :: "u64 set"
  d_evictions :: "u32 list"

definition daemon_init :: "daemon \<Rightarrow> bool" where
  "daemon_init d \<longleftrightarrow> d = \<lparr>d_registry = registry_new, d_sessions = [], d_next_generation = 1, d_accepted = [],
     d_actors = [], d_cancelled = {}, d_evictions = []\<rparr>"

definition is_connected :: "PidRegistry \<Rightarrow> u32 \<Rightarrow> bool" where
  "is_connected r p \<longleftrightarrow> (\<exists>e. reg_get r p = Some e \<and> e_bridge e = Connected)"

text \<open>
  \<open>other\<close> stands for every registry operation but the handshake: reads, observations, queue operations,
  starting rows, exits.  \<open>SESSION_GENERATION\<close> does not wrap in the runs considered.
\<close>

inductive daemon_step :: "daemon \<Rightarrow> daemon \<Rightarrow> bool" where
  accept: "handshake p process version now (d_registry d) = (g, r) \<Longrightarrow>
     daemon_step d (d\<lparr>d_registry := r, d_accepted := d_accepted d @ [(p, g)]\<rparr>)"
| spawn: "(p, g) \<in> set (d_accepted d) \<Longrightarrow> d_next_generation d \<noteq> - 1 \<Longrightarrow>
     spawn_handle p (d_next_generation d) (d_sessions d) = (previous, m) \<Longrightarrow>
     daemon_step d (d\<lparr>d_accepted := remove1 (p, g) (d_accepted d), d_sessions := m,
       d_next_generation := d_next_generation d + 1,
       d_actors := d_actors d @ [\<lparr>a_pid = p, a_generation = d_next_generation d, a_connection = g, a_phase = Running\<rparr>],
       d_cancelled := d_cancelled d \<union> (case previous of Some h \<Rightarrow> {bh_generation h} | None \<Rightarrow> {})\<rparr>)"
| other: "(\<And>p. is_connected r p \<Longrightarrow> is_connected (d_registry d) p) \<Longrightarrow> reg_step (d_registry d) r \<Longrightarrow>
     daemon_step d (d\<lparr>d_registry := r\<rparr>)"
| leave: "d_actors d = as @ a # bs \<Longrightarrow> a_phase a = Running \<Longrightarrow>
     teardown_sessions (a_pid a) (a_generation a) (d_sessions d) = (superseded, m) \<Longrightarrow>
     daemon_step d (d\<lparr>d_sessions := m, d_actors := as @ a\<lparr>a_phase := Leaving superseded\<rparr> # bs\<rparr>)"
| finish: "d_actors d = as @ a # bs \<Longrightarrow> a_phase a = Leaving superseded \<Longrightarrow>
     teardown_registry superseded (a_pid a) now (d_registry d) = r \<Longrightarrow>
     daemon_step d (d\<lparr>d_registry := r, d_actors := as @ bs,
       d_evictions := (if superseded then d_evictions d else d_evictions d @ [a_pid a])\<rparr>)"
| evict: "p \<in> set (d_evictions d) \<Longrightarrow> evict_if_disconnected p (d_registry d) = (b, r) \<Longrightarrow>
     daemon_step d (d\<lparr>d_registry := r, d_evictions := remove1 p (d_evictions d)\<rparr>)"

text \<open>The actor whose handle is in the map.\<close>

definition current :: "daemon \<Rightarrow> u32 \<Rightarrow> u64 \<Rightarrow> bool" where
  "current d p g \<longleftrightarrow> map_of (d_sessions d) p = Some \<lparr>bh_generation = g\<rparr>"

definition answerable :: "daemon \<Rightarrow> u32 \<Rightarrow> bool" where
  "answerable d p \<longleftrightarrow> p \<in> fst ` set (d_accepted d) \<or> (\<exists>g. current d p g)
     \<or> (\<exists>a \<in> set (d_actors d). a_pid a = p \<and> a_phase a = Leaving False)"

definition daemon_inv :: "daemon \<Rightarrow> bool" where
  "daemon_inv d \<longleftrightarrow>
     reg_inv (d_registry d)
     \<and> distinct (map fst (d_sessions d))
     \<and> distinct (map a_generation (d_actors d))
     \<and> (\<forall>a \<in> set (d_actors d). a_generation a < d_next_generation d)
     \<and> (\<forall>g \<in> d_cancelled d. g < d_next_generation d)
     \<and> (\<forall>p g. current d p g \<longrightarrow> g \<notin> d_cancelled d
          \<and> (\<exists>a \<in> set (d_actors d). a_pid a = p \<and> a_generation a = g \<and> a_phase a = Running))
     \<and> (\<forall>a \<in> set (d_actors d). a_phase a = Running \<longrightarrow> current d (a_pid a) (a_generation a) \<or> a_generation a \<in> d_cancelled d)
     \<and> (\<forall>p. is_connected (d_registry d) p \<longrightarrow> answerable d p)"

section \<open>Invariants\<close>

lemma handshake_connected:
  "keys_distinct r \<Longrightarrow> handshake p process version now r = (g, r') \<Longrightarrow> is_connected r' q \<Longrightarrow> q = p \<or> is_connected r q"
  by (auto simp: is_connected_def handshake_get split: if_splits option.splits)

lemma evict_connected: "evict_if_disconnected p r = (b, r') \<Longrightarrow> is_connected r' q \<Longrightarrow> is_connected r q"
  by (auto simp: is_connected_def evict_if_disconnected_def split: option.splits if_splits)

lemma teardown_connected:
  "is_connected (teardown_registry superseded p now r) q \<Longrightarrow> is_connected r q \<and> (superseded \<or> q \<noteq> p)"
  by (auto simp: teardown_registry_def is_connected_def cancel_queue_keep_connected_def on_bridge_lost_def
      split: option.splits prod.splits if_splits)

lemma teardown_reg_inv: "reg_inv r \<Longrightarrow> reg_inv (teardown_registry superseded p now r)"
  using reg_inv_cancel_queue [OF _ prod.collapse [symmetric]] reg_inv_lost by (simp add: teardown_registry_def)

lemma daemon_invD:
  assumes "daemon_inv d"
  shows "reg_inv (d_registry d)" "keys_distinct (d_registry d)" "distinct (map fst (d_sessions d))"
    "distinct (map a_generation (d_actors d))"
    "a \<in> set (d_actors d) \<Longrightarrow> a_generation a < d_next_generation d"
    "g \<in> d_cancelled d \<Longrightarrow> g < d_next_generation d"
    "current d p g \<Longrightarrow> g \<notin> d_cancelled d"
    "current d p g \<Longrightarrow> \<exists>a \<in> set (d_actors d). a_pid a = p \<and> a_generation a = g \<and> a_phase a = Running"
    "a \<in> set (d_actors d) \<Longrightarrow> a_phase a = Running \<Longrightarrow> current d (a_pid a) (a_generation a) \<or> a_generation a \<in> d_cancelled d"
    "is_connected (d_registry d) p \<Longrightarrow> answerable d p"
  using assms unfolding daemon_inv_def reg_inv_def by blast+

lemma current_frame [simp]:
  "current (d\<lparr>d_registry := r\<rparr>) p g = current d p g" "current (d\<lparr>d_evictions := ev\<rparr>) p g = current d p g"
  "current (d\<lparr>d_accepted := ac\<rparr>) p g = current d p g" "current (d\<lparr>d_actors := as\<rparr>) p g = current d p g"
  by (simp_all add: current_def)

lemma answerable_frame [simp]:
  "answerable (d\<lparr>d_registry := r\<rparr>) p = answerable d p" "answerable (d\<lparr>d_evictions := ev\<rparr>) p = answerable d p"
  by (simp_all add: answerable_def)

text \<open>Steps that change only the registry.\<close>

lemma daemon_inv_registry:
  assumes "daemon_inv d" "reg_inv r" "\<And>p. is_connected r p \<Longrightarrow> is_connected (d_registry d) p"
  shows "daemon_inv (d\<lparr>d_registry := r, d_evictions := ev\<rparr>)" "daemon_inv (d\<lparr>d_registry := r\<rparr>)"
  using assms unfolding daemon_inv_def by simp_all

lemma daemon_inv_accept:
  assumes "daemon_inv d" "handshake p process version now (d_registry d) = (g, r)"
  shows "daemon_inv (d\<lparr>d_registry := r, d_accepted := d_accepted d @ [(p, g)]\<rparr>)"
proof -
  have "is_connected r q \<Longrightarrow> q = p \<or> answerable d q" for q
    using handshake_connected [OF daemon_invD(2) [OF assms(1)] assms(2)] daemon_invD(10) [OF assms(1)] by blast
  moreover have "reg_inv r" by (rule reg_inv_handshake [OF daemon_invD(1) [OF assms(1)] assms(2)])
  ultimately show ?thesis using assms(1) unfolding daemon_inv_def by (auto simp: answerable_def)
qed

lemma next_generation_fresh:
  assumes "daemon_inv d"
  shows "d_next_generation d \<notin> d_cancelled d" "d_next_generation d \<notin> a_generation ` set (d_actors d)"
    "\<not> current d p (d_next_generation d)"
  using daemon_invD(5,6,8) [OF assms] by fastforce+

lemma daemon_inv_spawn:
  assumes inv: "daemon_inv d" and p: "(p, g) \<in> set (d_accepted d)" and nw: "d_next_generation d \<noteq> - 1"
    and sp: "spawn_handle p (d_next_generation d) (d_sessions d) = (previous, m)"
    and d': "d' = d\<lparr>d_accepted := remove1 (p, g) (d_accepted d), d_sessions := m,
       d_next_generation := d_next_generation d + 1,
       d_actors := d_actors d @ [\<lparr>a_pid = p, a_generation = d_next_generation d, a_connection = g, a_phase = Running\<rparr>],
       d_cancelled := d_cancelled d \<union> (case previous of Some h \<Rightarrow> {bh_generation h} | None \<Rightarrow> {})\<rparr>"
  shows "daemon_inv d'"
proof -
  let ?n = "d_next_generation d"
  have lt: "?n < ?n + 1" "\<And>x. x < ?n \<Longrightarrow> x < ?n + 1" using u64_less_plus_one [OF nw] by blast+
  have prev: "previous = map_of (d_sessions d) p" and m: "m = AList.update p \<lparr>bh_generation = ?n\<rparr> (d_sessions d)"
    using sp by (simp_all add: spawn_handle_def)
  have cur: "current d' q h \<longleftrightarrow> (if q = p then h = ?n else current d q h)" for q h
    by (auto simp: d' m current_def)
  have canc: "d_cancelled d' = d_cancelled d \<union> {h. current d p h}"
  proof -
    have "(case previous of Some h \<Rightarrow> {bh_generation h} | None \<Rightarrow> {}) = {h. current d p h}"
      by (auto simp: prev current_def split: option.splits)
    then show ?thesis by (simp add: d')
  qed
  note inv' = daemon_invD [OF inv]
  have own: "current d q h \<Longrightarrow> h < ?n" for q h using inv'(5,8) by blast
  have "distinct (map fst m)" using inv'(3) by (simp add: m distinct_update)
  moreover have "distinct (map a_generation (d_actors d'))"
    using inv'(4) next_generation_fresh(2) [OF inv] by (auto simp: d')
  moreover have "\<forall>a \<in> set (d_actors d'). a_generation a < d_next_generation d'"
    using inv'(5) lt by (auto simp: d')
  moreover have "\<forall>h \<in> d_cancelled d'. h < d_next_generation d'"
    using inv'(6) own lt(2) by (auto simp: canc) (auto simp: d')
  moreover have "\<forall>q h. current d' q h \<longrightarrow> h \<notin> d_cancelled d'
      \<and> (\<exists>a \<in> set (d_actors d'). a_pid a = q \<and> a_generation a = h \<and> a_phase a = Running)"
  proof (intro allI impI)
    fix q h assume c: "current d' q h"
    show "h \<notin> d_cancelled d' \<and> (\<exists>a \<in> set (d_actors d'). a_pid a = q \<and> a_generation a = h \<and> a_phase a = Running)"
    proof (cases "q = p")
      case True
      with c cur have h: "h = ?n" by simp
      have "?n \<notin> d_cancelled d'" using next_generation_fresh [OF inv] by (simp add: canc)
      then show ?thesis using True h by (simp add: d')
    next
      case False
      with c cur have cq: "current d q h" by simp
      obtain a where a: "a \<in> set (d_actors d)" "a_pid a = q" "a_generation a = h" "a_phase a = Running"
        using inv'(8) [OF cq] by blast
      have "\<not> current d p h"
      proof
        assume "current d p h"
        from inv'(8) [OF this] obtain b where b: "b \<in> set (d_actors d)" "a_pid b = p" "a_generation b = h" by blast
        from a b inv'(4) have "a = b" by (auto simp: distinct_map inj_on_def)
        with a b False show False by simp
      qed
      then have "h \<notin> d_cancelled d'" using inv'(7) [OF cq] by (simp add: canc)
      with a show ?thesis by (auto simp: d')
    qed
  qed
  moreover have "\<forall>a \<in> set (d_actors d'). a_phase a = Running \<longrightarrow>
      current d' (a_pid a) (a_generation a) \<or> a_generation a \<in> d_cancelled d'"
  proof (intro ballI impI)
    fix x assume x: "x \<in> set (d_actors d')" "a_phase x = Running"
    then consider "a_pid x = p" "a_generation x = ?n" | "x \<in> set (d_actors d)" by (auto simp: d')
    then show "current d' (a_pid x) (a_generation x) \<or> a_generation x \<in> d_cancelled d'"
    proof (cases)
      case 2
      with inv'(9) [OF 2 x(2)] show ?thesis by (cases "a_pid x = p") (auto simp: cur canc)
    qed (simp add: cur)
  qed
  moreover have "\<forall>q. is_connected (d_registry d') q \<longrightarrow> answerable d' q"
  proof (intro allI impI)
    fix q assume "is_connected (d_registry d') q"
    then have "answerable d q" using inv'(10) by (simp add: d')
    then show "answerable d' q"
      unfolding answerable_def cur by (cases "q = p") (auto simp: d' image_iff in_set_remove1)
  qed
  ultimately show ?thesis using inv'(1) by (simp add: daemon_inv_def d')
qed

lemma daemon_inv_leave:
  assumes inv: "daemon_inv d" and as: "d_actors d = as @ a # bs" and run: "a_phase a = Running"
    and td: "teardown_sessions (a_pid a) (a_generation a) (d_sessions d) = (superseded, m)"
    and d': "d' = d\<lparr>d_sessions := m, d_actors := as @ a\<lparr>a_phase := Leaving superseded\<rparr> # bs\<rparr>"
  shows "daemon_inv d'"
proof -
  note inv' = daemon_invD [OF inv]
  have a: "a \<in> set (d_actors d)" by (simp add: as)
  have sup: "superseded \<longleftrightarrow> \<not> current d (a_pid a) (a_generation a)"
    and m: "m = (if superseded then d_sessions d else AList.delete (a_pid a) (d_sessions d))"
    using td by (auto simp: teardown_sessions_def current_def split: option.splits if_splits)
  have cur: "current d' q h \<longleftrightarrow> current d q h \<and> (superseded \<or> q \<noteq> a_pid a)" for q h
    by (auto simp: d' m current_def)
  have other: "x \<in> set (d_actors d') \<longleftrightarrow> x = a\<lparr>a_phase := Leaving superseded\<rparr> \<or> (x \<in> set (d_actors d) \<and> x \<noteq> a)" for x
  proof -
    have "a \<notin> set as \<union> set bs" using inv'(4) as by (auto simp: image_iff)
    then show ?thesis by (auto simp: d' as)
  qed
  have same: "map a_generation (d_actors d') = map a_generation (d_actors d)" by (simp add: d' as)
  then have gens: "\<forall>x \<in> set (d_actors d'). a_generation x < d_next_generation d"
    using inv'(5) by (metis (no_types, lifting) image_iff list.set_map)
  have uniq: "x \<in> set (d_actors d) \<Longrightarrow> a_generation x = a_generation a \<Longrightarrow> x = a" for x
    using inv'(4) a by (auto simp: distinct_map inj_on_def)
  have "\<forall>q h. current d' q h \<longrightarrow> h \<notin> d_cancelled d'
      \<and> (\<exists>x \<in> set (d_actors d'). a_pid x = q \<and> a_generation x = h \<and> a_phase x = Running)"
  proof (intro allI impI)
    fix q h assume c: "current d' q h"
    then have cq: "current d q h" by (simp add: cur)
    obtain x where x: "x \<in> set (d_actors d)" "a_pid x = q" "a_generation x = h" "a_phase x = Running"
      using inv'(8) [OF cq] by blast
    have "x \<noteq> a" using c x sup by (auto simp: cur)
    with x have "x \<in> set (d_actors d')" by (simp add: other)
    with x inv'(7) [OF cq] show "h \<notin> d_cancelled d'
      \<and> (\<exists>x \<in> set (d_actors d'). a_pid x = q \<and> a_generation x = h \<and> a_phase x = Running)" by (auto simp: d')
  qed
  moreover have "\<forall>x \<in> set (d_actors d'). a_phase x = Running \<longrightarrow>
      current d' (a_pid x) (a_generation x) \<or> a_generation x \<in> d_cancelled d'"
  proof (intro ballI impI)
    fix x assume x: "x \<in> set (d_actors d')" "a_phase x = Running"
    have "x \<noteq> a\<lparr>a_phase := Leaving superseded\<rparr>"
    proof
      assume "x = a\<lparr>a_phase := Leaving superseded\<rparr>"
      then have "a_phase x = Leaving superseded" by simp
      with x(2) show False by simp
    qed
    with x(1) other have xd: "x \<in> set (d_actors d)" "x \<noteq> a" by blast+
    have "current d (a_pid x) (a_generation x) \<Longrightarrow> superseded \<or> a_pid x \<noteq> a_pid a"
      using uniq [OF xd(1)] xd(2) sup by (auto simp: current_def)
    with inv'(9) [OF xd(1) x(2)] show "current d' (a_pid x) (a_generation x) \<or> a_generation x \<in> d_cancelled d'"
      by (auto simp: cur) (simp_all add: d')
  qed
  moreover have "\<forall>q. is_connected (d_registry d') q \<longrightarrow> answerable d' q"
  proof (intro allI impI)
    fix q assume "is_connected (d_registry d') q"
    then have "answerable d q" using inv'(10) by (simp add: d')
    then consider "q \<in> fst ` set (d_accepted d)" | h where "current d q h"
      | x where "x \<in> set (d_actors d)" "a_pid x = q" "a_phase x = Leaving False" by (auto simp: answerable_def)
    then show "answerable d' q"
    proof (cases)
      case 1
      then show ?thesis by (simp add: answerable_def d')
    next
      case (2 h)
      show ?thesis
      proof (cases "superseded \<or> q \<noteq> a_pid a")
        case True
        with 2 show ?thesis by (auto simp: answerable_def cur)
      next
        case False
        then have "a\<lparr>a_phase := Leaving False\<rparr> \<in> set (d_actors d')" by (simp add: other)
        with False show ?thesis unfolding answerable_def by force
      qed
    next
      case (3 x)
      with run have "x \<in> set (d_actors d')" by (auto simp: other)
      with 3 show ?thesis by (auto simp: answerable_def)
    qed
  qed
  moreover have "distinct (map fst m)" using inv'(3) by (simp add: m distinct_delete)
  ultimately show ?thesis
    using inv'(1,4,6) gens same unfolding daemon_inv_def by (simp add: d')
qed

lemma daemon_inv_finish:
  assumes inv: "daemon_inv d" and as: "d_actors d = as @ a # bs" and ph: "a_phase a = Leaving superseded"
    and td: "teardown_registry superseded (a_pid a) now (d_registry d) = r"
    and d': "d' = d\<lparr>d_registry := r, d_actors := as @ bs, d_evictions := ev\<rparr>"
  shows "daemon_inv d'"
proof -
  note inv' = daemon_invD [OF inv]
  have cur: "current d' q h \<longleftrightarrow> current d q h" for q h by (simp add: d' current_def)
  have a: "a \<notin> set as \<union> set bs" using inv'(4) as by (auto simp: image_iff)
  have other: "x \<in> set (d_actors d') \<longleftrightarrow> x \<in> set (d_actors d) \<and> x \<noteq> a" for x using a by (auto simp: d' as)
  have "\<forall>q h. current d' q h \<longrightarrow> h \<notin> d_cancelled d'
      \<and> (\<exists>x \<in> set (d_actors d'). a_pid x = q \<and> a_generation x = h \<and> a_phase x = Running)"
  proof (intro allI impI)
    fix q h assume "current d' q h"
    then have cq: "current d q h" by (simp add: cur)
    obtain x where x: "x \<in> set (d_actors d)" "a_pid x = q" "a_generation x = h" "a_phase x = Running"
      using inv'(8) [OF cq] by blast
    with ph have "x \<noteq> a" by auto
    with x other inv'(7) [OF cq] show "h \<notin> d_cancelled d'
      \<and> (\<exists>x \<in> set (d_actors d'). a_pid x = q \<and> a_generation x = h \<and> a_phase x = Running)"
      by (auto simp: d')
  qed
  moreover have "\<forall>x \<in> set (d_actors d'). a_phase x = Running \<longrightarrow>
      current d' (a_pid x) (a_generation x) \<or> a_generation x \<in> d_cancelled d'"
    using inv'(9) other cur by (simp add: d')
  moreover have "\<forall>q. is_connected (d_registry d') q \<longrightarrow> answerable d' q"
  proof (intro allI impI)
    fix q assume "is_connected (d_registry d') q"
    then have c: "is_connected (d_registry d) q" "superseded \<or> q \<noteq> a_pid a"
      using teardown_connected [of superseded "a_pid a" now "d_registry d" q] td by (simp_all add: d')
    from inv'(10) [OF c(1)] consider "q \<in> fst ` set (d_accepted d)" | h where "current d q h"
      | x where "x \<in> set (d_actors d)" "a_pid x = q" "a_phase x = Leaving False" by (auto simp: answerable_def)
    then show "answerable d' q"
    proof (cases)
      case 1
      then show ?thesis by (simp add: answerable_def d')
    next
      case (2 h)
      with cur show ?thesis by (auto simp: answerable_def)
    next
      case (3 x)
      with c(2) ph have "x \<noteq> a" by auto
      with 3 other show ?thesis by (auto simp: answerable_def)
    qed
  qed
  moreover have "reg_inv r" using td teardown_reg_inv [OF inv'(1)] by blast
  moreover have "distinct (map a_generation (d_actors d'))" using inv'(4) by (auto simp: d' as)
  ultimately show ?thesis
    using inv'(3,5,6) other unfolding daemon_inv_def by (simp add: d')
qed

interpretation bridge_sessions: transition_system daemon_init daemon_step daemon_inv
proof
  fix d assume "daemon_init d"
  then show "daemon_inv d"
    by (simp add: daemon_init_def daemon_inv_def current_def reg_inv_new is_connected_def)
       (simp add: registry_new_def reg_get_def)
next
  fix d d' assume inv: "daemon_inv d" and step: "daemon_step d d'"
  from step show "daemon_inv d'"
  proof (cases rule: daemon_step.cases)
    case (accept p process version now g r)
    with daemon_inv_accept [OF inv] show ?thesis by simp
  next
    case (spawn p g previous m)
    from daemon_inv_spawn [OF inv spawn(2,3,4) spawn(1)] show ?thesis .
  next
    case (other r)
    with daemon_inv_registry(2) [OF inv] reg_step_inv daemon_invD(1) [OF inv] show ?thesis by blast
  next
    case (leave as a bs superseded m)
    from daemon_inv_leave [OF inv leave(2,3,4) leave(1)] show ?thesis .
  next
    case (finish as a bs superseded now r)
    from daemon_inv_finish [OF inv finish(2,3,4) finish(1)] show ?thesis .
  next
    case (evict p b r)
    have "reg_inv r" by (rule reg_inv_evict_if [OF daemon_invD(1) [OF inv] evict(3)])
    with daemon_inv_registry(1) [OF inv] evict_connected [OF evict(3)] evict(1) show ?thesis by simp
  qed
qed

section \<open>Properties\<close>

definition owner_actor :: "daemon \<Rightarrow> actor \<Rightarrow> bool" where
  "owner_actor d a \<longleftrightarrow> a \<in> set (d_actors d) \<and> a_phase a = Running \<and> a_generation a \<notin> d_cancelled d"

lemma owner_actor_current:
  assumes "daemon_inv d"
  shows "owner_actor d a \<Longrightarrow> current d (a_pid a) (a_generation a)"
    "current d p g \<Longrightarrow> \<exists>a. owner_actor d a \<and> a_pid a = p \<and> a_generation a = g"
  using daemon_invD(7,8,9) [OF assms] unfolding owner_actor_def by blast+

text \<open>A run: a process connects, its session ends but has not yet marked the row, and it reconnects.\<close>

definition sample_reg :: "nat \<Rightarrow> PidRegistry" where
  "sample_reg n = ((\<lambda>r. snd (handshake 7 sample_attrs (Some ''2'') 5 r)) ^^ n) registry_new"

abbreviation sample_actor :: "u64 \<Rightarrow> phase \<Rightarrow> actor" where
  "sample_actor g ph \<equiv> \<lparr>a_pid = 7, a_generation = g, a_connection = next_generation (sample_reg (unat g - 1)), a_phase = ph\<rparr>"

definition sample_daemon1 :: daemon where
  "sample_daemon1 = \<lparr>d_registry = sample_reg 1, d_sessions = [(7, \<lparr>bh_generation = 1\<rparr>)], d_next_generation = 2,
     d_accepted = [], d_actors = [sample_actor 1 Running], d_cancelled = {}, d_evictions = []\<rparr>"

definition sample_daemon2 :: daemon where
  "sample_daemon2 = \<lparr>d_registry = sample_reg 2, d_sessions = [(7, \<lparr>bh_generation = 2\<rparr>)], d_next_generation = 3,
     d_accepted = [], d_actors = [sample_actor 1 (Leaving False), sample_actor 2 Running], d_cancelled = {},
     d_evictions = []\<rparr>"

lemma sample_handshake:
  "handshake 7 sample_attrs (Some ''2'') 5 (sample_reg n) = (next_generation (sample_reg n), sample_reg (Suc n))"
proof -
  obtain g r where h: "handshake 7 sample_attrs (Some ''2'') 5 (sample_reg n) = (g, r)" by (rule prod.exhaust)
  with handshake_result(1) [OF h] show ?thesis by (simp add: sample_reg_def)
qed

lemma sample_daemon1_reachable: "reachable daemon_init daemon_step sample_daemon1"
proof -
  let ?d0 = "\<lparr>d_registry = registry_new, d_sessions = [], d_next_generation = 1, d_accepted = [],
     d_actors = [], d_cancelled = {}, d_evictions = []\<rparr>"
  let ?g = "next_generation (sample_reg 0)"
  let ?d1 = "?d0\<lparr>d_registry := sample_reg 1, d_accepted := [(7, ?g)]\<rparr>"
  have 0: "reachable daemon_init daemon_step ?d0" by (rule reach_init) (simp add: daemon_init_def)
  have "daemon_step ?d0 ?d1"
    using daemon_step.accept [of 7 sample_attrs "Some ''2''" 5 ?d0 ?g "sample_reg 1"] sample_handshake [of 0]
    by (simp add: sample_reg_def)
  with 0 have 1: "reachable daemon_init daemon_step ?d1" by (rule reach_step)
  have "daemon_step ?d1 sample_daemon1"
    using daemon_step.spawn [of 7 ?g ?d1 None "[(7, \<lparr>bh_generation = 1\<rparr>)]"]
    by (simp add: spawn_handle_def sample_daemon1_def)
  with 1 show ?thesis by (rule reach_step)
qed

lemma sample_daemon2_reachable: "reachable daemon_init daemon_step sample_daemon2"
proof -
  let ?d2 = "sample_daemon1\<lparr>d_sessions := [], d_actors := [sample_actor 1 (Leaving False)]\<rparr>"
  let ?g = "next_generation (sample_reg 1)"
  let ?d3 = "?d2\<lparr>d_registry := sample_reg 2, d_accepted := [(7, ?g)]\<rparr>"
  have "daemon_step sample_daemon1 ?d2"
    using daemon_step.leave [of sample_daemon1 "[]" "sample_actor 1 Running" "[]" False "[]"]
    by (simp add: sample_daemon1_def teardown_sessions_def)
  with sample_daemon1_reachable have 2: "reachable daemon_init daemon_step ?d2" by (rule reach_step)
  have "daemon_step ?d2 ?d3"
    using daemon_step.accept [of 7 sample_attrs "Some ''2''" 5 ?d2 ?g "sample_reg 2"] sample_handshake [of 1]
    by (simp add: sample_daemon1_def numeral_2_eq_2)
  with 2 have 3: "reachable daemon_init daemon_step ?d3" by (rule reach_step)
  have "daemon_step ?d3 sample_daemon2"
    using daemon_step.spawn [of 7 ?g ?d3 None "[(7, \<lparr>bh_generation = 2\<rparr>)]"]
    by (simp add: spawn_handle_def sample_daemon1_def sample_daemon2_def)
  with 3 show ?thesis by (rule reach_step)
qed

lemma sample_connected: "is_connected (sample_reg (Suc n)) 7"
proof -
  have "keys_distinct (sample_reg n)"
    by (induction n) (simp_all add: sample_reg_def keys_distinct_def registry_new_def
        handshake_keys [OF _ prod.collapse [symmetric], unfolded keys_distinct_def])
  from handshake_get [OF this sample_handshake, of 7] show ?thesis by (auto simp: is_connected_def)
qed

text \<open>C20: However connections come and go for a process, at most one of its session actors still owns it:
the others have been cancelled or have left.  The owner is the actor calls are handed to, it is
never cancelled, and the number of live sessions is the number of owners.\<close>

theorem one_owner_per_process:
  assumes "reachable daemon_init daemon_step d"
  shows "(\<forall>a b. owner_actor d a \<longrightarrow> owner_actor d b \<longrightarrow> a_pid a = a_pid b \<longrightarrow> a = b)
    \<and> (call_target p (d_sessions d) (d_registry d) = Ok \<lparr>bh_generation = g\<rparr> \<longleftrightarrow>
         (\<exists>a. owner_actor d a \<and> a_pid a = p \<and> a_generation a = g))
    \<and> connected_count (d_sessions d)
        = length (filter (\<lambda>a. a_phase a = Running \<and> a_generation a \<notin> d_cancelled d) (d_actors d))"
proof -
  have inv: "daemon_inv d" using assms by (rule bridge_sessions.reachable_inv)
  note own = owner_actor_current [OF inv]
  let ?O = "filter (\<lambda>a. a_phase a = Running \<and> a_generation a \<notin> d_cancelled d) (d_actors d)"
  have gens: "a \<in> set (d_actors d) \<Longrightarrow> b \<in> set (d_actors d) \<Longrightarrow> a_generation a = a_generation b \<Longrightarrow> a = b" for a b
    using daemon_invD(4) [OF inv] by (auto simp: distinct_map inj_on_def)
  have uniq: "owner_actor d a \<Longrightarrow> owner_actor d b \<Longrightarrow> a_pid a = a_pid b \<Longrightarrow> a = b" for a b
    using own(1) [of a] own(1) [of b] gens by (auto simp: current_def owner_actor_def)
  have O: "a \<in> set ?O \<longleftrightarrow> owner_actor d a" for a by (auto simp: owner_actor_def)
  have "distinct (map a_pid ?O)"
  proof -
    have "distinct ?O" using daemon_invD(4) [OF inv] by (simp add: distinct_map)
    then show ?thesis using uniq O by (auto simp: distinct_map inj_on_def)
  qed
  moreover have "set (map a_pid ?O) = set (map fst (d_sessions d))"
  proof (intro equalityI subsetI)
    fix q assume "q \<in> set (map a_pid ?O)"
    then obtain a where "owner_actor d a" "q = a_pid a" using O by auto
    then show "q \<in> set (map fst (d_sessions d))"
      using own(1) [of a] by (simp add: current_def) (metis domI dom_map_of_conv_image_fst)
  next
    fix q assume "q \<in> set (map fst (d_sessions d))"
    then obtain h where "map_of (d_sessions d) q = Some h" by (metis list.set_map map_of_eq_None_iff not_None_eq)
    then have "current d q (bh_generation h)" by (simp add: current_def)
    from own(2) [OF this] obtain a where a: "owner_actor d a" "a_pid a = q" by blast
    then have "a \<in> set ?O" using O by blast
    with a(2) show "q \<in> set (map a_pid ?O)" unfolding set_map by blast
  qed
  ultimately have "length ?O = length (d_sessions d)"
    using daemon_invD(3) [OF inv] distinct_card [of "map a_pid ?O"] distinct_card [of "map fst (d_sessions d)"]
    by (simp only: length_map)
  moreover have "call_target p (d_sessions d) (d_registry d) = Ok \<lparr>bh_generation = g\<rparr> \<longleftrightarrow> current d p g"
    by (auto simp: call_target_def current_def split: option.splits if_splits)
  ultimately show ?thesis using uniq own by (auto simp: connected_count_def)
qed

theorem one_owner_per_process_witness:
  "call_target 7 (d_sessions sample_daemon2) (d_registry sample_daemon2) = Ok \<lparr>bh_generation = 2\<rparr>
   \<and> connected_count (d_sessions sample_daemon2) = 1"
proof -
  note owner = one_owner_per_process [OF sample_daemon2_reachable, of 7 2]
  have "owner_actor sample_daemon2 (sample_actor 2 Running)" by (simp add: owner_actor_def sample_daemon2_def)
  then have "\<exists>a. owner_actor sample_daemon2 a \<and> a_pid a = 7 \<and> a_generation a = 2"
    by (intro exI [of _ "sample_actor 2 Running"]) simp
  with owner [THEN conjunct2, THEN conjunct1] show ?thesis
    using owner [THEN conjunct2, THEN conjunct2] by (simp add: sample_daemon2_def)
qed

text \<open>C21: No process stays connected without anybody to answer for it: a connected row has a connection
just accepted, a session in the map, or a session leaving that will mark it disconnected.\<close>

theorem connected_process_answerable:
  assumes "reachable daemon_init daemon_step d" "reg_get (d_registry d) p = Some row" "e_bridge row = Connected"
  shows "(\<exists>g. (p, g) \<in> set (d_accepted d)) \<or> (\<exists>handle. map_of (d_sessions d) p = Some handle)
    \<or> (\<exists>a \<in> set (d_actors d). a_pid a = p \<and> a_phase a = Leaving False)"
proof -
  have "daemon_inv d" using assms(1) by (rule bridge_sessions.reachable_inv)
  moreover have "is_connected (d_registry d) p" using assms(2,3) by (auto simp: is_connected_def)
  ultimately have "answerable d p" by (rule daemon_invD(10))
  then show ?thesis by (auto simp: answerable_def current_def)
qed

theorem connected_process_answerable_witness:
  "\<exists>handle. map_of (d_sessions sample_daemon1) 7 = Some handle"
proof -
  obtain row where "reg_get (d_registry sample_daemon1) 7 = Some row" "e_bridge row = Connected"
    using sample_connected [of 0] by (auto simp: is_connected_def sample_daemon1_def)
  from connected_process_answerable [OF sample_daemon1_reachable this] show ?thesis
    by (simp add: sample_daemon1_def)
qed

text \<open>C22: The converse fails in one interleaving.  A session that ended on its own gives up the map before it
marks the row; if the process reconnects in between, the mark falls on the new connection: its actor
stays the owner and keeps running, while the row is disconnected with an empty queue and every
call that needs a feature is refused.\<close>

theorem late_teardown_disconnects_successor:
  assumes "reachable daemon_init daemon_step d" "d_actors d = as @ a # bs" "a_phase a = Leaving False"
    and "owner_actor d b" "a_pid b = a_pid a"
  shows "\<exists>d'. daemon_step d d' \<and> owner_actor d' b \<and> \<not> is_connected (d_registry d') (a_pid a)
    \<and> (\<forall>row. reg_get (d_registry d') (a_pid a) = Some row \<longrightarrow> snapshot (e_queue row) = [])
    \<and> (\<forall>features. require_bridge_features (a_pid a) (a_connection b) features (d_registry d') \<noteq> Ok ())"
proof -
  let ?r = "teardown_registry False (a_pid a) 0 (d_registry d)"
  let ?d' = "d\<lparr>d_registry := ?r, d_actors := as @ bs, d_evictions := d_evictions d @ [a_pid a]\<rparr>"
  have "daemon_step d ?d'" using daemon_step.finish [OF assms(2,3) refl, of 0] by simp
  moreover have "b \<noteq> a" using assms(3,4) by (auto simp: owner_actor_def)
  then have "owner_actor ?d' b" using assms(2,4) by (auto simp: owner_actor_def)
  moreover have dis: "\<not> is_connected ?r (a_pid a)" using teardown_connected [of False "a_pid a" 0] by blast
  moreover have "reg_get ?r (a_pid a) = Some row \<Longrightarrow> snapshot (e_queue row) = []" for row
  proof -
    assume row: "reg_get ?r (a_pid a) = Some row"
    have "reg_inv ?r"
      using teardown_reg_inv daemon_invD(1) bridge_sessions.reachable_inv [OF assms(1)] by blast
    with row dis reg_inv_entry [of ?r "a_pid a" row] show ?thesis by (auto simp: entry_ok_def is_connected_def)
  qed
  moreover have "require_bridge_features (a_pid a) (a_connection b) features ?r \<noteq> Ok ()" for features
    using dis by (auto simp: require_bridge_features_def is_connected_def split: option.splits)
  ultimately show ?thesis by (intro exI [of _ ?d']) simp
qed

theorem late_teardown_disconnects_successor_witness:
  "is_connected (d_registry sample_daemon2) 7 \<and> (\<exists>d'. daemon_step sample_daemon2 d'
     \<and> owner_actor d' (sample_actor 2 Running) \<and> \<not> is_connected (d_registry d') 7)"
proof -
  have as: "d_actors sample_daemon2 = [] @ sample_actor 1 (Leaving False) # [sample_actor 2 Running]"
    by (simp add: sample_daemon2_def)
  have own: "owner_actor sample_daemon2 (sample_actor 2 Running)" by (simp add: owner_actor_def sample_daemon2_def)
  from late_teardown_disconnects_successor [OF sample_daemon2_reachable as _ own] obtain d' where
    "daemon_step sample_daemon2 d'" "owner_actor d' (sample_actor 2 Running)" "\<not> is_connected (d_registry d') 7"
    by auto
  moreover have "is_connected (d_registry sample_daemon2) 7"
    using sample_connected [of 1] by (simp add: sample_daemon2_def numeral_2_eq_2)
  ultimately show ?thesis by blast
qed

end
