(* ===== verification/Utf8.thy ===== *)
theory Utf8
  imports Receipts
begin

text \<open>
  UTF-8 validation.  \<open>from_utf8\<close> is \<open>std::str::from_utf8\<close> with the two facts of its error that
  the code reads, \<open>valid_up_to\<close> and \<open>error_len\<close>; the streaming \<open>Utf8Validator\<close> and the loop
  that cuts a page back to a code-point boundary are those of
  \<open>crates/tdmcp-daemon/src/evidence_store.rs\<close>.  The validator accepts a sequence of chunks
  exactly when their concatenation is valid, and a cut page loses at most three bytes.
\<close>

section \<open>One character\<close>

definition cont :: "char \<Rightarrow> bool" where
  "cont c \<longleftrightarrow> 128 \<le> byte c \<and> byte c \<le> 191"

text \<open>What stands at the head of a nonempty byte sequence: a character of the given width, an
  invalid sequence of the given length, or a proper prefix of a character.\<close>

datatype head_kind = Width nat | Invalid nat | Truncated

definition second_ok3 :: "nat \<Rightarrow> char \<Rightarrow> bool" where
  "second_ok3 b d \<longleftrightarrow>
     (if b = 224 then 160 \<le> byte d \<and> byte d \<le> 191
      else if b = 237 then 128 \<le> byte d \<and> byte d \<le> 159 else cont d)"

definition second_ok4 :: "nat \<Rightarrow> char \<Rightarrow> bool" where
  "second_ok4 b d \<longleftrightarrow>
     (if b = 240 then 144 \<le> byte d \<and> byte d \<le> 191
      else if b = 244 then 128 \<le> byte d \<and> byte d \<le> 143 else cont d)"

fun utf8_head :: "string \<Rightarrow> head_kind" where
  "utf8_head [] = Truncated"
| "utf8_head (c # cs) =
     (let b = byte c in
      if b < 128 then Width 1
      else if 194 \<le> b \<and> b \<le> 223 then
        (case cs of [] \<Rightarrow> Truncated | d # _ \<Rightarrow> if cont d then Width 2 else Invalid 1)
      else if 224 \<le> b \<and> b \<le> 239 then
        (case cs of [] \<Rightarrow> Truncated
         | d # ds \<Rightarrow> if \<not> second_ok3 b d then Invalid 1
             else (case ds of [] \<Rightarrow> Truncated | e # _ \<Rightarrow> if cont e then Width 3 else Invalid 2))
      else if 240 \<le> b \<and> b \<le> 244 then
        (case cs of [] \<Rightarrow> Truncated
         | d # ds \<Rightarrow> if \<not> second_ok4 b d then Invalid 1
             else (case ds of [] \<Rightarrow> Truncated
               | e # es \<Rightarrow> if \<not> cont e then Invalid 2
                   else (case es of [] \<Rightarrow> Truncated
                     | f # _ \<Rightarrow> if cont f then Width 4 else Invalid 3)))
      else Invalid 1)"

declare utf8_head.simps [simp del]

lemma utf8_head_Nil [simp]: "utf8_head [] = Truncated"
  by (simp add: utf8_head.simps)

lemma utf8_head_Width:
  assumes "utf8_head s = Width w"
  shows "1 \<le> w \<and> w \<le> 4 \<and> w \<le> length s"
  using assms by (cases s) (auto simp: utf8_head.simps Let_def split: if_splits list.splits)

lemma utf8_head_Width_append:
  assumes "utf8_head s = Width w" shows "utf8_head (s @ t) = Width w"
  using assms by (cases s) (auto simp: utf8_head.simps Let_def split: if_splits list.splits)

lemma utf8_head_Invalid_append:
  assumes "utf8_head s = Invalid k" shows "utf8_head (s @ t) = Invalid k"
  using assms by (cases s) (auto simp: utf8_head.simps Let_def split: if_splits list.splits)

lemma utf8_head_Truncated_length:
  assumes "utf8_head s = Truncated" shows "length s \<le> 3"
  using assms by (cases s) (auto simp: utf8_head.simps Let_def split: if_splits list.splits)

lemma utf8_head_take:
  assumes "utf8_head s = Width w" "n < w" shows "utf8_head (take n s) = Truncated"
  using assms
  by (cases s; cases n) (auto simp: utf8_head.simps Let_def take_Cons split: if_splits list.splits nat.splits)

section \<open>Validation of a byte sequence\<close>

datatype utf8_result = Utf8Ok | Utf8Error nat "nat option"

function utf8_from :: "nat \<Rightarrow> string \<Rightarrow> utf8_result" where
  "utf8_from n s =
     (if s = [] then Utf8Ok
      else (case utf8_head s of
          Width w \<Rightarrow> utf8_from (n + w) (drop w s)
        | Invalid k \<Rightarrow> Utf8Error n (Some k)
        | Truncated \<Rightarrow> Utf8Error n None))"
  by pat_completeness auto
termination
  by (relation "measure (length \<circ> snd)") (auto dest: utf8_head_Width)

declare utf8_from.simps [simp del]

definition from_utf8 :: "string \<Rightarrow> utf8_result" where
  "from_utf8 s = utf8_from 0 s"

abbreviation valid_utf8 :: "string \<Rightarrow> bool" where
  "valid_utf8 s \<equiv> from_utf8 s = Utf8Ok"

fun shift_result :: "nat \<Rightarrow> utf8_result \<Rightarrow> utf8_result" where
  "shift_result n Utf8Ok = Utf8Ok"
| "shift_result n (Utf8Error v e) = Utf8Error (n + v) e"

lemma shift_result_0 [simp]: "shift_result 0 r = r"
  by (cases r) simp_all

lemma shift_result_eq_Ok [simp]: "shift_result n r = Utf8Ok \<longleftrightarrow> r = Utf8Ok"
  by (cases r) simp_all

lemma shift_result_shift [simp]: "shift_result m (shift_result n r) = shift_result (m + n) r"
  by (cases r) simp_all

lemma utf8_from_shift: "utf8_from (m + n) s = shift_result m (utf8_from n s)"
proof (induction n s rule: utf8_from.induct)
  case (1 n s)
  show ?case
  proof (cases "s = []")
    case False
    with 1 [OF False] show ?thesis
      by (simp add: utf8_from.simps [of "m + n" s] utf8_from.simps [of n s] add.assoc
          split: head_kind.splits)
  qed (simp add: utf8_from.simps)
qed

lemma utf8_from_eq: "utf8_from n s = shift_result n (from_utf8 s)"
  using utf8_from_shift [of n 0 s] by (simp add: from_utf8_def)

lemma valid_utf8_Nil [simp]: "valid_utf8 []"
  by (simp add: from_utf8_def utf8_from.simps)

lemma from_utf8_Truncated: "utf8_head s = Truncated \<Longrightarrow> s \<noteq> [] \<Longrightarrow> from_utf8 s = Utf8Error 0 None"
  by (simp add: from_utf8_def utf8_from.simps)

lemma from_utf8_Invalid: "utf8_head s = Invalid k \<Longrightarrow> from_utf8 s = Utf8Error 0 (Some k)"
  by (cases s) (simp_all add: from_utf8_def utf8_from.simps)

lemma from_utf8_Width:
  assumes "utf8_head s = Width w" shows "from_utf8 s = shift_result w (from_utf8 (drop w s))"
proof -
  from assms have "s \<noteq> []" by (cases s) simp_all
  with assms show ?thesis
    by (simp add: from_utf8_def utf8_from.simps [of 0 s] utf8_from_shift [of w 0, simplified])
qed

text \<open>Induction along the characters of a byte sequence.\<close>

lemma utf8_induct [case_names Empty Char Bad]:
  assumes "P []"
    and "\<And>s w. utf8_head s = Width w \<Longrightarrow> P (drop w s) \<Longrightarrow> P s"
    and "\<And>s. s \<noteq> [] \<Longrightarrow> (\<And>w. utf8_head s \<noteq> Width w) \<Longrightarrow> P s"
  shows "P s"
proof (induction s rule: measure_induct_rule [where f = length])
  case (less s)
  consider "s = []" | w where "s \<noteq> []" "utf8_head s = Width w" | "s \<noteq> []" "\<And>w. utf8_head s \<noteq> Width w"
    by blast
  then show ?case
  proof cases
    case 2
    with utf8_head_Width [OF 2(2)] have "length (drop w s) < length s" by simp
    with less assms(2) [OF 2(2)] show ?thesis by blast
  qed (use assms in auto)
qed

lemma utf8_head_badE:
  assumes "\<And>w. utf8_head s \<noteq> Width w"
  obtains k where "utf8_head s = Invalid k" | "utf8_head s = Truncated"
  using assms by (cases "utf8_head s") blast+

lemma from_utf8_append:
  "valid_utf8 s \<Longrightarrow> from_utf8 (s @ t) = shift_result (length s) (from_utf8 t)"
proof (induction s rule: utf8_induct)
  case (Char s w)
  have w: "w \<le> length s" using utf8_head_Width [OF Char(1)] by simp
  have "valid_utf8 (drop w s)" using Char(3) by (simp add: from_utf8_Width [OF Char(1)])
  with Char(2) have "from_utf8 (drop w s @ t) = shift_result (length s - w) (from_utf8 t)" by simp
  moreover have "from_utf8 (s @ t) = shift_result w (from_utf8 (drop w s @ t))"
    using from_utf8_Width [OF utf8_head_Width_append [OF Char(1)], of t] w by simp
  ultimately show ?case using w by simp
next
  case (Bad s)
  from utf8_head_badE [OF Bad(2)] Bad(1,3) show ?case
    by cases (simp_all add: from_utf8_Truncated from_utf8_Invalid)
qed simp

lemma from_utf8_ErrorE:
  assumes "from_utf8 s = Utf8Error v e"
  obtains p r where "s = p @ r" "v = length p" "valid_utf8 p" "r \<noteq> []"
    "utf8_head r = (case e of None \<Rightarrow> Truncated | Some k \<Rightarrow> Invalid k)"
proof -
  have "from_utf8 s = Utf8Error v e \<Longrightarrow> \<exists>p r. s = p @ r \<and> v = length p \<and> valid_utf8 p \<and> r \<noteq> []
      \<and> utf8_head r = (case e of None \<Rightarrow> Truncated | Some k \<Rightarrow> Invalid k)"
  proof (induction s arbitrary: v rule: utf8_induct)
    case (Char s w)
    have w: "w \<le> length s" using utf8_head_Width [OF Char(1)] by simp
    from Char(3) obtain v' where v': "from_utf8 (drop w s) = Utf8Error v' e" "v = w + v'"
      by (cases "from_utf8 (drop w s)") (auto simp: from_utf8_Width [OF Char(1)])
    from Char(2) [OF v'(1)] obtain p r where pr: "drop w s = p @ r" "v' = length p" "valid_utf8 p"
      "r \<noteq> []" "utf8_head r = (case e of None \<Rightarrow> Truncated | Some k \<Rightarrow> Invalid k)" by blast
    have "valid_utf8 (take w s @ p)"
    proof -
      have eq: "s = (take w s @ p) @ r" using pr(1) by (metis append.assoc append_take_drop_id)
      have "utf8_head (take w s) = Width w"
      proof (cases "utf8_head (take w s)")
        case (Width w')
        then show ?thesis using utf8_head_Width_append [OF Width, of "drop w s"] \<open>utf8_head s = Width w\<close>
          by simp
      next
        case (Invalid k)
        then show ?thesis using utf8_head_Invalid_append [OF Invalid, of "drop w s"] \<open>utf8_head s = Width w\<close>
          by simp
      next
        case Truncated
        then show ?thesis using \<open>utf8_head s = Width w\<close>
          by (cases s) (auto simp: utf8_head.simps Let_def split: if_splits list.splits)
      qed
      then show ?thesis
        using from_utf8_Width [OF utf8_head_Width_append, of "take w s" w p] w pr(3) by simp
    qed
    moreover have "s = (take w s @ p) @ r" using pr(1) by (metis append.assoc append_take_drop_id)
    moreover have "v = length (take w s @ p)" using v' pr(2) w by simp
    ultimately show ?case using pr(4,5) by blast
  next
    case (Bad s)
    from utf8_head_badE [OF Bad(2)] Bad(1,3) show ?case
      by cases (auto simp: from_utf8_Truncated from_utf8_Invalid intro!: exI [of _ "[]"])
  qed simp
  with assms that show thesis by blast
qed


lemma valid_utf8_append: "valid_utf8 s \<Longrightarrow> valid_utf8 (s @ t) \<longleftrightarrow> valid_utf8 t"
  by (simp add: from_utf8_append)

section \<open>The streaming validator\<close>

text \<open>
  \<open>Utf8Validator\<close>: the state is \<open>pending\<close>, the bytes of a character cut by the end of the
  last chunk.
\<close>

definition validator_push :: "string \<Rightarrow> string \<Rightarrow> (string, EvidenceError) result" where
  "validator_push pending bytes =
     (let combined = pending @ bytes in
      case from_utf8 combined of
        Utf8Ok \<Rightarrow> Ok []
      | Utf8Error v None \<Rightarrow>
          if length combined < v then Err HashMismatch
          else if 3 < length (drop v combined) then Err HashMismatch
          else Ok (drop v combined)
      | Utf8Error v (Some k) \<Rightarrow> Err HashMismatch)"

definition validator_finish :: "string \<Rightarrow> (unit, EvidenceError) result" where
  "validator_finish pending = (if pending = [] then Ok () else Err HashMismatch)"

fun validate_chunks :: "string \<Rightarrow> string list \<Rightarrow> (unit, EvidenceError) result" where
  "validate_chunks pending [] = validator_finish pending"
| "validate_chunks pending (c # cs) =
     (case validator_push pending c of Err e \<Rightarrow> Err e | Ok p \<Rightarrow> validate_chunks p cs)"

definition pending_ok :: "string \<Rightarrow> bool" where
  "pending_ok p \<longleftrightarrow> p = [] \<or> utf8_head p = Truncated"

text \<open>What one push does to the text read so far; the length test of the source never fails.\<close>

lemma validator_push_cases:
  obtains (all) "valid_utf8 (p @ c)" "validator_push p c = Ok []"
  | (cut) q r where "p @ c = q @ r" "valid_utf8 q" "utf8_head r = Truncated" "validator_push p c = Ok r"
  | (bad) q r k where "p @ c = q @ r" "valid_utf8 q" "utf8_head r = Invalid k"
      "validator_push p c = Err HashMismatch"
proof (cases "from_utf8 (p @ c)")
  case Utf8Ok
  then show ?thesis by (auto simp: validator_push_def Let_def intro: all)
next
  case (Utf8Error v e)
  from from_utf8_ErrorE [OF this] obtain q r where qr: "p @ c = q @ r" "v = length q" "valid_utf8 q"
    "r \<noteq> []" "utf8_head r = (case e of None \<Rightarrow> Truncated | Some k \<Rightarrow> Invalid k)" by metis
  show ?thesis
  proof (cases e)
    case None
    with qr(5) have "utf8_head r = Truncated" by simp
    moreover from this have "length r \<le> 3" by (rule utf8_head_Truncated_length)
    ultimately show ?thesis
      using qr(1,2,3) Utf8Error None by (intro cut) (auto simp: validator_push_def Let_def)
  next
    case (Some k)
    with qr Utf8Error show ?thesis
      by (intro bad [of q r k]) (auto simp: validator_push_def Let_def)
  qed
qed

lemma invalid_append: "utf8_head r = Invalid k \<Longrightarrow> \<not> valid_utf8 (r @ t)"
  by (simp add: from_utf8_Invalid [OF utf8_head_Invalid_append])

lemma validate_chunks_pending:
  "pending_ok p \<Longrightarrow>
     validate_chunks p cs = (if valid_utf8 (p @ concat cs) then Ok () else Err HashMismatch)"
proof (induction cs arbitrary: p)
  case Nil
  then show ?case by (auto simp: pending_ok_def validator_finish_def from_utf8_Truncated)
next
  case (Cons c cs)
  show ?case
  proof (cases rule: validator_push_cases [of p c])
    case all
    then show ?thesis
      using Cons.IH [of "[]"] valid_utf8_append [of "p @ c" "concat cs"] by (simp add: pending_ok_def)
  next
    case (cut q r)
    then have "valid_utf8 (p @ c @ concat cs) \<longleftrightarrow> valid_utf8 (r @ concat cs)"
      using valid_utf8_append [of q "r @ concat cs"] by (metis append.assoc)
    with cut Cons.IH [of r] show ?thesis by (simp add: pending_ok_def)
  next
    case (bad q r k)
    have "\<not> valid_utf8 (q @ (r @ concat cs))"
      using bad(2,3) by (simp add: valid_utf8_append invalid_append)
    then have "\<not> valid_utf8 (p @ c @ concat cs)" using bad(1) by (metis append.assoc)
    with bad(4) show ?thesis by simp
  qed
qed

lemma validate_chunks_valid:
  "validate_chunks [] cs = (if valid_utf8 (concat cs) then Ok () else Err HashMismatch)"
  using validate_chunks_pending [of "[]" cs] by (simp add: pending_ok_def)

text \<open>C9: The streaming validator accepts the chunks of a part exactly when the part is valid UTF-8,
  however its characters are cut across chunks, and rejects it with \<open>HashMismatch\<close> otherwise.\<close>

theorem validator_chunks_equiv:
  "validate_chunks [] cs = (if valid_utf8 (concat cs) then Ok () else Err HashMismatch)"
  by (rule validate_chunks_valid)

section \<open>Cutting a page at a character boundary\<close>

function trim_utf8 :: "string \<Rightarrow> string" where
  "trim_utf8 bytes =
     (if from_utf8 bytes \<noteq> Utf8Ok \<and> bytes \<noteq> [] then trim_utf8 (butlast bytes) else bytes)"
  by pat_completeness auto
termination by (relation "measure length") auto

declare trim_utf8.simps [simp del]

lemma trim_utf8_valid: "valid_utf8 (trim_utf8 bytes)"
  by (induction bytes rule: trim_utf8.induct) (subst trim_utf8.simps, auto)

lemma trim_utf8_id: "valid_utf8 bytes \<Longrightarrow> trim_utf8 bytes = bytes"
  by (simp add: trim_utf8.simps)

lemma trim_utf8_prefix: "\<exists>n\<le>length bytes. trim_utf8 bytes = take n bytes"
proof (induction bytes rule: trim_utf8.induct)
  case (1 bytes)
  show ?case
  proof (cases "from_utf8 bytes \<noteq> Utf8Ok \<and> bytes \<noteq> []")
    case True
    from 1 [OF True] obtain n where n: "n \<le> length (butlast bytes)"
      "trim_utf8 (butlast bytes) = take n (butlast bytes)" by blast
    have "take n (butlast bytes) = take n bytes" using n(1)
      by (simp add: butlast_conv_take)
    with n True show ?thesis by (subst trim_utf8.simps) (auto intro!: exI [of _ n])
  next
    case False
    then have "trim_utf8 bytes = bytes" by (subst trim_utf8.simps) auto
    then show ?thesis by (intro exI [of _ "length bytes"]) simp
  qed
qed

text \<open>Between characters of a valid text there is nothing to cut but a truncated last one.\<close>

lemma utf8_head_Truncated_prefix:
  assumes "utf8_head r = Truncated" "0 < n" "n \<le> length r"
  shows "utf8_head (take n r) = Truncated"
  using assms
  by (cases r; cases n) (auto simp: utf8_head.simps Let_def take_Cons split: if_splits list.splits nat.splits)

lemma trim_utf8_cut:
  assumes "valid_utf8 p" "utf8_head r = Truncated"
  shows "trim_utf8 (p @ r) = p"
  using assms(2)
proof (induction r rule: rev_induct)
  case Nil
  with assms(1) show ?case by (simp add: trim_utf8_id)
next
  case (snoc x r)
  have "r \<noteq> [] \<Longrightarrow> utf8_head r = Truncated"
    using utf8_head_Truncated_prefix [OF snoc.prems, of "length r"] by simp
  then have "utf8_head r = Truncated" by (cases "r = []") simp_all
  moreover have "\<not> valid_utf8 (p @ r @ [x])"
    using assms(1) from_utf8_Truncated [OF snoc.prems] by (simp add: valid_utf8_append)
  ultimately show ?case
    using snoc.IH by (subst trim_utf8.simps) (simp add: butlast_append)
qed

lemma trim_utf8_of_valid_prefix:
  assumes "valid_utf8 (bytes @ rest)"
  obtains r where "bytes = trim_utf8 bytes @ r" "utf8_head r = Truncated" "length r \<le> 3"
    "valid_utf8 (r @ rest)"
proof (cases "from_utf8 bytes")
  case Utf8Ok
  then show ?thesis using that [of "[]"] assms by (simp add: trim_utf8_id valid_utf8_append)
next
  case (Utf8Error v e)
  from from_utf8_ErrorE [OF this] obtain p r where pr: "bytes = p @ r" "valid_utf8 p" "r \<noteq> []"
    "utf8_head r = (case e of None \<Rightarrow> Truncated | Some k \<Rightarrow> Invalid k)" by metis
  have rest: "valid_utf8 (r @ rest)" using assms pr(1,2) by (simp add: valid_utf8_append)
  then have "e = None" using pr(4) invalid_append by (cases e) auto
  then have "utf8_head r = Truncated" using pr(4) by simp
  then show ?thesis
    using that [of r] rest pr(1) trim_utf8_cut [OF pr(2)] utf8_head_Truncated_length by simp
qed

lemma trim_utf8_progress:
  assumes "valid_utf8 (bytes @ rest)" "4 \<le> length bytes"
  shows "trim_utf8 bytes \<noteq> []"
proof
  assume "trim_utf8 bytes = []"
  with trim_utf8_of_valid_prefix [OF assms(1)] have "length bytes \<le> 3" by (metis append_Nil)
  with assms(2) show False by simp
qed

end
