(* ===== verification/EvidenceTypes.thy ===== *)
theory EvidenceTypes
  imports Utf8
begin

text \<open>
  The vocabulary of the evidence store: the request and reply types of the port in
  \<open>crates/tdmcp-mcp/src/evidence.rs\<close>, and from \<open>crates/tdmcp-daemon/src/evidence_store.rs\<close> its
  configuration, the checks on the caller's input, the clock arithmetic and the rows of the
  five tables.  Third-party code is an argument: \<open>codec\<close> holds \<open>serde_json\<close>, the SHA-256
  digest and the base64 alphabet, and \<open>ev_env\<close> what the outside world answers during one call
  (clock, fresh UUID, which SQL statements fail, the failure injector).
\<close>

section \<open>The port\<close>

definition parse_id :: "string \<Rightarrow> string \<Rightarrow> (string, EvidenceError) result" where
  "parse_id name v =
     (if v = [] \<or> 256 < length v \<or> has_control v then
        Err (InvalidInput (name @ '' must be nonempty, bounded, and contain no control characters''))
      else Ok v)"

type_synonym EvidenceId = string
type_synonym UploadId = string
type_synonym GrantId = string
type_synonym EvidenceCursor = string
type_synonym duration = nat

datatype PartKind = KindUtf8 | KindBinary

record BinaryLayout =
  dtype :: string
  endianness :: string
  dimensions :: "u64 list"
  strides :: "int list option"
  bl_layout :: "string option"

record PartManifest =
  pm_name :: string
  pm_content_type :: string
  pm_content_encoding :: "string option"
  pm_kind :: PartKind
  pm_bytes :: u64
  pm_sha256 :: string
  pm_layout :: "BinaryLayout option"
  pm_metadata :: json
  pm_coverage :: json

record ReserveObservation =
  ro_ttl :: duration
  ro_metadata :: json
  ro_coverage :: json
  ro_parts :: "PartManifest list"

record Reservation =
  rs_upload_id :: UploadId
  rs_reserved_bytes :: u64
  rs_max_chunk_bytes :: u64

record AppendChunk =
  ac_upload_id :: UploadId
  ac_part :: string
  ac_offset :: u64
  ac_bytes :: string

record TransferProgress =
  tp_next_offset :: u64
  tp_total_bytes :: u64

record EvidenceRecord =
  er_evidence_id :: EvidenceId
  er_owner :: OwnerId
  er_created :: int
  er_expires :: int
  er_pinned :: bool
  er_bytes :: u64
  er_metadata :: json
  er_coverage :: json
  er_parts :: "PartManifest list"
  er_complete :: bool

datatype ReadEncoding = EncUtf8 | EncBase64

record ReadRequest =
  rr_evidence_id :: EvidenceId
  rr_part :: string
  rr_cursor :: "EvidenceCursor option"
  rr_max_bytes :: u64
  rr_encoding :: ReadEncoding

datatype PageContent = PageUtf8 string | PageBase64 string

record EvidencePage =
  pg_evidence_id :: EvidenceId
  pg_part :: string
  pg_content_type :: string
  pg_content_encoding :: "string option"
  pg_byte_start :: u64
  pg_byte_end :: u64
  pg_total_bytes :: u64
  pg_returned_bytes :: u64
  pg_content :: PageContent
  pg_next_cursor :: "EvidenceCursor option"
  pg_complete :: bool
  pg_layout :: "BinaryLayout option"

datatype GrantScope = ScopeObservation | ScopeParts "string list"

record GrantRequest =
  gq_evidence_id :: EvidenceId
  gq_grantee :: OwnerId
  gq_scope :: GrantScope
  gq_ttl :: duration

record EvidenceGrant =
  eg_grant_id :: GrantId
  eg_evidence_id :: EvidenceId
  eg_grantor :: OwnerId
  eg_grantee :: OwnerId
  eg_scope :: GrantScope
  eg_expires :: int

section \<open>Configuration\<close>

record EvidenceStoreConfig =
  max_owner_bytes :: u64
  max_total_bytes :: u64
  max_observation_bytes :: u64
  max_part_bytes :: u64
  max_chunk_bytes :: u64
  max_chunks_per_part :: u64
  max_page_bytes :: u64
  max_pinned_bytes_per_owner :: u64
  max_owner_observations :: u64
  max_total_observations :: u64
  max_parts_per_observation :: u64
  max_metadata_bytes :: u64
  max_observation_metadata_bytes :: u64
  max_grants_per_evidence :: u64
  max_cursors_per_owner :: u64
  tombstone_ttl :: duration
  max_ttl :: duration

definition from_secs :: "nat \<Rightarrow> duration" where
  "from_secs s = s * 1000000000"

definition evidence_config_default :: EvidenceStoreConfig where
  "evidence_config_default =
     \<lparr>max_owner_bytes = 1024 * 1024 * 1024,
      max_total_bytes = 4 * 1024 * 1024 * 1024,
      max_observation_bytes = 512 * 1024 * 1024,
      max_part_bytes = 512 * 1024 * 1024,
      max_chunk_bytes = 1024 * 1024,
      max_chunks_per_part = 4096,
      max_page_bytes = 1024 * 1024,
      max_pinned_bytes_per_owner = 1024 * 1024 * 1024,
      max_owner_observations = 1024,
      max_total_observations = 4096,
      max_parts_per_observation = 64,
      max_metadata_bytes = 256 * 1024,
      max_observation_metadata_bytes = 1024 * 1024,
      max_grants_per_evidence = 64,
      max_cursors_per_owner = 4096,
      tombstone_ttl = from_secs (60 * 60),
      max_ttl = from_secs (7 * 24 * 60 * 60)\<rparr>"

definition SQLITE_U64_MAX :: u64 where
  "SQLITE_U64_MAX = 9223372036854775807"

definition config_validate :: "EvidenceStoreConfig \<Rightarrow> (unit, EvidenceError) result" where
  "config_validate c =
     res_bind (fail_if (max_owner_bytes c = 0
        \<or> max_total_bytes c = 0
        \<or> max_observation_bytes c = 0
        \<or> max_part_bytes c = 0
        \<or> max_chunk_bytes c = 0
        \<or> max_chunks_per_part c = 0
        \<or> max_page_bytes c = 0
        \<or> max_pinned_bytes_per_owner c = 0
        \<or> max_owner_observations c = 0
        \<or> max_total_observations c = 0
        \<or> max_parts_per_observation c = 0
        \<or> max_metadata_bytes c = 0
        \<or> max_observation_metadata_bytes c = 0
        \<or> max_grants_per_evidence c = 0
        \<or> max_cursors_per_owner c = 0
        \<or> tombstone_ttl c = 0
        \<or> max_ttl c = 0)
       (InvalidInput ''all evidence limits must be nonzero'')) (\<lambda>_.
     fail_if (SQLITE_U64_MAX < max_owner_bytes c
        \<or> SQLITE_U64_MAX < max_total_bytes c
        \<or> SQLITE_U64_MAX < max_observation_bytes c
        \<or> SQLITE_U64_MAX < max_part_bytes c
        \<or> SQLITE_U64_MAX < max_chunk_bytes c
        \<or> SQLITE_U64_MAX < max_chunks_per_part c
        \<or> SQLITE_U64_MAX < max_page_bytes c
        \<or> SQLITE_U64_MAX < max_pinned_bytes_per_owner c
        \<or> SQLITE_U64_MAX < max_owner_observations c
        \<or> SQLITE_U64_MAX < max_total_observations c
        \<or> SQLITE_U64_MAX < max_metadata_bytes c
        \<or> SQLITE_U64_MAX < max_observation_metadata_bytes c
        \<or> SQLITE_U64_MAX < max_grants_per_evidence c
        \<or> SQLITE_U64_MAX < max_cursors_per_owner c)
       (InvalidInput ''SQLite-backed evidence limits may not exceed i64::MAX''))"

section \<open>What a call learns from outside\<close>

datatype FailurePoint =
    BlobWrite | BlobPublish | ChunkMetadata | DatabaseFinalize | ExportPublish
  | ExportReplaceWindow | DirectorySync

text \<open>
  \<open>ev_clock\<close> is the n-th reading of the system clock in nanoseconds relative to the epoch;
  \<open>ev_sql\<close> the message with which the n-th SQL statement of the call fails, if it does;
  \<open>ev_commit\<close> how the commit of an observation ends: \<open>Some (applied, message)\<close> when SQLite
  reports an error, with whether the change reached the database all the same.
\<close>

record ev_env =
  ev_clock :: "nat \<Rightarrow> int"
  ev_uuid :: string
  ev_sql :: "nat \<Rightarrow> string option"
  ev_commit :: "(bool \<times> string) option"
  ev_fail :: "FailurePoint \<Rightarrow> (unit, EvidenceError) result"
  ev_message :: string

record codec =
  json_to :: "json \<Rightarrow> (string, string) result"
  json_of :: "string \<Rightarrow> (json, string) result"
  layout_to :: "BinaryLayout \<Rightarrow> (string, string) result"
  layout_of :: "string \<Rightarrow> (BinaryLayout, string) result"
  scope_to :: "GrantScope \<Rightarrow> (string, string) result"
  scope_of :: "string \<Rightarrow> (GrantScope, string) result"
  digest :: "string \<Rightarrow> string"
  base64 :: "string \<Rightarrow> string"

definition now_ms :: "ev_env \<Rightarrow> nat \<Rightarrow> (int, EvidenceError) result" where
  "now_ms env k =
     (if ev_clock env k < 0 then
        Err (Backend (''system clock is before Unix epoch: '' @ ev_message env))
      else if 2 ^ 63 \<le> ev_clock env k div 1000000 then
        Err (Backend ''system time exceeds supported range'')
      else Ok (ev_clock env k div 1000000))"

definition as_millis :: "duration \<Rightarrow> int" where
  "as_millis d = int (d div 1000000)"

definition add_duration :: "int \<Rightarrow> duration \<Rightarrow> (int, EvidenceError) result" where
  "add_duration now d =
     (if 2 ^ 63 \<le> as_millis d then Err (InvalidInput ''TTL exceeds supported range'')
      else if 2 ^ 63 \<le> now + as_millis d then Err (InvalidInput ''TTL expiry overflows'')
      else Ok (now + as_millis d))"

definition subtract_duration :: "int \<Rightarrow> duration \<Rightarrow> (int, EvidenceError) result" where
  "subtract_duration now d =
     (if 2 ^ 63 \<le> as_millis d then Err (InvalidInput ''tombstone TTL exceeds supported range'')
      else Ok (max (- (2 ^ 63)) (now - as_millis d)))"

definition validate_ttl :: "duration \<Rightarrow> duration \<Rightarrow> (unit, EvidenceError) result" where
  "validate_ttl ttl mx = fail_if (ttl = 0 \<or> mx < ttl)
     (InvalidInput ''TTL must be nonzero and within the configured maximum'')"

definition encoding_name :: "ReadEncoding \<Rightarrow> string" where
  "encoding_name e = (case e of EncUtf8 \<Rightarrow> ''utf8'' | EncBase64 \<Rightarrow> ''base64'')"

definition hex_digit :: "nat \<Rightarrow> char" where
  "hex_digit n = ''0123456789abcdef'' ! n"

definition hex_digest :: "string \<Rightarrow> string" where
  "hex_digest bytes = concat (map (\<lambda>b. [hex_digit (byte b div 16), hex_digit (byte b mod 16)]) bytes)"

definition sha256_hex :: "codec \<Rightarrow> string \<Rightarrow> string" where
  "sha256_hex cd bytes = hex_digest (digest cd bytes)"

section \<open>Checks on the caller's input\<close>

definition json_error :: "string \<Rightarrow> EvidenceError" where
  "json_error m = Backend (''stored evidence JSON is invalid: '' @ m)"

definition json_string :: "(string, string) result \<Rightarrow> (string, EvidenceError) result" where
  "json_string r = map_err json_error r"

text \<open>\<open>u64::try_from(len).unwrap_or(u64::MAX)\<close>.\<close>

definition len_u64 :: "string \<Rightarrow> u64" where
  "len_u64 s = (if length s < 2 ^ 64 then of_nat (length s) else - 1)"

lemma unat_len_u64: "unat (len_u64 s) = min (length s) (2 ^ 64 - 1)"
  by (auto simp: len_u64_def unat_max_u64 unat_of_nat)

definition json_size_bounded :: "(string, string) result \<Rightarrow> u64 \<Rightarrow> string \<Rightarrow> (u64, EvidenceError) result" where
  "json_size_bounded r mx field =
     res_bind (json_string r) (\<lambda>encoded.
     res_bind (fail_if (mx < len_u64 encoded)
       (QuotaExceeded (field @ '' exceeds the configured metadata byte limit''))) (\<lambda>_.
     Ok (len_u64 encoded)))"

text \<open>\<open>u64::checked_add\<close>.\<close>

definition checked_add :: "u64 \<Rightarrow> u64 \<Rightarrow> EvidenceError \<Rightarrow> (u64, EvidenceError) result" where
  "checked_add a b e = (if unat a + unat b < 2 ^ 64 then Ok (a + b) else Err e)"

lemma checked_add_eq_Ok [simp]:
  "checked_add a b e = Ok c \<longleftrightarrow> unat a + unat b < 2 ^ 64 \<and> c = a + b"
  by (auto simp: checked_add_def)

definition add_metadata :: "u64 \<Rightarrow> (u64, EvidenceError) result \<Rightarrow> (u64, EvidenceError) result" where
  "add_metadata acc r =
     res_bind r (\<lambda>n. checked_add acc n (QuotaExceeded ''metadata byte count overflow''))"

definition validate_part_name :: "string \<Rightarrow> (unit, EvidenceError) result" where
  "validate_part_name name = fail_if (name = [] \<or> 256 < length name \<or> has_control name)
     (InvalidInput ''part name must be nonempty, bounded, and contain no control characters'')"

definition lower_hex :: "char \<Rightarrow> bool" where
  "lower_hex c \<longleftrightarrow> (48 \<le> byte c \<and> byte c \<le> 57) \<or> (97 \<le> byte c \<and> byte c \<le> 102)"

definition validate_part :: "PartManifest \<Rightarrow> u64 \<Rightarrow> (unit, EvidenceError) result" where
  "validate_part p mx =
     res_bind (validate_part_name (pm_name p)) (\<lambda>_.
     res_bind (fail_if (pm_content_type p = [] \<or> 512 < length (pm_content_type p))
       (InvalidInput ''content type must be nonempty and at most 512 bytes'')) (\<lambda>_.
     res_bind (fail_if (case pm_content_encoding p of None \<Rightarrow> False
         | Some encoding \<Rightarrow> 256 < length encoding \<or> has_control encoding)
       (InvalidInput ''content encoding must be at most 256 bytes with no control characters'')) (\<lambda>_.
     res_bind (fail_if (mx < pm_bytes p) (QuotaExceeded ''part byte limit exceeded'')) (\<lambda>_.
     fail_if (length (pm_sha256 p) \<noteq> 64 \<or> \<not> list_all lower_hex (pm_sha256 p))
       (InvalidInput ''sha256 must be 64 lowercase hexadecimal characters'')))))"

text \<open>The loop of \<open>reserve\<close> over the parts: names seen, bytes and metadata bytes so far.\<close>

fun admit_parts :: "EvidenceStoreConfig \<Rightarrow> codec \<Rightarrow> string set \<Rightarrow> u64 \<Rightarrow> u64 \<Rightarrow> PartManifest list
    \<Rightarrow> (u64 \<times> u64, EvidenceError) result" where
  "admit_parts c cd names tot meta [] = Ok (tot, meta)"
| "admit_parts c cd names tot meta (p # ps) =
     res_bind (validate_part p (max_part_bytes c)) (\<lambda>_.
     res_bind (add_metadata meta
       (json_size_bounded (json_to cd (pm_metadata p)) (max_metadata_bytes c) ''part metadata'')) (\<lambda>meta.
     res_bind (add_metadata meta
       (json_size_bounded (json_to cd (pm_coverage p)) (max_metadata_bytes c) ''part coverage'')) (\<lambda>meta.
     res_bind (case pm_layout p of None \<Rightarrow> Ok meta
       | Some l \<Rightarrow> add_metadata meta
           (json_size_bounded (layout_to cd l) (max_metadata_bytes c) ''binary layout'')) (\<lambda>meta.
     res_bind (fail_if (pm_name p \<in> names) (InvalidInput ''part names must be unique'')) (\<lambda>_.
     res_bind (checked_add tot (pm_bytes p)
       (QuotaExceeded ''observation byte count overflow'')) (\<lambda>tot.
     admit_parts c cd (insert (pm_name p) names) tot meta ps))))))"

definition scope_parts :: "GrantScope \<Rightarrow> string set option" where
  "scope_parts sc = (case sc of ScopeObservation \<Rightarrow> None | ScopeParts ps \<Rightarrow> Some (set ps))"

fun check_scope_parts :: "string set \<Rightarrow> string set \<Rightarrow> string list \<Rightarrow> (unit, EvidenceError) result" where
  "check_scope_parts available seen [] = Ok ()"
| "check_scope_parts available seen (p # ps) =
     res_bind (validate_part_name p) (\<lambda>_.
     res_bind (fail_if (p \<notin> available \<or> p \<in> seen)
       (InvalidInput ''grant parts must be distinct existing part names'')) (\<lambda>_.
     check_scope_parts available (insert p seen) ps))"

definition validate_grant_scope :: "GrantScope \<Rightarrow> PartManifest list \<Rightarrow> (unit, EvidenceError) result" where
  "validate_grant_scope sc manifests =
     (case sc of
        ScopeObservation \<Rightarrow> Ok ()
      | ScopeParts ps \<Rightarrow>
          res_bind (fail_if (ps = []) (InvalidInput ''part-scoped grant cannot be empty'')) (\<lambda>_.
          check_scope_parts (pm_name ` set manifests) {} ps))"

lemma check_scope_parts_Ok:
  "check_scope_parts avail seen ps = Ok u \<Longrightarrow> set ps \<subseteq> avail \<and> distinct ps \<and> set ps \<inter> seen = {}"
  by (induction ps arbitrary: seen) auto

section \<open>The tables\<close>

definition STATUS_UPLOADING :: string where "STATUS_UPLOADING = ''uploading''"
definition STATUS_COMPLETE :: string where "STATUS_COMPLETE = ''complete''"
definition STATUS_EXPIRED :: string where "STATUS_EXPIRED = ''expired''"
definition STATUS_RELEASED :: string where "STATUS_RELEASED = ''released''"

lemmas status_defs = STATUS_UPLOADING_def STATUS_COMPLETE_def STATUS_EXPIRED_def STATUS_RELEASED_def

record obs_row =
  ob_id :: string
  ob_owner :: string
  ob_status :: string
  ob_created :: int
  ob_expires :: int
  ob_pinned :: bool
  ob_reserved :: u64
  ob_metadata :: string
  ob_coverage :: string

record part_row =
  pr_obs :: string
  pr_name :: string
  pr_ordinal :: nat
  pr_content_type :: string
  pr_content_encoding :: "string option"
  pr_kind :: string
  pr_len :: u64
  pr_sha :: string
  pr_layout :: "string option"
  pr_metadata :: string
  pr_coverage :: string
  pr_finalized :: bool

record chunk_row =
  ck_obs :: string
  ck_part :: string
  ck_ordinal :: nat
  ck_offset :: u64
  ck_len :: u64
  ck_hash :: string

record grant_row =
  gr_id :: string
  gr_evidence :: string
  gr_grantor :: string
  gr_grantee :: string
  gr_scope :: string
  gr_expires :: int
  gr_revoked :: bool

record cursor_row =
  cu_token :: string
  cu_reader :: string
  cu_evidence :: string
  cu_part :: string
  cu_encoding :: string
  cu_projection :: string
  cu_next :: u64
  cu_page :: u64
  cu_grant :: "string option"

record ev_db =
  t_obs :: "obs_row list"
  t_parts :: "part_row list"
  t_chunks :: "chunk_row list"
  t_grants :: "grant_row list"
  t_cursors :: "cursor_row list"

definition empty_db :: ev_db where
  "empty_db = \<lparr>t_obs = [], t_parts = [], t_chunks = [], t_grants = [], t_cursors = []\<rparr>"

end
