(* ===== verification/EvidenceDb.thy ===== *)
theory EvidenceDb
  imports EvidenceTypes
begin

text \<open>
  The SQL of \<open>crates/tdmcp-daemon/src/evidence_store.rs\<close> as list operations on the five tables:
  row lookups, inserts with the schema's keys and foreign keys, deletes with
  \<open>ON DELETE CASCADE\<close>, the renaming of an observation with \<open>ON UPDATE CASCADE\<close>, and
  \<open>expire_rows\<close>.  A statement that fails, by the outside's decision or by a constraint, leaves the
  tables alone, and its transaction is rolled back.
\<close>

section \<open>Statements\<close>

definition sql :: "ev_env \<Rightarrow> nat \<Rightarrow> 'a \<Rightarrow> ('a, EvidenceError) result" where
  "sql env k v = (case ev_sql env k of None \<Rightarrow> Ok v | Some m \<Rightarrow> Err (Backend m))"

lemma sql_eq_Ok [simp]: "sql env k v = Ok w \<longleftrightarrow> ev_sql env k = None \<and> w = v"
  by (auto simp: sql_def split: option.splits)

definition constraint :: "ev_env \<Rightarrow> bool \<Rightarrow> (unit, EvidenceError) result" where
  "constraint env b = fail_if (\<not> b) (Backend (ev_message env))"

lemma constraint_eq_Ok [simp]: "constraint env b = Ok u \<longleftrightarrow> b"
  by (simp add: constraint_def)

text \<open>\<open>SqlU64\<close>: a bound value above \<open>i64::MAX\<close> is refused, and a \<open>SUM\<close> beyond it is an error.\<close>

definition to_sql :: "ev_env \<Rightarrow> u64 \<Rightarrow> (u64, EvidenceError) result" where
  "to_sql env v = (if unat v < 2 ^ 63 then Ok v else Err (Backend (ev_message env)))"

lemma to_sql_eq_Ok [simp]: "to_sql env v = Ok w \<longleftrightarrow> unat v < 2 ^ 63 \<and> w = v"
  by (auto simp: to_sql_def)

definition sum_u64 :: "u64 list \<Rightarrow> nat" where
  "sum_u64 vs = sum_list (map unat vs)"

definition sql_sum :: "ev_env \<Rightarrow> nat \<Rightarrow> u64 list \<Rightarrow> (u64, EvidenceError) result" where
  "sql_sum env k vs =
     res_bind (sql env k ()) (\<lambda>_.
     if sum_u64 vs < 2 ^ 63 then Ok (of_nat (sum_u64 vs)) else Err (Backend (ev_message env)))"

lemma sql_sum_eq_Ok:
  "sql_sum env k vs = Ok w \<Longrightarrow> sum_u64 vs < 2 ^ 63 \<and> unat w = sum_u64 vs"
  by (auto simp: sql_sum_def unat_of_nat split: if_splits)

definition find_obs :: "ev_db \<Rightarrow> string \<Rightarrow> obs_row option" where
  "find_obs db i = find (\<lambda>r. ob_id r = i) (t_obs db)"

definition find_part :: "ev_db \<Rightarrow> string \<Rightarrow> string \<Rightarrow> part_row option" where
  "find_part db i p = find (\<lambda>r. pr_obs r = i \<and> pr_name r = p) (t_parts db)"

definition part_chunks :: "ev_db \<Rightarrow> string \<Rightarrow> string \<Rightarrow> chunk_row list" where
  "part_chunks db i p = filter (\<lambda>r. ck_obs r = i \<and> ck_part r = p) (t_chunks db)"

definition active :: "obs_row \<Rightarrow> bool" where
  "active r \<longleftrightarrow> ob_status r \<in> {STATUS_UPLOADING, STATUS_COMPLETE}"

section \<open>Inserts\<close>

definition insert_obs :: "ev_env \<Rightarrow> nat \<Rightarrow> obs_row \<Rightarrow> ev_db \<Rightarrow> (ev_db, EvidenceError) result" where
  "insert_obs env k r db =
     res_bind (sql env k ()) (\<lambda>_.
     res_bind (constraint env (ob_id r \<notin> ob_id ` set (t_obs db))) (\<lambda>_.
     Ok (db\<lparr>t_obs := t_obs db @ [r]\<rparr>)))"

definition insert_part :: "ev_env \<Rightarrow> nat \<Rightarrow> part_row \<Rightarrow> ev_db \<Rightarrow> (ev_db, EvidenceError) result" where
  "insert_part env k r db =
     res_bind (sql env k ()) (\<lambda>_.
     res_bind (constraint env (pr_obs r \<in> ob_id ` set (t_obs db)
        \<and> (\<forall>q\<in>set (t_parts db). pr_obs q = pr_obs r \<longrightarrow> pr_name q \<noteq> pr_name r \<and> pr_ordinal q \<noteq> pr_ordinal r))) (\<lambda>_.
     Ok (db\<lparr>t_parts := t_parts db @ [r]\<rparr>)))"

definition insert_chunk :: "ev_env \<Rightarrow> nat \<Rightarrow> chunk_row \<Rightarrow> ev_db \<Rightarrow> (ev_db, EvidenceError) result" where
  "insert_chunk env k r db =
     res_bind (sql env k ()) (\<lambda>_.
     res_bind (constraint env (find_part db (ck_obs r) (ck_part r) \<noteq> None
        \<and> ck_ordinal r \<notin> ck_ordinal ` set (part_chunks db (ck_obs r) (ck_part r)))) (\<lambda>_.
     Ok (db\<lparr>t_chunks := t_chunks db @ [r]\<rparr>)))"

definition insert_grant :: "ev_env \<Rightarrow> nat \<Rightarrow> grant_row \<Rightarrow> ev_db \<Rightarrow> (ev_db, EvidenceError) result" where
  "insert_grant env k r db =
     res_bind (sql env k ()) (\<lambda>_.
     res_bind (constraint env (gr_id r \<notin> gr_id ` set (t_grants db)
        \<and> gr_evidence r \<in> ob_id ` set (t_obs db))) (\<lambda>_.
     Ok (db\<lparr>t_grants := t_grants db @ [r]\<rparr>)))"

definition insert_cursor :: "ev_env \<Rightarrow> nat \<Rightarrow> cursor_row \<Rightarrow> ev_db \<Rightarrow> (ev_db, EvidenceError) result" where
  "insert_cursor env k r db =
     res_bind (sql env k ()) (\<lambda>_.
     res_bind (constraint env (cu_token r \<notin> cu_token ` set (t_cursors db)
        \<and> cu_evidence r \<in> ob_id ` set (t_obs db)
        \<and> (case cu_grant r of None \<Rightarrow> True | Some g \<Rightarrow> g \<in> gr_id ` set (t_grants db)))) (\<lambda>_.
     Ok (db\<lparr>t_cursors := t_cursors db @ [r]\<rparr>)))"

section \<open>Deletes and updates\<close>

definition delete_cursors :: "(cursor_row \<Rightarrow> bool) \<Rightarrow> ev_db \<Rightarrow> ev_db" where
  "delete_cursors P db = db\<lparr>t_cursors := filter (\<lambda>c. \<not> P c) (t_cursors db)\<rparr>"

definition delete_chunks :: "(chunk_row \<Rightarrow> bool) \<Rightarrow> ev_db \<Rightarrow> ev_db" where
  "delete_chunks P db = db\<lparr>t_chunks := filter (\<lambda>c. \<not> P c) (t_chunks db)\<rparr>"

definition delete_grants :: "(grant_row \<Rightarrow> bool) \<Rightarrow> ev_db \<Rightarrow> ev_db" where
  "delete_grants P db =
     (let gone = gr_id ` set (filter P (t_grants db)) in
      delete_cursors (\<lambda>c. case cu_grant c of None \<Rightarrow> False | Some g \<Rightarrow> g \<in> gone)
        (db\<lparr>t_grants := filter (\<lambda>g. \<not> P g) (t_grants db)\<rparr>))"

definition delete_obs :: "(obs_row \<Rightarrow> bool) \<Rightarrow> ev_db \<Rightarrow> ev_db" where
  "delete_obs P db =
     (let gone = ob_id ` set (filter P (t_obs db)) in
      delete_cursors (\<lambda>c. cu_evidence c \<in> gone)
        (delete_grants (\<lambda>g. gr_evidence g \<in> gone)
          (delete_chunks (\<lambda>c. ck_obs c \<in> gone)
            (db\<lparr>t_obs := filter (\<lambda>r. \<not> P r) (t_obs db),
               t_parts := filter (\<lambda>p. pr_obs p \<notin> gone) (t_parts db)\<rparr>))))"

definition update_obs :: "(obs_row \<Rightarrow> bool) \<Rightarrow> (obs_row \<Rightarrow> obs_row) \<Rightarrow> ev_db \<Rightarrow> ev_db" where
  "update_obs P f db = db\<lparr>t_obs := map (\<lambda>r. if P r then f r else r) (t_obs db)\<rparr>"

text \<open>A new primary key, followed by every reference to the old one.\<close>

definition rename :: "string \<Rightarrow> string \<Rightarrow> string \<Rightarrow> string" where
  "rename old new i = (if i = old then new else i)"

definition rename_obs :: "string \<Rightarrow> string \<Rightarrow> ev_db \<Rightarrow> ev_db" where
  "rename_obs old new db =
     \<lparr>t_obs = map (ob_id_update (rename old new)) (t_obs db),
      t_parts = map (pr_obs_update (rename old new)) (t_parts db),
      t_chunks = map (ck_obs_update (rename old new)) (t_chunks db),
      t_grants = map (gr_evidence_update (rename old new)) (t_grants db),
      t_cursors = map (cu_evidence_update (rename old new)) (t_cursors db)\<rparr>"

section \<open>Expiry\<close>

definition stale :: "int \<Rightarrow> obs_row \<Rightarrow> bool" where
  "stale now r \<longleftrightarrow> ob_status r = STATUS_COMPLETE \<and> ob_expires r \<le> now"

definition stale_ids :: "int \<Rightarrow> ev_db \<Rightarrow> string set" where
  "stale_ids now db = ob_id ` set (filter (stale now) (t_obs db))"

definition expire_rows :: "ev_env \<Rightarrow> nat \<Rightarrow> int \<Rightarrow> int \<Rightarrow> ev_db \<Rightarrow> (ev_db, EvidenceError) result" where
  "expire_rows env k now cutoff db =
     res_bind (sql env k (delete_obs (\<lambda>r. ob_status r = STATUS_UPLOADING \<and> ob_expires r \<le> now) db)) (\<lambda>db.
     res_bind (sql env (k + 1) (delete_cursors (\<lambda>c. cu_evidence c \<in> stale_ids now db) db)) (\<lambda>db.
     res_bind (sql env (k + 2) (delete_chunks (\<lambda>c. ck_obs c \<in> stale_ids now db) db)) (\<lambda>db.
     res_bind (sql env (k + 3) (update_obs (stale now)
       (\<lambda>r. r\<lparr>ob_status := STATUS_EXPIRED, ob_pinned := False\<rparr>) db)) (\<lambda>db.
     res_bind (sql env (k + 4) (delete_grants (\<lambda>g. gr_expires g \<le> now) db)) (\<lambda>db.
     sql env (k + 5) (delete_obs (\<lambda>r. ob_status r \<in> {STATUS_EXPIRED, STATUS_RELEASED}
       \<and> ob_expires r \<le> cutoff) db))))))"

end
