(* ===== verification/EvidenceStore.thy ===== *)
theory EvidenceStore
  imports EvidenceDb
begin

text \<open>
  The operations of the evidence store, \<open>Store<B>\<close> of
  \<open>crates/tdmcp-daemon/src/evidence_store.rs\<close>: a state is the database and the
  content-addressed chunk blobs (\<open>MemoryBlobs\<close>; the disk backend keeps the same map in files).
  Each operation is one definition over that state; a statement is numbered in the order the
  call issues it.  The two mutexes make a call atomic, except that the calls which do not take
  the filesystem gate may run between the two database sections of another; the constraints and
  the \<open>changed\<close> counts that catch this are part of the definitions.
\<close>

record ev_store =
  es_db :: ev_db
  es_blobs :: "string \<Rightarrow> string option"

definition memory_store_new :: "EvidenceStoreConfig \<Rightarrow> (ev_store, EvidenceError) result" where
  "memory_store_new cfg =
     res_bind (config_validate cfg) (\<lambda>_. Ok \<lparr>es_db = empty_db, es_blobs = Map.empty\<rparr>)"

text \<open>An immediate transaction: its error rolls back, its success replaces the tables.\<close>

definition transact :: "ev_store \<Rightarrow> (ev_db \<Rightarrow> ('a \<times> ev_db, EvidenceError) result)
    \<Rightarrow> ('a, EvidenceError) result \<times> ev_store" where
  "transact st f =
     (case f (es_db st) of
        Ok (a, db) \<Rightarrow> (Ok a, st\<lparr>es_db := db\<rparr>)
      | Err e \<Rightarrow> (Err e, st))"

lemma transact_Ok: "transact st f = (Ok a, st') \<longleftrightarrow> (\<exists>db. f (es_db st) = Ok (a, db) \<and> st' = st\<lparr>es_db := db\<rparr>)"
  by (auto simp: transact_def split: result.splits)

lemma transact_Err: "transact st f = (Err e, st') \<longleftrightarrow> f (es_db st) = Err e \<and> st' = st"
  by (auto simp: transact_def split: result.splits)

section \<open>Chunk blobs\<close>

definition blob_put :: "ev_env \<Rightarrow> string \<Rightarrow> string \<Rightarrow> (string \<Rightarrow> string option)
    \<Rightarrow> (string \<Rightarrow> string option, EvidenceError) result" where
  "blob_put env hash bytes blobs =
     res_bind (ev_fail env BlobWrite) (\<lambda>_.
     res_bind (ev_fail env BlobPublish) (\<lambda>_.
     case blobs hash of
       Some existing \<Rightarrow> if existing \<noteq> bytes then Err Corrupt else Ok blobs
     | None \<Rightarrow> Ok (blobs(hash \<mapsto> bytes))))"

definition blob_get :: "string \<Rightarrow> u64 \<Rightarrow> (string \<Rightarrow> string option) \<Rightarrow> (string, EvidenceError) result" where
  "blob_get hash expected_len blobs =
     (case blobs hash of
        None \<Rightarrow> Err Corrupt
      | Some bytes \<Rightarrow> if len_u64 bytes \<noteq> expected_len then Err Corrupt else Ok bytes)"

definition remove_unreferenced :: "string set \<Rightarrow> (string \<Rightarrow> string option) \<Rightarrow> (string \<Rightarrow> string option)" where
  "remove_unreferenced referenced blobs = (\<lambda>h. if h \<in> referenced then blobs h else None)"

definition chunk_rows :: "ev_db \<Rightarrow> string \<Rightarrow> string \<Rightarrow> chunk_row list" where
  "chunk_rows db i p = sort_key ck_ordinal (part_chunks db i p)"

definition checked_chunk :: "codec \<Rightarrow> (string \<Rightarrow> string option) \<Rightarrow> chunk_row \<Rightarrow> (string, EvidenceError) result" where
  "checked_chunk cd blobs r =
     res_bind (blob_get (ck_hash r) (ck_len r) blobs) (\<lambda>bytes.
     res_bind (fail_if (len_u64 bytes \<noteq> ck_len r \<or> sha256_hex cd bytes \<noteq> ck_hash r) Corrupt) (\<lambda>_.
     Ok bytes))"

definition cleanup_orphans :: "ev_env \<Rightarrow> nat \<Rightarrow> ev_store \<Rightarrow> (unit, EvidenceError) result \<times> ev_store" where
  "cleanup_orphans env k st =
     (case sql env k (ck_hash ` set (t_chunks (es_db st))) of
        Err e \<Rightarrow> (Err e, st)
      | Ok referenced \<Rightarrow> (Ok (), st\<lparr>es_blobs := remove_unreferenced referenced (es_blobs st)\<rparr>))"

section \<open>Loading rows\<close>

definition load_observation_header :: "ev_env \<Rightarrow> nat \<Rightarrow> string \<Rightarrow> ev_db
    \<Rightarrow> (string \<times> OwnerId \<times> int, EvidenceError) result" where
  "load_observation_header env k i db =
     res_bind (sql env k (find_obs db i)) (\<lambda>row.
     case row of
       None \<Rightarrow> Err NotFound
     | Some r \<Rightarrow> res_bind (parse_owner (ob_owner r)) (\<lambda>owner. Ok (ob_status r, owner, ob_expires r)))"

definition kind_name :: "PartKind \<Rightarrow> string" where
  "kind_name k = (case k of KindUtf8 \<Rightarrow> ''utf8'' | KindBinary \<Rightarrow> ''binary'')"

definition load_part_row :: "ev_env \<Rightarrow> nat \<Rightarrow> codec \<Rightarrow> string \<Rightarrow> string \<Rightarrow> ev_db
    \<Rightarrow> (PartManifest, EvidenceError) result" where
  "load_part_row env k cd i p db =
     res_bind (sql env k (find_part db i p)) (\<lambda>row.
     case row of
       None \<Rightarrow> Err NotFound
     | Some r \<Rightarrow>
         res_bind (if pr_kind r = ''utf8'' then Ok KindUtf8
                   else if pr_kind r = ''binary'' then Ok KindBinary
                   else Err (UnknownRepresentation (pr_kind r))) (\<lambda>kind.
         res_bind (case pr_layout r of None \<Rightarrow> Ok None
                   | Some v \<Rightarrow> map_ok Some (map_err json_error (layout_of cd v))) (\<lambda>layout.
         res_bind (map_err json_error (json_of cd (pr_metadata r))) (\<lambda>metadata.
         res_bind (map_err json_error (json_of cd (pr_coverage r))) (\<lambda>coverage.
         Ok \<lparr>pm_name = p, pm_content_type = pr_content_type r,
             pm_content_encoding = pr_content_encoding r, pm_kind = kind, pm_bytes = pr_len r,
             pm_sha256 = pr_sha r, pm_layout = layout, pm_metadata = metadata,
             pm_coverage = coverage\<rparr>)))))"

fun load_parts :: "ev_env \<Rightarrow> nat \<Rightarrow> codec \<Rightarrow> string \<Rightarrow> string set option \<Rightarrow> string list \<Rightarrow> ev_db
    \<Rightarrow> (PartManifest list, EvidenceError) result" where
  "load_parts env k cd i allowed [] db = Ok []"
| "load_parts env k cd i allowed (n # ns) db =
     (if (case allowed of None \<Rightarrow> True | Some a \<Rightarrow> n \<in> a) then
        res_bind (load_part_row env k cd i n db) (\<lambda>p.
        res_bind (load_parts env (k + 1) cd i allowed ns db) (\<lambda>ps. Ok (p # ps)))
      else load_parts env k cd i allowed ns db)"

definition load_record :: "ev_env \<Rightarrow> nat \<Rightarrow> codec \<Rightarrow> EvidenceId \<Rightarrow> string set option \<Rightarrow> ev_db
    \<Rightarrow> (EvidenceRecord, EvidenceError) result" where
  "load_record env k cd i allowed db =
     res_bind (sql env k (find_obs db i)) (\<lambda>row.
     case row of
       None \<Rightarrow> Err (Backend (ev_message env))
     | Some r \<Rightarrow>
         res_bind (sql env (k + 1) (map pr_name
           (sort_key pr_ordinal (filter (\<lambda>q. pr_obs q = i) (t_parts db))))) (\<lambda>names.
         res_bind (load_parts env (k + 2) cd i allowed names db) (\<lambda>ps.
         res_bind (parse_owner (ob_owner r)) (\<lambda>owner.
         res_bind (map_err json_error (json_of cd (ob_metadata r))) (\<lambda>metadata.
         res_bind (map_err json_error (json_of cd (ob_coverage r))) (\<lambda>coverage.
         Ok \<lparr>er_evidence_id = i, er_owner = owner, er_created = ob_created r,
             er_expires = ob_expires r, er_pinned = ob_pinned r, er_bytes = ob_reserved r,
             er_metadata = metadata, er_coverage = coverage, er_parts = ps,
             er_complete = (ob_status r = STATUS_COMPLETE)\<rparr>))))))"

section \<open>Authorization\<close>

definition require_upload_owner :: "ev_env \<Rightarrow> nat \<Rightarrow> OwnerId \<Rightarrow> OwnerId \<Rightarrow> string \<Rightarrow> int
    \<Rightarrow> (unit, EvidenceError) result" where
  "require_upload_owner env k owner actual status expires =
     res_bind (fail_if (owner \<noteq> actual) AccessDenied) (\<lambda>_.
     res_bind (now_ms env k) (\<lambda>now.
     res_bind (fail_if (expires \<le> now) Expired) (\<lambda>_.
     fail_if (status \<noteq> STATUS_UPLOADING) AlreadyFinalized)))"

definition check_readable_status :: "string \<Rightarrow> int \<Rightarrow> int \<Rightarrow> (unit, EvidenceError) result" where
  "check_readable_status status expires now =
     (if status = STATUS_RELEASED then Err Released
      else if status = STATUS_EXPIRED then Err Expired
      else if status = STATUS_COMPLETE \<and> expires \<le> now then Err Expired
      else if status = STATUS_COMPLETE then Ok ()
      else Err (EvIncomplete ''observation is not committed''))"

lemma check_readable_status_Ok [simp]:
  "check_readable_status s e now = Ok u \<longleftrightarrow> s = STATUS_COMPLETE \<and> now < e"
  by (auto simp: check_readable_status_def status_defs)

definition require_owned_complete :: "OwnerId \<Rightarrow> string \<Rightarrow> string \<Rightarrow> int \<Rightarrow> int
    \<Rightarrow> (unit, EvidenceError) result" where
  "require_owned_complete owner actual status expires now =
     res_bind (fail_if (owner \<noteq> actual) AccessDenied) (\<lambda>_.
     check_readable_status status expires now)"

record Access =
  ax_grant :: "string option"
  ax_parts :: "string set option"

definition covers :: "string set option \<Rightarrow> string \<Rightarrow> bool" where
  "covers allowed name \<longleftrightarrow> (case allowed of None \<Rightarrow> True | Some a \<Rightarrow> name \<in> a)"

text \<open>The loop of \<open>authorize\<close> over the reader's live grants, longest lived first.\<close>

fun authorize_rows :: "codec \<Rightarrow> string option \<Rightarrow> string set option \<Rightarrow> bool \<Rightarrow> grant_row list
    \<Rightarrow> (Access, EvidenceError) result" where
  "authorize_rows cd part un unbounded [] =
     (if unbounded then Ok \<lparr>ax_grant = None, ax_parts = None\<rparr>
      else (case un of None \<Rightarrow> Err AccessDenied | Some ps \<Rightarrow> Ok \<lparr>ax_grant = None, ax_parts = Some ps\<rparr>))"
| "authorize_rows cd part un unbounded (g # gs) =
     res_bind (map_err json_error (scope_of cd (gr_scope g))) (\<lambda>sc.
     case part of
       Some name \<Rightarrow>
         if covers (scope_parts sc) name then Ok \<lparr>ax_grant = Some (gr_id g), ax_parts = scope_parts sc\<rparr>
         else authorize_rows cd part un unbounded gs
     | None \<Rightarrow>
         (case (un, scope_parts sc) of
            (_, None) \<Rightarrow> authorize_rows cd part un True gs
          | (None, Some a) \<Rightarrow> authorize_rows cd part (Some a) unbounded gs
          | (Some acc, Some a) \<Rightarrow> authorize_rows cd part (Some (acc \<union> a)) unbounded gs))"

definition live_grants :: "ev_db \<Rightarrow> OwnerId \<Rightarrow> EvidenceId \<Rightarrow> int \<Rightarrow> grant_row list" where
  "live_grants db reader i now =
     sort_key (\<lambda>g. - gr_expires g)
       (filter (\<lambda>g. gr_evidence g = i \<and> gr_grantee g = reader \<and> \<not> gr_revoked g \<and> now < gr_expires g)
         (t_grants db))"

definition authorize :: "ev_env \<Rightarrow> nat \<Rightarrow> codec \<Rightarrow> OwnerId \<Rightarrow> EvidenceId \<Rightarrow> string option \<Rightarrow> int \<Rightarrow> ev_db
    \<Rightarrow> (Access, EvidenceError) result" where
  "authorize env k cd reader i part now db =
     res_bind (sql env k (find_obs db i)) (\<lambda>row.
     case row of
       None \<Rightarrow> Err NotFound
     | Some r \<Rightarrow>
         res_bind (check_readable_status (ob_status r) (ob_expires r) now) (\<lambda>_.
         if ob_owner r = reader then Ok \<lparr>ax_grant = None, ax_parts = None\<rparr>
         else
           res_bind (sql env (k + 1) (live_grants db reader i now)) (\<lambda>gs.
           authorize_rows cd part None False gs)))"

definition authorize_exact_grant :: "ev_env \<Rightarrow> nat \<Rightarrow> codec \<Rightarrow> OwnerId \<Rightarrow> EvidenceId \<Rightarrow> string option \<Rightarrow> int
    \<Rightarrow> string option \<Rightarrow> ev_db \<Rightarrow> (Access, EvidenceError) result" where
  "authorize_exact_grant env k cd reader i part now expected db =
     (case expected of
        None \<Rightarrow>
          res_bind (authorize env k cd reader i part now db) (\<lambda>access.
          res_bind (fail_if (ax_grant access \<noteq> None) InvalidCursor) (\<lambda>_. Ok access))
      | Some gid \<Rightarrow>
          res_bind (sql env k (case find (\<lambda>g. gr_id g = gid) (t_grants db) of
              None \<Rightarrow> None
            | Some g \<Rightarrow> map_option (Pair g) (find_obs db (gr_evidence g)))) (\<lambda>row.
          case row of
            None \<Rightarrow> Err InvalidCursor
          | Some (g, r) \<Rightarrow>
              res_bind (check_readable_status (ob_status r) (ob_expires r) now) (\<lambda>_.
              res_bind (fail_if (gr_grantee g \<noteq> reader \<or> gr_evidence g \<noteq> i \<or> gr_revoked g
                \<or> gr_expires g \<le> now) InvalidCursor) (\<lambda>_.
              res_bind (map_err json_error (scope_of cd (gr_scope g))) (\<lambda>sc.
              res_bind (fail_if (case part of None \<Rightarrow> False
                | Some name \<Rightarrow> \<not> covers (scope_parts sc) name) InvalidCursor) (\<lambda>_.
              Ok \<lparr>ax_grant = Some gid, ax_parts = scope_parts sc\<rparr>))))))"

definition load_owned_record :: "ev_env \<Rightarrow> nat \<Rightarrow> codec \<Rightarrow> OwnerId \<Rightarrow> EvidenceId \<Rightarrow> int \<Rightarrow> ev_db
    \<Rightarrow> (EvidenceRecord, EvidenceError) result" where
  "load_owned_record env k cd owner i now db =
     res_bind (authorize env k cd owner i None now db) (\<lambda>access.
     res_bind (fail_if (ax_grant access \<noteq> None) AccessDenied) (\<lambda>_.
     load_record env (k + 2) cd i None db))"

section \<open>Uploading\<close>

fun insert_parts :: "ev_env \<Rightarrow> nat \<Rightarrow> codec \<Rightarrow> UploadId \<Rightarrow> nat \<Rightarrow> PartManifest list \<Rightarrow> ev_db
    \<Rightarrow> (ev_db, EvidenceError) result" where
  "insert_parts env k cd u ordinal [] db = Ok db"
| "insert_parts env k cd u ordinal (p # ps) db =
     res_bind (case pm_layout p of None \<Rightarrow> Ok None
       | Some l \<Rightarrow> map_ok Some (json_string (layout_to cd l))) (\<lambda>layout.
     res_bind (json_string (json_to cd (pm_metadata p))) (\<lambda>metadata.
     res_bind (json_string (json_to cd (pm_coverage p))) (\<lambda>coverage.
     res_bind (to_sql env (pm_bytes p)) (\<lambda>expected_len.
     res_bind (insert_part env k \<lparr>pr_obs = u, pr_name = pm_name p, pr_ordinal = ordinal,
       pr_content_type = pm_content_type p, pr_content_encoding = pm_content_encoding p,
       pr_kind = kind_name (pm_kind p), pr_len = expected_len, pr_sha = pm_sha256 p,
       pr_layout = layout, pr_metadata = metadata, pr_coverage = coverage,
       pr_finalized = False\<rparr> db) (\<lambda>db.
     insert_parts env (k + 1) cd u (ordinal + 1) ps db)))))"

definition admit_observation :: "EvidenceStoreConfig \<Rightarrow> codec \<Rightarrow> ReserveObservation
    \<Rightarrow> (u64, EvidenceError) result" where
  "admit_observation cfg cd req =
     res_bind (validate_ttl (ro_ttl req) (max_ttl cfg)) (\<lambda>_.
     res_bind (fail_if (ro_parts req = [])
       (InvalidInput ''an observation requires at least one part'')) (\<lambda>_.
     res_bind (fail_if (unat (max_parts_per_observation cfg) < length (ro_parts req))
       (QuotaExceeded ''observation part-count limit exceeded'')) (\<lambda>_.
     res_bind (json_size_bounded (json_to cd (ro_metadata req)) (max_metadata_bytes cfg)
       ''observation metadata'') (\<lambda>meta.
     res_bind (add_metadata meta (json_size_bounded (json_to cd (ro_coverage req))
       (max_metadata_bytes cfg) ''observation coverage'')) (\<lambda>meta.
     res_bind (admit_parts cfg cd {} 0 meta (ro_parts req)) (\<lambda>(tot, meta).
     res_bind (fail_if (max_observation_bytes cfg < tot)
       (QuotaExceeded ''observation limit exceeded'')) (\<lambda>_.
     res_bind (fail_if (max_observation_metadata_bytes cfg < meta)
       (QuotaExceeded ''observation metadata byte limit exceeded'')) (\<lambda>_.
     Ok tot))))))))"

definition owner_active :: "OwnerId \<Rightarrow> ev_db \<Rightarrow> obs_row list" where
  "owner_active owner db = filter (\<lambda>r. ob_owner r = owner \<and> active r) (t_obs db)"

definition all_active :: "ev_db \<Rightarrow> obs_row list" where
  "all_active db = filter active (t_obs db)"

definition reserve_tx :: "ev_env \<Rightarrow> EvidenceStoreConfig \<Rightarrow> codec \<Rightarrow> OwnerId \<Rightarrow> ReserveObservation
    \<Rightarrow> u64 \<Rightarrow> int \<Rightarrow> int \<Rightarrow> UploadId \<Rightarrow> ev_db \<Rightarrow> (Reservation \<times> ev_db, EvidenceError) result" where
  "reserve_tx env cfg cd owner req tot now expires u db =
     res_bind (subtract_duration now (tombstone_ttl cfg)) (\<lambda>cutoff.
     res_bind (expire_rows env 0 now cutoff db) (\<lambda>db.
     res_bind (sql_sum env 6 (map ob_reserved (owner_active owner db))) (\<lambda>owner_used.
     res_bind (sql_sum env 7 (map ob_reserved (all_active db))) (\<lambda>total_used.
     res_bind (fail_if (max_owner_bytes cfg < saturating_add owner_used tot)
       (QuotaExceeded ''owner logical byte limit exceeded'')) (\<lambda>_.
     res_bind (fail_if (max_total_bytes cfg < saturating_add total_used tot)
       (QuotaExceeded ''store logical byte limit exceeded'')) (\<lambda>_.
     res_bind (sql env 8 (length (filter (\<lambda>r. ob_owner r = owner) (t_obs db)))) (\<lambda>owner_observations.
     res_bind (sql env 9 (length (t_obs db))) (\<lambda>total_observations.
     res_bind (fail_if (unat (max_owner_observations cfg) \<le> owner_observations)
       (QuotaExceeded ''owner observation-count limit exceeded'')) (\<lambda>_.
     res_bind (fail_if (unat (max_total_observations cfg) \<le> total_observations)
       (QuotaExceeded ''store observation-count limit exceeded'')) (\<lambda>_.
     res_bind (json_string (json_to cd (ro_metadata req))) (\<lambda>metadata.
     res_bind (json_string (json_to cd (ro_coverage req))) (\<lambda>coverage.
     res_bind (to_sql env tot) (\<lambda>reserved.
     res_bind (insert_obs env 10 \<lparr>ob_id = u, ob_owner = owner, ob_status = STATUS_UPLOADING,
       ob_created = now, ob_expires = expires, ob_pinned = False, ob_reserved = reserved,
       ob_metadata = metadata, ob_coverage = coverage\<rparr> db) (\<lambda>db.
     res_bind (insert_parts env 11 cd u 0 (ro_parts req) db) (\<lambda>db.
     res_bind (sql env (11 + length (ro_parts req)) ()) (\<lambda>_.
     Ok (\<lparr>rs_upload_id = u, rs_reserved_bytes = tot, rs_max_chunk_bytes = max_chunk_bytes cfg\<rparr>,
       db)))))))))))))))))"

definition reserve_call :: "ev_env \<Rightarrow> EvidenceStoreConfig \<Rightarrow> codec \<Rightarrow> OwnerId \<Rightarrow> ReserveObservation \<Rightarrow> ev_db
    \<Rightarrow> (Reservation \<times> ev_db, EvidenceError) result" where
  "reserve_call env cfg cd owner req db =
     res_bind (admit_observation cfg cd req) (\<lambda>tot.
     res_bind (now_ms env 0) (\<lambda>now.
     res_bind (add_duration now (ro_ttl req)) (\<lambda>expires.
     res_bind (parse_id ''UploadId'' (''u_'' @ ev_uuid env)) (\<lambda>u.
     reserve_tx env cfg cd owner req tot now expires u db))))"

definition reserve :: "ev_env \<Rightarrow> EvidenceStoreConfig \<Rightarrow> codec \<Rightarrow> OwnerId \<Rightarrow> ReserveObservation \<Rightarrow> ev_store
    \<Rightarrow> (Reservation, EvidenceError) result \<times> ev_store" where
  "reserve env cfg cd owner req st = transact st (reserve_call env cfg cd owner req)"

text \<open>The checks of \<open>append_chunk\<close> before the blob is written; returns the expected length of
  the part.\<close>

definition append_admit :: "ev_env \<Rightarrow> EvidenceStoreConfig \<Rightarrow> OwnerId \<Rightarrow> AppendChunk \<Rightarrow> ev_db
    \<Rightarrow> (u64, EvidenceError) result" where
  "append_admit env cfg owner req db =
     res_bind (validate_part_name (ac_part req)) (\<lambda>_.
     res_bind (fail_if (ac_bytes req = [] \<or> max_chunk_bytes cfg < len_u64 (ac_bytes req))
       TransferTooLarge) (\<lambda>_.
     res_bind (load_observation_header env 0 (ac_upload_id req) db) (\<lambda>(status, actual, expires).
     res_bind (require_upload_owner env 0 owner actual status expires) (\<lambda>_.
     res_bind (sql env 1 (find_part db (ac_upload_id req) (ac_part req))) (\<lambda>row.
     case row of
       None \<Rightarrow> Err NotFound
     | Some r \<Rightarrow>
         res_bind (sql_sum env 1 (map ck_len (part_chunks db (ac_upload_id req) (ac_part req)))) (\<lambda>next.
         res_bind (fail_if (pr_finalized r) AlreadyFinalized) (\<lambda>_.
         res_bind (fail_if (unat (max_chunks_per_part cfg)
             \<le> length (part_chunks db (ac_upload_id req) (ac_part req)))
           (QuotaExceeded ''part chunk-count limit exceeded'')) (\<lambda>_.
         res_bind (fail_if (ac_offset req \<noteq> next) (OffsetMismatch next (ac_offset req))) (\<lambda>_.
         res_bind (fail_if (2 ^ 64 \<le> length (ac_bytes req)) TransferTooLarge) (\<lambda>_.
         res_bind (fail_if (pr_len r < saturating_add next (len_u64 (ac_bytes req)))
           TransferTooLarge) (\<lambda>_.
         Ok (pr_len r))))))))))))"

definition append_tx :: "ev_env \<Rightarrow> EvidenceStoreConfig \<Rightarrow> AppendChunk \<Rightarrow> string \<Rightarrow> u64 \<Rightarrow> ev_db
    \<Rightarrow> (TransferProgress \<times> ev_db, EvidenceError) result" where
  "append_tx env cfg req hash expected_len db =
     (let chunks = part_chunks db (ac_upload_id req) (ac_part req); chunk_len = len_u64 (ac_bytes req) in
     res_bind (ev_fail env ChunkMetadata) (\<lambda>_.
     res_bind (sql_sum env 2 (map ck_len chunks)) (\<lambda>current.
     res_bind (fail_if (current \<noteq> ac_offset req) (OffsetMismatch current (ac_offset req))) (\<lambda>_.
     res_bind (sql env 3 (length chunks)) (\<lambda>ordinal.
     res_bind (fail_if (unat (max_chunks_per_part cfg) \<le> ordinal)
       (QuotaExceeded ''part chunk-count limit exceeded'')) (\<lambda>_.
     res_bind (to_sql env (ac_offset req)) (\<lambda>offset.
     res_bind (to_sql env chunk_len) (\<lambda>len.
     res_bind (insert_chunk env 4 \<lparr>ck_obs = ac_upload_id req, ck_part = ac_part req,
       ck_ordinal = ordinal, ck_offset = offset, ck_len = len, ck_hash = hash\<rparr> db) (\<lambda>db.
     res_bind (sql env 5 ()) (\<lambda>_.
     Ok (\<lparr>tp_next_offset = ac_offset req + chunk_len, tp_total_bytes = expected_len\<rparr>, db)))))))))))"

definition append_chunk :: "ev_env \<Rightarrow> EvidenceStoreConfig \<Rightarrow> codec \<Rightarrow> OwnerId \<Rightarrow> AppendChunk \<Rightarrow> ev_store
    \<Rightarrow> (TransferProgress, EvidenceError) result \<times> ev_store" where
  "append_chunk env cfg cd owner req st =
     (let hash = sha256_hex cd (ac_bytes req) in
      case append_admit env cfg owner req (es_db st) of
        Err e \<Rightarrow> (Err e, st)
      | Ok expected_len \<Rightarrow>
          (case blob_put env hash (ac_bytes req) (es_blobs st) of
             Err e \<Rightarrow> (Err e, st)
           | Ok blobs \<Rightarrow>
               transact (st\<lparr>es_blobs := blobs\<rparr>) (append_tx env cfg req hash expected_len)))"

fun sum_lens :: "u64 \<Rightarrow> chunk_row list \<Rightarrow> (u64, EvidenceError) result" where
  "sum_lens acc [] = Ok acc"
| "sum_lens acc (r # rs) =
     res_bind (checked_add acc (ck_len r) (Backend ''chunk length overflow'')) (\<lambda>a. sum_lens a rs)"

text \<open>The hashing loop of \<open>finalize_part\<close>: the validator's state and the bytes hashed so far.\<close>

fun hash_chunks :: "codec \<Rightarrow> (string \<Rightarrow> string option) \<Rightarrow> bool \<Rightarrow> string \<Rightarrow> string \<Rightarrow> chunk_row list
    \<Rightarrow> (string \<times> string, EvidenceError) result" where
  "hash_chunks cd blobs utf8 pending acc [] = Ok (pending, acc)"
| "hash_chunks cd blobs utf8 pending acc (r # rs) =
     res_bind (checked_chunk cd blobs r) (\<lambda>bytes.
     res_bind (if utf8 then validator_push pending bytes else Ok pending) (\<lambda>pending.
     hash_chunks cd blobs utf8 pending (acc @ bytes) rs))"

definition finalize_tx :: "ev_env \<Rightarrow> codec \<Rightarrow> OwnerId \<Rightarrow> UploadId \<Rightarrow> string \<Rightarrow> (string \<Rightarrow> string option)
    \<Rightarrow> ev_db \<Rightarrow> (unit \<times> ev_db, EvidenceError) result" where
  "finalize_tx env cd owner u part blobs db =
     res_bind (validate_part_name part) (\<lambda>_.
     res_bind (load_observation_header env 0 u db) (\<lambda>(status, actual, expires).
     res_bind (require_upload_owner env 0 owner actual status expires) (\<lambda>_.
     res_bind (sql env 1 (find_part db u part)) (\<lambda>row.
     case row of
       None \<Rightarrow> Err NotFound
     | Some r \<Rightarrow>
         res_bind (fail_if (pr_finalized r) AlreadyFinalized) (\<lambda>_.
         res_bind (sql env 2 (chunk_rows db u part)) (\<lambda>chunks.
         res_bind (sum_lens 0 chunks) (\<lambda>actual_len.
         res_bind (fail_if (actual_len \<noteq> pr_len r) (EvIncomplete (''part has '' @ show_nat (unat actual_len)
           @ '' of '' @ show_nat (unat (pr_len r)) @ '' bytes''))) (\<lambda>_.
         res_bind (hash_chunks cd blobs (pr_kind r = ''utf8'') [] [] chunks) (\<lambda>(pending, bytes).
         res_bind (if pr_kind r = ''utf8'' then validator_finish pending else Ok ()) (\<lambda>_.
         res_bind (fail_if (sha256_hex cd bytes \<noteq> pr_sha r) HashMismatch) (\<lambda>_.
         res_bind (sql env 3 (length (filter (\<lambda>q. pr_obs q = u \<and> pr_name q = part \<and> \<not> pr_finalized q)
           (t_parts db)))) (\<lambda>changed.
         res_bind (fail_if (changed \<noteq> 1) Conflict) (\<lambda>_.
         Ok ((), db\<lparr>t_parts := map (\<lambda>q. if pr_obs q = u \<and> pr_name q = part \<and> \<not> pr_finalized q
           then q\<lparr>pr_finalized := True\<rparr> else q) (t_parts db)\<rparr>))))))))))))))"

definition finalize_part :: "ev_env \<Rightarrow> codec \<Rightarrow> OwnerId \<Rightarrow> UploadId \<Rightarrow> string \<Rightarrow> ev_store
    \<Rightarrow> (unit, EvidenceError) result \<times> ev_store" where
  "finalize_part env cd owner u part st = transact st (finalize_tx env cd owner u part (es_blobs st))"

section \<open>Committing and inspecting\<close>

definition inspect :: "ev_env \<Rightarrow> nat \<Rightarrow> nat \<Rightarrow> codec \<Rightarrow> OwnerId \<Rightarrow> EvidenceId \<Rightarrow> ev_store
    \<Rightarrow> (EvidenceRecord, EvidenceError) result" where
  "inspect env t k cd owner i st =
     res_bind (now_ms env t) (\<lambda>now.
     res_bind (authorize env k cd owner i None now (es_db st)) (\<lambda>access.
     load_record env (k + 2) cd i (ax_parts access) (es_db st)))"

text \<open>\<open>str::replacen\<close> with count 1 and a nonempty pattern.\<close>

fun replacen1 :: "string \<Rightarrow> string \<Rightarrow> string \<Rightarrow> string" where
  "replacen1 pat new [] = []"
| "replacen1 pat new (c # cs) =
     (if take (length pat) (c # cs) = pat then new @ drop (length pat) (c # cs)
      else c # replacen1 pat new cs)"

definition commit_tx :: "ev_env \<Rightarrow> OwnerId \<Rightarrow> UploadId \<Rightarrow> ev_db
    \<Rightarrow> (EvidenceId \<times> ev_db, EvidenceError) result" where
  "commit_tx env owner u db =
     res_bind (load_observation_header env 0 u db) (\<lambda>(status, actual, expires).
     res_bind (require_upload_owner env 0 owner actual status expires) (\<lambda>_.
     res_bind (sql env 1 (length (filter (\<lambda>p. pr_obs p = u \<and> \<not> pr_finalized p) (t_parts db)))) (\<lambda>incomplete.
     res_bind (fail_if (incomplete \<noteq> 0)
       (EvIncomplete (show_nat incomplete @ '' parts are not finalized''))) (\<lambda>_.
     res_bind (ev_fail env DatabaseFinalize) (\<lambda>_.
     res_bind (parse_id ''EvidenceId'' (replacen1 ''u_'' ''e_'' u)) (\<lambda>i.
     let hit = (\<lambda>r. ob_id r = u \<and> ob_owner r = owner \<and> ob_status r = STATUS_UPLOADING) in
     res_bind (sql env 2 (length (filter hit (t_obs db)))) (\<lambda>changed.
     res_bind (fail_if (changed \<noteq> 1) Conflict) (\<lambda>_.
     res_bind (constraint env (i = u \<or> i \<notin> ob_id ` set (t_obs db))) (\<lambda>_.
     Ok (i, rename_obs u i (update_obs hit (\<lambda>r. r\<lparr>ob_status := STATUS_COMPLETE\<rparr>) db)))))))))))"

definition reconcile_commit :: "ev_env \<Rightarrow> codec \<Rightarrow> OwnerId \<Rightarrow> UploadId \<Rightarrow> EvidenceId \<Rightarrow> string \<Rightarrow> ev_store
    \<Rightarrow> (EvidenceRecord, EvidenceError) result" where
  "reconcile_commit env cd owner u i commit_error st =
     (let status_of = (\<lambda>j. map_option ob_status
            (find (\<lambda>r. ob_id r = j \<and> ob_owner r = owner) (t_obs (es_db st)))) in
      case ev_sql env 3 of
        Some q \<Rightarrow> Err (CommitUncertain (''commit failed ('' @ commit_error
          @ ''); reconciliation failed ('' @ q @ '')''))
      | None \<Rightarrow>
          if status_of u = Some STATUS_UPLOADING then
            Err (Backend (''observation commit failed: '' @ commit_error))
          else (case ev_sql env 4 of
              Some q \<Rightarrow> Err (CommitUncertain (''commit failed ('' @ commit_error
                @ ''); committed-state reconciliation failed ('' @ q @ '')''))
            | None \<Rightarrow>
                if status_of i = Some STATUS_COMPLETE then inspect env 1 5 cd owner i st
                else Err (CommitUncertain
                  (''commit failed and observation state is unavailable: '' @ commit_error))))"

definition commit :: "ev_env \<Rightarrow> codec \<Rightarrow> OwnerId \<Rightarrow> UploadId \<Rightarrow> ev_store
    \<Rightarrow> (EvidenceRecord, EvidenceError) result \<times> ev_store" where
  "commit env cd owner u st =
     (case commit_tx env owner u (es_db st) of
        Err e \<Rightarrow> (Err e, st)
      | Ok (i, db) \<Rightarrow>
          (case ev_commit env of
             None \<Rightarrow> let st' = st\<lparr>es_db := db\<rparr> in (inspect env 1 5 cd owner i st', st')
           | Some (applied, m) \<Rightarrow>
               let st' = (if applied then st\<lparr>es_db := db\<rparr> else st) in
               (reconcile_commit env cd owner u i m st', st')))"

definition abort_tx :: "ev_env \<Rightarrow> OwnerId \<Rightarrow> UploadId \<Rightarrow> ev_db
    \<Rightarrow> (unit \<times> ev_db, EvidenceError) result" where
  "abort_tx env owner u db =
     res_bind (load_observation_header env 0 u db) (\<lambda>(status, actual, expires).
     res_bind (fail_if (actual \<noteq> owner) AccessDenied) (\<lambda>_.
     res_bind (fail_if (status \<noteq> STATUS_UPLOADING) AlreadyFinalized) (\<lambda>_.
     res_bind (sql env 1 ()) (\<lambda>_.
     Ok ((), delete_obs (\<lambda>r. ob_id r = u) db)))))"

definition abort :: "ev_env \<Rightarrow> OwnerId \<Rightarrow> UploadId \<Rightarrow> ev_store
    \<Rightarrow> (unit, EvidenceError) result \<times> ev_store" where
  "abort env owner u st =
     bind_st (transact st (abort_tx env owner u)) (\<lambda>_ st. cleanup_orphans env 2 st)"

section \<open>Reading\<close>

text \<open>\<open>read_range\<close>: the loop over the chunks in order, and the final length check.\<close>

fun range_bytes :: "codec \<Rightarrow> (string \<Rightarrow> string option) \<Rightarrow> u64 \<Rightarrow> u64 \<Rightarrow> string \<Rightarrow> chunk_row list
    \<Rightarrow> (string, EvidenceError) result" where
  "range_bytes cd blobs start stop output [] = Ok output"
| "range_bytes cd blobs start stop output (r # rs) =
     (let chunk_end = saturating_add (ck_offset r) (ck_len r) in
      if chunk_end \<le> start \<or> stop \<le> ck_offset r then range_bytes cd blobs start stop output rs
      else
        res_bind (checked_chunk cd blobs r) (\<lambda>bytes.
        let local_start = unat start - unat (ck_offset r);
            local_end = unat (min stop chunk_end) - unat (ck_offset r) in
        res_bind (fail_if (local_end < local_start \<or> length bytes < local_end) Corrupt) (\<lambda>_.
        range_bytes cd blobs start stop (output @ drop local_start (take local_end bytes)) rs)))"

definition read_range :: "ev_env \<Rightarrow> nat \<Rightarrow> codec \<Rightarrow> EvidenceId \<Rightarrow> string \<Rightarrow> u64 \<Rightarrow> u64 \<Rightarrow> ev_store
    \<Rightarrow> (string, EvidenceError) result" where
  "read_range env k cd i part start stop st =
     res_bind (sql env k (chunk_rows (es_db st) i part)) (\<lambda>rows.
     res_bind (range_bytes cd (es_blobs st) start stop [] rows) (\<lambda>output.
     res_bind (fail_if (length output \<noteq> unat stop - unat start) Corrupt) (\<lambda>_.
     Ok output)))"

text \<open>Where a read starts and under which grant: at its cursor, or at the beginning.\<close>

definition read_position :: "ev_env \<Rightarrow> codec \<Rightarrow> OwnerId \<Rightarrow> ReadRequest \<Rightarrow> int \<Rightarrow> ev_db
    \<Rightarrow> (u64 \<times> string option, EvidenceError) result" where
  "read_position env cd owner req now db =
     (case rr_cursor req of
        Some token \<Rightarrow>
          res_bind (sql env 0 (find (\<lambda>c. cu_token c = token) (t_cursors db))) (\<lambda>row.
          case row of
            None \<Rightarrow> Err InvalidCursor
          | Some c \<Rightarrow>
              res_bind (fail_if (cu_reader c \<noteq> owner
                \<or> cu_evidence c \<noteq> rr_evidence_id req
                \<or> cu_part c \<noteq> rr_part req
                \<or> cu_encoding c \<noteq> encoding_name (rr_encoding req)
                \<or> cu_projection c \<noteq> ''bytes''
                \<or> cu_page c \<noteq> rr_max_bytes req) InvalidCursor) (\<lambda>_.
              res_bind (authorize_exact_grant env 1 cd owner (rr_evidence_id req)
                (Some (rr_part req)) now (cu_grant c) db) (\<lambda>access.
              Ok (cu_next c, ax_grant access))))
      | None \<Rightarrow>
          res_bind (authorize env 1 cd owner (rr_evidence_id req) (Some (rr_part req)) now db) (\<lambda>access.
          Ok (0, ax_grant access)))"

text \<open>The bytes of a page: the requested range, cut back to a character boundary for text.\<close>

definition page_bytes :: "ev_env \<Rightarrow> codec \<Rightarrow> ReadRequest \<Rightarrow> PartManifest \<Rightarrow> u64 \<Rightarrow> ev_store
    \<Rightarrow> (string, EvidenceError) result" where
  "page_bytes env cd req manifest start st =
     (let requested_end = min (saturating_add start (rr_max_bytes req)) (pm_bytes manifest) in
      res_bind (read_range env 4 cd (rr_evidence_id req) (rr_part req) start requested_end st) (\<lambda>bytes.
      res_bind (if rr_encoding req = EncUtf8 \<and> requested_end < pm_bytes manifest then
          let bytes = trim_utf8 bytes in
          res_bind (fail_if (bytes = [] \<and> start < pm_bytes manifest)
            (InvalidInput ''maxBytes is too small for the next UTF-8 code point'')) (\<lambda>_. Ok bytes)
        else Ok bytes) (\<lambda>bytes.
      res_bind (fail_if (rr_encoding req = EncUtf8 \<and> from_utf8 bytes \<noteq> Utf8Ok) Corrupt) (\<lambda>_.
      Ok bytes))))"

definition read_tx :: "ev_env \<Rightarrow> EvidenceStoreConfig \<Rightarrow> codec \<Rightarrow> OwnerId \<Rightarrow> ReadRequest \<Rightarrow> ev_store
    \<Rightarrow> ev_db \<Rightarrow> (EvidencePage \<times> ev_db, EvidenceError) result" where
  "read_tx env cfg cd owner req st db =
     res_bind (validate_part_name (rr_part req)) (\<lambda>_.
     res_bind (fail_if (rr_max_bytes req = 0 \<or> max_page_bytes cfg < rr_max_bytes req) TransferTooLarge) (\<lambda>_.
     res_bind (now_ms env 0) (\<lambda>now.
     res_bind (read_position env cd owner req now db) (\<lambda>(start, access_grant).
     res_bind (load_part_row env 3 cd (rr_evidence_id req) (rr_part req) db) (\<lambda>manifest.
     res_bind (fail_if (rr_encoding req = EncUtf8 \<and> pm_kind manifest \<noteq> KindUtf8)
       (InvalidInput ''UTF-8 representation requested for a binary part'')) (\<lambda>_.
     res_bind (fail_if (pm_bytes manifest < start) InvalidCursor) (\<lambda>_.
     res_bind (page_bytes env cd req manifest start st) (\<lambda>bytes.
     res_bind (fail_if (2 ^ 64 \<le> length bytes) TransferTooLarge) (\<lambda>_.
     let returned = len_u64 bytes; stop = start + returned; complete = (stop = pm_bytes manifest) in
     res_bind (if complete then Ok (None, db)
       else
         res_bind (parse_id ''EvidenceCursor'' (''c_'' @ ev_uuid env)) (\<lambda>token.
         res_bind (sql env 5 (length (filter (\<lambda>c. cu_reader c = owner) (t_cursors db)))) (\<lambda>cursor_count.
         res_bind (fail_if (unat (max_cursors_per_owner cfg) \<le> cursor_count)
           (QuotaExceeded ''reader cursor-count limit exceeded'')) (\<lambda>_.
         res_bind (to_sql env stop) (\<lambda>next.
         res_bind (to_sql env (rr_max_bytes req)) (\<lambda>page.
         res_bind (insert_cursor env 6 \<lparr>cu_token = token, cu_reader = owner,
           cu_evidence = rr_evidence_id req, cu_part = rr_part req,
           cu_encoding = encoding_name (rr_encoding req), cu_projection = ''bytes'',
           cu_next = next, cu_page = page, cu_grant = access_grant\<rparr> db) (\<lambda>db.
         res_bind (sql env 7 ()) (\<lambda>_.
         Ok (Some token, db))))))))) (\<lambda>(next_cursor, db).
     Ok (\<lparr>pg_evidence_id = rr_evidence_id req, pg_part = rr_part req,
          pg_content_type = pm_content_type manifest,
          pg_content_encoding = pm_content_encoding manifest,
          pg_byte_start = start, pg_byte_end = stop, pg_total_bytes = pm_bytes manifest,
          pg_returned_bytes = returned,
          pg_content = (case rr_encoding req of EncUtf8 \<Rightarrow> PageUtf8 bytes
             | EncBase64 \<Rightarrow> PageBase64 (base64 cd bytes)),
          pg_next_cursor = next_cursor, pg_complete = complete,
          pg_layout = pm_layout manifest\<rparr>, db)))))))))))"

definition read :: "ev_env \<Rightarrow> EvidenceStoreConfig \<Rightarrow> codec \<Rightarrow> OwnerId \<Rightarrow> ReadRequest \<Rightarrow> ev_store
    \<Rightarrow> (EvidencePage, EvidenceError) result \<times> ev_store" where
  "read env cfg cd owner req st = transact st (read_tx env cfg cd owner req st)"

section \<open>Leases and grants\<close>

definition pin_tx :: "ev_env \<Rightarrow> EvidenceStoreConfig \<Rightarrow> OwnerId \<Rightarrow> EvidenceId \<Rightarrow> duration \<Rightarrow> ev_db
    \<Rightarrow> (unit \<times> ev_db, EvidenceError) result" where
  "pin_tx env cfg owner i ttl db =
     res_bind (validate_ttl ttl (max_ttl cfg)) (\<lambda>_.
     res_bind (now_ms env 0) (\<lambda>now.
     res_bind (add_duration now ttl) (\<lambda>requested.
     res_bind (sql env 0 (find_obs db i)) (\<lambda>row.
     case row of
       None \<Rightarrow> Err NotFound
     | Some r \<Rightarrow>
         res_bind (require_owned_complete owner (ob_owner r) (ob_status r) (ob_expires r) now) (\<lambda>_.
         let new_expiry = max (ob_expires r) requested in
         res_bind (sql_sum env 1 (map ob_reserved (filter (\<lambda>q. ob_owner q = owner
           \<and> ob_status q = STATUS_COMPLETE \<and> ob_pinned q \<and> now < ob_expires q \<and> ob_id q \<noteq> i)
           (t_obs db)))) (\<lambda>pinned_used.
         res_bind (fail_if (max_pinned_bytes_per_owner cfg < saturating_add pinned_used (ob_reserved r))
           (QuotaExceeded ''owner pinned byte limit exceeded'')) (\<lambda>_.
         res_bind (sql env 2 ()) (\<lambda>_.
         res_bind (sql env 3 ()) (\<lambda>_.
         Ok ((), update_obs (\<lambda>q. ob_id q = i \<and> ob_status q = STATUS_COMPLETE)
           (\<lambda>q. q\<lparr>ob_expires := new_expiry, ob_pinned := True\<rparr>) db))))))))))"

definition pin :: "ev_env \<Rightarrow> EvidenceStoreConfig \<Rightarrow> codec \<Rightarrow> OwnerId \<Rightarrow> EvidenceId \<Rightarrow> duration \<Rightarrow> ev_store
    \<Rightarrow> (EvidenceRecord, EvidenceError) result \<times> ev_store" where
  "pin env cfg cd owner i ttl st =
     bind_st (transact st (pin_tx env cfg owner i ttl)) (\<lambda>_ st.
     (inspect env 1 4 cd owner i st, st))"

definition release_tx :: "ev_env \<Rightarrow> OwnerId \<Rightarrow> EvidenceId \<Rightarrow> ev_db
    \<Rightarrow> (unit \<times> ev_db, EvidenceError) result" where
  "release_tx env owner i db =
     res_bind (now_ms env 0) (\<lambda>now.
     res_bind (sql env 0 (find_obs db i)) (\<lambda>row.
     case row of
       None \<Rightarrow> Err NotFound
     | Some r \<Rightarrow>
         res_bind (require_owned_complete owner (ob_owner r) (ob_status r) (ob_expires r) now) (\<lambda>_.
         res_bind (sql env 1 (delete_chunks (\<lambda>c. ck_obs c = i) db)) (\<lambda>db.
         res_bind (sql env 2 (delete_grants (\<lambda>g. gr_evidence g = i) db)) (\<lambda>db.
         res_bind (sql env 3 (delete_cursors (\<lambda>c. cu_evidence c = i) db)) (\<lambda>db.
         res_bind (sql env 4 (update_obs (\<lambda>q. ob_id q = i)
           (\<lambda>q. q\<lparr>ob_status := STATUS_RELEASED, ob_pinned := False, ob_expires := now\<rparr>) db)) (\<lambda>db.
         res_bind (sql env 5 ()) (\<lambda>_.
         Ok ((), db)))))))))"

definition release :: "ev_env \<Rightarrow> OwnerId \<Rightarrow> EvidenceId \<Rightarrow> ev_store
    \<Rightarrow> (unit, EvidenceError) result \<times> ev_store" where
  "release env owner i st =
     bind_st (transact st (release_tx env owner i)) (\<lambda>_ st. cleanup_orphans env 6 st)"

definition grant_tx :: "ev_env \<Rightarrow> EvidenceStoreConfig \<Rightarrow> codec \<Rightarrow> OwnerId \<Rightarrow> GrantRequest \<Rightarrow> ev_db
    \<Rightarrow> (EvidenceGrant \<times> ev_db, EvidenceError) result" where
  "grant_tx env cfg cd owner req db =
     res_bind (validate_ttl (gq_ttl req) (max_ttl cfg)) (\<lambda>_.
     res_bind (fail_if (gq_grantee req = owner)
       (InvalidInput ''grant grantee must differ from owner'')) (\<lambda>_.
     res_bind (now_ms env 0) (\<lambda>now.
     res_bind (add_duration now (gq_ttl req)) (\<lambda>requested.
     res_bind (load_owned_record env 0 cd owner (gq_evidence_id req) now db) (\<lambda>record.
     let expires = min requested (er_expires record);
         k = 4 + length (er_parts record) in
     res_bind (fail_if (expires \<le> now) Expired) (\<lambda>_.
     res_bind (validate_grant_scope (gq_scope req) (er_parts record)) (\<lambda>_.
     res_bind (sql env k (delete_grants (\<lambda>g. gr_expires g \<le> now) db)) (\<lambda>db.
     res_bind (sql env (k + 1) (length (filter (\<lambda>g. gr_evidence g = gq_evidence_id req
       \<and> \<not> gr_revoked g \<and> now < gr_expires g) (t_grants db)))) (\<lambda>grant_count.
     res_bind (fail_if (unat (max_grants_per_evidence cfg) \<le> grant_count)
       (QuotaExceeded ''evidence grant-count limit exceeded'')) (\<lambda>_.
     res_bind (parse_id ''GrantId'' (''g_'' @ ev_uuid env)) (\<lambda>gid.
     res_bind (json_string (scope_to cd (gq_scope req))) (\<lambda>scope_json.
     res_bind (insert_grant env (k + 2) \<lparr>gr_id = gid, gr_evidence = gq_evidence_id req,
       gr_grantor = owner, gr_grantee = gq_grantee req, gr_scope = scope_json,
       gr_expires = expires, gr_revoked = False\<rparr> db) (\<lambda>db.
     res_bind (sql env (k + 3) ()) (\<lambda>_.
     Ok (\<lparr>eg_grant_id = gid, eg_evidence_id = gq_evidence_id req, eg_grantor = owner,
          eg_grantee = gq_grantee req, eg_scope = gq_scope req, eg_expires = expires\<rparr>,
       db)))))))))))))))"

definition grant :: "ev_env \<Rightarrow> EvidenceStoreConfig \<Rightarrow> codec \<Rightarrow> OwnerId \<Rightarrow> GrantRequest \<Rightarrow> ev_store
    \<Rightarrow> (EvidenceGrant, EvidenceError) result \<times> ev_store" where
  "grant env cfg cd owner req st = transact st (grant_tx env cfg cd owner req)"

definition revoke_grant_tx :: "ev_env \<Rightarrow> OwnerId \<Rightarrow> GrantId \<Rightarrow> ev_db
    \<Rightarrow> (unit \<times> ev_db, EvidenceError) result" where
  "revoke_grant_tx env owner gid db =
     res_bind (sql env 0 (find (\<lambda>g. gr_id g = gid) (t_grants db))) (\<lambda>row.
     case row of
       None \<Rightarrow> Err NotFound
     | Some g \<Rightarrow>
         res_bind (fail_if (gr_grantor g \<noteq> owner) AccessDenied) (\<lambda>_.
         res_bind (sql env 1 (delete_grants (\<lambda>g. gr_id g = gid) db)) (\<lambda>db.
         res_bind (sql env 2 ()) (\<lambda>_.
         Ok ((), db)))))"

definition revoke_grant :: "ev_env \<Rightarrow> OwnerId \<Rightarrow> GrantId \<Rightarrow> ev_store
    \<Rightarrow> (unit, EvidenceError) result \<times> ev_store" where
  "revoke_grant env owner gid st = transact st (revoke_grant_tx env owner gid)"

section \<open>Startup\<close>

definition reconcile_startup_tx :: "ev_env \<Rightarrow> EvidenceStoreConfig \<Rightarrow> ev_db
    \<Rightarrow> (unit \<times> ev_db, EvidenceError) result" where
  "reconcile_startup_tx env cfg db =
     res_bind (now_ms env 0) (\<lambda>now.
     res_bind (sql env 0 (delete_obs (\<lambda>r. ob_status r = STATUS_UPLOADING) db)) (\<lambda>db.
     res_bind (subtract_duration now (tombstone_ttl cfg)) (\<lambda>cutoff.
     res_bind (expire_rows env 1 now cutoff db) (\<lambda>db.
     res_bind (sql env 7 ()) (\<lambda>_.
     Ok ((), db))))))"

definition reconcile_startup :: "ev_env \<Rightarrow> EvidenceStoreConfig \<Rightarrow> ev_store
    \<Rightarrow> (unit, EvidenceError) result \<times> ev_store" where
  "reconcile_startup env cfg st =
     bind_st (transact st (reconcile_startup_tx env cfg)) (\<lambda>_ st. cleanup_orphans env 8 st)"

end
