(* ===== verification/EvidenceInv.thy ===== *)
theory EvidenceInv
  imports EvidenceStore
begin

text \<open>
  The invariant of the evidence store: keys and foreign keys of the five tables, the quotas, and
  the integrity of the content.  \<open>part_ok\<close> is the contract of one part: its chunks are
  contiguous from offset 0, stay within the declared length, their blobs are present with the
  recorded hash; a finalized part of an active observation has exactly the declared length and
  digest (and is UTF-8 if declared so); every part of a committed observation is finalized.
  Each primitive of the SQL layer preserves the invariant, and so does every operation.
\<close>

section \<open>The invariant\<close>

definition obs_ids :: "ev_db \<Rightarrow> string set" where
  "obs_ids db = ob_id ` set (t_obs db)"

definition part_key :: "part_row \<Rightarrow> string \<times> string" where
  "part_key p = (pr_obs p, pr_name p)"

definition keys_ok :: "ev_db \<Rightarrow> bool" where
  "keys_ok db \<longleftrightarrow>
     distinct (map ob_id (t_obs db))
     \<and> distinct (map part_key (t_parts db))
     \<and> (\<forall>p\<in>set (t_parts db). pr_obs p \<in> obs_ids db)
     \<and> (\<forall>c\<in>set (t_chunks db). (ck_obs c, ck_part c) \<in> part_key ` set (t_parts db))
     \<and> distinct (map gr_id (t_grants db))
     \<and> (\<forall>g\<in>set (t_grants db). gr_evidence g \<in> obs_ids db)
     \<and> (\<forall>c\<in>set (t_cursors db). cu_evidence c \<in> obs_ids db
          \<and> (\<forall>g. cu_grant c = Some g \<longrightarrow> g \<in> gr_id ` set (t_grants db)))"

text \<open>Chunks numbered from \<open>k\<close> and laid end to end from offset \<open>off\<close>.\<close>

fun contiguous :: "nat \<Rightarrow> nat \<Rightarrow> chunk_row list \<Rightarrow> bool" where
  "contiguous k off [] \<longleftrightarrow> True"
| "contiguous k off (c # cs) \<longleftrightarrow>
     ck_ordinal c = k \<and> unat (ck_offset c) = off \<and> contiguous (k + 1) (off + unat (ck_len c)) cs"

definition chunk_ok :: "codec \<Rightarrow> (string \<Rightarrow> string option) \<Rightarrow> chunk_row \<Rightarrow> bool" where
  "chunk_ok cd blobs c \<longleftrightarrow> (\<exists>b. blobs (ck_hash c) = Some b \<and> length b = unat (ck_len c)
     \<and> b \<noteq> [] \<and> sha256_hex cd b = ck_hash c)"

definition chunk_bytes :: "(string \<Rightarrow> string option) \<Rightarrow> chunk_row list \<Rightarrow> string" where
  "chunk_bytes blobs cs = concat (map (\<lambda>c. the (blobs (ck_hash c))) cs)"

definition lens :: "chunk_row list \<Rightarrow> nat" where
  "lens cs = sum_u64 (map ck_len cs)"

definition part_ok :: "EvidenceStoreConfig \<Rightarrow> codec \<Rightarrow> (string \<Rightarrow> string option) \<Rightarrow> string \<Rightarrow> part_row
    \<Rightarrow> chunk_row list \<Rightarrow> bool" where
  "part_ok cfg cd blobs status p cs \<longleftrightarrow>
     unat (pr_len p) < 2 ^ 63
     \<and> contiguous 0 0 cs
     \<and> lens cs \<le> unat (pr_len p)
     \<and> length cs \<le> unat (max_chunks_per_part cfg)
     \<and> (\<forall>c\<in>set cs. chunk_ok cd blobs c)
     \<and> (status \<in> {STATUS_UPLOADING, STATUS_COMPLETE} \<and> pr_finalized p \<longrightarrow>
          lens cs = unat (pr_len p) \<and> sha256_hex cd (chunk_bytes blobs cs) = pr_sha p
          \<and> (pr_kind p = ''utf8'' \<longrightarrow> valid_utf8 (chunk_bytes blobs cs)))
     \<and> (status = STATUS_COMPLETE \<longrightarrow> pr_finalized p)"

definition content_ok :: "EvidenceStoreConfig \<Rightarrow> codec \<Rightarrow> (string \<Rightarrow> string option) \<Rightarrow> ev_db \<Rightarrow> bool" where
  "content_ok cfg cd blobs db \<longleftrightarrow>
     (\<forall>r\<in>set (t_obs db). \<forall>p\<in>set (t_parts db). pr_obs p = ob_id r \<longrightarrow>
        part_ok cfg cd blobs (ob_status r) p (part_chunks db (ob_id r) (pr_name p)))"

definition quota_ok :: "EvidenceStoreConfig \<Rightarrow> ev_db \<Rightarrow> bool" where
  "quota_ok cfg db \<longleftrightarrow>
     (\<forall>owner. sum_u64 (map ob_reserved (owner_active owner db)) \<le> unat (max_owner_bytes cfg))
     \<and> sum_u64 (map ob_reserved (all_active db)) \<le> unat (max_total_bytes cfg)
     \<and> (\<forall>owner. length (filter (\<lambda>r. ob_owner r = owner) (t_obs db)) \<le> unat (max_owner_observations cfg))
     \<and> length (t_obs db) \<le> unat (max_total_observations cfg)
     \<and> (\<forall>i. length (filter (\<lambda>g. gr_evidence g = i) (t_grants db)) \<le> unat (max_grants_per_evidence cfg))
     \<and> (\<forall>reader. length (filter (\<lambda>c. cu_reader c = reader) (t_cursors db)) \<le> unat (max_cursors_per_owner cfg))"

definition owners_ok :: "ev_db \<Rightarrow> bool" where
  "owners_ok db \<longleftrightarrow> (\<forall>r\<in>set (t_obs db). parse_owner (ob_owner r) = Ok (ob_owner r))
     \<and> (\<forall>g\<in>set (t_grants db). \<not> gr_revoked g)"

definition db_inv :: "EvidenceStoreConfig \<Rightarrow> codec \<Rightarrow> (string \<Rightarrow> string option) \<Rightarrow> ev_db \<Rightarrow> bool" where
  "db_inv cfg cd blobs db \<longleftrightarrow> keys_ok db \<and> content_ok cfg cd blobs db \<and> quota_ok cfg db \<and> owners_ok db"

definition store_ok :: "EvidenceStoreConfig \<Rightarrow> codec \<Rightarrow> ev_store \<Rightarrow> bool" where
  "store_ok cfg cd st \<longleftrightarrow> db_inv cfg cd (es_blobs st) (es_db st)"

lemma db_invI:
  "keys_ok db \<Longrightarrow> content_ok cfg cd blobs db \<Longrightarrow> quota_ok cfg db \<Longrightarrow> owners_ok db \<Longrightarrow> db_inv cfg cd blobs db"
  by (simp add: db_inv_def)

lemma db_invD:
  assumes "db_inv cfg cd blobs db"
  shows "keys_ok db" "content_ok cfg cd blobs db" "quota_ok cfg db" "owners_ok db"
  using assms by (simp_all add: db_inv_def)

section \<open>Auxiliary facts\<close>

lemma sum_u64_simps [simp]: "sum_u64 [] = 0" "sum_u64 (v # vs) = unat v + sum_u64 vs"
  "sum_u64 (vs @ ws) = sum_u64 vs + sum_u64 ws"
  by (simp_all add: sum_u64_def)

lemma lens_simps [simp]: "lens [] = 0" "lens (c # cs) = unat (ck_len c) + lens cs"
  "lens (cs @ ds) = lens cs + lens ds"
  by (simp_all add: lens_def)

lemma sum_filter_mono:
  "(\<And>x. P x \<Longrightarrow> Q x) \<Longrightarrow> sum_u64 (map f (filter P xs)) \<le> sum_u64 (map f (filter Q xs))"
  by (induction xs) (auto simp: add_increasing)

lemma length_filter_mono: "(\<And>x. P x \<Longrightarrow> Q x) \<Longrightarrow> length (filter P xs) \<le> length (filter Q xs)"
  by (induction xs) auto

lemma contiguous_append:
  "contiguous k off (cs @ ds) \<longleftrightarrow> contiguous k off cs \<and> contiguous (k + length cs) (off + lens cs) ds"
  by (induction cs arbitrary: k off) (auto simp: add.assoc)

lemma contiguous_ordinals: "contiguous k off cs \<Longrightarrow> map ck_ordinal cs = [k..<k + length cs]"
proof (induction cs arbitrary: k off)
  case (Cons c cs)
  then have "map ck_ordinal cs = [k + 1..<k + 1 + length cs]" by (auto simp del: upt_Suc)
  moreover have "[k..<k + length (c # cs)] = k # [k + 1..<k + length (c # cs)]"
    by (subst upt_conv_Cons) simp_all
  ultimately show ?case using Cons.prems by (simp del: upt_Suc)
qed simp

lemma contiguous_sorted: "contiguous 0 0 cs \<Longrightarrow> sort_key ck_ordinal cs = cs"
  by (intro sort_key_id_if_sorted) (simp add: contiguous_ordinals del: map_map)

lemma find_Some_in: "find P xs = Some x \<Longrightarrow> x \<in> set xs \<and> P x"
  by (induction xs) (auto split: if_splits)

lemma find_unique:
  "distinct (map k xs) \<Longrightarrow> x \<in> set xs \<Longrightarrow> find (\<lambda>y. k y = k x) xs = Some x"
  by (induction xs) (auto simp: image_iff)

lemma find_obs_Some:
  "find_obs db i = Some r \<Longrightarrow> r \<in> set (t_obs db) \<and> ob_id r = i"
  by (auto simp: find_obs_def dest: find_Some_in)

lemma find_obs_eq:
  "distinct (map ob_id (t_obs db)) \<Longrightarrow> find_obs db i = Some r \<longleftrightarrow> r \<in> set (t_obs db) \<and> ob_id r = i"
proof -
  assume d: "distinct (map ob_id (t_obs db))"
  show ?thesis
  proof
    assume "r \<in> set (t_obs db) \<and> ob_id r = i"
    with find_unique [OF d, of r] show "find_obs db i = Some r" by (simp add: find_obs_def)
  qed (rule find_obs_Some)
qed

lemma find_obs_None: "find_obs db i = None \<longleftrightarrow> i \<notin> obs_ids db"
  by (auto simp: find_obs_def find_None_iff obs_ids_def)

lemma find_part_Some:
  "find_part db i p = Some r \<Longrightarrow> r \<in> set (t_parts db) \<and> pr_obs r = i \<and> pr_name r = p"
  by (auto simp: find_part_def dest: find_Some_in)

lemma find_part_eq:
  assumes "distinct (map part_key (t_parts db))"
  shows "find_part db i p = Some r \<longleftrightarrow> r \<in> set (t_parts db) \<and> pr_obs r = i \<and> pr_name r = p"
proof
  assume "r \<in> set (t_parts db) \<and> pr_obs r = i \<and> pr_name r = p"
  with find_unique [OF assms, of r] show "find_part db i p = Some r"
    by (auto simp: find_part_def part_key_def)
qed (rule find_part_Some)

lemma find_part_None: "find_part db i p = None \<longleftrightarrow> (i, p) \<notin> part_key ` set (t_parts db)"
  by (auto simp: find_part_def find_None_iff part_key_def)

lemma distinct_map_filter: "distinct (map f xs) \<Longrightarrow> distinct (map f (filter P xs))"
  by (induction xs) auto

lemma distinct_map_inj: "distinct (map f xs) \<Longrightarrow> x \<in> set xs \<Longrightarrow> y \<in> set xs \<Longrightarrow> f x = f y \<Longrightarrow> x = y"
  by (auto simp: distinct_map inj_on_def)

text \<open>An id is gone exactly when its one row is deleted.\<close>

lemma obs_ids_filter:
  assumes "distinct (map ob_id (t_obs db))"
  shows "ob_id ` set (filter (\<lambda>r. \<not> P r) (t_obs db)) = obs_ids db - ob_id ` set (filter P (t_obs db))"
  using distinct_map_inj [OF assms] by (force simp: obs_ids_def)

section \<open>Primitives and the keys\<close>

lemma delete_cursors_sel [simp]:
  "t_obs (delete_cursors P db) = t_obs db" "t_parts (delete_cursors P db) = t_parts db"
  "t_chunks (delete_cursors P db) = t_chunks db" "t_grants (delete_cursors P db) = t_grants db"
  "t_cursors (delete_cursors P db) = filter (\<lambda>c. \<not> P c) (t_cursors db)"
  by (simp_all add: delete_cursors_def)

lemma delete_chunks_sel [simp]:
  "t_obs (delete_chunks P db) = t_obs db" "t_parts (delete_chunks P db) = t_parts db"
  "t_chunks (delete_chunks P db) = filter (\<lambda>c. \<not> P c) (t_chunks db)"
  "t_grants (delete_chunks P db) = t_grants db" "t_cursors (delete_chunks P db) = t_cursors db"
  by (simp_all add: delete_chunks_def)

lemma delete_grants_sel [simp]:
  "t_obs (delete_grants P db) = t_obs db" "t_parts (delete_grants P db) = t_parts db"
  "t_chunks (delete_grants P db) = t_chunks db"
  "t_grants (delete_grants P db) = filter (\<lambda>g. \<not> P g) (t_grants db)"
  by (simp_all add: delete_grants_def Let_def)

lemma update_obs_sel [simp]:
  "t_obs (update_obs P f db) = map (\<lambda>r. if P r then f r else r) (t_obs db)"
  "t_parts (update_obs P f db) = t_parts db" "t_chunks (update_obs P f db) = t_chunks db"
  "t_grants (update_obs P f db) = t_grants db" "t_cursors (update_obs P f db) = t_cursors db"
  by (simp_all add: update_obs_def)

lemma delete_obs_sel [simp]:
  "t_obs (delete_obs P db) = filter (\<lambda>r. \<not> P r) (t_obs db)"
  "t_parts (delete_obs P db) = filter (\<lambda>p. pr_obs p \<notin> ob_id ` set (filter P (t_obs db))) (t_parts db)"
  "t_chunks (delete_obs P db) = filter (\<lambda>c. ck_obs c \<notin> ob_id ` set (filter P (t_obs db))) (t_chunks db)"
  "t_grants (delete_obs P db) = filter (\<lambda>g. gr_evidence g \<notin> ob_id ` set (filter P (t_obs db))) (t_grants db)"
  by (simp_all add: delete_obs_def Let_def)

lemma delete_grants_cursors:
  "set (t_cursors (delete_grants P db)) =
     {c \<in> set (t_cursors db). \<forall>g. cu_grant c = Some g \<longrightarrow> g \<notin> gr_id ` set (filter P (t_grants db))}"
  by (auto simp: delete_grants_def Let_def split: option.splits)

lemma delete_obs_cursors:
  "set (t_cursors (delete_obs P db)) =
     {c \<in> set (t_cursors db). cu_evidence c \<notin> ob_id ` set (filter P (t_obs db))
        \<and> (\<forall>g. cu_grant c = Some g \<longrightarrow> g \<notin> gr_id ` set (filter (\<lambda>g. gr_evidence g \<in> ob_id ` set (filter P (t_obs db))) (t_grants db)))}"
  by (auto simp: delete_obs_def Let_def delete_grants_cursors)

lemma keys_ok_delete_cursors: "keys_ok db \<Longrightarrow> keys_ok (delete_cursors P db)"
  by (auto simp: keys_ok_def obs_ids_def)

lemma keys_ok_delete_chunks: "keys_ok db \<Longrightarrow> keys_ok (delete_chunks P db)"
  by (auto simp: keys_ok_def obs_ids_def)

lemma keys_ok_cursor_grant:
  "keys_ok db \<Longrightarrow> c \<in> set (t_cursors db) \<Longrightarrow> cu_grant c = Some g \<Longrightarrow> g \<in> gr_id ` set (t_grants db)"
  unfolding keys_ok_def by blast

lemma keys_ok_delete_grants:
  assumes "keys_ok db" shows "keys_ok (delete_grants P db)"
proof -
  have "g \<in> gr_id ` set (filter (\<lambda>g. \<not> P g) (t_grants db))"
    if "c \<in> set (t_cursors (delete_grants P db))" "cu_grant c = Some g" for c g
  proof -
    from that have c: "c \<in> set (t_cursors db)" "g \<notin> gr_id ` set (filter P (t_grants db))"
      unfolding delete_grants_cursors by blast+
    from keys_ok_cursor_grant [OF assms c(1) that(2)] obtain r where "r \<in> set (t_grants db)" "gr_id r = g"
      by auto
    with c(2) show ?thesis by force
  qed
  moreover have "c \<in> set (t_cursors db)" if "c \<in> set (t_cursors (delete_grants P db))" for c
    using that by (auto simp: delete_grants_cursors)
  ultimately show ?thesis
    using assms by (simp add: keys_ok_def obs_ids_def distinct_map_filter)
qed

lemma keys_ok_delete_obs:
  assumes "keys_ok db" shows "keys_ok (delete_obs P db)"
proof -
  let ?gone = "ob_id ` set (filter P (t_obs db))"
  have d: "distinct (map ob_id (t_obs db))" using assms by (simp add: keys_ok_def)
  have ids: "obs_ids (delete_obs P db) = obs_ids db - ?gone"
    using obs_ids_filter [OF d, of P] by (simp add: obs_ids_def)
  have chunks: "(ck_obs c, ck_part c) \<in> part_key ` set (t_parts (delete_obs P db))"
    if "c \<in> set (t_chunks (delete_obs P db))" for c
  proof -
    from that assms obtain p where "p \<in> set (t_parts db)" "(ck_obs c, ck_part c) = part_key p" "ck_obs c \<notin> ?gone"
      by (auto simp: keys_ok_def)
    moreover from this have "pr_obs p \<notin> ?gone" by (simp add: part_key_def)
    ultimately show ?thesis by (auto intro!: image_eqI [of _ _ p])
  qed
  have curs: "cu_evidence c \<in> obs_ids (delete_obs P db)
      \<and> (\<forall>g. cu_grant c = Some g \<longrightarrow> g \<in> gr_id ` set (t_grants (delete_obs P db)))"
    if "c \<in> set (t_cursors (delete_obs P db))" for c
  proof -
    from that have c: "c \<in> set (t_cursors db)" "cu_evidence c \<notin> ?gone"
      and g: "\<And>g. cu_grant c = Some g \<Longrightarrow> g \<notin> gr_id ` set (filter (\<lambda>g. gr_evidence g \<in> ?gone) (t_grants db))"
      unfolding delete_obs_cursors by blast+
    have "g \<in> gr_id ` set (t_grants (delete_obs P db))" if "cu_grant c = Some g" for g
    proof -
      from keys_ok_cursor_grant [OF assms c(1) that] obtain r where "r \<in> set (t_grants db)" "gr_id r = g"
        by auto
      with g [OF that] show ?thesis by force
    qed
    moreover have "cu_evidence c \<in> obs_ids (delete_obs P db)"
      using c assms by (simp only: ids) (auto simp: keys_ok_def)
    ultimately show ?thesis by blast
  qed
  have "\<forall>p\<in>set (t_parts (delete_obs P db)). pr_obs p \<in> obs_ids (delete_obs P db)"
    "\<forall>g\<in>set (t_grants (delete_obs P db)). gr_evidence g \<in> obs_ids (delete_obs P db)"
    using assms unfolding ids by (auto simp: keys_ok_def)
  moreover have "distinct (map ob_id (t_obs (delete_obs P db)))"
    "distinct (map part_key (t_parts (delete_obs P db)))" "distinct (map gr_id (t_grants (delete_obs P db)))"
    using assms by (simp_all add: keys_ok_def distinct_map_filter)
  ultimately show ?thesis
    unfolding keys_ok_def using chunks curs by blast
qed

lemma keys_ok_update_obs:
  assumes "keys_ok db" "\<And>r. ob_id (f r) = ob_id r" shows "keys_ok (update_obs P f db)"
proof -
  have m: "map ob_id (t_obs (update_obs P f db)) = map ob_id (t_obs db)" using assms(2) by simp
  then have i: "obs_ids (update_obs P f db) = obs_ids db"
    unfolding obs_ids_def by (metis set_map)
  show ?thesis unfolding keys_ok_def m i using assms(1) by (simp add: keys_ok_def)
qed

lemma rename_inj:
  assumes "new = old \<or> new \<notin> A" "x \<in> A" "y \<in> A"
  shows "rename old new x = rename old new y \<longleftrightarrow> x = y"
  using assms by (auto simp: rename_def)

lemma rename_obs_sel [simp]:
  "t_obs (rename_obs old new db) = map (ob_id_update (rename old new)) (t_obs db)"
  "t_parts (rename_obs old new db) = map (pr_obs_update (rename old new)) (t_parts db)"
  "t_chunks (rename_obs old new db) = map (ck_obs_update (rename old new)) (t_chunks db)"
  "t_grants (rename_obs old new db) = map (gr_evidence_update (rename old new)) (t_grants db)"
  "t_cursors (rename_obs old new db) = map (cu_evidence_update (rename old new)) (t_cursors db)"
  by (simp_all add: rename_obs_def)

lemma obs_ids_rename: "obs_ids (rename_obs old new db) = rename old new ` obs_ids db"
  by (simp add: obs_ids_def image_image)

lemma keys_ok_rename:
  assumes k: "keys_ok db" and new: "new = old \<or> new \<notin> obs_ids db"
  shows "keys_ok (rename_obs old new db)"
proof -
  have inj: "inj_on (rename old new) (obs_ids db)"
    using rename_inj [OF new] by (auto intro: inj_onI)
  have "distinct (map ob_id (t_obs (rename_obs old new db)))"
  proof -
    have "map ob_id (t_obs (rename_obs old new db)) = map (rename old new) (map ob_id (t_obs db))" by simp
    then show ?thesis using k inj by (simp add: keys_ok_def distinct_map [of "rename old new"] obs_ids_def del: map_map)
  qed
  moreover have "distinct (map part_key (t_parts (rename_obs old new db)))"
  proof -
    have "inj_on (\<lambda>(i, n). (rename old new i, n)) (part_key ` set (t_parts db))"
      using k inj by (auto simp: inj_on_def part_key_def keys_ok_def)
    moreover have "map part_key (t_parts (rename_obs old new db))
        = map (\<lambda>(i, n). (rename old new i, n)) (map part_key (t_parts db))"
      by (simp add: part_key_def)
    ultimately show ?thesis
      using k by (simp add: keys_ok_def distinct_map [of "\<lambda>(i, n). (rename old new i, n)"] del: map_map)
  qed
  moreover have "(ck_obs c, ck_part c) \<in> part_key ` set (t_parts (rename_obs old new db))"
    if c: "c \<in> set (t_chunks (rename_obs old new db))" for c
  proof -
    from c obtain d where d: "d \<in> set (t_chunks db)" "c = ck_obs_update (rename old new) d" by auto
    from d(1) k obtain p where "p \<in> set (t_parts db)" "part_key p = (ck_obs d, ck_part d)"
      unfolding keys_ok_def by (metis imageE)
    with d(2) show ?thesis by (auto simp: part_key_def image_iff intro!: bexI [of _ p])
  qed
  moreover have "cu_evidence c \<in> obs_ids (rename_obs old new db)
      \<and> (\<forall>g. cu_grant c = Some g \<longrightarrow> g \<in> gr_id ` set (t_grants (rename_obs old new db)))"
    if "c \<in> set (t_cursors (rename_obs old new db))" for c
    using that k unfolding obs_ids_rename by (auto simp: keys_ok_def image_image)
  moreover have "distinct (map gr_id (t_grants (rename_obs old new db)))"
    using k by (simp add: keys_ok_def o_def)
  moreover have "\<forall>p\<in>set (t_parts (rename_obs old new db)). pr_obs p \<in> obs_ids (rename_obs old new db)"
    "\<forall>g\<in>set (t_grants (rename_obs old new db)). gr_evidence g \<in> obs_ids (rename_obs old new db)"
    using k unfolding obs_ids_rename by (auto simp: keys_ok_def)
  ultimately show ?thesis unfolding keys_ok_def by blast
qed

text \<open>Inserts keep the keys by their constraints.\<close>

lemma keys_ok_insert_obs:
  "insert_obs env k r db = Ok db' \<Longrightarrow> keys_ok db \<Longrightarrow> keys_ok db'"
  by (auto simp: insert_obs_def keys_ok_def obs_ids_def)

lemma keys_ok_insert_part:
  "insert_part env k r db = Ok db' \<Longrightarrow> keys_ok db \<Longrightarrow> keys_ok db'"
proof -
  assume ins: "insert_part env k r db = Ok db'" and k: "keys_ok db"
  from ins have "\<forall>q\<in>set (t_parts db). part_key q \<noteq> part_key r"
    by (auto simp: insert_part_def part_key_def)
  then have "part_key r \<notin> part_key ` set (t_parts db)" by (metis imageE)
  with ins k show "keys_ok db'" by (auto simp: insert_part_def keys_ok_def obs_ids_def)
qed

lemma keys_ok_insert_chunk:
  "insert_chunk env k r db = Ok db' \<Longrightarrow> keys_ok db \<Longrightarrow> keys_ok db'"
  using find_part_None [of db "ck_obs r" "ck_part r"] by (auto simp: insert_chunk_def keys_ok_def obs_ids_def)

lemma keys_ok_insert_grant:
  "insert_grant env k r db = Ok db' \<Longrightarrow> keys_ok db \<Longrightarrow> keys_ok db'"
  by (auto simp: insert_grant_def keys_ok_def obs_ids_def)

lemma keys_ok_insert_cursor:
  "insert_cursor env k r db = Ok db' \<Longrightarrow> keys_ok db \<Longrightarrow> keys_ok db'"
  by (auto simp: insert_cursor_def keys_ok_def obs_ids_def)

section \<open>Primitives and the quotas\<close>

lemma quota_ok_sub:
  assumes q: "quota_ok cfg db"
    and o: "t_obs db' = map f (filter Q (t_obs db))" "\<And>r. ob_reserved (f r) = ob_reserved r"
      "\<And>r. ob_owner (f r) = ob_owner r" "\<And>r. active (f r) \<Longrightarrow> active r"
    and g: "t_grants db' = filter G (t_grants db)" and c: "t_cursors db' = filter C (t_cursors db)"
  shows "quota_ok cfg db'"
proof -
  have o': "ob_reserved \<circ> f = ob_reserved" using o(2) by auto
  have 1: "sum_u64 (map ob_reserved (owner_active w db')) \<le> sum_u64 (map ob_reserved (owner_active w db))" for w
    unfolding owner_active_def o(1) by (simp add: filter_map o' o(3)) (intro sum_filter_mono, auto dest: o(4))
  have 2: "sum_u64 (map ob_reserved (all_active db')) \<le> sum_u64 (map ob_reserved (all_active db))"
    unfolding all_active_def o(1) by (simp add: filter_map o') (intro sum_filter_mono, auto dest: o(4))
  have 3: "length (filter (\<lambda>r. ob_owner r = w) (t_obs db')) \<le> length (filter (\<lambda>r. ob_owner r = w) (t_obs db))" for w
    unfolding o(1) by (simp add: filter_map o(3) o_def) (intro length_filter_mono, auto)
  have 4: "length (t_obs db') \<le> length (t_obs db)" by (simp add: o(1))
  have 5: "length (filter (\<lambda>x. gr_evidence x = i) (t_grants db')) \<le> length (filter (\<lambda>x. gr_evidence x = i) (t_grants db))" for i
    unfolding g by simp (intro length_filter_mono, auto)
  have 6: "length (filter (\<lambda>x. cu_reader x = i) (t_cursors db')) \<le> length (filter (\<lambda>x. cu_reader x = i) (t_cursors db))" for i
    unfolding c by simp (intro length_filter_mono, auto)
  show ?thesis
    using q 1 2 3 4 5 6 unfolding quota_ok_def by (meson le_trans)
qed

lemma t_cursors_delete_grants:
  "\<exists>C. t_cursors (delete_grants P db) = filter C (t_cursors db)"
  by (auto simp: delete_grants_def Let_def)

lemma t_cursors_delete_obs:
  "\<exists>C. t_cursors (delete_obs P db) = filter C (t_cursors db)"
  by (auto simp: delete_obs_def delete_grants_def Let_def)

lemma quota_ok_delete_cursors: "quota_ok cfg db \<Longrightarrow> quota_ok cfg (delete_cursors P db)"
  by (rule quota_ok_sub [where f = id and Q = "\<lambda>_. True" and G = "\<lambda>_. True"]) auto

lemma quota_ok_delete_chunks: "quota_ok cfg db \<Longrightarrow> quota_ok cfg (delete_chunks P db)"
  by (rule quota_ok_sub [where f = id and Q = "\<lambda>_. True" and G = "\<lambda>_. True" and C = "\<lambda>_. True"]) auto

lemma quota_ok_delete_grants: "quota_ok cfg db \<Longrightarrow> quota_ok cfg (delete_grants P db)"
  using t_cursors_delete_grants [of P db]
  by (auto intro: quota_ok_sub [where f = id and Q = "\<lambda>_. True"])

lemma quota_ok_delete_obs: "quota_ok cfg db \<Longrightarrow> quota_ok cfg (delete_obs P db)"
  using t_cursors_delete_obs [of P db]
  by (auto intro: quota_ok_sub [where f = id])

lemma quota_ok_update_obs:
  assumes "quota_ok cfg db" "\<And>r. ob_reserved (f r) = ob_reserved r" "\<And>r. ob_owner (f r) = ob_owner r"
    "\<And>r. P r \<Longrightarrow> active (f r) \<Longrightarrow> active r"
  shows "quota_ok cfg (update_obs P f db)"
proof (rule quota_ok_sub [OF assms(1), where f = "\<lambda>r. if P r then f r else r" and Q = "\<lambda>_. True"
      and G = "\<lambda>_. True" and C = "\<lambda>_. True"])
  fix r assume "active (if P r then f r else r)"
  with assms(4) show "active r" by (cases "P r") simp_all
qed (simp_all add: assms(2,3))

lemma active_id_update [simp]: "active (ob_id_update g r) = active r"
  by (simp add: active_def)

lemma quota_ok_rename:
  assumes q: "quota_ok cfg db" and k: "keys_ok db" and new: "new = old \<or> new \<notin> obs_ids db"
  shows "quota_ok cfg (rename_obs old new db)"
proof -
  have 1: "owner_active w (rename_obs old new db) = map (ob_id_update (rename old new)) (owner_active w db)" for w
    by (simp add: owner_active_def filter_map o_def)
  have 2: "all_active (rename_obs old new db) = map (ob_id_update (rename old new)) (all_active db)"
    by (simp add: all_active_def filter_map o_def)
  have 3: "length (filter (\<lambda>g. gr_evidence g = i) (t_grants (rename_obs old new db)))
      \<le> unat (max_grants_per_evidence cfg)" for i
  proof (cases "i \<in> rename old new ` obs_ids db")
    case True
    then obtain j where j: "j \<in> obs_ids db" "i = rename old new j" by blast
    have "filter (\<lambda>g. rename old new (gr_evidence g) = i) (t_grants db)
        = filter (\<lambda>g. gr_evidence g = j) (t_grants db)"
      using k rename_inj [OF new _ j(1)] by (intro filter_cong) (auto simp: keys_ok_def j(2))
    with q show ?thesis by (simp add: filter_map o_def quota_ok_def)
  next
    case False
    then have "filter (\<lambda>g. rename old new (gr_evidence g) = i) (t_grants db) = []"
      using k by (auto simp: filter_empty_conv keys_ok_def)
    then show ?thesis by (simp add: filter_map o_def)
  qed
  show ?thesis
    using q 3 by (simp add: quota_ok_def 1 2 filter_map o_def)
qed

section \<open>Primitives and the content\<close>

lemma part_ok_empty:
  "unat (pr_len p) < 2 ^ 63 \<Longrightarrow> status \<notin> {STATUS_UPLOADING, STATUS_COMPLETE} \<Longrightarrow> part_ok cfg cd blobs status p []"
  by (simp add: part_ok_def)

lemma part_ok_blobs:
  assumes "\<And>c. c \<in> set cs \<Longrightarrow> blobs' (ck_hash c) = blobs (ck_hash c)"
  shows "part_ok cfg cd blobs' status p cs = part_ok cfg cd blobs status p cs"
proof -
  have "chunk_bytes blobs' cs = chunk_bytes blobs cs"
    unfolding chunk_bytes_def using assms by (intro arg_cong [where f = concat] map_cong) auto
  moreover have "(\<forall>c\<in>set cs. chunk_ok cd blobs' c) \<longleftrightarrow> (\<forall>c\<in>set cs. chunk_ok cd blobs c)"
    using assms by (auto simp: chunk_ok_def)
  ultimately show ?thesis by (simp add: part_ok_def)
qed

lemma content_ok_blobs:
  assumes "content_ok cfg cd blobs db"
    and "\<And>c. c \<in> set (t_chunks db) \<Longrightarrow> blobs' (ck_hash c) = blobs (ck_hash c)"
  shows "content_ok cfg cd blobs' db"
proof -
  have "part_ok cfg cd blobs' s p (part_chunks db i n) = part_ok cfg cd blobs s p (part_chunks db i n)" for s p i n
    using assms(2) by (intro part_ok_blobs) (auto simp: part_chunks_def)
  with assms(1) show ?thesis by (simp add: content_ok_def)
qed

lemma content_okD:
  "content_ok cfg cd blobs db \<Longrightarrow> r \<in> set (t_obs db) \<Longrightarrow> p \<in> set (t_parts db) \<Longrightarrow> pr_obs p = ob_id r
   \<Longrightarrow> part_ok cfg cd blobs (ob_status r) p (part_chunks db (ob_id r) (pr_name p))"
  unfolding content_ok_def by blast

lemma content_okI:
  "(\<And>r p. r \<in> set (t_obs db) \<Longrightarrow> p \<in> set (t_parts db) \<Longrightarrow> pr_obs p = ob_id r
     \<Longrightarrow> part_ok cfg cd blobs (ob_status r) p (part_chunks db (ob_id r) (pr_name p)))
   \<Longrightarrow> content_ok cfg cd blobs db"
  unfolding content_ok_def by blast

lemma content_ok_sub:
  assumes "content_ok cfg cd blobs db" "set (t_obs db') \<subseteq> set (t_obs db)" "set (t_parts db') \<subseteq> set (t_parts db)"
    "\<And>r n. r \<in> set (t_obs db') \<Longrightarrow> part_chunks db' (ob_id r) n = part_chunks db (ob_id r) n"
  shows "content_ok cfg cd blobs db'"
proof (rule content_okI)
  fix r p assume r: "r \<in> set (t_obs db')" and p: "p \<in> set (t_parts db')" "pr_obs p = ob_id r"
  from content_okD [OF assms(1) subsetD [OF assms(2) r] subsetD [OF assms(3) p(1)] p(2)]
  show "part_ok cfg cd blobs (ob_status r) p (part_chunks db' (ob_id r) (pr_name p))"
    unfolding assms(4) [OF r] .
qed

lemma content_ok_delete_cursors: "content_ok cfg cd blobs db \<Longrightarrow> content_ok cfg cd blobs (delete_cursors P db)"
  by (rule content_ok_sub [where db = db]) (simp_all add: part_chunks_def)

lemma content_ok_delete_grants: "content_ok cfg cd blobs db \<Longrightarrow> content_ok cfg cd blobs (delete_grants P db)"
  by (rule content_ok_sub [where db = db]) (simp_all add: part_chunks_def)

lemma kept_not_gone:
  "keys_ok db \<Longrightarrow> r \<in> set (t_obs db) \<Longrightarrow> \<not> P r \<Longrightarrow> ob_id r \<notin> ob_id ` set (filter P (t_obs db))"
  by (auto simp: keys_ok_def distinct_map inj_on_def)

lemma content_ok_delete_obs:
  assumes "content_ok cfg cd blobs db" "keys_ok db"
  shows "content_ok cfg cd blobs (delete_obs P db)"
proof (rule content_ok_sub [OF assms(1)])
  fix r n assume r: "r \<in> set (t_obs (delete_obs P db))"
  from r have "r \<in> set (t_obs db)" "\<not> P r" by simp_all
  with assms(2) have "ob_id r \<notin> ob_id ` set (filter P (t_obs db))" by (rule kept_not_gone)
  then show "part_chunks (delete_obs P db) (ob_id r) n = part_chunks db (ob_id r) n"
    unfolding part_chunks_def delete_obs_sel filter_filter
    by (intro filter_cong refl) metis
qed auto

text \<open>Taking the chunks of some observations away together with their active status.\<close>

lemma content_ok_retire:
  assumes c: "content_ok cfg cd blobs db" and k: "keys_ok db"
    and f: "\<And>r. ob_id (f r) = ob_id r"
      "\<And>r. P r \<Longrightarrow> ob_status (f r) \<notin> {STATUS_UPLOADING, STATUS_COMPLETE}"
    and gone: "gone = ob_id ` set (filter P (t_obs db))"
  shows "content_ok cfg cd blobs (update_obs P f (delete_chunks (\<lambda>c. ck_obs c \<in> gone) db))"
    (is "content_ok _ _ _ ?db")
proof -
  have d: "distinct (map ob_id (t_obs db))" using k by (simp add: keys_ok_def)
  have core: "part_ok cfg cd blobs (ob_status (if P r then f r else r)) p
      (part_chunks ?db (ob_id r) (pr_name p))"
    if r: "r \<in> set (t_obs db)" and p: "p \<in> set (t_parts db)" "pr_obs p = ob_id r" for r p
  proof -
    have old: "part_ok cfg cd blobs (ob_status r) p (part_chunks db (ob_id r) (pr_name p))"
      by (rule content_okD [OF c r p])
    show ?thesis
    proof (cases "P r")
      case True
      then have "part_chunks ?db (ob_id r) (pr_name p) = []"
        using r by (auto simp: part_chunks_def gone filter_empty_conv)
      with True f(2) old show ?thesis by (simp add: part_ok_def)
    next
      case False
      then have "ob_id r \<notin> gone" using distinct_map_inj [OF d r] by (auto simp: gone)
      then have "part_chunks ?db (ob_id r) (pr_name p) = part_chunks db (ob_id r) (pr_name p)"
        by (auto simp: part_chunks_def intro!: filter_cong)
      with False old show ?thesis by simp
    qed
  qed
  show ?thesis
  proof (rule content_okI)
    fix r' p assume r': "r' \<in> set (t_obs ?db)" and p: "p \<in> set (t_parts ?db)" "pr_obs p = ob_id r'"
    from r' obtain r where r: "r \<in> set (t_obs db)" "r' = (if P r then f r else r)" by auto
    have i: "ob_id r' = ob_id r" using f(1) r(2) by simp
    have "p \<in> set (t_parts db)" using p(1) by simp
    from core [OF r(1) this] p(2) i
    have "part_ok cfg cd blobs (ob_status (if P r then f r else r)) p (part_chunks ?db (ob_id r) (pr_name p))"
      by simp
    then show "part_ok cfg cd blobs (ob_status r') p (part_chunks ?db (ob_id r') (pr_name p))"
      unfolding i r(2) [symmetric] .
  qed
qed

lemma contiguous_map:
  "(\<And>c. ck_ordinal (g c) = ck_ordinal c \<and> ck_offset (g c) = ck_offset c \<and> ck_len (g c) = ck_len c)
   \<Longrightarrow> contiguous k off (map g cs) = contiguous k off cs"
  by (induction cs arbitrary: k off) simp_all

lemma part_ok_rename:
  "part_ok cfg cd blobs s (pr_obs_update g p) (map (ck_obs_update h) cs) = part_ok cfg cd blobs s p cs"
  by (simp add: part_ok_def contiguous_map lens_def o_def chunk_bytes_def chunk_ok_def)

lemma part_chunks_rename:
  assumes "keys_ok db" "new = old \<or> new \<notin> obs_ids db" "i \<in> obs_ids db"
  shows "part_chunks (rename_obs old new db) (rename old new i) n
    = map (ck_obs_update (rename old new)) (part_chunks db i n)"
proof -
  have "ck_obs c \<in> obs_ids db" if c: "c \<in> set (t_chunks db)" for c
  proof -
    from assms(1) c obtain p where "p \<in> set (t_parts db)" "part_key p = (ck_obs c, ck_part c)"
      unfolding keys_ok_def by (metis imageE)
    with assms(1) show ?thesis by (auto simp: keys_ok_def part_key_def)
  qed
  then show ?thesis
    using rename_inj [OF assms(2) _ assms(3)]
    by (simp add: part_chunks_def filter_map o_def cong: filter_cong)
qed

lemma content_ok_rename:
  assumes c: "content_ok cfg cd blobs db" and k: "keys_ok db" and new: "new = old \<or> new \<notin> obs_ids db"
  shows "content_ok cfg cd blobs (rename_obs old new db)"
proof -
  have "part_ok cfg cd blobs (ob_status r) (pr_obs_update (rename old new) p)
      (part_chunks (rename_obs old new db) (rename old new (ob_id r)) (pr_name p))"
    if "r \<in> set (t_obs db)" "p \<in> set (t_parts db)" "rename old new (pr_obs p) = rename old new (ob_id r)" for r p
  proof -
    have ids: "ob_id r \<in> obs_ids db" "pr_obs p \<in> obs_ids db"
      using that k by (auto simp: obs_ids_def keys_ok_def)
    with that rename_inj [OF new] have "pr_obs p = ob_id r" by simp
    with c that(1,2) show ?thesis
      by (simp add: content_ok_def part_chunks_rename [OF k new ids(1)] part_ok_rename)
  qed
  then show ?thesis by (auto simp: content_ok_def)
qed

lemma all_chunks_ok:
  assumes "content_ok cfg cd blobs db" "keys_ok db" "c \<in> set (t_chunks db)"
  shows "chunk_ok cd blobs c"
proof -
  from assms(2,3) obtain p where p: "p \<in> set (t_parts db)" "part_key p = (ck_obs c, ck_part c)"
    unfolding keys_ok_def by (metis imageE)
  from p(1) assms(2) obtain r where r: "r \<in> set (t_obs db)" "ob_id r = pr_obs p"
    by (force simp: keys_ok_def obs_ids_def)
  have "part_ok cfg cd blobs (ob_status r) p (part_chunks db (ck_obs c) (ck_part c))"
    using content_okD [OF assms(1) r(1) p(1)] r(2) p(2) by (simp add: part_key_def)
  with assms(3) show ?thesis by (auto simp: part_ok_def part_chunks_def)
qed

end
