(* ===== verification/EvidenceSteps.thy ===== *)
theory EvidenceSteps
  imports EvidenceInv
begin

text \<open>
  Every operation of the evidence store preserves its invariant, whatever the clock, the SQL
  engine and the failure injector do; so the invariant holds of every store reachable from an
  empty one, through restarts included.
\<close>

section \<open>Primitives\<close>

lemma owners_ok_mono:
  "owners_ok db \<Longrightarrow> set (t_obs db') \<subseteq> set (t_obs db) \<Longrightarrow> set (t_grants db') \<subseteq> set (t_grants db) \<Longrightarrow> owners_ok db'"
  unfolding owners_ok_def by blast

lemma owners_ok_update:
  "owners_ok db \<Longrightarrow> (\<And>r. ob_owner (f r) = ob_owner r) \<Longrightarrow> t_grants db' = t_grants db
   \<Longrightarrow> t_obs db' = map (\<lambda>r. if P r then f r else r) (t_obs db) \<Longrightarrow> owners_ok db'"
  by (auto simp: owners_ok_def)

lemma obs_ids_update:
  assumes "\<And>r. ob_id (f r) = ob_id r" shows "obs_ids (update_obs P f db) = obs_ids db"
proof -
  have "map ob_id (t_obs (update_obs P f db)) = map ob_id (t_obs db)" using assms by simp
  then show ?thesis unfolding obs_ids_def by (metis set_map)
qed

lemma inv_delete_cursors: "db_inv cfg cd blobs db \<Longrightarrow> db_inv cfg cd blobs (delete_cursors P db)"
proof -
  assume "db_inv cfg cd blobs db"
  note d = db_invD [OF this]
  have "owners_ok (delete_cursors P db)" by (rule owners_ok_mono [OF d(4)]) auto
  then show ?thesis
    by (intro db_invI keys_ok_delete_cursors content_ok_delete_cursors quota_ok_delete_cursors d)
qed

lemma inv_delete_grants: "db_inv cfg cd blobs db \<Longrightarrow> db_inv cfg cd blobs (delete_grants P db)"
proof -
  assume "db_inv cfg cd blobs db"
  note d = db_invD [OF this]
  have "owners_ok (delete_grants P db)" by (rule owners_ok_mono [OF d(4)]) auto
  then show ?thesis
    by (intro db_invI keys_ok_delete_grants content_ok_delete_grants quota_ok_delete_grants d)
qed

lemma inv_delete_obs: "db_inv cfg cd blobs db \<Longrightarrow> db_inv cfg cd blobs (delete_obs P db)"
proof -
  assume "db_inv cfg cd blobs db"
  note d = db_invD [OF this]
  have "owners_ok (delete_obs P db)" by (rule owners_ok_mono [OF d(4)]) auto
  then show ?thesis
    by (intro db_invI keys_ok_delete_obs content_ok_delete_obs quota_ok_delete_obs d)
qed

lemma inv_retire:
  assumes "db_inv cfg cd blobs db" "gone = ob_id ` set (filter P (t_obs db))"
    and f: "\<And>r. ob_id (f r) = ob_id r" "\<And>r. ob_reserved (f r) = ob_reserved r"
      "\<And>r. ob_owner (f r) = ob_owner r"
      "\<And>r. P r \<Longrightarrow> ob_status (f r) \<notin> {STATUS_UPLOADING, STATUS_COMPLETE}"
  shows "db_inv cfg cd blobs (update_obs P f (delete_chunks (\<lambda>c. ck_obs c \<in> gone) db))"
proof (rule db_invI)
  note inv = db_invD [OF assms(1)]
  show "keys_ok (update_obs P f (delete_chunks (\<lambda>c. ck_obs c \<in> gone) db))"
    by (intro keys_ok_update_obs keys_ok_delete_chunks inv f)
  show "content_ok cfg cd blobs (update_obs P f (delete_chunks (\<lambda>c. ck_obs c \<in> gone) db))"
    by (rule content_ok_retire [OF inv(2,1) f(1,4) assms(2)])
  show "quota_ok cfg (update_obs P f (delete_chunks (\<lambda>c. ck_obs c \<in> gone) db))"
    using f(4) by (intro quota_ok_update_obs quota_ok_delete_chunks inv f) (auto simp: active_def)
  show "owners_ok (update_obs P f (delete_chunks (\<lambda>c. ck_obs c \<in> gone) db))"
    by (rule owners_ok_update [OF inv(4), of f _ P]) (simp_all add: f)
qed

text \<open>Changing the lease of observations, but not their state.\<close>

lemma inv_update_lease:
  assumes "db_inv cfg cd blobs db" and f: "\<And>r. ob_id (f r) = ob_id r" "\<And>r. ob_reserved (f r) = ob_reserved r"
      "\<And>r. ob_owner (f r) = ob_owner r" "\<And>r. ob_status (f r) = ob_status r"
  shows "db_inv cfg cd blobs (update_obs P f db)"
proof (rule db_invI)
  note inv = db_invD [OF assms(1)]
  show "keys_ok (update_obs P f db)" by (intro keys_ok_update_obs inv f)
  show "content_ok cfg cd blobs (update_obs P f db)"
  proof (rule content_okI)
    fix r' p assume r': "r' \<in> set (t_obs (update_obs P f db))"
      and p: "p \<in> set (t_parts (update_obs P f db))" "pr_obs p = ob_id r'"
    from r' obtain r where r: "r \<in> set (t_obs db)" "ob_id r' = ob_id r" "ob_status r' = ob_status r"
      using f by auto
    from p content_okD [OF inv(2) r(1)] show "part_ok cfg cd blobs (ob_status r') p
        (part_chunks (update_obs P f db) (ob_id r') (pr_name p))"
      by (simp add: r(2,3) part_chunks_def)
  qed
  show "quota_ok cfg (update_obs P f db)"
    using f by (intro quota_ok_update_obs inv) (auto simp: active_def)
  show "owners_ok (update_obs P f db)"
    by (rule owners_ok_update [OF inv(4), of f _ P]) (simp_all add: f)
qed

lemma inv_expire_rows:
  assumes "expire_rows env k now cutoff db = Ok db'" "db_inv cfg cd blobs db"
  shows "db_inv cfg cd blobs db'"
proof -
  let ?d1 = "delete_obs (\<lambda>r. ob_status r = STATUS_UPLOADING \<and> ob_expires r \<le> now) db"
  let ?d2 = "delete_cursors (\<lambda>c. cu_evidence c \<in> stale_ids now ?d1) ?d1"
  let ?f = "\<lambda>r. r\<lparr>ob_status := STATUS_EXPIRED, ob_pinned := False\<rparr>"
  let ?d4 = "update_obs (stale now) ?f (delete_chunks (\<lambda>c. ck_obs c \<in> stale_ids now ?d2) ?d2)"
  have eq: "db' = delete_obs (\<lambda>r. ob_status r \<in> {STATUS_EXPIRED, STATUS_RELEASED} \<and> ob_expires r \<le> cutoff)
      (delete_grants (\<lambda>g. gr_expires g \<le> now) ?d4)"
    using assms(1) by (simp add: expire_rows_def)
  have 2: "db_inv cfg cd blobs ?d2" by (intro inv_delete_cursors inv_delete_obs assms(2))
  have "db_inv cfg cd blobs ?d4"
    by (rule inv_retire [OF 2]) (simp_all add: stale_ids_def status_defs)
  then show ?thesis unfolding eq by (intro inv_delete_obs inv_delete_grants)
qed

section \<open>Reserving\<close>

lemma part_chunks_Nil:
  "keys_ok db \<Longrightarrow> (i, n) \<notin> part_key ` set (t_parts db) \<Longrightarrow> part_chunks db i n = []"
  by (auto simp: part_chunks_def filter_empty_conv keys_ok_def)

lemma inv_insert_obs:
  assumes ins: "insert_obs env k r db = Ok db'" and inv: "db_inv cfg cd blobs db"
    and q: "sum_u64 (map ob_reserved (owner_active (ob_owner r) db)) + unat (ob_reserved r) \<le> unat (max_owner_bytes cfg)"
      "sum_u64 (map ob_reserved (all_active db)) + unat (ob_reserved r) \<le> unat (max_total_bytes cfg)"
      "length (filter (\<lambda>x. ob_owner x = ob_owner r) (t_obs db)) < unat (max_owner_observations cfg)"
      "length (t_obs db) < unat (max_total_observations cfg)"
    and o: "parse_owner (ob_owner r) = Ok (ob_owner r)"
  shows "db_inv cfg cd blobs db'"
proof (rule db_invI)
  note d = db_invD [OF inv]
  from ins have db': "db' = db\<lparr>t_obs := t_obs db @ [r]\<rparr>" and fresh: "ob_id r \<notin> obs_ids db"
    by (auto simp: insert_obs_def obs_ids_def)
  show "keys_ok db'" by (rule keys_ok_insert_obs [OF ins d(1)])
  show "content_ok cfg cd blobs db'"
  proof (rule content_okI)
    fix s p assume s: "s \<in> set (t_obs db')" and p: "p \<in> set (t_parts db')" "pr_obs p = ob_id s"
    have "pr_obs p \<in> obs_ids db" using p(1) d(1) by (simp add: db' keys_ok_def)
    with fresh p(2) s have "s \<in> set (t_obs db)" by (auto simp: db')
    with content_okD [OF d(2) this] p show "part_ok cfg cd blobs (ob_status s) p (part_chunks db' (ob_id s) (pr_name p))"
      by (simp add: db' part_chunks_def)
  qed
  have "sum_u64 (map ob_reserved (owner_active w db')) \<le> unat (max_owner_bytes cfg)" for w
    using q(1) d(3) by (cases "w = ob_owner r") (auto simp: owner_active_def db' quota_ok_def)
  moreover have "sum_u64 (map ob_reserved (all_active db')) \<le> unat (max_total_bytes cfg)"
    using q(2) d(3) by (auto simp: all_active_def db' quota_ok_def)
  moreover have "length (filter (\<lambda>x. ob_owner x = w) (t_obs db')) \<le> unat (max_owner_observations cfg)" for w
    using q(3) d(3) by (cases "w = ob_owner r") (auto simp: db' quota_ok_def)
  moreover have "length (t_obs db') \<le> unat (max_total_observations cfg)" using q(4) by (simp add: db')
  ultimately show "quota_ok cfg db'" using d(3) by (simp add: quota_ok_def db')
  show "owners_ok db'" using d(4) o by (auto simp: owners_ok_def db')
qed

lemma insert_obs_unique:
  "insert_obs env k r db = Ok db' \<Longrightarrow> x \<in> set (t_obs db') \<Longrightarrow> ob_id x = ob_id r \<Longrightarrow> x = r"
  by (auto simp: insert_obs_def) (metis image_eqI)

lemma inv_insert_part:
  assumes ins: "insert_part env k r db = Ok db'" and inv: "db_inv cfg cd blobs db"
    and r: "unat (pr_len r) < 2 ^ 63" "\<not> pr_finalized r"
    and up: "\<And>q. q \<in> set (t_obs db) \<Longrightarrow> ob_id q = pr_obs r \<Longrightarrow> ob_status q = STATUS_UPLOADING"
  shows "db_inv cfg cd blobs db' \<and> t_obs db' = t_obs db"
proof -
  note d = db_invD [OF inv]
  from ins have db': "db' = db\<lparr>t_parts := t_parts db @ [r]\<rparr>"
    and "\<forall>q\<in>set (t_parts db). part_key q \<noteq> part_key r"
    by (auto simp: insert_part_def part_key_def)
  then have "(pr_obs r, pr_name r) \<notin> part_key ` set (t_parts db)" by (auto simp: part_key_def)
  then have none: "part_chunks db (pr_obs r) (pr_name r) = []" by (rule part_chunks_Nil [OF d(1)])
  have "content_ok cfg cd blobs db'"
  proof (rule content_okI)
    fix s p assume s: "s \<in> set (t_obs db')" and p: "p \<in> set (t_parts db')" "pr_obs p = ob_id s"
    show "part_ok cfg cd blobs (ob_status s) p (part_chunks db' (ob_id s) (pr_name p))"
    proof (cases "p \<in> set (t_parts db)")
      case True
      with content_okD [OF d(2), of s p] s p(2) show ?thesis by (simp add: db' part_chunks_def)
    next
      case False
      with p(1) have "p = r" by (simp add: db')
      moreover have "ob_status s = STATUS_UPLOADING" using s p(2) up \<open>p = r\<close> by (simp add: db')
      ultimately show ?thesis using none p(2) r
        by (simp add: db' part_chunks_def part_ok_def status_defs)
    qed
  qed
  moreover have "keys_ok db'" by (rule keys_ok_insert_part [OF ins d(1)])
  moreover have "quota_ok cfg db'" "owners_ok db'" using d(3,4)
    by (simp_all add: quota_ok_def owners_ok_def db' owner_active_def all_active_def)
  ultimately show ?thesis by (simp add: db_inv_def db')
qed

lemma inv_insert_parts:
  assumes "insert_parts env k cd u n ps db = Ok db'" "db_inv cfg cd blobs db"
    "\<And>q. q \<in> set (t_obs db) \<Longrightarrow> ob_id q = u \<Longrightarrow> ob_status q = STATUS_UPLOADING"
  shows "db_inv cfg cd blobs db'"
  using assms
proof (induction ps arbitrary: k n db)
  case (Cons p ps)
  from Cons.prems(1) obtain l m c db1 where
    ins: "insert_part env k \<lparr>pr_obs = u, pr_name = pm_name p, pr_ordinal = n,
       pr_content_type = pm_content_type p, pr_content_encoding = pm_content_encoding p,
       pr_kind = kind_name (pm_kind p), pr_len = pm_bytes p, pr_sha = pm_sha256 p,
       pr_layout = l, pr_metadata = m, pr_coverage = c, pr_finalized = False\<rparr> db = Ok db1"
    and rest: "insert_parts env (k + 1) cd u (n + 1) ps db1 = Ok db'"
    and len: "unat (pm_bytes p) < 2 ^ 63"
    by auto
  from inv_insert_part [OF ins Cons.prems(2)] len Cons.prems(3)
  have "db_inv cfg cd blobs db1" "t_obs db1 = t_obs db" by simp_all
  with Cons.IH [OF rest] Cons.prems(3) show ?case by simp
qed simp

lemma inv_reserve_tx:
  assumes r: "reserve_tx env cfg cd owner req tot now expires u db = Ok (res, db')"
    and inv: "db_inv cfg cd blobs db" and o: "parse_owner owner = Ok owner"
  shows "db_inv cfg cd blobs db'"
proof -
  from r obtain cutoff db1 used total_used m c db2 where
    e: "expire_rows env 0 now cutoff db = Ok db1"
    and s: "sql_sum env 6 (map ob_reserved (owner_active owner db1)) = Ok used"
      "sql_sum env 7 (map ob_reserved (all_active db1)) = Ok total_used"
    and le: "\<not> max_owner_bytes cfg < saturating_add used tot" "\<not> max_total_bytes cfg < saturating_add total_used tot"
      "\<not> unat (max_owner_observations cfg) \<le> length (filter (\<lambda>r. ob_owner r = owner) (t_obs db1))"
      "\<not> unat (max_total_observations cfg) \<le> length (t_obs db1)"
    and tot: "unat tot < 2 ^ 63"
    and ins: "insert_obs env 10 \<lparr>ob_id = u, ob_owner = owner, ob_status = STATUS_UPLOADING,
       ob_created = now, ob_expires = expires, ob_pinned = False, ob_reserved = tot,
       ob_metadata = m, ob_coverage = c\<rparr> db1 = Ok db2"
    and ps: "insert_parts env 11 cd u 0 (ro_parts req) db2 = Ok db'"
    unfolding reserve_tx_def by auto
  note u1 = sql_sum_eq_Ok [OF s(1)] and u2 = sql_sum_eq_Ok [OF s(2)]
  have q: "sum_u64 (map ob_reserved (owner_active owner db1)) + unat tot \<le> unat (max_owner_bytes cfg)"
    "sum_u64 (map ob_reserved (all_active db1)) + unat tot \<le> unat (max_total_bytes cfg)"
    using le(1,2) u1 u2 tot by (simp_all add: not_less word_le_nat_alt unat_saturating_add)
  have inv1: "db_inv cfg cd blobs db1" by (rule inv_expire_rows [OF e inv])
  have inv2: "db_inv cfg cd blobs db2"
    by (rule inv_insert_obs [OF ins inv1]) (use q le(3,4) o in simp_all)
  have "ob_status x = STATUS_UPLOADING" if "x \<in> set (t_obs db2)" "ob_id x = u" for x
    using insert_obs_unique [OF ins that(1)] that(2) by simp
  then show ?thesis by (rule inv_insert_parts [OF ps inv2])
qed

section \<open>Uploading and committing\<close>

lemma find_part_obs:
  "keys_ok db \<Longrightarrow> find_part db i p = Some r \<Longrightarrow> i \<in> obs_ids db"
  using find_part_Some [of db i p r] by (auto simp: keys_ok_def)

lemma load_header_Ok:
  assumes "load_observation_header env k i db = Ok (status, owner, expires)" "keys_ok db" "owners_ok db"
  obtains r where "r \<in> set (t_obs db)" "ob_id r = i" "ob_status r = status" "ob_owner r = owner" "ob_expires r = expires"
proof -
  from assms(1) obtain r where r: "find_obs db i = Some r" "parse_owner (ob_owner r) = Ok owner"
    "ob_status r = status" "ob_expires r = expires"
    by (auto simp: load_observation_header_def split: option.splits)
  with find_obs_Some [OF r(1)] assms(3) that show thesis by (auto simp: owners_ok_def)
qed

lemma require_upload_owner_Ok:
  "require_upload_owner env k owner actual status expires = Ok u \<Longrightarrow>
     actual = owner \<and> status = STATUS_UPLOADING \<and> (\<exists>now. now_ms env k = Ok now \<and> now < expires)"
  by (auto simp: require_upload_owner_def not_le)

lemma append_admit_Ok:
  assumes "append_admit env cfg owner req db = Ok len" "keys_ok db" "owners_ok db"
  obtains r p where "r \<in> set (t_obs db)" "ob_id r = ac_upload_id req" "ob_status r = STATUS_UPLOADING"
    "ob_owner r = owner" "find_part db (ac_upload_id req) (ac_part req) = Some p" "\<not> pr_finalized p"
    "pr_len p = len" "ac_bytes req \<noteq> []" "length (ac_bytes req) < 2 ^ 64"
    "unat (ac_offset req) = lens (part_chunks db (ac_upload_id req) (ac_part req))"
    "saturating_add (ac_offset req) (len_u64 (ac_bytes req)) \<le> len"
proof -
  from assms(1) obtain status actual expires p where
    h: "load_observation_header env 0 (ac_upload_id req) db = Ok (status, actual, expires)"
    "require_upload_owner env 0 owner actual status expires = Ok ()"
    and p: "find_part db (ac_upload_id req) (ac_part req) = Some p" "\<not> pr_finalized p" "pr_len p = len"
      "ac_bytes req \<noteq> []" "length (ac_bytes req) < 2 ^ 64"
      "sql_sum env 1 (map ck_len (part_chunks db (ac_upload_id req) (ac_part req))) = Ok (ac_offset req)"
      "saturating_add (ac_offset req) (len_u64 (ac_bytes req)) \<le> len"
    unfolding append_admit_def by (auto simp: not_less not_le split: option.splits)
  from load_header_Ok [OF h(1) assms(2,3)] obtain r where r: "r \<in> set (t_obs db)" "ob_id r = ac_upload_id req"
    "ob_status r = status" "ob_owner r = actual" by metis
  from require_upload_owner_Ok [OF h(2)] r sql_sum_eq_Ok [OF p(6)] p that [of r p] show thesis
    by (simp add: lens_def)
qed

lemma blob_put_Ok:
  assumes "blob_put env h bytes blobs = Ok blobs'"
  shows "blobs' h = Some bytes" "\<And>g b. blobs g = Some b \<Longrightarrow> blobs' g = Some b"
  using assms by (auto simp: blob_put_def split: option.splits if_splits)

text \<open>A new blob disturbs no chunk that is there.\<close>

lemma inv_blobs:
  assumes "db_inv cfg cd blobs db" "\<And>g b. blobs g = Some b \<Longrightarrow> blobs' g = Some b"
  shows "db_inv cfg cd blobs' db"
proof -
  note d = db_invD [OF assms(1)]
  have "blobs' (ck_hash c) = blobs (ck_hash c)" if "c \<in> set (t_chunks db)" for c
    using all_chunks_ok [OF d(2,1) that] assms(2) by (auto simp: chunk_ok_def)
  then show ?thesis using d content_ok_blobs [OF d(2)] by (simp add: db_inv_def)
qed

lemma append_tx_Ok:
  assumes "append_tx env cfg req hash len db = Ok (tp, db')"
  obtains "length (part_chunks db (ac_upload_id req) (ac_part req)) < unat (max_chunks_per_part cfg)"
    "unat (ac_offset req) = lens (part_chunks db (ac_upload_id req) (ac_part req))"
    "insert_chunk env 4 \<lparr>ck_obs = ac_upload_id req, ck_part = ac_part req,
       ck_ordinal = length (part_chunks db (ac_upload_id req) (ac_part req)), ck_offset = ac_offset req,
       ck_len = len_u64 (ac_bytes req), ck_hash = hash\<rparr> db = Ok db'"
    "tp = \<lparr>tp_next_offset = ac_offset req + len_u64 (ac_bytes req), tp_total_bytes = len\<rparr>"
proof -
  from assms have "sql_sum env 2 (map ck_len (part_chunks db (ac_upload_id req) (ac_part req))) = Ok (ac_offset req)"
    by (auto simp: append_tx_def Let_def)
  from sql_sum_eq_Ok [OF this] assms that show thesis
    by (auto simp: append_tx_def Let_def lens_def not_le)
qed

lemma part_chunks_insert:
  assumes "insert_chunk env k c db = Ok db'"
  shows "part_chunks db' i n = part_chunks db i n @ (if ck_obs c = i \<and> ck_part c = n then [c] else [])"
  using assms by (auto simp: insert_chunk_def part_chunks_def)

lemma inv_append:
  assumes ap: "append_chunk env cfg cd owner req st = (res, st')" and inv: "store_ok cfg cd st"
  shows "store_ok cfg cd st'"
proof (cases "append_admit env cfg owner req (es_db st)")
  case (Err e)
  with ap inv show ?thesis by (simp add: append_chunk_def)
next
  case (Ok len)
  let ?h = "sha256_hex cd (ac_bytes req)"
  note d0 = db_invD [OF inv [unfolded store_ok_def]]
  obtain r p where r: "r \<in> set (t_obs (es_db st))" "ob_id r = ac_upload_id req" "ob_status r = STATUS_UPLOADING"
    and p: "find_part (es_db st) (ac_upload_id req) (ac_part req) = Some p" "\<not> pr_finalized p" "pr_len p = len"
    and b: "ac_bytes req \<noteq> []" "length (ac_bytes req) < 2 ^ 64"
      "saturating_add (ac_offset req) (len_u64 (ac_bytes req)) \<le> len"
    by (rule append_admit_Ok [OF Ok d0(1,4)])
  show ?thesis
  proof (cases "blob_put env ?h (ac_bytes req) (es_blobs st)")
    case (Err e)
    with ap Ok inv show ?thesis by (simp add: append_chunk_def)
  next
    case put: (Ok blobs)
    have inv1: "db_inv cfg cd blobs (es_db st)"
      using inv_blobs [OF inv [unfolded store_ok_def]] blob_put_Ok(2) [OF put] by blast
    note d = db_invD [OF inv1]
    show ?thesis
    proof (cases "append_tx env cfg req ?h len (es_db st)")
      case (Err e)
      with ap Ok put inv1 show ?thesis by (auto simp: append_chunk_def transact_def store_ok_def)
    next
      case tx: (Ok pair)
      obtain tp db' where pair: "pair = (tp, db')" by fastforce
      have st': "st' = st\<lparr>es_blobs := blobs, es_db := db'\<rparr>"
        using ap Ok put tx pair by (simp add: append_chunk_def transact_def)
      let ?cs = "part_chunks (es_db st) (ac_upload_id req) (ac_part req)"
      let ?c = "\<lparr>ck_obs = ac_upload_id req, ck_part = ac_part req, ck_ordinal = length ?cs,
        ck_offset = ac_offset req, ck_len = len_u64 (ac_bytes req), ck_hash = ?h\<rparr>"
      obtain n: "length ?cs < unat (max_chunks_per_part cfg)" and off: "unat (ac_offset req) = lens ?cs"
        and ins: "insert_chunk env 4 ?c (es_db st) = Ok db'"
        by (rule append_tx_Ok [OF tx [unfolded pair]])
      have same: "t_obs db' = t_obs (es_db st)" "t_parts db' = t_parts (es_db st)"
        "t_grants db' = t_grants (es_db st)" "t_cursors db' = t_cursors (es_db st)"
        using ins by (auto simp: insert_chunk_def)
      have len: "unat (len_u64 (ac_bytes req)) = length (ac_bytes req)" using b(2) by (simp add: unat_len_u64)
      have "content_ok cfg cd blobs db'"
      proof (rule content_okI)
        fix s q assume s: "s \<in> set (t_obs db')" and q: "q \<in> set (t_parts db')" "pr_obs q = ob_id s"
        have old: "part_ok cfg cd blobs (ob_status s) q (part_chunks (es_db st) (ob_id s) (pr_name q))"
          using content_okD [OF d(2)] s q by (simp add: same)
        show "part_ok cfg cd blobs (ob_status s) q (part_chunks db' (ob_id s) (pr_name q))"
        proof (cases "ob_id s = ac_upload_id req \<and> pr_name q = ac_part req")
          case True
          then have "s = r" using s r(1,2) d(1) distinct_map_inj [of ob_id "t_obs (es_db st)" s r]
            by (simp add: same keys_ok_def)
          have "find_part (es_db st) (ac_upload_id req) (ac_part req) = Some q"
            using True q d(1) by (simp add: find_part_eq keys_ok_def same)
          with p have q': "\<not> pr_finalized q" "pr_len q = len" by simp_all
          have "chunk_ok cd blobs ?c"
            using blob_put_Ok(1) [OF put] b(1) len by (simp add: chunk_ok_def)
          moreover have "unat len < 2 ^ 63" using old q'(2) by (simp add: part_ok_def)
          then have "lens ?cs + length (ac_bytes req) \<le> unat len"
            using b(3) off len by (simp add: word_le_nat_alt unat_saturating_add)
          moreover have "part_chunks db' (ob_id s) (pr_name q) = ?cs @ [?c]"
            using part_chunks_insert [OF ins] True by simp
          ultimately show ?thesis
            using old True q' n off len r(3) \<open>s = r\<close>
            by (simp add: part_ok_def contiguous_append status_defs)
        next
          case False
          with part_chunks_insert [OF ins] old show ?thesis by auto
        qed
      qed
      moreover have "keys_ok db'" by (rule keys_ok_insert_chunk [OF ins d(1)])
      moreover have "quota_ok cfg db'" "owners_ok db'" using d(3,4)
        by (simp_all add: quota_ok_def owners_ok_def same owner_active_def all_active_def)
      ultimately show ?thesis by (simp add: store_ok_def st' db_inv_def)
    qed
  qed
qed

text \<open>The hashing loop: it reads every chunk, and on text its validator sees them all.\<close>

lemma checked_chunk_ok: "checked_chunk cd blobs c = Ok b \<Longrightarrow> blobs (ck_hash c) = Some b"
  by (auto simp: checked_chunk_def blob_get_def split: option.splits if_splits)

lemma hash_chunks_Ok:
  "hash_chunks cd blobs utf8 p acc cs = Ok (p', bytes) \<Longrightarrow>
     bytes = acc @ chunk_bytes blobs cs
     \<and> (utf8 \<longrightarrow> validator_finish p' = Ok u \<longrightarrow>
          validate_chunks p (map (\<lambda>c. the (blobs (ck_hash c))) cs) = Ok u)"
proof (induction cs arbitrary: p acc)
  case Nil
  then show ?case by (simp add: chunk_bytes_def)
next
  case (Cons c cs)
  from Cons.prems obtain b q where b: "checked_chunk cd blobs c = Ok b"
    and q: "(if utf8 then validator_push p b else Ok p) = Ok q"
    and rest: "hash_chunks cd blobs utf8 q (acc @ b) cs = Ok (p', bytes)" by auto
  from Cons.IH [OF rest] q checked_chunk_ok [OF b] show ?case by (auto simp: chunk_bytes_def)
qed

lemma sum_lens_Ok: "sum_lens a cs = Ok v \<Longrightarrow> unat v = unat a + lens cs"
proof (induction cs arbitrary: a)
  case (Cons c cs)
  then have s: "unat a + unat (ck_len c) < 2 ^ 64" "sum_lens (a + ck_len c) cs = Ok v" by auto
  from Cons.IH [OF s(2)] s(1) show ?case by (simp add: unat_word_ariths)
qed simp

lemma finalize_tx_Ok:
  assumes "finalize_tx env cd owner u part blobs db = Ok (v, db')" "keys_ok db" "owners_ok db"
  obtains r p where "r \<in> set (t_obs db)" "ob_id r = u" "ob_status r = STATUS_UPLOADING" "ob_owner r = owner"
    "find_part db u part = Some p" "\<not> pr_finalized p" "lens (chunk_rows db u part) = unat (pr_len p)"
    "sha256_hex cd (chunk_bytes blobs (chunk_rows db u part)) = pr_sha p"
    "pr_kind p = ''utf8'' \<longrightarrow> valid_utf8 (chunk_bytes blobs (chunk_rows db u part))"
    "db' = db\<lparr>t_parts := map (\<lambda>q. if pr_obs q = u \<and> pr_name q = part \<and> \<not> pr_finalized q
           then q\<lparr>pr_finalized := True\<rparr> else q) (t_parts db)\<rparr>"
proof -
  let ?cs = "chunk_rows db u part"
  from assms(1) obtain status actual expires p bytes pending where
    h: "load_observation_header env 0 u db = Ok (status, actual, expires)"
    "require_upload_owner env 0 owner actual status expires = Ok ()"
    and p: "find_part db u part = Some p" "\<not> pr_finalized p" "sum_lens 0 ?cs = Ok (pr_len p)"
      "hash_chunks cd blobs (pr_kind p = ''utf8'') [] [] ?cs = Ok (pending, bytes)"
      "pr_kind p = ''utf8'' \<Longrightarrow> validator_finish pending = Ok ()"
      "sha256_hex cd bytes = pr_sha p"
    and db': "db' = db\<lparr>t_parts := map (\<lambda>q. if pr_obs q = u \<and> pr_name q = part \<and> \<not> pr_finalized q
           then q\<lparr>pr_finalized := True\<rparr> else q) (t_parts db)\<rparr>"
    unfolding finalize_tx_def by (auto split: option.splits if_splits)
  from load_header_Ok [OF h(1) assms(2,3)] obtain r where r: "r \<in> set (t_obs db)" "ob_id r = u"
    "ob_status r = status" "ob_owner r = actual" by metis
  note hc = hash_chunks_Ok [OF p(4), of "()"]
  have "valid_utf8 (chunk_bytes blobs ?cs)" if "pr_kind p = ''utf8''"
  proof -
    have "validate_chunks [] (map (\<lambda>c. the (blobs (ck_hash c))) ?cs) = Ok ()" using hc p(5) [OF that] that by simp
    then show ?thesis by (simp add: validate_chunks_valid chunk_bytes_def split: if_splits)
  qed
  with require_upload_owner_Ok [OF h(2)] sum_lens_Ok [OF p(3)] hc r p db' that [of r p] show thesis by simp
qed

lemma part_chunks_rows:
  assumes "part_ok cfg cd blobs s p (part_chunks db i n)" shows "chunk_rows db i n = part_chunks db i n"
  using assms by (simp add: part_ok_def chunk_rows_def contiguous_sorted)

lemma inv_finalize_tx:
  assumes fin: "finalize_tx env cd owner u part blobs db = Ok (v, db')" and inv: "db_inv cfg cd blobs db"
  shows "db_inv cfg cd blobs db'"
proof -
  note d = db_invD [OF inv]
  obtain r p where r: "r \<in> set (t_obs db)" "ob_id r = u" "ob_status r = STATUS_UPLOADING" "ob_owner r = owner"
    and p: "find_part db u part = Some p" "\<not> pr_finalized p" "lens (chunk_rows db u part) = unat (pr_len p)"
      "sha256_hex cd (chunk_bytes blobs (chunk_rows db u part)) = pr_sha p"
      "pr_kind p = ''utf8'' \<longrightarrow> valid_utf8 (chunk_bytes blobs (chunk_rows db u part))"
    and db': "db' = db\<lparr>t_parts := map (\<lambda>q. if pr_obs q = u \<and> pr_name q = part \<and> \<not> pr_finalized q
           then q\<lparr>pr_finalized := True\<rparr> else q) (t_parts db)\<rparr>"
    by (rule finalize_tx_Ok [OF fin d(1,4)])
  have keys: "map part_key (t_parts db') = map part_key (t_parts db)"
    by (simp add: db' part_key_def)
  then have keyset: "part_key ` set (t_parts db') = part_key ` set (t_parts db)" by (metis set_map)
  have obs: "pr_obs ` set (t_parts db') = pr_obs ` set (t_parts db)"
  proof -
    have "map pr_obs (t_parts db') = map pr_obs (t_parts db)" by (simp add: db')
    then show ?thesis by (metis set_map)
  qed
  have chunks: "part_chunks db' i n = part_chunks db i n" for i n by (simp add: db' part_chunks_def)
  have "content_ok cfg cd blobs db'"
  proof (rule content_okI)
    fix s q' assume s: "s \<in> set (t_obs db')" and q': "q' \<in> set (t_parts db')" "pr_obs q' = ob_id s"
    from q'(1) obtain q where q: "q \<in> set (t_parts db)"
      "q' = (if pr_obs q = u \<and> pr_name q = part \<and> \<not> pr_finalized q then q\<lparr>pr_finalized := True\<rparr> else q)"
      by (auto simp: db')
    have s': "s \<in> set (t_obs db)" and same: "pr_obs q = pr_obs q'" "pr_name q = pr_name q'"
      using s q(2) by (simp_all add: db')
    have old: "part_ok cfg cd blobs (ob_status s) q (part_chunks db (ob_id s) (pr_name q))"
      using content_okD [OF d(2) s' q(1)] q'(2) same by simp
    show "part_ok cfg cd blobs (ob_status s) q' (part_chunks db' (ob_id s) (pr_name q'))"
    proof (cases "pr_obs q = u \<and> pr_name q = part \<and> \<not> pr_finalized q")
      case True
      have qp: "q = p" using True q(1) p(1) d(1) find_part_eq [of db u part q] by (simp add: keys_ok_def)
      have "s = r" using s' r(1,2) True q'(2) same d(1) distinct_map_inj [of ob_id "t_obs db" s r]
        by (simp add: keys_ok_def)
      have rows: "chunk_rows db u part = part_chunks db u part"
        using part_chunks_rows [OF old] True q'(2) same by simp
      show ?thesis
        using old p(3,4,5) True q(2) qp q'(2) same chunks rows by (simp add: part_ok_def)
    next
      case False
      with q(2) old chunks show ?thesis by simp
    qed
  qed
  moreover have "keys_ok db'"
  proof -
    have same: "t_obs db' = t_obs db" "t_chunks db' = t_chunks db" "t_grants db' = t_grants db"
      "t_cursors db' = t_cursors db" by (simp_all add: db')
    have "pr_obs ` set (t_parts db) \<subseteq> obs_ids db" using d(1) by (auto simp: keys_ok_def)
    then have "\<forall>p\<in>set (t_parts db'). pr_obs p \<in> obs_ids db"
      unfolding obs [symmetric] by blast
    then show ?thesis
      using d(1) unfolding keys_ok_def keys keyset same obs_ids_def by blast
  qed
  moreover have "quota_ok cfg db'" "owners_ok db'" using d(3,4)
    by (simp_all add: quota_ok_def owners_ok_def db' owner_active_def all_active_def)
  ultimately show ?thesis by (intro db_invI)
qed

lemma commit_tx_Ok:
  assumes "commit_tx env owner u db = Ok (i, db')" "keys_ok db" "owners_ok db"
  obtains r where "r \<in> set (t_obs db)" "ob_id r = u" "ob_status r = STATUS_UPLOADING" "ob_owner r = owner"
    "\<forall>p\<in>set (t_parts db). pr_obs p = u \<longrightarrow> pr_finalized p"
    "i = replacen1 ''u_'' ''e_'' u" "i = u \<or> i \<notin> obs_ids db"
    "db' = rename_obs u i (update_obs (\<lambda>r. ob_id r = u \<and> ob_owner r = owner \<and> ob_status r = STATUS_UPLOADING)
        (\<lambda>r. r\<lparr>ob_status := STATUS_COMPLETE\<rparr>) db)"
proof -
  from assms(1) obtain status actual expires where
    h: "load_observation_header env 0 u db = Ok (status, actual, expires)"
    "require_upload_owner env 0 owner actual status expires = Ok ()"
    and f: "filter (\<lambda>p. pr_obs p = u \<and> \<not> pr_finalized p) (t_parts db) = []"
    and i: "i = replacen1 ''u_'' ''e_'' u" "i = u \<or> i \<notin> obs_ids db"
      "db' = rename_obs u i (update_obs (\<lambda>r. ob_id r = u \<and> ob_owner r = owner \<and> ob_status r = STATUS_UPLOADING)
        (\<lambda>r. r\<lparr>ob_status := STATUS_COMPLETE\<rparr>) db)"
    unfolding commit_tx_def by (auto simp: Let_def parse_id_def obs_ids_def split: if_splits)
  from load_header_Ok [OF h(1) assms(2,3)] obtain r where r: "r \<in> set (t_obs db)" "ob_id r = u"
    "ob_status r = status" "ob_owner r = actual" by metis
  from require_upload_owner_Ok [OF h(2)] f i r that [of r] show thesis
    by (auto simp: filter_empty_conv)
qed

lemma inv_commit_tx:
  assumes c: "commit_tx env owner u db = Ok (i, db')" and inv: "db_inv cfg cd blobs db"
  shows "db_inv cfg cd blobs db'"
proof -
  note d = db_invD [OF inv]
  let ?P = "\<lambda>r. ob_id r = u \<and> ob_owner r = owner \<and> ob_status r = STATUS_UPLOADING"
  let ?f = "\<lambda>r. r\<lparr>ob_status := STATUS_COMPLETE\<rparr>"
  let ?d1 = "update_obs ?P ?f db"
  obtain r where "r \<in> set (t_obs db)" "ob_id r = u" "ob_status r = STATUS_UPLOADING" "ob_owner r = owner"
    and f: "\<forall>p\<in>set (t_parts db). pr_obs p = u \<longrightarrow> pr_finalized p"
    and "i = replacen1 ''u_'' ''e_'' u" and i: "i = u \<or> i \<notin> obs_ids db" and db': "db' = rename_obs u i ?d1"
    by (rule commit_tx_Ok [OF c d(1,4)])
  have ids: "obs_ids ?d1 = obs_ids db" by (rule obs_ids_update) simp
  have content: "content_ok cfg cd blobs ?d1"
  proof (rule content_okI)
    fix s' p assume s': "s' \<in> set (t_obs ?d1)" and p: "p \<in> set (t_parts ?d1)" "pr_obs p = ob_id s'"
    from s' obtain s where s: "s \<in> set (t_obs db)" "s' = (if ?P s then ?f s else s)" by auto
    have id: "ob_id s' = ob_id s" using s(2) by simp
    have old: "part_ok cfg cd blobs (ob_status s) p (part_chunks db (ob_id s) (pr_name p))"
      using content_okD [OF d(2) s(1)] p id by simp
    show "part_ok cfg cd blobs (ob_status s') p (part_chunks ?d1 (ob_id s') (pr_name p))"
    proof (cases "?P s")
      case True
      with f p id have "pr_finalized p" by simp
      with old True s(2) id show ?thesis by (simp add: part_ok_def part_chunks_def)
    next
      case False
      with s(2) old show ?thesis by (auto simp: part_chunks_def)
    qed
  qed
  have "keys_ok ?d1" by (rule keys_ok_update_obs [OF d(1)]) simp
  moreover have "quota_ok cfg ?d1" by (rule quota_ok_update_obs [OF d(3)]) (auto simp: active_def)
  moreover have "owners_ok ?d1" by (rule owners_ok_update [OF d(4), of ?f _ ?P]) simp_all
  ultimately have "keys_ok db'" "quota_ok cfg db'" "content_ok cfg cd blobs db'" "owners_ok db'"
    unfolding db' using i ids content
    by (auto intro: keys_ok_rename quota_ok_rename content_ok_rename simp: owners_ok_def simp del: update_obs_sel)
  then show ?thesis by (intro db_invI)
qed

section \<open>Reading, leases and grants\<close>

lemma length_filter_insert:
  "length (filter (\<lambda>c. f c = x) (cs @ [c])) = length (filter (\<lambda>c. f c = x) cs) + (if f c = x then 1 else 0)"
  by simp

lemma inv_insert_cursor:
  assumes ins: "insert_cursor env k c db = Ok db'" and inv: "db_inv cfg cd blobs db"
    and n: "length (filter (\<lambda>x. cu_reader x = cu_reader c) (t_cursors db)) < unat (max_cursors_per_owner cfg)"
  shows "db_inv cfg cd blobs db'"
proof -
  note d = db_invD [OF inv]
  from ins have db': "db' = db\<lparr>t_cursors := t_cursors db @ [c]\<rparr>" by (auto simp: insert_cursor_def)
  have "length (filter (\<lambda>x. cu_reader x = w) (t_cursors db')) \<le> unat (max_cursors_per_owner cfg)" for w
    using n d(3) by (cases "w = cu_reader c") (auto simp: db' quota_ok_def)
  then have "quota_ok cfg db'" using d(3) by (simp add: quota_ok_def db' owner_active_def all_active_def)
  moreover have "content_ok cfg cd blobs db'" by (rule content_ok_sub [OF d(2)]) (simp_all add: db' part_chunks_def)
  moreover have "owners_ok db'" using d(4) by (simp add: owners_ok_def db')
  ultimately show ?thesis using keys_ok_insert_cursor [OF ins d(1)] by (intro db_invI)
qed

lemma inv_insert_grant:
  assumes ins: "insert_grant env k g db = Ok db'" and inv: "db_inv cfg cd blobs db"
    and n: "length (filter (\<lambda>x. gr_evidence x = gr_evidence g) (t_grants db)) < unat (max_grants_per_evidence cfg)"
    and r: "\<not> gr_revoked g"
  shows "db_inv cfg cd blobs db'"
proof -
  note d = db_invD [OF inv]
  from ins have db': "db' = db\<lparr>t_grants := t_grants db @ [g]\<rparr>" by (auto simp: insert_grant_def)
  have "length (filter (\<lambda>x. gr_evidence x = w) (t_grants db')) \<le> unat (max_grants_per_evidence cfg)" for w
    using n d(3) by (cases "w = gr_evidence g") (auto simp: db' quota_ok_def)
  then have "quota_ok cfg db'" using d(3) by (simp add: quota_ok_def db' owner_active_def all_active_def)
  moreover have "content_ok cfg cd blobs db'" by (rule content_ok_sub [OF d(2)]) (simp_all add: db' part_chunks_def)
  moreover have "owners_ok db'" using d(4) r by (auto simp: owners_ok_def db')
  ultimately show ?thesis using keys_ok_insert_grant [OF ins d(1)] by (intro db_invI)
qed

lemma inv_read_tx:
  assumes r: "read_tx env cfg cd owner req st db = Ok (page, db')" and inv: "db_inv cfg cd blobs db"
  shows "db_inv cfg cd blobs db'"
proof -
  from r consider "db' = db" | token stop grant_id where
    "\<not> unat (max_cursors_per_owner cfg) \<le> length (filter (\<lambda>c. cu_reader c = owner) (t_cursors db))"
    "insert_cursor env 6 \<lparr>cu_token = token, cu_reader = owner,
           cu_evidence = rr_evidence_id req, cu_part = rr_part req,
           cu_encoding = encoding_name (rr_encoding req), cu_projection = ''bytes'',
           cu_next = stop, cu_page = rr_max_bytes req, cu_grant = grant_id\<rparr> db = Ok db'"
    unfolding read_tx_def Let_def by (auto split: if_splits)
  then show ?thesis
  proof cases
    case 1
    with inv show ?thesis by simp
  next
    case 2
    then show ?thesis using inv_insert_cursor [OF 2(2) inv] by simp
  qed
qed

lemma inv_pin_tx:
  assumes "pin_tx env cfg owner i ttl db = Ok (v, db')" and inv: "db_inv cfg cd blobs db"
  shows "db_inv cfg cd blobs db'"
proof -
  from assms(1) obtain e where "db' = update_obs (\<lambda>q. ob_id q = i \<and> ob_status q = STATUS_COMPLETE)
           (\<lambda>q. q\<lparr>ob_expires := e, ob_pinned := True\<rparr>) db"
    unfolding pin_tx_def by (auto simp: Let_def split: option.splits)
  then show ?thesis using inv_update_lease [OF inv] by simp
qed

lemma ids_of_obs: "keys_ok db \<Longrightarrow> find_obs db i = Some r \<Longrightarrow> {i} = ob_id ` set (filter (\<lambda>q. ob_id q = i) (t_obs db))"
  using find_obs_Some [of db i r] by auto

lemma release_tx_Ok:
  assumes "release_tx env owner i db = Ok (v, db')"
  obtains r now where "find_obs db i = Some r" "ob_owner r = owner" "ob_status r = STATUS_COMPLETE"
    "now < ob_expires r" "now_ms env 0 = Ok now"
    "db' = update_obs (\<lambda>q. ob_id q = i)
           (\<lambda>q. q\<lparr>ob_status := STATUS_RELEASED, ob_pinned := False, ob_expires := now\<rparr>)
         (delete_cursors (\<lambda>c. cu_evidence c = i) (delete_grants (\<lambda>g. gr_evidence g = i)
           (delete_chunks (\<lambda>c. ck_obs c = i) db)))"
  using assms unfolding release_tx_def require_owned_complete_def by (auto split: option.splits)

lemma delete_commute:
  "delete_cursors P (delete_grants Q (delete_chunks R db)) = delete_chunks R (delete_cursors P (delete_grants Q db))"
  by (simp add: delete_cursors_def delete_grants_def delete_chunks_def Let_def)

lemma inv_release_tx:
  assumes rel: "release_tx env owner i db = Ok (v, db')" and inv: "db_inv cfg cd blobs db"
  shows "db_inv cfg cd blobs db'"
proof -
  obtain r now where r: "find_obs db i = Some r" and db': "db' = update_obs (\<lambda>q. ob_id q = i)
           (\<lambda>q. q\<lparr>ob_status := STATUS_RELEASED, ob_pinned := False, ob_expires := now\<rparr>)
         (delete_cursors (\<lambda>c. cu_evidence c = i) (delete_grants (\<lambda>g. gr_evidence g = i)
           (delete_chunks (\<lambda>c. ck_obs c = i) db)))"
    using release_tx_Ok [OF rel] by metis
  let ?d = "delete_cursors (\<lambda>c. cu_evidence c = i) (delete_grants (\<lambda>g. gr_evidence g = i) db)"
  have inv1: "db_inv cfg cd blobs ?d" by (intro inv_delete_cursors inv_delete_grants inv)
  have "{i} = ob_id ` set (filter (\<lambda>q. ob_id q = i) (t_obs ?d))"
    using ids_of_obs [OF db_invD(1) [OF inv] r] by simp
  from inv_retire [OF inv1 this, of "\<lambda>q. q\<lparr>ob_status := STATUS_RELEASED, ob_pinned := False, ob_expires := now\<rparr>"]
  show ?thesis unfolding db' delete_commute by (simp add: status_defs)
qed

lemma inv_grant_tx:
  assumes g: "grant_tx env cfg cd owner req db = Ok (v, db')" and inv: "db_inv cfg cd blobs db"
  shows "db_inv cfg cd blobs db'"
proof -
  from g obtain now k gid sj e where
    n: "\<not> unat (max_grants_per_evidence cfg) \<le> length (filter (\<lambda>g. gr_evidence g = gq_evidence_id req
         \<and> \<not> gr_revoked g \<and> now < gr_expires g) (t_grants (delete_grants (\<lambda>g. gr_expires g \<le> now) db)))"
    and ins: "insert_grant env k \<lparr>gr_id = gid, gr_evidence = gq_evidence_id req,
         gr_grantor = owner, gr_grantee = gq_grantee req, gr_scope = sj,
         gr_expires = e, gr_revoked = False\<rparr> (delete_grants (\<lambda>g. gr_expires g \<le> now) db) = Ok db'"
    unfolding grant_tx_def Let_def by (auto simp del: delete_grants_sel)
  let ?d = "delete_grants (\<lambda>g. gr_expires g \<le> now) db"
  have inv1: "db_inv cfg cd blobs ?d" by (rule inv_delete_grants [OF inv])
  have "filter (\<lambda>g. gr_evidence g = gq_evidence_id req \<and> \<not> gr_revoked g \<and> now < gr_expires g) (t_grants ?d)
      = filter (\<lambda>g. gr_evidence g = gq_evidence_id req) (t_grants ?d)"
    using db_invD(4) [OF inv] by (auto simp: owners_ok_def intro!: filter_cong)
  with n inv_insert_grant [OF ins inv1] show ?thesis by simp
qed

lemma inv_revoke_tx:
  assumes "revoke_grant_tx env owner gid db = Ok (v, db')" and inv: "db_inv cfg cd blobs db"
  shows "db_inv cfg cd blobs db'"
  using assms(1) inv_delete_grants [OF inv] unfolding revoke_grant_tx_def by (auto split: option.splits)

lemma inv_abort_tx:
  assumes "abort_tx env owner u db = Ok (v, db')" and inv: "db_inv cfg cd blobs db"
  shows "db_inv cfg cd blobs db'"
  using assms(1) inv_delete_obs [OF inv] unfolding abort_tx_def by auto

lemma inv_startup_tx:
  assumes "reconcile_startup_tx env cfg db = Ok (v, db')" and inv: "db_inv cfg cd blobs db"
  shows "db_inv cfg cd blobs db'"
  using assms(1) inv_expire_rows [OF _ inv_delete_obs [OF inv]] unfolding reconcile_startup_tx_def by auto

text \<open>Removing what no chunk refers to.\<close>

lemma inv_cleanup:
  assumes "store_ok cfg cd st" "cleanup_orphans env k st = (res, st')"
  shows "store_ok cfg cd st'"
proof -
  note d = db_invD [OF assms(1) [unfolded store_ok_def]]
  have "content_ok cfg cd (remove_unreferenced (ck_hash ` set (t_chunks (es_db st))) (es_blobs st)) (es_db st)"
    by (rule content_ok_blobs [OF d(2)]) (simp add: remove_unreferenced_def)
  then show ?thesis
    using assms d by (auto simp: cleanup_orphans_def store_ok_def db_inv_def split: result.splits)
qed

section \<open>Reachable stores\<close>

datatype ev_call =
    CallReserve OwnerId ReserveObservation
  | CallAppend OwnerId AppendChunk
  | CallFinalize OwnerId UploadId string
  | CallCommit OwnerId UploadId
  | CallAbort OwnerId UploadId
  | CallRead OwnerId ReadRequest
  | CallPin OwnerId EvidenceId duration
  | CallRelease OwnerId EvidenceId
  | CallGrant OwnerId GrantRequest
  | CallRevoke OwnerId GrantId
  | Restart

fun apply_call :: "ev_env \<Rightarrow> EvidenceStoreConfig \<Rightarrow> codec \<Rightarrow> ev_call \<Rightarrow> ev_store \<Rightarrow> ev_store" where
  "apply_call env cfg cd (CallReserve w req) st = snd (reserve env cfg cd w req st)"
| "apply_call env cfg cd (CallAppend w req) st = snd (append_chunk env cfg cd w req st)"
| "apply_call env cfg cd (CallFinalize w u p) st = snd (finalize_part env cd w u p st)"
| "apply_call env cfg cd (CallCommit w u) st = snd (commit env cd w u st)"
| "apply_call env cfg cd (CallAbort w u) st = snd (abort env w u st)"
| "apply_call env cfg cd (CallRead w req) st = snd (read env cfg cd w req st)"
| "apply_call env cfg cd (CallPin w i ttl) st = snd (pin env cfg cd w i ttl st)"
| "apply_call env cfg cd (CallRelease w i) st = snd (release env w i st)"
| "apply_call env cfg cd (CallGrant w req) st = snd (grant env cfg cd w req st)"
| "apply_call env cfg cd (CallRevoke w g) st = snd (revoke_grant env w g st)"
| "apply_call env cfg cd Restart st = snd (reconcile_startup env cfg st)"

text \<open>An \<open>OwnerId\<close> is a parsed principal.\<close>

fun call_ok :: "ev_call \<Rightarrow> bool" where
  "call_ok (CallReserve w req) \<longleftrightarrow> parse_owner w = Ok w"
| "call_ok _ \<longleftrightarrow> True"

inductive ev_step :: "EvidenceStoreConfig \<Rightarrow> codec \<Rightarrow> ev_store \<Rightarrow> ev_store \<Rightarrow> bool"
  for cfg :: EvidenceStoreConfig and cd :: codec where
  "call_ok call \<Longrightarrow> ev_step cfg cd st (apply_call env cfg cd call st)"

definition ev_init :: "EvidenceStoreConfig \<Rightarrow> ev_store \<Rightarrow> bool" where
  "ev_init cfg st \<longleftrightarrow> memory_store_new cfg = Ok st"

text \<open>
  What a call does to the store: nothing, a transaction, a blob before an append, a commit, or a
  transaction followed by the removal of orphaned blobs.
\<close>

lemma transact_inv:
  assumes "transact st f = (res, st')" "store_ok cfg cd st"
    "\<And>v db'. f (es_db st) = Ok (v, db') \<Longrightarrow> db_inv cfg cd (es_blobs st) db'"
  shows "store_ok cfg cd st'"
  using assms by (auto simp: transact_def store_ok_def split: result.splits)

lemma bind_cleanup_inv:
  assumes "bind_st (transact st f) (\<lambda>_ st. cleanup_orphans env k st) = (res, st')" "store_ok cfg cd st"
    "\<And>v db'. f (es_db st) = Ok (v, db') \<Longrightarrow> db_inv cfg cd (es_blobs st) db'"
  shows "store_ok cfg cd st'"
proof -
  obtain r1 st1 where t: "transact st f = (r1, st1)" by fastforce
  have s1: "store_ok cfg cd st1" by (rule transact_inv [OF t assms(2,3)])
  show ?thesis
    using assms(1) t s1 inv_cleanup [OF s1] by (cases r1) auto
qed

lemma inv_reserve_call:
  "reserve_call env cfg cd owner req db = Ok (v, db') \<Longrightarrow> db_inv cfg cd blobs db \<Longrightarrow> parse_owner owner = Ok owner
   \<Longrightarrow> db_inv cfg cd blobs db'"
  unfolding reserve_call_def by (auto dest: inv_reserve_tx)

lemma inv_commit:
  assumes "store_ok cfg cd st" shows "store_ok cfg cd (snd (commit env cd w u st))"
  using assms inv_commit_tx [of env w u "es_db st" _ _ cfg cd "es_blobs st"]
  by (auto simp: commit_def store_ok_def Let_def split: result.splits option.splits prod.splits)

lemma inv_apply_call:
  assumes "store_ok cfg cd st" "call_ok call"
  shows "store_ok cfg cd (apply_call env cfg cd call st)"
proof -
  note d = assms(1) [unfolded store_ok_def]
  show ?thesis
  proof (cases call)
    case (CallReserve w req)
    then show ?thesis
      using assms transact_inv [OF prod.collapse [symmetric] assms(1), of "reserve_call env cfg cd w req"]
        inv_reserve_call [OF _ d] by (simp add: reserve_def)
  next
    case (CallAppend w req)
    then show ?thesis using inv_append [OF prod.collapse [symmetric] assms(1)] by simp
  next
    case (CallFinalize w u p)
    then show ?thesis
      using transact_inv [OF prod.collapse [symmetric] assms(1), of "finalize_tx env cd w u p (es_blobs st)"]
        inv_finalize_tx [OF _ d] by (simp add: finalize_part_def)
  next
    case (CallCommit w u)
    then show ?thesis using inv_commit [OF assms(1)] by simp
  next
    case (CallAbort w u)
    then show ?thesis
      using bind_cleanup_inv [OF prod.collapse [symmetric] assms(1), of "abort_tx env w u"]
        inv_abort_tx [OF _ d] by (simp add: abort_def)
  next
    case (CallRead w req)
    then show ?thesis
      using transact_inv [OF prod.collapse [symmetric] assms(1), of "read_tx env cfg cd w req st"]
        inv_read_tx [OF _ d] by (simp add: read_def)
  next
    case (CallPin w i ttl)
    obtain r1 st1 where t: "transact st (pin_tx env cfg w i ttl) = (r1, st1)" by fastforce
    have "store_ok cfg cd st1" by (rule transact_inv [OF t assms(1)]) (rule inv_pin_tx [OF _ d])
    with CallPin t show ?thesis by (cases r1) (simp_all add: pin_def)
  next
    case (CallRelease w i)
    then show ?thesis
      using bind_cleanup_inv [OF prod.collapse [symmetric] assms(1), of "release_tx env w i"]
        inv_release_tx [OF _ d] by (simp add: release_def)
  next
    case (CallGrant w req)
    then show ?thesis
      using transact_inv [OF prod.collapse [symmetric] assms(1), of "grant_tx env cfg cd w req"]
        inv_grant_tx [OF _ d] by (simp add: grant_def)
  next
    case (CallRevoke w g)
    then show ?thesis
      using transact_inv [OF prod.collapse [symmetric] assms(1), of "revoke_grant_tx env w g"]
        inv_revoke_tx [OF _ d] by (simp add: revoke_grant_def)
  next
    case Restart
    then show ?thesis
      using bind_cleanup_inv [OF prod.collapse [symmetric] assms(1), of "reconcile_startup_tx env cfg"]
        inv_startup_tx [OF _ d] by (simp add: reconcile_startup_def)
  qed
qed

lemma store_ok_init: "ev_init cfg st \<Longrightarrow> store_ok cfg cd st"
  by (auto simp: ev_init_def memory_store_new_def store_ok_def db_inv_def keys_ok_def content_ok_def
      quota_ok_def owners_ok_def empty_db_def obs_ids_def owner_active_def all_active_def)

interpretation evidence: transition_system "ev_init cfg" "ev_step cfg cd" "store_ok cfg cd" for cfg cd
proof
  fix st assume "ev_init cfg st" then show "store_ok cfg cd st" by (rule store_ok_init)
next
  fix st st' assume "store_ok cfg cd st" "ev_step cfg cd st st'"
  then show "store_ok cfg cd st'" by (auto elim!: ev_step.cases intro: inv_apply_call)
qed

abbreviation ev_reachable :: "EvidenceStoreConfig \<Rightarrow> codec \<Rightarrow> ev_store \<Rightarrow> bool" where
  "ev_reachable cfg cd \<equiv> reachable (ev_init cfg) (ev_step cfg cd)"

end
