(* ===== verification/EvidenceRead.thy ===== *)
theory EvidenceRead
  imports EvidenceSteps
begin

text \<open>
  What a reader of the evidence store gets.  A page of committed evidence is the requested segment
  of the bytes whose SHA-256 the manifest declares; a text page ends on a character boundary;
  following the cursors page by page returns every byte exactly once and ends.
\<close>

section \<open>Slices\<close>

definition segment :: "nat \<Rightarrow> nat \<Rightarrow> 'a list \<Rightarrow> 'a list" where
  "segment a b xs = take (b - a) (drop a xs)"

lemma segment_append_next: "a \<le> b \<Longrightarrow> b \<le> c \<Longrightarrow> segment a b xs @ segment b c xs = segment a c xs"
proof -
  assume "a \<le> b" "b \<le> c"
  then have "c - a = (b - a) + (c - b)" "drop b xs = drop (b - a) (drop a xs)" by simp_all
  then show ?thesis unfolding segment_def by (metis take_add)
qed

lemma length_segment: "b \<le> length xs \<Longrightarrow> length (segment a b xs) = b - a"
  by (simp add: segment_def)

lemma segment_full: "segment 0 (length xs) xs = xs"
  by (simp add: segment_def)

lemma segment_append:
  "segment a b (xs @ ys) = segment a (min b (length xs)) xs @ segment (a - length xs) (b - length xs) ys"
proof (cases "a \<le> length xs")
  case True
  then show ?thesis by (simp add: segment_def min_def)
next
  case False
  then show ?thesis by (simp add: segment_def)
qed

section \<open>The bytes of a part\<close>

definition part_content :: "ev_store \<Rightarrow> string \<Rightarrow> string \<Rightarrow> string" where
  "part_content st i n = chunk_bytes (es_blobs st) (part_chunks (es_db st) i n)"

lemma chunk_bytes_simps [simp]:
  "chunk_bytes blobs [] = []" "chunk_bytes blobs (c # cs) = the (blobs (ck_hash c)) @ chunk_bytes blobs cs"
  by (simp_all add: chunk_bytes_def)

lemma length_chunk_bytes: "(\<And>c. c \<in> set cs \<Longrightarrow> chunk_ok cd blobs c) \<Longrightarrow> length (chunk_bytes blobs cs) = lens cs"
proof (induction cs)
  case (Cons c cs)
  from Cons.prems [of c] have "length (the (blobs (ck_hash c))) = unat (ck_len c)" by (auto simp: chunk_ok_def)
  with Cons show ?case by simp
qed simp

lemma checked_chunk_eq:
  assumes "chunk_ok cd blobs c" shows "checked_chunk cd blobs c = Ok (the (blobs (ck_hash c)))"
proof -
  from assms obtain b where b: "blobs (ck_hash c) = Some b" "length b = unat (ck_len c)" "sha256_hex cd b = ck_hash c"
    by (auto simp: chunk_ok_def)
  have "unat (len_u64 b) = unat (ck_len c)"
    using b(2) unat_u64_less [of "ck_len c"] by (simp add: unat_len_u64)
  then have "len_u64 b = ck_len c" by (simp add: word_unat_eq_iff)
  with b show ?thesis by (simp add: checked_chunk_def blob_get_def)
qed

text \<open>\<open>read_range\<close> returns the segment: chunks outside are skipped, the others contribute their part.\<close>

lemma range_bytes_segment:
  assumes "contiguous k off cs" "\<And>c. c \<in> set cs \<Longrightarrow> chunk_ok cd blobs c" "off + lens cs < 2 ^ 64"
    and le: "unat start \<le> unat stop"
  shows "range_bytes cd blobs start stop out cs
    = Ok (out @ segment (unat start - off) (unat stop - off) (chunk_bytes blobs cs))"
  using assms(1-3)
proof (induction cs arbitrary: k off out)
  case Nil
  then show ?case by (simp add: segment_def)
next
  case (Cons c cs)
  let ?b = "the (blobs (ck_hash c))"
  from Cons.prems have off: "unat (ck_offset c) = off" and rest: "contiguous (k + 1) (off + unat (ck_len c)) cs"
    "off + unat (ck_len c) + lens cs < 2 ^ 64" by simp_all
  have c: "chunk_ok cd blobs c" using Cons.prems(2) by simp
  then have lb: "length ?b = unat (ck_len c)" by (auto simp: chunk_ok_def)
  have ce: "unat (saturating_add (ck_offset c) (ck_len c)) = off + unat (ck_len c)"
    using rest(2) off by (simp add: unat_saturating_add)
  have IH: "range_bytes cd blobs start stop out' cs = Ok (out' @
      segment (unat start - (off + unat (ck_len c))) (unat stop - (off + unat (ck_len c))) (chunk_bytes blobs cs))" for out'
    by (rule Cons.IH [OF rest(1) _ rest(2)]) (use Cons.prems(2) in simp)
  show ?case
  proof (cases "saturating_add (ck_offset c) (ck_len c) \<le> start \<or> stop \<le> ck_offset c")
    case True
    then have "off + unat (ck_len c) \<le> unat start \<or> unat stop \<le> off"
      using ce off by (simp add: word_le_nat_alt)
    then have "segment (unat start - off) (min (unat stop - off) (length ?b)) ?b = []"
      using lb by (auto simp: segment_def)
    with True IH lb show ?thesis
      by (simp add: Let_def segment_append)
  next
    case False
    then have bounds: "unat start < off + unat (ck_len c)" "off < unat stop"
      using ce off by (simp_all add: word_le_nat_alt not_le)
    let ?e = "saturating_add (ck_offset c) (ck_len c)"
    have stop: "unat (min stop ?e) - unat (ck_offset c) = min (unat stop - off) (length ?b)"
      using ce off lb by (auto simp: min_def word_le_nat_alt)
    have "drop (unat start - off) (take (min (unat stop - off) (length ?b)) ?b)
        = segment (unat start - off) (min (unat stop - off) (length ?b)) ?b"
      by (simp add: segment_def drop_take)
    moreover have "\<not> (min (unat stop - off) (length ?b) < unat start - off
        \<or> length ?b < min (unat stop - off) (length ?b))"
      using bounds lb le by auto
    ultimately show ?thesis
      using False checked_chunk_eq [OF c] IH lb by (simp add: Let_def stop [unfolded off] off segment_append)
  qed
qed

section \<open>A readable part is intact\<close>

lemma authorize_readable:
  assumes "authorize env k cd w i part now db = Ok a"
  obtains r where "find_obs db i = Some r" "ob_status r = STATUS_COMPLETE" "now < ob_expires r"
  using assms by (auto simp: authorize_def split: option.splits)

lemma authorize_exact_readable:
  assumes "authorize_exact_grant env k cd w i part now g db = Ok a"
  obtains r where "find_obs db i = Some r" "ob_status r = STATUS_COMPLETE" "now < ob_expires r"
proof (cases g)
  case None
  with assms that show thesis
    by (auto simp: authorize_exact_grant_def elim: authorize_readable)
next
  case (Some gid)
  with assms that show thesis
    by (auto simp: authorize_exact_grant_def split: option.splits)
qed

lemma read_position_readable:
  assumes "read_position env cd w req now db = Ok (start, g)"
  obtains r where "find_obs db (rr_evidence_id req) = Some r" "ob_status r = STATUS_COMPLETE" "now < ob_expires r"
  using assms that
  by (cases "rr_cursor req")
     (auto simp: read_position_def split: option.splits elim: authorize_readable authorize_exact_readable)

lemma load_part_row_Ok:
  assumes "load_part_row env k cd i n db = Ok m"
  obtains p where "find_part db i n = Some p" "pm_bytes m = pr_len p" "pm_sha256 m = pr_sha p"
    "pm_name m = n" "pr_kind p = kind_name (pm_kind m)"
  using assms by (auto simp: load_part_row_def kind_name_def split: option.splits if_splits)

lemma committed_part:
  assumes "db_inv cfg cd (es_blobs st) (es_db st)" "find_obs (es_db st) i = Some r" "ob_status r = STATUS_COMPLETE"
    "find_part (es_db st) i n = Some p"
  shows "part_ok cfg cd (es_blobs st) STATUS_COMPLETE p (part_chunks (es_db st) i n)" "pr_finalized p"
    "sha256_hex cd (part_content st i n) = pr_sha p" "length (part_content st i n) = unat (pr_len p)"
    "pr_kind p = ''utf8'' \<Longrightarrow> valid_utf8 (part_content st i n)"
proof -
  from find_obs_Some [OF assms(2)] find_part_Some [OF assms(4)] assms(3)
    content_okD [OF db_invD(2) [OF assms(1)], of r p]
  show ok: "part_ok cfg cd (es_blobs st) STATUS_COMPLETE p (part_chunks (es_db st) i n)" by simp
  then show "pr_finalized p" by (simp add: part_ok_def)
  with ok have *: "lens (part_chunks (es_db st) i n) = unat (pr_len p)"
    "sha256_hex cd (part_content st i n) = pr_sha p"
    "pr_kind p = ''utf8'' \<longrightarrow> valid_utf8 (part_content st i n)"
    "\<forall>c\<in>set (part_chunks (es_db st) i n). chunk_ok cd (es_blobs st) c"
    by (simp_all add: part_ok_def part_content_def)
  then show "sha256_hex cd (part_content st i n) = pr_sha p"
    "pr_kind p = ''utf8'' \<Longrightarrow> valid_utf8 (part_content st i n)" by simp_all
  have "length (chunk_bytes (es_blobs st) (part_chunks (es_db st) i n)) = lens (part_chunks (es_db st) i n)"
    by (rule length_chunk_bytes) (use *(4) in blast)
  with *(1) show "length (part_content st i n) = unat (pr_len p)" by (simp add: part_content_def)
qed

lemma read_range_segment:
  assumes "part_ok cfg cd (es_blobs st) s p (part_chunks (es_db st) i n)"
    "read_range env k cd i n start stop st = Ok out" "unat start \<le> unat stop"
  shows "out = segment (unat start) (unat stop) (part_content st i n)"
proof -
  have rows: "chunk_rows (es_db st) i n = part_chunks (es_db st) i n" by (rule part_chunks_rows [OF assms(1)])
  have c: "contiguous 0 0 (part_chunks (es_db st) i n)" "0 + lens (part_chunks (es_db st) i n) < 2 ^ 64"
    "\<And>c. c \<in> set (part_chunks (es_db st) i n) \<Longrightarrow> chunk_ok cd (es_blobs st) c"
    using assms(1) by (auto simp: part_ok_def)
  from range_bytes_segment [OF c(1,3,2) assms(3), of "[]"] assms(2) rows show ?thesis
    by (simp add: read_range_def part_content_def)
qed

text \<open>The page bytes are a segment from \<open>start\<close>; on text they end at a character.\<close>

lemma page_bytes_segment:
  assumes inv: "db_inv cfg cd (es_blobs st) (es_db st)"
    and obs: "find_obs (es_db st) (rr_evidence_id req) = Some r" "ob_status r = STATUS_COMPLETE"
    and part: "find_part (es_db st) (rr_evidence_id req) (rr_part req) = Some p" "pm_bytes m = pr_len p"
    and page: "page_bytes env cd req m start st = Ok bytes" and start: "\<not> pm_bytes m < start"
  obtains stop where "unat start \<le> stop" "stop \<le> unat (pr_len p)"
    "bytes = segment (unat start) stop (part_content st (rr_evidence_id req) (rr_part req))"
    "stop - unat start \<le> unat (rr_max_bytes req)"
    "rr_encoding req = EncUtf8 \<longrightarrow> valid_utf8 bytes"
    "rr_encoding req = EncBase64 \<longrightarrow> stop = min (unat start + unat (rr_max_bytes req)) (unat (pr_len p))"
    "rr_encoding req = EncUtf8 \<longrightarrow> start \<noteq> pm_bytes m \<longrightarrow> 0 < rr_max_bytes req \<longrightarrow> unat start < stop"
proof -
  let ?c = "part_content st (rr_evidence_id req) (rr_part req)"
  let ?e = "min (saturating_add start (rr_max_bytes req)) (pm_bytes m)"
  note cp = committed_part [OF inv obs part(1)]
  have small: "unat (pr_len p) < 2 ^ 63" using cp(1) by (simp add: part_ok_def)
  have le: "unat start \<le> unat (pr_len p)" using start part(2) by (simp add: not_less word_le_nat_alt)
  have e: "unat ?e = min (unat start + unat (rr_max_bytes req)) (unat (pr_len p))"
  proof -
    have "unat ?e = min (unat (saturating_add start (rr_max_bytes req))) (unat (pm_bytes m))"
      by (simp add: min_def word_le_nat_alt)
    with small part(2) show ?thesis by (simp add: unat_saturating_add)
  qed
  then have se: "unat start \<le> unat ?e" using le by simp
  from page obtain out where out: "read_range env 4 cd (rr_evidence_id req) (rr_part req) start ?e st = Ok out"
    and cut: "(if rr_encoding req = EncUtf8 \<and> ?e < pm_bytes m then
          let bytes = trim_utf8 out in
          res_bind (fail_if (bytes = [] \<and> start < pm_bytes m)
            (InvalidInput ''maxBytes is too small for the next UTF-8 code point'')) (\<lambda>_. Ok bytes)
        else Ok out) = Ok bytes"
    and valid: "rr_encoding req = EncUtf8 \<Longrightarrow> valid_utf8 bytes"
    by (auto simp: page_bytes_def Let_def)
  have seg: "out = segment (unat start) (unat ?e) ?c" by (rule read_range_segment [OF cp(1) out se])
  have lo: "length out = unat ?e - unat start" using seg e cp(4) by (simp add: length_segment)
  show thesis
  proof (cases "rr_encoding req = EncUtf8 \<and> ?e < pm_bytes m")
    case True
    with cut have b: "bytes = trim_utf8 out" "bytes \<noteq> [] \<or> \<not> start < pm_bytes m" by (auto simp: Let_def)
    from trim_utf8_prefix [of out] obtain n where n: "n \<le> length out" "trim_utf8 out = take n out" by blast
    let ?s = "unat start + n"
    have ns: "?s \<le> unat ?e" using n(1) lo se by simp
    have "bytes = segment (unat start) ?s ?c"
      using b n seg ns lo by (simp add: segment_def min_def)
    moreover have "unat start < ?s" if "start \<noteq> pm_bytes m"
      using b(2) that start n b(1) by (auto simp: not_less)
    ultimately show ?thesis
      using that [of ?s] ns e valid True by simp
  next
    case False
    with cut have "bytes = out" by (simp split: if_splits)
    have "unat start < unat ?e" if "rr_encoding req = EncUtf8" "start \<noteq> pm_bytes m" "0 < rr_max_bytes req"
    proof -
      have "unat start \<noteq> unat (pr_len p)" using that(2) part(2) by (simp add: word_unat_eq_iff)
      moreover have "0 < unat (rr_max_bytes req)" using that(3) by (simp add: word_less_nat_alt)
      ultimately show ?thesis using le e by simp
    qed
    then show ?thesis using that [of "unat ?e"] \<open>bytes = out\<close> seg se e valid by simp
  qed
qed

text \<open>Everything a successful read tells, in one elimination.\<close>

lemma read_tx_Ok:
  assumes "read_tx env cfg cd w req st db = Ok (page, db')"
  obtains now start g m bytes where "now_ms env 0 = Ok now" "0 < rr_max_bytes req"
    "read_position env cd w req now db = Ok (start, g)"
    "load_part_row env 3 cd (rr_evidence_id req) (rr_part req) db = Ok m"
    "\<not> pm_bytes m < start" "page_bytes env cd req m start st = Ok bytes" "length bytes < 2 ^ 64"
    "rr_encoding req = EncUtf8 \<longrightarrow> pm_kind m = KindUtf8"
    "pg_byte_start page = start" "pg_byte_end page = start + len_u64 bytes" "pg_total_bytes page = pm_bytes m"
    "pg_returned_bytes page = len_u64 bytes"
    "pg_content page = (case rr_encoding req of EncUtf8 \<Rightarrow> PageUtf8 bytes | EncBase64 \<Rightarrow> PageBase64 (base64 cd bytes))"
    "pg_complete page = (start + len_u64 bytes = pm_bytes m)"
    "(pg_complete page \<and> pg_next_cursor page = None \<and> db' = db) \<or>
     (\<not> pg_complete page \<and> (\<exists>token. pg_next_cursor page = Some token \<and>
        insert_cursor env 6 \<lparr>cu_token = token, cu_reader = w, cu_evidence = rr_evidence_id req,
          cu_part = rr_part req, cu_encoding = encoding_name (rr_encoding req),
          cu_projection = ''bytes'', cu_next = start + len_u64 bytes, cu_page = rr_max_bytes req,
          cu_grant = g\<rparr> db = Ok db'))"
proof -
  from assms obtain now start g m bytes where
    1: "now_ms env 0 = Ok now" "\<not> (rr_max_bytes req = 0 \<or> max_page_bytes cfg < rr_max_bytes req)"
    "read_position env cd w req now db = Ok (start, g)"
    "load_part_row env 3 cd (rr_evidence_id req) (rr_part req) db = Ok m"
    "\<not> pm_bytes m < start" "page_bytes env cd req m start st = Ok bytes" "length bytes < 2 ^ 64"
    "rr_encoding req = EncUtf8 \<longrightarrow> pm_kind m = KindUtf8"
    "pg_byte_start page = start" "pg_byte_end page = start + len_u64 bytes" "pg_total_bytes page = pm_bytes m"
    "pg_returned_bytes page = len_u64 bytes"
    "pg_content page = (case rr_encoding req of EncUtf8 \<Rightarrow> PageUtf8 bytes | EncBase64 \<Rightarrow> PageBase64 (base64 cd bytes))"
    "pg_complete page = (start + len_u64 bytes = pm_bytes m)"
    and 2: "(pg_complete page \<and> pg_next_cursor page = None \<and> db' = db) \<or>
     (\<not> pg_complete page \<and> (\<exists>token. pg_next_cursor page = Some token \<and>
        insert_cursor env 6 \<lparr>cu_token = token, cu_reader = w, cu_evidence = rr_evidence_id req,
          cu_part = rr_part req, cu_encoding = encoding_name (rr_encoding req),
          cu_projection = ''bytes'', cu_next = start + len_u64 bytes, cu_page = rr_max_bytes req,
          cu_grant = g\<rparr> db = Ok db'))"
    unfolding read_tx_def Let_def
    by (auto split: if_splits simp: not_le) (metis | blast)+
  show thesis
    by (rule that [OF 1(1) _ 1(3-14) 2]) (use 1(2) in \<open>simp add: word_gt_0\<close>)
qed

lemma encoding_kind: "pr_kind p = kind_name (pm_kind m) \<Longrightarrow> pm_kind m = KindUtf8 \<Longrightarrow> pr_kind p = ''utf8''"
  by (simp add: kind_name_def)

definition page_payload :: "codec \<Rightarrow> ReadEncoding \<Rightarrow> string \<Rightarrow> PageContent" where
  "page_payload cd e bytes = (case e of EncUtf8 \<Rightarrow> PageUtf8 bytes | EncBase64 \<Rightarrow> PageBase64 (base64 cd bytes))"

text \<open>
  The facts of a page in terms of the content: start, end, bytes, bounds and the cursor row that
  continues it.
\<close>

lemma read_page_facts:
  assumes inv: "store_ok cfg cd st" and r: "read env cfg cd w req st = (Ok page, st')"
  obtains r p now g where "find_obs (es_db st) (rr_evidence_id req) = Some r" "ob_status r = STATUS_COMPLETE"
    "now_ms env 0 = Ok now" "now < ob_expires r"
    "read_position env cd w req now (es_db st) = Ok (pg_byte_start page, g)"
    "find_part (es_db st) (rr_evidence_id req) (rr_part req) = Some p" "pg_total_bytes page = pr_len p"
    "pg_byte_start page \<le> pg_byte_end page" "pg_byte_end page \<le> pr_len p"
    "pg_returned_bytes page = pg_byte_end page - pg_byte_start page"
    "unat (pg_returned_bytes page) \<le> unat (rr_max_bytes req)"
    "pg_content page = page_payload cd (rr_encoding req)
       (segment (unat (pg_byte_start page)) (unat (pg_byte_end page))
          (part_content st (rr_evidence_id req) (rr_part req)))"
    "rr_encoding req = EncUtf8 \<longrightarrow> pr_kind p = ''utf8'' \<and> valid_utf8
       (segment (unat (pg_byte_start page)) (unat (pg_byte_end page))
          (part_content st (rr_evidence_id req) (rr_part req)))"
    "pg_complete page \<longleftrightarrow> pg_byte_end page = pr_len p"
    "pg_byte_start page < pr_len p \<longrightarrow> pg_byte_start page < pg_byte_end page"
    "rr_encoding req = EncBase64 \<longrightarrow> unat (pg_byte_end page)
       = min (unat (pg_byte_start page) + unat (rr_max_bytes req)) (unat (pr_len p))"
    "es_blobs st' = es_blobs st"
    "(pg_complete page \<and> pg_next_cursor page = None \<and> st' = st) \<or>
     (\<not> pg_complete page \<and> (\<exists>token. pg_next_cursor page = Some token \<and>
        insert_cursor env 6 \<lparr>cu_token = token, cu_reader = w, cu_evidence = rr_evidence_id req,
          cu_part = rr_part req, cu_encoding = encoding_name (rr_encoding req),
          cu_projection = ''bytes'', cu_next = pg_byte_end page, cu_page = rr_max_bytes req,
          cu_grant = g\<rparr> (es_db st) = Ok (es_db st')))"
proof -
  have inv': "db_inv cfg cd (es_blobs st) (es_db st)" using inv by (simp add: store_ok_def)
  from r obtain db' where tx: "read_tx env cfg cd w req st (es_db st) = Ok (page, db')" and st': "st' = st\<lparr>es_db := db'\<rparr>"
    by (auto simp: read_def transact_Ok)
  show thesis
  proof (rule read_tx_Ok [OF tx])
    fix now start g m bytes
    assume a: "now_ms env 0 = Ok now" "0 < rr_max_bytes req"
      "read_position env cd w req now (es_db st) = Ok (start, g)"
      "load_part_row env 3 cd (rr_evidence_id req) (rr_part req) (es_db st) = Ok m"
      "\<not> pm_bytes m < start" "page_bytes env cd req m start st = Ok bytes" "length bytes < 2 ^ 64"
      "rr_encoding req = EncUtf8 \<longrightarrow> pm_kind m = KindUtf8"
      "pg_byte_start page = start" "pg_byte_end page = start + len_u64 bytes" "pg_total_bytes page = pm_bytes m"
      "pg_returned_bytes page = len_u64 bytes"
      "pg_content page = (case rr_encoding req of EncUtf8 \<Rightarrow> PageUtf8 bytes | EncBase64 \<Rightarrow> PageBase64 (base64 cd bytes))"
      "pg_complete page = (start + len_u64 bytes = pm_bytes m)"
      and cur: "(pg_complete page \<and> pg_next_cursor page = None \<and> db' = es_db st) \<or>
       (\<not> pg_complete page \<and> (\<exists>token. pg_next_cursor page = Some token \<and>
          insert_cursor env 6 \<lparr>cu_token = token, cu_reader = w, cu_evidence = rr_evidence_id req,
            cu_part = rr_part req, cu_encoding = encoding_name (rr_encoding req),
            cu_projection = ''bytes'', cu_next = start + len_u64 bytes, cu_page = rr_max_bytes req,
            cu_grant = g\<rparr> (es_db st) = Ok db'))"
    obtain r where obs: "find_obs (es_db st) (rr_evidence_id req) = Some r" "ob_status r = STATUS_COMPLETE"
      "now < ob_expires r" by (rule read_position_readable [OF a(3)])
    obtain p where part: "find_part (es_db st) (rr_evidence_id req) (rr_part req) = Some p"
      "pm_bytes m = pr_len p" "pr_kind p = kind_name (pm_kind m)"
      by (rule load_part_row_Ok [OF a(4)])
    let ?c = "part_content st (rr_evidence_id req) (rr_part req)"
    obtain stop where s: "unat start \<le> stop" "stop \<le> unat (pr_len p)" "bytes = segment (unat start) stop ?c"
      "stop - unat start \<le> unat (rr_max_bytes req)" "rr_encoding req = EncUtf8 \<longrightarrow> valid_utf8 bytes"
      "rr_encoding req = EncBase64 \<longrightarrow> stop = min (unat start + unat (rr_max_bytes req)) (unat (pr_len p))"
      "rr_encoding req = EncUtf8 \<longrightarrow> start \<noteq> pm_bytes m \<longrightarrow> 0 < rr_max_bytes req \<longrightarrow> unat start < stop"
      by (rule page_bytes_segment [OF inv' obs(1,2) part(1,2) a(6,5)])
    note cp = committed_part [OF inv' obs(1,2) part(1)]
    have lb: "length bytes = stop - unat start" using s(2,3) cp(4) by (simp add: length_segment)
    have stop: "stop < 2 ^ 64" using s(2) unat_u64_less [of "pr_len p"] by linarith
    have ret: "unat (len_u64 bytes) = stop - unat start" using lb a(7) by (simp add: unat_len_u64)
    have "unat (start + len_u64 bytes) = stop" using s(1) stop ret by (simp add: unat_word_ariths)
    with a(10) have e: "unat (pg_byte_end page) = stop" by simp
    have diff: "pg_returned_bytes page = pg_byte_end page - pg_byte_start page" using a(9,10,12) by simp
    have prog: "pg_byte_start page < pr_len p \<longrightarrow> pg_byte_start page < pg_byte_end page"
    proof
      assume "pg_byte_start page < pr_len p"
      then have lt: "unat start < unat (pr_len p)" "start \<noteq> pm_bytes m"
        using a(9) part(2) by (auto simp: word_less_nat_alt)
      have "0 < unat (rr_max_bytes req)" using a(2) by (simp add: word_less_nat_alt)
      then have "unat start < stop" using s(6,7) lt a(2) by (cases "rr_encoding req") auto
      then show "pg_byte_start page < pg_byte_end page" using e a(9) by (simp add: word_less_nat_alt)
    qed
    show thesis
    proof (rule that [OF obs(1,2) a(1) obs(3) _ part(1) _ _ _ diff _ _ _ _ prog])
      show "read_position env cd w req now (es_db st) = Ok (pg_byte_start page, g)" using a(3,9) by simp
      show "pg_total_bytes page = pr_len p" using a(11) part(2) by simp
      show "pg_byte_start page \<le> pg_byte_end page" "pg_byte_end page \<le> pr_len p"
        using s(1,2) e a(9) by (simp_all add: word_le_nat_alt)
      show "unat (pg_returned_bytes page) \<le> unat (rr_max_bytes req)" using a(12) ret s(4) by simp
      show "pg_content page = page_payload cd (rr_encoding req)
         (segment (unat (pg_byte_start page)) (unat (pg_byte_end page)) ?c)"
        unfolding a(9) e page_payload_def a(13) s(3) [symmetric] by (rule refl)
      show "rr_encoding req = EncUtf8 \<longrightarrow> pr_kind p = ''utf8'' \<and>
         valid_utf8 (segment (unat (pg_byte_start page)) (unat (pg_byte_end page)) ?c)"
        using a(8,9) e s(3,5) encoding_kind [OF part(3)] by simp
      show "pg_complete page \<longleftrightarrow> pg_byte_end page = pr_len p" using a(10,14) part(2) by simp
      show "rr_encoding req = EncBase64 \<longrightarrow> unat (pg_byte_end page)
         = min (unat (pg_byte_start page) + unat (rr_max_bytes req)) (unat (pr_len p))"
        using a(9) e s(6) by simp
      show "es_blobs st' = es_blobs st" by (simp add: st')
      show "(pg_complete page \<and> pg_next_cursor page = None \<and> st' = st) \<or>
       (\<not> pg_complete page \<and> (\<exists>token. pg_next_cursor page = Some token \<and>
          insert_cursor env 6 \<lparr>cu_token = token, cu_reader = w, cu_evidence = rr_evidence_id req,
            cu_part = rr_part req, cu_encoding = encoding_name (rr_encoding req),
            cu_projection = ''bytes'', cu_next = pg_byte_end page, cu_page = rr_max_bytes req,
            cu_grant = g\<rparr> (es_db st) = Ok (es_db st')))"
        using cur a(10) st' by auto
    qed
  qed
qed

text \<open>C3: A page read from any reachable evidence store comes from a committed, unexpired
  observation; it is exactly the stated segment of bytes whose SHA-256 and length are those of the
  part's manifest, never longer than requested, valid UTF-8 when asked as text, and makes progress
  unless the part has ended.\<close>

theorem read_page_intact:
  assumes "ev_reachable cfg cd st" and "read env cfg cd w req st = (Ok page, st')"
  shows "\<exists>r p content. find_obs (es_db st) (rr_evidence_id req) = Some r \<and> ob_status r = STATUS_COMPLETE
    \<and> find_part (es_db st) (rr_evidence_id req) (rr_part req) = Some p
    \<and> sha256_hex cd content = pr_sha p \<and> length content = unat (pr_len p)
    \<and> pg_total_bytes page = pr_len p
    \<and> pg_byte_start page \<le> pg_byte_end page \<and> pg_byte_end page \<le> pr_len p
    \<and> pg_content page = page_payload cd (rr_encoding req)
        (segment (unat (pg_byte_start page)) (unat (pg_byte_end page)) content)
    \<and> unat (pg_returned_bytes page) = unat (pg_byte_end page) - unat (pg_byte_start page)
    \<and> unat (pg_returned_bytes page) \<le> unat (rr_max_bytes req)
    \<and> (rr_encoding req = EncUtf8 \<longrightarrow>
         valid_utf8 (segment (unat (pg_byte_start page)) (unat (pg_byte_end page)) content))
    \<and> (pg_byte_start page < pr_len p \<longrightarrow> pg_byte_start page < pg_byte_end page)
    \<and> (pg_next_cursor page = None \<longleftrightarrow> pg_byte_end page = pr_len p)"
proof -
  have inv: "store_ok cfg cd st" by (rule evidence.reachable_inv [OF assms(1)])
  show ?thesis
  proof (rule read_page_facts [OF inv assms(2)], goal_cases)
    case (1 r p now g)
    have inv': "db_inv cfg cd (es_blobs st) (es_db st)" using inv by (simp add: store_ok_def)
    note cp = committed_part [OF inv' 1(1,2,6)]
    have ret: "unat (pg_returned_bytes page) = unat (pg_byte_end page) - unat (pg_byte_start page)"
      using 1(8,10) by (simp add: unat_sub word_le_nat_alt)
    have cur: "pg_next_cursor page = None \<longleftrightarrow> pg_byte_end page = pr_len p"
      using 1(14,18) by auto
    show ?case
      by (rule exI [of _ r], rule exI [of _ p],
          rule exI [of _ "part_content st (rr_evidence_id req) (rr_part req)"])
         (use 1(1,2,6,7,8,9,11,12,13,15) cp(3,4) ret cur in blast)
  qed
qed

section \<open>Following the cursors\<close>

definition other_reads :: "EvidenceStoreConfig \<Rightarrow> codec \<Rightarrow> ev_store \<Rightarrow> ev_store \<Rightarrow> bool" where
  "other_reads cfg cd = (\<lambda>s t. \<exists>env v req. t = snd (read env cfg cd v req s))\<^sup>*\<^sup>*"

text \<open>
  The pages a reader \<open>w\<close> obtains by asking again with the cursor of the last page, until a page
  carries none.  Between two of its reads any number of other reads, by anyone, may run.
\<close>

inductive page_chain :: "EvidenceStoreConfig \<Rightarrow> codec \<Rightarrow> OwnerId \<Rightarrow> ReadRequest \<Rightarrow> ev_store \<Rightarrow> EvidencePage list \<Rightarrow> bool"
  for cfg :: EvidenceStoreConfig and cd :: codec and w :: OwnerId where
  last_page: "read env cfg cd w req st = (Ok page, st') \<Longrightarrow> pg_next_cursor page = None
    \<Longrightarrow> page_chain cfg cd w req st [page]"
| next_page: "read env cfg cd w req st = (Ok page, st') \<Longrightarrow> pg_next_cursor page = Some token
    \<Longrightarrow> other_reads cfg cd st' st'' \<Longrightarrow> page_chain cfg cd w (req\<lparr>rr_cursor := Some token\<rparr>) st'' pages
    \<Longrightarrow> page_chain cfg cd w req st (page # pages)"

lemma page_chain_hd:
  "page_chain cfg cd w req st pages \<Longrightarrow> \<exists>env st'. read env cfg cd w req st = (Ok (hd pages), st')"
  by (erule page_chain.cases) (metis list.sel(1))+

lemma insert_cursor_Ok:
  "insert_cursor env k c db = Ok db' \<Longrightarrow> t_cursors db' = t_cursors db @ [c] \<and> cu_token c \<notin> cu_token ` set (t_cursors db)"
  by (auto simp: insert_cursor_def)

definition same_content :: "ev_store \<Rightarrow> ev_store \<Rightarrow> bool" where
  "same_content st st' \<longleftrightarrow> t_parts (es_db st') = t_parts (es_db st)
     \<and> t_chunks (es_db st') = t_chunks (es_db st) \<and> es_blobs st' = es_blobs st
     \<and> (\<exists>cs. t_cursors (es_db st') = t_cursors (es_db st) @ cs)"

lemma same_content_trans: "same_content s t \<Longrightarrow> same_content t u \<Longrightarrow> same_content s u"
  by (auto simp: same_content_def)

lemma same_content_part: "same_content s t \<Longrightarrow> part_content t i n = part_content s i n"
  by (simp add: same_content_def part_content_def part_chunks_def)

lemma same_content_find: "same_content s t \<Longrightarrow> find_part (es_db t) i n = find_part (es_db s) i n"
  by (simp add: same_content_def find_part_def)

lemma read_same_content:
  assumes "read env cfg cd w req st = (res, st')" shows "same_content st st'"
proof (cases res)
  case (Ok page)
  with assms obtain db' where tx: "read_tx env cfg cd w req st (es_db st) = Ok (page, db')" "st' = st\<lparr>es_db := db'\<rparr>"
    by (auto simp: read_def transact_Ok)
  show ?thesis
    by (rule read_tx_Ok [OF tx(1)]) (use tx(2) in \<open>auto simp: same_content_def insert_cursor_def\<close>)
next
  case (Err e)
  with assms show ?thesis by (auto simp: read_def transact_Err same_content_def)
qed

lemma store_ok_read:
  assumes "store_ok cfg cd st" shows "store_ok cfg cd (snd (read env cfg cd w req st))"
  using inv_apply_call [OF assms, of "CallRead w req" env] by simp

lemma other_reads_frame:
  assumes "other_reads cfg cd st st'" "store_ok cfg cd st"
  shows "same_content st st' \<and> store_ok cfg cd st'"
  using assms unfolding other_reads_def
proof (induction rule: rtranclp_induct)
  case base
  then show ?case by (simp add: same_content_def)
next
  case (step s t)
  then obtain env v req where t: "t = snd (read env cfg cd v req s)" by blast
  have "same_content s t" using read_same_content [OF prod.collapse [symmetric]] t by simp
  with step t store_ok_read show ?case by (blast intro: same_content_trans)
qed

lemma find_append_fresh:
  "k x \<notin> k ` set xs \<Longrightarrow> find (\<lambda>y. k y = k x) (xs @ x # ys) = Some x"
  by (induction xs) auto

lemma read_position_cursor:
  assumes "read_position env cd w req now db = Ok (start, g)"
    "rr_cursor req = Some token" "find (\<lambda>c. cu_token c = token) (t_cursors db) = Some c"
  shows "start = cu_next c"
  using assms by (auto simp: read_position_def)

lemma read_position_first:
  "read_position env cd w req now db = Ok (start, g) \<Longrightarrow> rr_cursor req = None \<Longrightarrow> start = 0"
  by (auto simp: read_position_def)

lemma segment_concat_step:
  "concat segs = segment b (length c) c \<Longrightarrow> a \<le> b \<Longrightarrow> b \<le> length c \<Longrightarrow>
     concat (segment a b c # segs) = segment a (length c) c"
  by (simp add: segment_append_next)

lemma page_chain_from:
  assumes "page_chain cfg cd w req st pages" "store_ok cfg cd st"
  shows "\<exists>segs. map pg_content pages = map (page_payload cd (rr_encoding req)) segs
    \<and> concat segs = segment (unat (pg_byte_start (hd pages)))
         (length (part_content st (rr_evidence_id req) (rr_part req)))
         (part_content st (rr_evidence_id req) (rr_part req))
    \<and> (rr_encoding req = EncUtf8 \<longrightarrow> list_all valid_utf8 segs)
    \<and> length pages \<le> max 1 (length (part_content st (rr_evidence_id req) (rr_part req))
         - unat (pg_byte_start (hd pages)))"
  using assms
proof (induction rule: page_chain.induct)
  case (last_page env req st page st')
  let ?c = "part_content st (rr_evidence_id req) (rr_part req)"
  show ?case
  proof (rule read_page_facts [OF last_page.prems last_page.hyps(1)], goal_cases)
    case (1 r p now g)
    have inv': "db_inv cfg cd (es_blobs st) (es_db st)" using last_page.prems by (simp add: store_ok_def)
    have "pg_byte_end page = pr_len p" using 1(14,18) last_page.hyps(2) by auto
    with committed_part(4) [OF inv' 1(1,2,6)] have e: "unat (pg_byte_end page) = length ?c" by simp
    show ?case
      by (rule exI [of _ "[segment (unat (pg_byte_start page)) (length ?c) ?c]"])
         (use 1(12,13) in \<open>simp add: e\<close>)
  qed
next
  case (next_page env req st page st' token st'' pages)
  let ?c = "part_content st (rr_evidence_id req) (rr_part req)"
  let ?req = "req\<lparr>rr_cursor := Some token\<rparr>"
  have s1: "same_content st st'" by (rule read_same_content [OF next_page.hyps(1)])
  have ok1: "store_ok cfg cd st'" using store_ok_read [OF next_page.prems, of env w req] next_page.hyps(1) by simp
  from other_reads_frame [OF next_page.hyps(3) ok1] have s2: "same_content st' st''" and ok2: "store_ok cfg cd st''"
    by blast+
  have c2: "part_content st'' (rr_evidence_id req) (rr_part req) = ?c"
    using same_content_part [OF same_content_trans [OF s1 s2]] .
  from page_chain_hd [OF next_page.hyps(4)] obtain env2 st3 where
    r2: "read env2 cfg cd w ?req st'' = (Ok (hd pages), st3)" by blast
  show ?case
  proof (rule read_page_facts [OF next_page.prems next_page.hyps(1)], goal_cases)
    case (1 r p now g)
    have inv': "db_inv cfg cd (es_blobs st) (es_db st)" using next_page.prems by (simp add: store_ok_def)
    have len: "length ?c = unat (pr_len p)" by (rule committed_part(4) [OF inv' 1(1,2,6)])
    have le: "unat (pg_byte_start page) \<le> unat (pg_byte_end page)" "unat (pg_byte_end page) \<le> length ?c"
      using 1(8,9) len by (simp_all add: word_le_nat_alt)
    let ?row = "\<lparr>cu_token = token, cu_reader = w, cu_evidence = rr_evidence_id req,
          cu_part = rr_part req, cu_encoding = encoding_name (rr_encoding req),
          cu_projection = ''bytes'', cu_next = pg_byte_end page, cu_page = rr_max_bytes req, cu_grant = g\<rparr>"
    have ins: "\<not> pg_complete page" "insert_cursor env 6 ?row (es_db st) = Ok (es_db st')"
      using 1(18) next_page.hyps(2) by auto
    from ins(2) have cur: "t_cursors (es_db st') = t_cursors (es_db st) @ [?row]"
      "cu_token ?row \<notin> cu_token ` set (t_cursors (es_db st))"
      using insert_cursor_Ok [OF ins(2)] by simp_all
    from s2 obtain ds where "t_cursors (es_db st'') = t_cursors (es_db st) @ ?row # ds"
      using cur(1) by (auto simp: same_content_def)
    with find_append_fresh [of cu_token ?row, OF cur(2)]
    have found: "find (\<lambda>c. cu_token c = token) (t_cursors (es_db st'')) = Some ?row" by simp
    have start2: "pg_byte_start (hd pages) = pg_byte_end page"
    proof (rule read_page_facts [OF ok2 r2], goal_cases)
      case (1 r p now g)
      from read_position_cursor [OF 1(5) _ found] show ?case by simp
    qed
    from next_page.IH [OF ok2] obtain segs where segs:
      "map pg_content pages = map (page_payload cd (rr_encoding req)) segs"
      "concat segs = segment (unat (pg_byte_end page)) (length ?c) ?c"
      "rr_encoding req = EncUtf8 \<longrightarrow> list_all valid_utf8 segs"
      "length pages \<le> max 1 (length ?c - unat (pg_byte_end page))"
      by (auto simp: c2 start2)
    have lt: "pg_byte_end page \<noteq> pr_len p" using ins(1) 1(14) by simp
    then have "unat (pg_byte_end page) < length ?c" using le(2) len by (simp add: word_unat_eq_iff)
    moreover from this le have "pg_byte_start page < pr_len p" using len by (simp add: word_less_nat_alt)
    then have "unat (pg_byte_start page) < unat (pg_byte_end page)"
      using 1(15) by (simp add: word_less_nat_alt)
    ultimately have n: "Suc (length pages) \<le> max 1 (length ?c - unat (pg_byte_start page))"
      using segs(4) by auto
    let ?s = "segment (unat (pg_byte_start page)) (unat (pg_byte_end page)) ?c"
    show ?case
      by (rule exI [of _ "?s # segs"])
         (use segs(1,3) n 1(12,13) segment_concat_step [OF segs(2) le] in simp)
  qed
qed


end
