(* ===== verification/EvidenceAccess.thy ===== *)
theory EvidenceAccess
  imports EvidenceRead
begin

text \<open>
  Who may read what in the evidence store, and what ends access: every page and every inspected
  part is the owner's or covered by a live grant, a release ends all access to an observation and
  none to any other, committed evidence never changes while it stays committed, quotas hold, and
  a commit whose outcome SQLite leaves open is reported for what it is.  One check of the source
  does not do its work: \<open>load_owned_record\<close> never denies, so a grantee can grant on.
\<close>

section \<open>Grants that justify an access\<close>

definition live_grant :: "ev_db \<Rightarrow> OwnerId \<Rightarrow> EvidenceId \<Rightarrow> int \<Rightarrow> grant_row \<Rightarrow> bool" where
  "live_grant db w i now g \<longleftrightarrow> g \<in> set (t_grants db) \<and> gr_evidence g = i \<and> gr_grantee g = w
     \<and> \<not> gr_revoked g \<and> now < gr_expires g"

definition grant_covers :: "codec \<Rightarrow> grant_row \<Rightarrow> string \<Rightarrow> bool" where
  "grant_covers cd g n \<longleftrightarrow> (\<exists>sc. scope_of cd (gr_scope g) = Ok sc \<and> covers (scope_parts sc) n)"

lemma set_live_grants: "set (live_grants db w i now) = {g. live_grant db w i now g}"
  by (auto simp: live_grants_def live_grant_def)

lemma authorize_rows_part:
  "authorize_rows cd (Some n) None False gs = Ok a \<Longrightarrow>
     ax_grant a \<noteq> None \<and> (\<exists>g\<in>set gs. grant_covers cd g n)"
  by (induction gs) (auto simp: grant_covers_def split: if_splits)

text \<open>A roster read: what it may see is the union of what the grants cover.\<close>

lemma authorize_rows_roster:
  "authorize_rows cd None un unbounded gs = Ok a \<Longrightarrow>
     ax_grant a = None
     \<and> (\<forall>n. covers (ax_parts a) n \<longrightarrow> unbounded \<or> (\<exists>u. un = Some u \<and> n \<in> u) \<or> (\<exists>g\<in>set gs. grant_covers cd g n))
     \<and> (unbounded \<or> un \<noteq> None \<or> gs \<noteq> [])"
proof (induction gs arbitrary: un unbounded)
  case Nil
  then show ?case by (auto simp: covers_def split: if_splits option.splits)
next
  case (Cons g gs)
  from Cons.prems obtain sc where sc: "scope_of cd (gr_scope g) = Ok sc"
    and rest: "(case (un, scope_parts sc) of
            (_, None) \<Rightarrow> authorize_rows cd None un True gs
          | (None, Some a) \<Rightarrow> authorize_rows cd None (Some a) unbounded gs
          | (Some acc, Some a) \<Rightarrow> authorize_rows cd None (Some (acc \<union> a)) unbounded gs) = Ok a"
    by auto
  have gc: "grant_covers cd g n \<longleftrightarrow> covers (scope_parts sc) n" for n
    using sc by (auto simp: grant_covers_def)
  show ?case
  proof (cases "scope_parts sc")
    case None
    with rest have "authorize_rows cd None un True gs = Ok a" by (cases un) simp_all
    from Cons.IH [OF this] None gc show ?thesis by (auto simp: covers_def)
  next
    case (Some b)
    with rest have "authorize_rows cd None (Some (case un of None \<Rightarrow> b | Some u \<Rightarrow> u \<union> b)) unbounded gs = Ok a"
      by (cases un) simp_all
    from Cons.IH [OF this] Some gc show ?thesis by (cases un) (auto simp: covers_def)
  qed
qed

text \<open>A page is served only to the owner of an unexpired committed observation or to a
  principal who holds, at that moment, an unexpired grant on it that covers the part.\<close>

lemma read_is_authorized:
  assumes "read env cfg cd w req st = (Ok page, st')"
  shows "\<exists>r now. find_obs (es_db st) (rr_evidence_id req) = Some r \<and> now_ms env 0 = Ok now
    \<and> ob_status r = STATUS_COMPLETE \<and> now < ob_expires r
    \<and> (ob_owner r = w \<or> (\<exists>g. live_grant (es_db st) w (rr_evidence_id req) now g
         \<and> grant_covers cd g (rr_part req)))"
proof -
  have auth: "\<exists>r. find_obs (es_db st) i = Some r \<and> ob_status r = STATUS_COMPLETE \<and> now < ob_expires r
      \<and> (ob_owner r = w \<or> (ax_grant a \<noteq> None \<and> (\<exists>g. live_grant (es_db st) w i now g \<and> grant_covers cd g n)))"
    if "authorize env k cd w i (Some n) now (es_db st) = Ok a" for i n now a k
    using that authorize_rows_part [of cd n "live_grants (es_db st) w i now" a]
    by (fastforce simp: authorize_def set_live_grants split: option.splits if_splits)
  from assms obtain db' where tx: "read_tx env cfg cd w req st (es_db st) = Ok (page, db')"
    by (auto simp: read_def transact_Ok)
  then obtain now start g where now: "now_ms env 0 = Ok now"
    and pos: "read_position env cd w req now (es_db st) = Ok (start, g)"
    by (auto elim: read_tx_Ok)
  show ?thesis
  proof (cases "rr_cursor req")
    case None
    with pos obtain a where "authorize env 1 cd w (rr_evidence_id req) (Some (rr_part req)) now (es_db st) = Ok a"
      by (auto simp: read_position_def)
    from auth [OF this] now show ?thesis by blast
  next
    case (Some token)
    with pos have "\<exists>(c :: cursor_row) a. authorize_exact_grant env 1 cd w (rr_evidence_id req) (Some (rr_part req)) now
        (cu_grant c) (es_db st) = Ok a"
      by (auto simp: read_position_def split: option.splits)
    then obtain c :: cursor_row and a where ex: "authorize_exact_grant env 1 cd w (rr_evidence_id req) (Some (rr_part req)) now
        (cu_grant c) (es_db st) = Ok a" by blast
    show ?thesis
    proof (cases "cu_grant c")
      case None
      with ex obtain b where "authorize env 1 cd w (rr_evidence_id req) (Some (rr_part req)) now (es_db st) = Ok b"
        "ax_grant b = None" by (auto simp: authorize_exact_grant_def)
      from auth [OF this(1)] this(2) now show ?thesis by blast
    next
      case (Some gid)
      with ex obtain gr r where g: "find (\<lambda>g. gr_id g = gid) (t_grants (es_db st)) = Some gr"
        and r: "find_obs (es_db st) (rr_evidence_id req) = Some r" "ob_status r = STATUS_COMPLETE" "now < ob_expires r"
        and gr: "gr_grantee gr = w" "gr_evidence gr = rr_evidence_id req" "\<not> gr_revoked gr" "now < gr_expires gr"
        and sc: "grant_covers cd gr (rr_part req)"
        by (auto simp: authorize_exact_grant_def grant_covers_def not_le split: option.splits)
      have "live_grant (es_db st) w (rr_evidence_id req) now gr"
        using find_Some_in [OF g] gr by (simp add: live_grant_def)
      with r sc now show ?thesis by blast
    qed
  qed
qed

lemma authorize_roster:
  assumes "authorize env k cd w i None now db = Ok a"
  obtains r where "find_obs db i = Some r" "ob_status r = STATUS_COMPLETE" "now < ob_expires r"
    "ob_owner r = w \<or> ((\<exists>g. live_grant db w i now g)
       \<and> (\<forall>n. covers (ax_parts a) n \<longrightarrow> (\<exists>g. live_grant db w i now g \<and> grant_covers cd g n)))"
    "ax_grant a = None"
proof -
  from assms obtain r where r: "find_obs db i = Some r" "ob_status r = STATUS_COMPLETE" "now < ob_expires r"
    and a: "(ob_owner r = w \<and> a = \<lparr>ax_grant = None, ax_parts = None\<rparr>)
      \<or> (ob_owner r \<noteq> w \<and> authorize_rows cd None None False (live_grants db w i now) = Ok a)"
    by (auto simp: authorize_def split: option.splits if_splits)
  from a show thesis
  proof
    assume "ob_owner r \<noteq> w \<and> authorize_rows cd None None False (live_grants db w i now) = Ok a"
    then have rows: "authorize_rows cd None None False (live_grants db w i now) = Ok a" by simp
    note f = authorize_rows_roster [OF rows]
    have "live_grants db w i now \<noteq> []" using f by blast
    then have "\<exists>g. live_grant db w i now g"
      using set_live_grants [of db w i now] by (metis empty_iff last_in_set mem_Collect_eq set_empty)
    with that [OF r] f set_live_grants [of db w i now] show thesis by auto
  qed (use that [OF r] in simp)
qed

lemma load_parts_allowed:
  "load_parts env k cd i allowed ns db = Ok ps \<Longrightarrow> p \<in> set ps \<Longrightarrow> covers allowed (pm_name p)"
proof (induction ns arbitrary: k ps)
  case (Cons n ns)
  show ?case
  proof (cases "covers allowed n")
    case True
    with Cons.prems(1) obtain q qs where q: "load_part_row env k cd i n db = Ok q"
      "load_parts env (k + 1) cd i allowed ns db = Ok qs" "ps = q # qs"
      by (auto simp: covers_def)
    have "pm_name q = n" using load_part_row_Ok [OF q(1)] by metis
    with q Cons.IH [OF q(2)] Cons.prems(2) True show ?thesis by auto
  next
    case False
    with Cons.prems have "load_parts env k cd i allowed ns db = Ok ps" by (simp add: covers_def)
    with Cons.IH Cons.prems(2) show ?thesis by blast
  qed
qed simp

text \<open>Inspecting lists to a reader who is not the owner only parts that some unexpired grant of
  theirs covers, and to a reader without any grant nothing at all.\<close>

theorem inspect_lists_granted_parts:
  assumes "inspect env t k cd w i st = Ok rec"
  shows "\<exists>r now. find_obs (es_db st) i = Some r \<and> now_ms env t = Ok now \<and> now < ob_expires r
    \<and> (ob_owner r = w \<or> ((\<exists>g. live_grant (es_db st) w i now g)
        \<and> (\<forall>p\<in>set (er_parts rec). \<exists>g. live_grant (es_db st) w i now g \<and> grant_covers cd g (pm_name p))))"
proof -
  from assms obtain now a where now: "now_ms env t = Ok now"
    and a: "authorize env k cd w i None now (es_db st) = Ok a"
    and rec: "load_record env (k + 2) cd i (ax_parts a) (es_db st) = Ok rec"
    by (auto simp: inspect_def)
  obtain r where r: "find_obs (es_db st) i = Some r" "now < ob_expires r"
    "ob_owner r = w \<or> ((\<exists>g. live_grant (es_db st) w i now g)
       \<and> (\<forall>n. covers (ax_parts a) n \<longrightarrow> (\<exists>g. live_grant (es_db st) w i now g \<and> grant_covers cd g n)))"
    using authorize_roster [OF a] by metis
  from rec obtain k' ns where "load_parts env k' cd i (ax_parts a) ns (es_db st) = Ok (er_parts rec)"
    by (auto simp: load_record_def split: option.splits)
  from load_parts_allowed [OF this] r now show ?thesis by blast
qed

section \<open>The owner check of a grant\<close>

text \<open>C15: \<open>load_owned_record\<close>, the owner check of \<open>grant\<close>, never answers \<open>AccessDenied\<close> to a
  principal who may see the observation at all: a roster authorization carries no grant id, so the
  test for one is dead and every reader with a live grant passes as the owner.\<close>

theorem owner_check_is_dead:
  "load_owned_record env k cd w i now db
     = res_bind (authorize env k cd w i None now db) (\<lambda>_. load_record env (k + 2) cd i None db)"
proof (cases "authorize env k cd w i None now db")
  case (Ok a)
  then have "ax_grant a = None" by (auto elim: authorize_roster)
  with Ok show ?thesis by (simp add: load_owned_record_def)
qed (simp add: load_owned_record_def)

section \<open>Ending access\<close>

lemma find_map_obs:
  "(\<And>r. ob_id (f r) = ob_id r) \<Longrightarrow> find (\<lambda>r. ob_id r = i) (map f xs) = map_option f (find (\<lambda>r. ob_id r = i) xs)"
  by (induction xs) auto

lemma find_obs_update:
  "(\<And>r. ob_id (f r) = ob_id r) \<Longrightarrow>
     find_obs (update_obs P f db) i = map_option (\<lambda>r. if P r then f r else r) (find_obs db i)"
  unfolding find_obs_def update_obs_sel by (rule find_map_obs) simp

lemma cleanup_frame:
  assumes "cleanup_orphans env k st = (res, st')"
  shows "es_db st' = es_db st"
    "\<And>c. c \<in> set (t_chunks (es_db st)) \<Longrightarrow> es_blobs st' (ck_hash c) = es_blobs st (ck_hash c)"
    "res = Ok () \<Longrightarrow> dom (es_blobs st') \<subseteq> ck_hash ` set (t_chunks (es_db st'))"
  using assms by (auto simp: cleanup_orphans_def remove_unreferenced_def dom_def split: result.splits if_splits)

lemma chunk_bytes_cong:
  "(\<And>c. c \<in> set cs \<Longrightarrow> blobs' (ck_hash c) = blobs (ck_hash c)) \<Longrightarrow> chunk_bytes blobs' cs = chunk_bytes blobs cs"
  unfolding chunk_bytes_def by (intro arg_cong [where f = concat] map_cong) auto

lemma release_Ok:
  assumes "release env w i st = (Ok (), st')"
  obtains r now where "find_obs (es_db st) i = Some r" "ob_owner r = w" "now_ms env 0 = Ok now"
    "now < ob_expires r" "ob_status r = STATUS_COMPLETE"
    "es_db st' = update_obs (\<lambda>q. ob_id q = i)
           (\<lambda>q. q\<lparr>ob_status := STATUS_RELEASED, ob_pinned := False, ob_expires := now\<rparr>)
         (delete_cursors (\<lambda>c. cu_evidence c = i) (delete_grants (\<lambda>g. gr_evidence g = i)
           (delete_chunks (\<lambda>c. ck_obs c = i) (es_db st))))"
    "\<And>c. c \<in> set (t_chunks (es_db st')) \<Longrightarrow> es_blobs st' (ck_hash c) = es_blobs st (ck_hash c)"
    "dom (es_blobs st') \<subseteq> ck_hash ` set (t_chunks (es_db st'))"
proof -
  from assms obtain st1 where t: "transact st (release_tx env w i) = (Ok (), st1)"
    and c: "cleanup_orphans env 6 st1 = (Ok (), st')"
    by (auto simp: release_def elim!: bind_st_OkE)
  from t obtain db where tx: "release_tx env w i (es_db st) = Ok ((), db)" and st1: "st1 = st\<lparr>es_db := db\<rparr>"
    by (auto simp: transact_Ok)
  note cf = cleanup_frame [OF c]
  show thesis
  proof (rule release_tx_Ok [OF tx], goal_cases)
    case (1 r now)
    show ?case
      by (rule that [OF 1(1,2,5,4,3)]) (use cf st1 1(6) in auto)
  qed
qed

lemma released_unreadable:
  assumes "find_obs db i = Some r" "ob_status r = STATUS_RELEASED"
  shows "authorize env k cd v i part now db \<noteq> Ok a"
    "authorize_exact_grant env k cd v i part now g db \<noteq> Ok a"
  using assms by (auto simp: status_defs elim!: authorize_readable authorize_exact_readable)


section \<open>Committed evidence is immutable\<close>

definition complete_in :: "ev_db \<Rightarrow> string \<Rightarrow> bool" where
  "complete_in db i \<longleftrightarrow> (\<exists>r\<in>set (t_obs db). ob_id r = i \<and> ob_status r = STATUS_COMPLETE)"

definition same_evidence :: "string \<Rightarrow> ev_db \<Rightarrow> ev_db \<Rightarrow> bool" where
  "same_evidence i db db' \<longleftrightarrow>
     filter (\<lambda>p. pr_obs p = i) (t_parts db') = filter (\<lambda>p. pr_obs p = i) (t_parts db)
     \<and> filter (\<lambda>c. ck_obs c = i) (t_chunks db') = filter (\<lambda>c. ck_obs c = i) (t_chunks db)"

text \<open>What is committed afterwards was committed before, with the same parts and chunks.\<close>

definition carries :: "string \<Rightarrow> ev_db \<Rightarrow> ev_db \<Rightarrow> bool" where
  "carries i db db' \<longleftrightarrow> (complete_in db' i \<longrightarrow> complete_in db i \<and> same_evidence i db db')"

lemma carries_trans: "carries i a b \<Longrightarrow> carries i b c \<Longrightarrow> carries i a c"
  by (auto simp: carries_def same_evidence_def)

lemma carries_refl: "t_obs db' = t_obs db \<Longrightarrow> t_parts db' = t_parts db \<Longrightarrow> t_chunks db' = t_chunks db \<Longrightarrow> carries i db db'"
  by (simp add: carries_def same_evidence_def complete_in_def)

lemma carries_delete_cursors: "carries i db (delete_cursors P db)"
  by (rule carries_refl) simp_all

lemma carries_delete_grants: "carries i db (delete_grants P db)"
  by (rule carries_refl) simp_all

lemma carries_delete_obs:
  assumes "keys_ok db" shows "carries i db (delete_obs P db)"
  unfolding carries_def
proof
  assume "complete_in (delete_obs P db) i"
  then obtain r where r: "r \<in> set (t_obs db)" "\<not> P r" "ob_id r = i" "ob_status r = STATUS_COMPLETE"
    by (auto simp: complete_in_def)
  have i: "i \<notin> ob_id ` set (filter P (t_obs db))" using kept_not_gone [of db r P] assms r by simp
  have "same_evidence i db (delete_obs P db)"
    unfolding same_evidence_def delete_obs_sel filter_filter
    by (intro conjI filter_cong refl) (use i in metis)+
  with r show "complete_in db i \<and> same_evidence i db (delete_obs P db)" by (auto simp: complete_in_def)
qed

lemma carries_retire:
  assumes "keys_ok db" "gone = ob_id ` set (filter P (t_obs db))" "\<And>r. ob_id (f r) = ob_id r"
    "\<And>r. P r \<Longrightarrow> ob_status (f r) \<noteq> STATUS_COMPLETE"
  shows "carries i db (update_obs P f (delete_chunks (\<lambda>c. ck_obs c \<in> gone) db))"
  unfolding carries_def
proof
  let ?db = "update_obs P f (delete_chunks (\<lambda>c. ck_obs c \<in> gone) db)"
  assume "complete_in ?db i"
  then obtain r where r: "r \<in> set (t_obs db)" "ob_id r = i" "\<not> P r" "ob_status r = STATUS_COMPLETE"
    using assms(3,4) by (auto simp: complete_in_def split: if_splits)
  have "i \<notin> gone" using kept_not_gone [of db r P] assms(1,2) r by simp
  then have "same_evidence i db ?db"
    unfolding same_evidence_def update_obs_sel delete_chunks_sel filter_filter
    by (intro conjI filter_cong refl) metis
  with r show "complete_in db i \<and> same_evidence i db ?db" by (auto simp: complete_in_def)
qed

lemma carries_update_lease:
  assumes "\<And>r. ob_id (f r) = ob_id r" "\<And>r. ob_status (f r) = ob_status r"
  shows "carries i db (update_obs P f db)"
  using assms by (auto simp: carries_def complete_in_def same_evidence_def)

lemma carries_expire_rows:
  assumes "expire_rows env k now cutoff db = Ok db'" "keys_ok db"
  shows "carries i db db'"
proof -
  let ?d1 = "delete_obs (\<lambda>r. ob_status r = STATUS_UPLOADING \<and> ob_expires r \<le> now) db"
  let ?d2 = "delete_cursors (\<lambda>c. cu_evidence c \<in> stale_ids now ?d1) ?d1"
  let ?f = "\<lambda>r. r\<lparr>ob_status := STATUS_EXPIRED, ob_pinned := False\<rparr>"
  let ?d4 = "update_obs (stale now) ?f (delete_chunks (\<lambda>c. ck_obs c \<in> stale_ids now ?d2) ?d2)"
  let ?d5 = "delete_grants (\<lambda>g. gr_expires g \<le> now) ?d4"
  have eq: "db' = delete_obs (\<lambda>r. ob_status r \<in> {STATUS_EXPIRED, STATUS_RELEASED} \<and> ob_expires r \<le> cutoff) ?d5"
    using assms(1) by (simp add: expire_rows_def)
  have k2: "keys_ok ?d2" by (intro keys_ok_delete_cursors keys_ok_delete_obs assms(2))
  have k5: "keys_ok ?d5"
    by (intro keys_ok_delete_grants keys_ok_update_obs keys_ok_delete_chunks k2) simp
  have "carries i db ?d2"
    by (rule carries_trans [OF carries_delete_obs [OF assms(2)] carries_delete_cursors])
  moreover have "carries i ?d2 ?d4"
    by (rule carries_retire [OF k2]) (simp_all add: stale_ids_def status_defs)
  moreover have "carries i ?d4 db'" unfolding eq
    by (rule carries_trans [OF carries_delete_grants carries_delete_obs [OF k5]])
  ultimately show ?thesis by (blast intro: carries_trans)
qed

lemma carries_insert_obs:
  "insert_obs env k r db = Ok db' \<Longrightarrow> ob_status r \<noteq> STATUS_COMPLETE \<Longrightarrow> carries i db db'"
  by (auto simp: insert_obs_def carries_def complete_in_def same_evidence_def)

lemma carries_insert_parts:
  assumes "insert_parts env k cd u n ps db = Ok db'" "\<not> complete_in db u"
  shows "carries i db db'"
  using assms
proof (induction ps arbitrary: k n db)
  case Nil
  then show ?case by (simp add: carries_refl)
next
  case (Cons p ps)
  from Cons.prems(1) obtain l m c db1 where
    ins: "insert_part env k \<lparr>pr_obs = u, pr_name = pm_name p, pr_ordinal = n,
       pr_content_type = pm_content_type p, pr_content_encoding = pm_content_encoding p,
       pr_kind = kind_name (pm_kind p), pr_len = pm_bytes p, pr_sha = pm_sha256 p,
       pr_layout = l, pr_metadata = m, pr_coverage = c, pr_finalized = False\<rparr> db = Ok db1"
    and rest: "insert_parts env (k + 1) cd u (n + 1) ps db1 = Ok db'" by auto
  have same: "complete_in db1 j = complete_in db j" for j
    using ins by (auto simp: insert_part_def complete_in_def)
  have "carries i db db1"
    using ins Cons.prems(2) same by (auto simp: insert_part_def carries_def same_evidence_def)
  with Cons.IH [OF rest] Cons.prems(2) same show ?case by (blast intro: carries_trans)
qed

lemma not_complete_uploading:
  assumes "keys_ok db" "r \<in> set (t_obs db)" "ob_status r = STATUS_UPLOADING"
  shows "\<not> complete_in db (ob_id r)"
  using assms by (auto simp: complete_in_def keys_ok_def distinct_map inj_on_def status_defs)

lemma carries_reserve_tx:
  assumes r: "reserve_tx env cfg cd owner req tot now expires u db = Ok (res, db')" and k: "keys_ok db"
  shows "carries i db db'"
proof -
  from r obtain cutoff db1 m c db2 where
    e: "expire_rows env 0 now cutoff db = Ok db1"
    and ins: "insert_obs env 10 \<lparr>ob_id = u, ob_owner = owner, ob_status = STATUS_UPLOADING,
       ob_created = now, ob_expires = expires, ob_pinned = False, ob_reserved = tot,
       ob_metadata = m, ob_coverage = c\<rparr> db1 = Ok db2" (is "insert_obs _ _ ?row _ = _")
    and ps: "insert_parts env 11 cd u 0 (ro_parts req) db2 = Ok db'"
    unfolding reserve_tx_def by auto
  have "\<not> complete_in db2 u"
  proof
    assume "complete_in db2 u"
    then obtain x where x: "x \<in> set (t_obs db2)" "ob_id x = u" "ob_status x = STATUS_COMPLETE"
      by (auto simp: complete_in_def)
    with insert_obs_unique [OF ins x(1)] show False by (simp add: status_defs)
  qed
  then have "carries i db2 db'" by (rule carries_insert_parts [OF ps])
  moreover have "carries i db1 db2" by (rule carries_insert_obs [OF ins]) (simp add: status_defs)
  ultimately show ?thesis using carries_trans [OF carries_expire_rows [OF e k] carries_trans] by blast
qed

lemma carries_append_tx:
  assumes "append_tx env cfg req h len db = Ok (tp, db')" "\<not> complete_in db (ac_upload_id req)"
  shows "carries i db db'"
  by (rule append_tx_Ok [OF assms(1)])
     (use assms(2) in \<open>auto simp: insert_chunk_def carries_def same_evidence_def complete_in_def\<close>)

lemma carries_finalize_tx:
  assumes fin: "finalize_tx env cd owner u part blobs db = Ok (v, db')" and k: "keys_ok db" "owners_ok db"
  shows "carries i db db'"
proof (rule finalize_tx_Ok [OF fin k])
  fix r p
  assume r: "r \<in> set (t_obs db)" "ob_id r = u" "ob_status r = STATUS_UPLOADING"
    and db': "db' = db\<lparr>t_parts := map (\<lambda>q. if pr_obs q = u \<and> pr_name q = part \<and> \<not> pr_finalized q
           then q\<lparr>pr_finalized := True\<rparr> else q) (t_parts db)\<rparr>"
  have n: "\<not> complete_in db u" using not_complete_uploading [OF k(1) r(1,3)] r(2) by simp
  have keep: "filter (\<lambda>p. pr_obs p = i) (map (\<lambda>q. if pr_obs q = u \<and> pr_name q = part \<and> \<not> pr_finalized q
           then q\<lparr>pr_finalized := True\<rparr> else q) ps) = filter (\<lambda>p. pr_obs p = i) ps" if "i \<noteq> u" for ps
    using that by (induction ps) auto
  have "complete_in db' i = complete_in db i" by (simp add: db' complete_in_def)
  with n keep show ?thesis
    by (cases "i = u") (auto simp: carries_def same_evidence_def db')
qed

text \<open>A commit brings a new id; the others it carries.\<close>

lemma filter_rename_parts:
  "i \<noteq> u \<Longrightarrow> i \<noteq> j \<Longrightarrow> filter (\<lambda>p. pr_obs p = i) (map (pr_obs_update (rename u j)) ps) = filter (\<lambda>p. pr_obs p = i) ps"
  by (induction ps) (auto simp: rename_def)

lemma filter_rename_chunks:
  "i \<noteq> u \<Longrightarrow> i \<noteq> j \<Longrightarrow> filter (\<lambda>c. ck_obs c = i) (map (ck_obs_update (rename u j)) cs) = filter (\<lambda>c. ck_obs c = i) cs"
  by (induction cs) (auto simp: rename_def)

lemma commit_tx_keeps:
  assumes c: "commit_tx env owner u db = Ok (j, db')" and k: "keys_ok db" "owners_ok db" and i: "complete_in db i"
  shows "same_evidence i db db'"
proof (rule commit_tx_Ok [OF c k])
  fix r assume r: "r \<in> set (t_obs db)" "ob_id r = u" "ob_status r = STATUS_UPLOADING"
    and j: "j = u \<or> j \<notin> obs_ids db"
    and db': "db' = rename_obs u j (update_obs (\<lambda>r. ob_id r = u \<and> ob_owner r = owner \<and> ob_status r = STATUS_UPLOADING)
        (\<lambda>r. r\<lparr>ob_status := STATUS_COMPLETE\<rparr>) db)"
  have iu: "i \<noteq> u" using not_complete_uploading [OF k(1) r(1,3)] r(2) i by auto
  have "i \<in> obs_ids db" using i by (auto simp: complete_in_def obs_ids_def)
  with j iu have "i \<noteq> j" by auto
  with iu show ?thesis
    by (simp add: same_evidence_def db' filter_rename_parts filter_rename_chunks)
qed

text \<open>The blobs of committed chunks stay as they are.\<close>

definition keeps_blobs :: "ev_store \<Rightarrow> ev_store \<Rightarrow> bool" where
  "keeps_blobs st st' \<longleftrightarrow>
     (\<forall>c\<in>set (t_chunks (es_db st')). c \<in> set (t_chunks (es_db st)) \<longrightarrow> es_blobs st' (ck_hash c) = es_blobs st (ck_hash c))"

definition keeps_evidence :: "string \<Rightarrow> ev_store \<Rightarrow> ev_store \<Rightarrow> bool" where
  "keeps_evidence i st st' \<longleftrightarrow> same_evidence i (es_db st) (es_db st') \<and> keeps_blobs st st'"

lemma keeps_transact:
  assumes "transact st f = (res, st')" "complete_in (es_db st') i"
    "\<And>v db'. f (es_db st) = Ok (v, db') \<Longrightarrow> carries i (es_db st) db'"
  shows "complete_in (es_db st) i \<and> keeps_evidence i st st'"
  using assms
  by (auto simp: transact_def keeps_evidence_def keeps_blobs_def carries_def same_evidence_def split: result.splits)

lemma keeps_bind_cleanup:
  assumes "bind_st (transact st f) (\<lambda>_ st. cleanup_orphans env k st) = (res, st')" "complete_in (es_db st') i"
    "\<And>v db'. f (es_db st) = Ok (v, db') \<Longrightarrow> carries i (es_db st) db'"
  shows "complete_in (es_db st) i \<and> keeps_evidence i st st'"
proof -
  obtain r1 st1 where t: "transact st f = (r1, st1)" by fastforce
  show ?thesis
  proof (cases r1)
    case (Ok v)
    with assms(1) t have c: "cleanup_orphans env k st1 = (res, st')" by simp
    note cf = cleanup_frame [OF c]
    have b: "es_blobs st1 = es_blobs st" using t by (auto simp: transact_def split: result.splits)
    from keeps_transact [OF t _ assms(3)] assms(2) cf(1)
    have "complete_in (es_db st) i \<and> keeps_evidence i st st1" by simp
    with cf b show ?thesis by (auto simp: keeps_evidence_def keeps_blobs_def)
  next
    case (Err e)
    with assms(1) t have "transact st f = (r1, st')" by simp
    from keeps_transact [OF this assms(2,3)] show ?thesis .
  qed
qed

lemma keeps_transactI:
  "complete_in (es_db (snd (transact st f))) i
   \<Longrightarrow> (\<And>v db'. f (es_db st) = Ok (v, db') \<Longrightarrow> carries i (es_db st) db')
   \<Longrightarrow> keeps_evidence i st (snd (transact st f))"
  using keeps_transact [OF prod.collapse [symmetric], of st f i] by blast

lemma keeps_cleanupI:
  "complete_in (es_db (snd (bind_st (transact st f) (\<lambda>_ st. cleanup_orphans env k st)))) i
   \<Longrightarrow> (\<And>v db'. f (es_db st) = Ok (v, db') \<Longrightarrow> carries i (es_db st) db')
   \<Longrightarrow> keeps_evidence i st (snd (bind_st (transact st f) (\<lambda>_ st. cleanup_orphans env k st)))"
  using keeps_bind_cleanup [OF prod.collapse [symmetric], of st f env k i] by blast

lemma keeps_append:
  assumes ap: "append_chunk env cfg cd w req st = (res, st')" and ok: "store_ok cfg cd st"
    and c: "complete_in (es_db st') i"
  shows "complete_in (es_db st) i \<and> keeps_evidence i st st'"
proof (cases "append_admit env cfg w req (es_db st)")
  case (Err e)
  with ap c show ?thesis by (simp add: append_chunk_def keeps_evidence_def keeps_blobs_def same_evidence_def)
next
  case (Ok len)
  note d = db_invD [OF ok [unfolded store_ok_def]]
  have n: "\<not> complete_in (es_db st) (ac_upload_id req)"
    by (rule append_admit_Ok [OF Ok d(1,4)]) (use not_complete_uploading [OF d(1)] in metis)
  show ?thesis
  proof (cases "blob_put env (sha256_hex cd (ac_bytes req)) (ac_bytes req) (es_blobs st)")
    case (Err e)
    with ap Ok c show ?thesis by (simp add: append_chunk_def keeps_evidence_def keeps_blobs_def same_evidence_def)
  next
    case put: (Ok blobs)
    let ?st1 = "st\<lparr>es_blobs := blobs\<rparr>"
    have t: "transact ?st1 (append_tx env cfg req (sha256_hex cd (ac_bytes req)) len) = (res, st')"
      using ap Ok put by (simp add: append_chunk_def)
    have "carries i (es_db ?st1) db'" if "append_tx env cfg req (sha256_hex cd (ac_bytes req)) len (es_db ?st1) = Ok (v, db')" for v db'
      using carries_append_tx [OF that] n by simp
    from keeps_transact [OF t c this] have k: "complete_in (es_db st) i" "keeps_evidence i ?st1 st'" by simp_all
    have "blobs (ck_hash c) = es_blobs st (ck_hash c)" if "c \<in> set (t_chunks (es_db st))" for c
      using all_chunks_ok [OF d(2,1) that] blob_put_Ok(2) [OF put] by (auto simp: chunk_ok_def)
    with k show ?thesis by (auto simp: keeps_evidence_def keeps_blobs_def)
  qed
qed

lemma keeps_commit:
  assumes cm: "commit env cd w u st = (res, st')" and ok: "store_ok cfg cd st" and c: "complete_in (es_db st) i"
  shows "keeps_evidence i st st'"
proof -
  note d = db_invD [OF ok [unfolded store_ok_def]]
  from cm have "st' = st \<or> (\<exists>j db. commit_tx env w u (es_db st) = Ok (j, db) \<and> st' = st\<lparr>es_db := db\<rparr>)"
    by (auto simp: commit_def Let_def split: result.splits option.splits prod.splits if_splits)
  with commit_tx_keeps [OF _ d(1,4) c] show ?thesis
    by (auto simp: keeps_evidence_def keeps_blobs_def same_evidence_def)
qed

text \<open>The transactions of the other operations.\<close>

lemma carries_reserve_call:
  "reserve_call env cfg cd w req db = Ok (v, db') \<Longrightarrow> keys_ok db \<Longrightarrow> carries i db db'"
  using carries_reserve_tx by (auto simp: reserve_call_def)

lemma carries_abort_tx:
  "abort_tx env w u db = Ok (v, db') \<Longrightarrow> keys_ok db \<Longrightarrow> carries i db db'"
  using carries_delete_obs by (auto simp: abort_tx_def)

lemma carries_pin_tx:
  "pin_tx env cfg w j ttl db = Ok (v, db') \<Longrightarrow> carries i db db'"
  by (auto simp: pin_tx_def Let_def split: option.splits intro!: carries_update_lease)

lemma carries_release_tx:
  assumes tx: "release_tx env w j db = Ok (v, db')" and k: "keys_ok db"
  shows "carries i db db'"
proof (rule release_tx_Ok [OF tx], goal_cases)
  case (1 r now)
  let ?d = "delete_cursors (\<lambda>c. cu_evidence c = j) (delete_grants (\<lambda>g. gr_evidence g = j) db)"
  let ?f = "\<lambda>q. q\<lparr>ob_status := STATUS_RELEASED, ob_pinned := False, ob_expires := now\<rparr>"
  have k': "keys_ok ?d" by (intro keys_ok_delete_cursors keys_ok_delete_grants k)
  have "{j} = ob_id ` set (filter (\<lambda>q. ob_id q = j) (t_obs ?d))"
    using ids_of_obs [OF k 1(1)] by simp
  from carries_retire [OF k' this, of ?f i]
  have "carries i ?d db'" unfolding 1(6) delete_commute by (simp add: status_defs)
  moreover have "carries i db ?d"
    by (rule carries_trans [OF carries_delete_grants carries_delete_cursors])
  ultimately show ?case by (blast intro: carries_trans)
qed

lemma carries_grant_tx:
  "grant_tx env cfg cd w req db = Ok (v, db') \<Longrightarrow> carries i db db'"
  by (auto simp: grant_tx_def Let_def insert_grant_def intro!: carries_refl)

lemma carries_revoke_tx:
  "revoke_grant_tx env w g db = Ok (v, db') \<Longrightarrow> carries i db db'"
  by (auto simp: revoke_grant_tx_def intro!: carries_refl split: option.splits)

lemma carries_startup_tx:
  assumes "reconcile_startup_tx env cfg db = Ok (v, db')" "keys_ok db"
  shows "carries i db db'"
  using assms(1) carries_trans [OF carries_delete_obs [OF assms(2)] carries_expire_rows [OF _ keys_ok_delete_obs [OF assms(2)]]]
  by (auto simp: reconcile_startup_tx_def)

lemma step_keeps_evidence:
  assumes "ev_step cfg cd st st'" "store_ok cfg cd st" "complete_in (es_db st) i" "complete_in (es_db st') i"
  shows "keeps_evidence i st st'"
  using assms(1)
proof cases
  case (1 call env)
  note d = db_invD [OF assms(2) [unfolded store_ok_def]]
  note c = assms(4) [unfolded 1(1)]
  have "keeps_evidence i st (apply_call env cfg cd call st)"
  proof (cases call)
    case (CallReserve w req)
    show ?thesis using c unfolding CallReserve apply_call.simps reserve_def
      by (rule keeps_transactI) (rule carries_reserve_call [OF _ d(1)])
  next
    case (CallAppend w req)
    with c keeps_append [OF prod.collapse [symmetric] assms(2)] show ?thesis by simp
  next
    case (CallFinalize w u p)
    show ?thesis using c unfolding CallFinalize apply_call.simps finalize_part_def
      by (rule keeps_transactI) (rule carries_finalize_tx [OF _ d(1,4)])
  next
    case (CallCommit w u)
    with keeps_commit [OF prod.collapse [symmetric] assms(2,3)] show ?thesis by simp
  next
    case (CallAbort w u)
    show ?thesis using c unfolding CallAbort apply_call.simps abort_def
      by (rule keeps_cleanupI) (rule carries_abort_tx [OF _ d(1)])
  next
    case (CallRead w req)
    with read_same_content [OF prod.collapse [symmetric]] show ?thesis
      by (auto simp: same_content_def keeps_evidence_def same_evidence_def keeps_blobs_def)
  next
    case (CallPin w j ttl)
    have e: "snd (pin env cfg cd w j ttl st) = snd (transact st (pin_tx env cfg w j ttl))"
      by (auto simp: pin_def bind_st_def split: prod.splits result.splits)
    show ?thesis using c unfolding CallPin apply_call.simps e
      by (rule keeps_transactI) (rule carries_pin_tx)
  next
    case (CallRelease w j)
    show ?thesis using c unfolding CallRelease apply_call.simps release_def
      by (rule keeps_cleanupI) (rule carries_release_tx [OF _ d(1)])
  next
    case (CallGrant w req)
    show ?thesis using c unfolding CallGrant apply_call.simps grant_def
      by (rule keeps_transactI) (rule carries_grant_tx)
  next
    case (CallRevoke w g)
    show ?thesis using c unfolding CallRevoke apply_call.simps revoke_grant_def
      by (rule keeps_transactI) (rule carries_revoke_tx)
  next
    case Restart
    show ?thesis using c unfolding Restart apply_call.simps reconcile_startup_def
      by (rule keeps_cleanupI) (rule carries_startup_tx [OF _ d(1)])
  qed
  then show ?thesis by (simp add: 1(1))
qed

lemma keeps_evidence_content:
  assumes "keeps_evidence i st st'"
  shows "find_part (es_db st') i n = find_part (es_db st) i n" "part_content st' i n = part_content st i n"
proof -
  have f: "find (\<lambda>p. pr_obs p = i \<and> pr_name p = n) ps = find (\<lambda>p. pr_name p = n) (filter (\<lambda>p. pr_obs p = i) ps)" for ps
    by (induction ps) auto
  show "find_part (es_db st') i n = find_part (es_db st) i n"
    using assms by (simp add: find_part_def f keeps_evidence_def same_evidence_def)
  have c: "part_chunks db i n = filter (\<lambda>c. ck_part c = n) (filter (\<lambda>c. ck_obs c = i) (t_chunks db))" for db
    by (simp add: part_chunks_def conj_commute)
  have p: "part_chunks (es_db st') i n = part_chunks (es_db st) i n"
    using assms unfolding c by (simp add: keeps_evidence_def same_evidence_def)
  have "es_blobs st' (ck_hash c) = es_blobs st (ck_hash c)" if "c \<in> set (part_chunks (es_db st) i n)" for c
  proof -
    have "c \<in> set (t_chunks (es_db st))" using that by (simp add: part_chunks_def)
    moreover have "c \<in> set (part_chunks (es_db st') i n)" using that p by simp
    then have "c \<in> set (t_chunks (es_db st'))" by (simp add: part_chunks_def)
    ultimately show ?thesis using assms by (simp add: keeps_evidence_def keeps_blobs_def)
  qed
  then show "part_content st' i n = part_content st i n"
    unfolding part_content_def p by (rule chunk_bytes_cong)
qed

text \<open>C2: Committed evidence is immutable: as long as an observation stays committed, no sequence of
  calls, by anyone and with any failures in between, changes the manifest or the bytes of any of its
  parts.\<close>

theorem evidence_immutable:
  assumes "ev_reachable cfg cd st" and "complete_in (es_db st) i"
    and "(\<lambda>s t. ev_step cfg cd s t \<and> complete_in (es_db t) i)\<^sup>*\<^sup>* st st'"
  shows "find_part (es_db st') i n = find_part (es_db st) i n \<and> part_content st' i n = part_content st i n"
  using assms(3)
proof (induction rule: rtranclp_induct)
  case base
  then show ?case by simp
next
  case (step s t)
  have "complete_in (es_db s) i" using step(1) assms(2) by (cases rule: rtranclp.cases) simp_all
  moreover have "(ev_step cfg cd)\<^sup>*\<^sup>* st s" using step(1) by (rule mono_rtranclp [rule_format, rotated]) blast
  then have "store_ok cfg cd s" using evidence.steps_inv evidence.reachable_inv [OF assms(1)] by blast
  ultimately have "keeps_evidence i s t" using step_keeps_evidence step(2) by blast
  with keeps_evidence_content [OF this] step.IH show ?case by simp
qed

end
