(* ===== verification/EvidenceLife.thy ===== *)
theory EvidenceLife
  imports EvidenceAccess
begin

text \<open>
  The life of an observation, from reservation to restart: the quotas every reachable store
  keeps, the manifest that comes back as it was declared, the commit whose outcome is reported
  for what it is, and what a restart leaves.
\<close>

section \<open>Access, as a property\<close>

text \<open>C5: A page is served only to the owner of an unexpired committed observation or to a
  principal who holds, at that moment, an unexpired grant on it that covers the part.\<close>

theorem read_authorized:
  assumes "read env cfg cd w req st = (Ok page, st')"
  shows "\<exists>r now. find_obs (es_db st) (rr_evidence_id req) = Some r \<and> now_ms env 0 = Ok now
    \<and> ob_status r = STATUS_COMPLETE \<and> now < ob_expires r
    \<and> (ob_owner r = w \<or> (\<exists>g. live_grant (es_db st) w (rr_evidence_id req) now g
         \<and> grant_covers cd g (rr_part req)))"
  by (rule read_is_authorized [OF assms])

section \<open>Quotas\<close>

text \<open>C1: In every reachable evidence store, failures and restarts included, the bytes reserved by
  active observations stay within the limits per owner and in total, and so do the numbers of
  observations (tombstones included), of grants on one observation and of cursors of one reader.\<close>

theorem evidence_quotas:
  assumes "ev_reachable cfg cd st"
  shows "sum_u64 (map ob_reserved (owner_active w (es_db st))) \<le> unat (max_owner_bytes cfg)
    \<and> sum_u64 (map ob_reserved (all_active (es_db st))) \<le> unat (max_total_bytes cfg)
    \<and> length (filter (\<lambda>r. ob_owner r = w) (t_obs (es_db st))) \<le> unat (max_owner_observations cfg)
    \<and> length (t_obs (es_db st)) \<le> unat (max_total_observations cfg)
    \<and> length (filter (\<lambda>g. gr_evidence g = i) (t_grants (es_db st))) \<le> unat (max_grants_per_evidence cfg)
    \<and> length (filter (\<lambda>c. cu_reader c = w) (t_cursors (es_db st))) \<le> unat (max_cursors_per_owner cfg)"
  using evidence.reachable_inv [OF assms] by (simp add: store_ok_def db_inv_def quota_ok_def)

section \<open>The manifest comes back\<close>

definition codec_round_trips :: "codec \<Rightarrow> bool" where
  "codec_round_trips cd \<longleftrightarrow>
     (\<forall>v s. json_to cd v = Ok s \<longrightarrow> json_of cd s = Ok v)
     \<and> (\<forall>l s. layout_to cd l = Ok s \<longrightarrow> layout_of cd s = Ok l)"

definition row_of_manifest :: "codec \<Rightarrow> UploadId \<Rightarrow> PartManifest \<Rightarrow> part_row \<Rightarrow> bool" where
  "row_of_manifest cd u p r \<longleftrightarrow> pr_obs r = u \<and> pr_name r = pm_name p
     \<and> pr_content_type r = pm_content_type p \<and> pr_content_encoding r = pm_content_encoding p
     \<and> pr_kind r = kind_name (pm_kind p) \<and> pr_len r = pm_bytes p \<and> pr_sha r = pm_sha256 p
     \<and> (case pm_layout p of None \<Rightarrow> pr_layout r = None
         | Some l \<Rightarrow> (\<exists>s. layout_to cd l = Ok s \<and> pr_layout r = Some s))
     \<and> json_to cd (pm_metadata p) = Ok (pr_metadata r) \<and> json_to cd (pm_coverage p) = Ok (pr_coverage r)
     \<and> \<not> pr_finalized r"

lemma insert_parts_rows:
  "insert_parts env k cd u n ps db = Ok db' \<Longrightarrow>
     t_obs db' = t_obs db \<and> set (t_parts db) \<subseteq> set (t_parts db')
     \<and> (\<forall>p\<in>set ps. \<exists>r\<in>set (t_parts db'). row_of_manifest cd u p r)"
proof (induction ps arbitrary: k n db)
  case (Cons p ps)
  from Cons.prems obtain l m c db1 where
    l: "(case pm_layout p of None \<Rightarrow> Ok None | Some l \<Rightarrow> map_ok Some (json_string (layout_to cd l))) = Ok l"
    and m: "json_string (json_to cd (pm_metadata p)) = Ok m" and c: "json_string (json_to cd (pm_coverage p)) = Ok c"
    and ins: "insert_part env k \<lparr>pr_obs = u, pr_name = pm_name p, pr_ordinal = n,
       pr_content_type = pm_content_type p, pr_content_encoding = pm_content_encoding p,
       pr_kind = kind_name (pm_kind p), pr_len = pm_bytes p, pr_sha = pm_sha256 p,
       pr_layout = l, pr_metadata = m, pr_coverage = c, pr_finalized = False\<rparr> db = Ok db1"
      (is "insert_part env k ?r db = _")
    and rest: "insert_parts env (k + 1) cd u (n + 1) ps db1 = Ok db'"
    by auto
  have db1: "t_obs db1 = t_obs db" "set (t_parts db) \<subseteq> set (t_parts db1)" "?r \<in> set (t_parts db1)"
    using ins by (auto simp: insert_part_def)
  have "row_of_manifest cd u p ?r"
    using l m c by (auto simp: row_of_manifest_def json_string_def map_ok_def split: option.splits result.splits)
  with Cons.IH [OF rest] db1 show ?case by auto
qed simp

lemma load_part_row_manifest:
  assumes "find_part db u (pm_name p) = Some r" "row_of_manifest cd u p r" "codec_round_trips cd"
    "ev_sql env k = None"
  shows "load_part_row env k cd u (pm_name p) db = Ok p"
proof -
  have "json_of cd (pr_metadata r) = Ok (pm_metadata p)" "json_of cd (pr_coverage r) = Ok (pm_coverage p)"
    using assms(2,3) by (auto simp: row_of_manifest_def codec_round_trips_def)
  moreover have "(case pr_layout r of None \<Rightarrow> Ok None
      | Some v \<Rightarrow> map_ok Some (map_err json_error (layout_of cd v))) = Ok (pm_layout p)"
    using assms(2,3) by (auto simp: row_of_manifest_def codec_round_trips_def split: option.splits)
  moreover have "(if pr_kind r = ''utf8'' then Ok KindUtf8 else if pr_kind r = ''binary'' then Ok KindBinary
      else Err (UnknownRepresentation (pr_kind r))) = Ok (pm_kind p)"
    using assms(2) by (auto simp: row_of_manifest_def kind_name_def split: PartKind.splits)
  ultimately show ?thesis
    using assms(1,2,4) by (simp add: load_part_row_def sql_def row_of_manifest_def)
qed

text \<open>A reservation stores the manifest faithfully: every part the request declares is read back
  equal, whatever its kind, layout, encoding label and metadata; and the reservation counts exactly
  the declared bytes.\<close>

theorem reserve_manifest_roundtrip:
  assumes "reserve env cfg cd w req st = (Ok res, st')" and "ev_reachable cfg cd st"
    and "parse_owner w = Ok w" and "codec_round_trips cd" and "p \<in> set (ro_parts req)"
    and "ev_sql env' k = None"
  shows "load_part_row env' k cd (rs_upload_id res) (pm_name p) (es_db st') = Ok p
    \<and> (\<exists>r. find_obs (es_db st') (rs_upload_id res) = Some r \<and> ob_status r = STATUS_UPLOADING
        \<and> ob_owner r = w \<and> ob_reserved r = rs_reserved_bytes res)"
proof -
  have ok: "store_ok cfg cd st" by (rule evidence.reachable_inv [OF assms(2)])
  have inv: "db_inv cfg cd (es_blobs st) (es_db st)" using ok by (simp add: store_ok_def)
  from assms(1) obtain db' where call: "reserve_call env cfg cd w req (es_db st) = Ok (res, db')"
    and st': "es_db st' = db'" by (auto simp: reserve_def transact_Ok)
  from call obtain tot now expires u where
    tx: "reserve_tx env cfg cd w req tot now expires u (es_db st) = Ok (res, db')"
    by (auto simp: reserve_call_def)
  from tx obtain db1 m c db2 where
    ins: "insert_obs env 10 \<lparr>ob_id = u, ob_owner = w, ob_status = STATUS_UPLOADING,
       ob_created = now, ob_expires = expires, ob_pinned = False, ob_reserved = tot,
       ob_metadata = m, ob_coverage = c\<rparr> db1 = Ok db2" (is "insert_obs _ _ ?row _ = _")
    and ps: "insert_parts env 11 cd u 0 (ro_parts req) db2 = Ok db'"
    and res: "rs_upload_id res = u" "rs_reserved_bytes res = tot"
    unfolding reserve_tx_def by auto
  have k: "keys_ok db'" by (rule db_invD(1) [OF inv_reserve_tx [OF tx inv assms(3)]])
  note rows = insert_parts_rows [OF ps]
  from rows assms(5) obtain r where r: "r \<in> set (t_parts db')" "row_of_manifest cd u p r" by blast
  have "find_part db' u (pm_name p) = Some r"
    using k r by (simp add: find_part_eq keys_ok_def row_of_manifest_def)
  from load_part_row_manifest [OF this r(2) assms(4,6)]
  have "load_part_row env' k cd (rs_upload_id res) (pm_name p) (es_db st') = Ok p" by (simp add: res st')
  moreover have "?row \<in> set (t_obs db')" using rows ins by (auto simp: insert_obs_def)
  then have "find_obs db' u = Some ?row" using k by (simp add: find_obs_eq keys_ok_def)
  ultimately show ?thesis using res st' by simp
qed

section \<open>A commit of uncertain outcome\<close>

lemma load_record_Ok:
  assumes "load_record env k cd i allowed db = Ok rec"
  obtains r where "find_obs db i = Some r" "er_evidence_id rec = i" "parse_owner (ob_owner r) = Ok (er_owner rec)"
    "er_complete rec = (ob_status r = STATUS_COMPLETE)" "er_bytes rec = ob_reserved r"
  using assms by (auto simp: load_record_def split: option.splits)

lemma inspect_Ok:
  assumes "inspect env t k cd w i st = Ok rec"
  obtains r where "find_obs (es_db st) i = Some r" "ob_status r = STATUS_COMPLETE" "er_evidence_id rec = i" "er_complete rec"
proof -
  from assms obtain now a where a: "authorize env k cd w i None now (es_db st) = Ok a"
    and l: "load_record env (k + 2) cd i (ax_parts a) (es_db st) = Ok rec" by (auto simp: inspect_def)
  obtain r where r: "find_obs (es_db st) i = Some r" "ob_status r = STATUS_COMPLETE"
    by (rule authorize_readable [OF a])
  show thesis by (rule load_record_Ok [OF l]) (use r that in auto)
qed

text \<open>Nothing but a failed SQLite commit is ever reported as uncertain.\<close>

definition certain :: "('a, EvidenceError) result \<Rightarrow> bool" where
  "certain r \<longleftrightarrow> (\<forall>m. r \<noteq> Err (CommitUncertain m))"

lemma certain_Ok [simp]: "certain (Ok a)"
  by (simp add: certain_def)

lemma certain_Err [simp]: "certain (Err e) \<longleftrightarrow> (\<forall>m. e \<noteq> CommitUncertain m)"
  by (simp add: certain_def)

lemma certain_bind: "certain r \<Longrightarrow> (\<And>a. r = Ok a \<Longrightarrow> certain (f a)) \<Longrightarrow> certain (res_bind r f)"
  by (cases r) simp_all

lemma certain_sql [simp]: "certain (sql env k v)"
  by (simp add: sql_def split: option.splits)

lemma certain_json [simp]: "certain (map_err json_error r)"
  by (cases r) (simp_all add: json_error_def)

lemma certain_map_ok [simp]: "certain (map_ok f r) = certain r"
  by (cases r) simp_all

lemma certain_fail_if [simp]: "certain (fail_if b e) \<longleftrightarrow> (b \<longrightarrow> (\<forall>m. e \<noteq> CommitUncertain m))"
  by (simp add: fail_if_def)

lemma certain_now_ms [simp]: "certain (now_ms env k)"
  by (auto simp: now_ms_def Let_def split: option.splits)

lemma certain_parse [simp]: "certain (parse_owner v)" "certain (parse_id n v)"
  by (auto simp: parse_owner_def parse_id_def)

lemma certain_status [simp]: "certain (check_readable_status s e now)" "certain (constraint env b)"
  by (auto simp: check_readable_status_def constraint_def)

lemma certain_upload_owner [simp]: "certain (require_upload_owner env k ow ac st ex)"
  unfolding require_upload_owner_def by (auto intro!: certain_bind)

lemma certain_load_part_row: "certain (load_part_row env k cd i n db)"
  unfolding load_part_row_def by (auto intro!: certain_bind split: option.splits)

lemma certain_load_parts: "certain (load_parts env k cd i allowed ns db)"
proof (induction ns arbitrary: k)
  case (Cons n ns)
  then show ?case by (auto intro!: certain_bind certain_load_part_row)
qed simp

lemma certain_load_record: "certain (load_record env k cd i allowed db)"
  unfolding load_record_def by (auto intro!: certain_bind certain_load_parts split: option.splits)

lemma certain_authorize_rows: "certain (authorize_rows cd part un unbounded gs)"
proof (induction gs arbitrary: un unbounded)
  case (Cons g gs)
  then show ?case by (auto intro!: certain_bind split: option.splits)
qed (simp split: option.splits)

lemma certain_authorize: "certain (authorize env k cd w i part now db)"
  unfolding authorize_def by (auto intro!: certain_bind certain_authorize_rows split: option.splits)

lemma certain_inspect: "certain (inspect env t k cd w i st)"
  unfolding inspect_def by (auto intro!: certain_bind certain_authorize certain_load_record)

lemma certain_commit_tx:
  "certain (ev_fail env DatabaseFinalize) \<Longrightarrow> certain (commit_tx env w u db)"
  unfolding commit_tx_def load_observation_header_def
  by (auto intro!: certain_bind simp: Let_def split: option.splits)

text \<open>C7: A commit tells the truth: a record is returned only for an observation that is committed in
  the store; \<open>CommitUncertain\<close> is returned only when SQLite reported an error on the commit itself;
  and when that error left the store unchanged, the caller never gets a record.\<close>

theorem commit_tells_the_truth:
  assumes "ev_reachable cfg cd st" and "commit env cd w u st = (res, st')"
    and "ev_fail env DatabaseFinalize = Ok ()"
  shows "(case res of
      Ok rec \<Rightarrow> er_complete rec \<and> er_evidence_id rec = replacen1 ''u_'' ''e_'' u
        \<and> complete_in (es_db st') (er_evidence_id rec)
    | Err e \<Rightarrow> (\<exists>m. e = CommitUncertain m) \<longrightarrow> ev_commit env \<noteq> None)
    \<and> (case ev_commit env of Some (False, m) \<Rightarrow> st' = st \<and> \<not> is_ok res | _ \<Rightarrow> True)"
proof (cases "commit_tx env w u (es_db st)")
  case (Err e)
  moreover have "certain (commit_tx env w u (es_db st))" by (rule certain_commit_tx) (simp add: assms(3))
  ultimately show ?thesis
    using assms(2) by (auto simp: commit_def split: option.splits prod.splits bool.splits)
next
  case (Ok pair)
  obtain i db where pair: "pair = (i, db)" by fastforce
  have ok: "store_ok cfg cd st" by (rule evidence.reachable_inv [OF assms(1)])
  note d = db_invD [OF ok [unfolded store_ok_def]]
  obtain r where r: "r \<in> set (t_obs (es_db st))" "ob_id r = u" "ob_status r = STATUS_UPLOADING" "ob_owner r = w"
    and i: "i = replacen1 ''u_'' ''e_'' u"
    by (rule commit_tx_Ok [OF Ok [unfolded pair] d(1,4)]) (rule that)
  have found: "find (\<lambda>q. ob_id q = u \<and> ob_owner q = w) (t_obs (es_db st)) = Some r"
  proof -
    have "find (\<lambda>q. ob_id q = u \<and> ob_owner q = w) (t_obs (es_db st)) \<noteq> None"
      using r by (auto simp: find_None_iff)
    then obtain q where q: "find (\<lambda>q. ob_id q = u \<and> ob_owner q = w) (t_obs (es_db st)) = Some q" by blast
    have q': "q \<in> set (t_obs (es_db st))" "ob_id q = u"
      using find_Some_in [OF q] by simp_all
    have "q = r" by (rule distinct_map_inj [of ob_id "t_obs (es_db st)"]) (use q' r d(1) in \<open>simp_all add: keys_ok_def\<close>)
    with q show ?thesis by simp
  qed
  have rec: "er_complete rec \<and> er_evidence_id rec = i \<and> complete_in (es_db s) i"
    if "inspect env 1 5 cd w i s = Ok rec" for s rec
    by (rule inspect_Ok [OF that]) (auto simp: complete_in_def dest!: find_obs_Some)
  have cert: "inspect env 1 5 cd w i s \<noteq> Err (CommitUncertain m)" for s m
    using certain_inspect [of env 1 5 cd w i s] by (simp add: certain_def)
  have told: "case res of Ok rec \<Rightarrow> er_complete rec \<and> er_evidence_id rec = replacen1 ''u_'' ''e_'' u
        \<and> complete_in (es_db st') (er_evidence_id rec)
      | Err e \<Rightarrow> (\<exists>m. e = CommitUncertain m) \<longrightarrow> ev_commit env \<noteq> None"
    if "\<And>q. res = Ok q \<Longrightarrow> inspect env 1 5 cd w i st' = Ok q"
      and "\<And>m. res = Err (CommitUncertain m) \<Longrightarrow> ev_commit env \<noteq> None"
    using that rec i by (cases res) auto
  show ?thesis
  proof (cases "ev_commit env")
    case None
    have res: "res = inspect env 1 5 cd w i st'"
      using assms(2) None by (auto simp: commit_def Ok pair Let_def)
    then show ?thesis using told [OF _ cert [THEN notE]] by (simp add: None)
  next
    case (Some am)
    obtain applied m where am: "am = (applied, m)" by fastforce
    have res: "res = reconcile_commit env cd w u i m st'" "st' = (if applied then st\<lparr>es_db := db\<rparr> else st)"
      using assms(2) by (auto simp: commit_def Ok pair Some am Let_def)
    have insp: "res = Ok q \<Longrightarrow> inspect env 1 5 cd w i st' = Ok q" for q
      using res(1) by (auto simp: reconcile_commit_def Let_def split: option.splits if_splits)
    have "\<not> is_ok res" if "\<not> applied"
      using res that found r(3) by (simp add: reconcile_commit_def Let_def split: option.splits)
    then have "case ev_commit env of Some (False, m) \<Rightarrow> st' = st \<and> \<not> is_ok res | _ \<Rightarrow> True"
      using res(2) by (cases applied) (simp_all add: Some am)
    moreover have "ev_commit env \<noteq> None" by (simp add: Some)
    ultimately show ?thesis using told [OF insp] by simp
  qed
qed

section \<open>Restart\<close>

lemma expire_rows_left:
  assumes "expire_rows env k now cutoff db = Ok db'" "r \<in> set (t_obs db')"
  shows "\<not> (ob_status r = STATUS_UPLOADING \<and> ob_expires r \<le> now)"
    "\<not> (ob_status r = STATUS_COMPLETE \<and> ob_expires r \<le> now)"
  using assms by (auto simp: expire_rows_def stale_def status_defs split: if_splits)


end
