(* ===== verification/EvidenceDemo.thy ===== *)
theory EvidenceDemo
  imports EvidenceLife
begin

text \<open>
  One run of the evidence store, evaluated: the observation of owner \<open>al\<close> with one text part
  \<open>hi\<close> is reserved, uploaded, finalized, committed, paged, granted to \<open>bo\<close>, released and
  expired.  The run is the concrete input of the properties of the evidence theories.
\<close>

section \<open>The input\<close>

definition demo_env :: "string \<Rightarrow> ev_env" where
  "demo_env u = \<lparr>ev_clock = (\<lambda>_. 1000000), ev_uuid = u, ev_sql = (\<lambda>_. None), ev_commit = None,
     ev_fail = (\<lambda>_. Ok ()), ev_message = []\<rparr>"

text \<open>A codec that knows one JSON value and one scope; its digest is a constant.\<close>

definition demo_codec :: codec where
  "demo_codec = \<lparr>json_to = (\<lambda>v. if v = JNull then Ok ''n'' else Err []),
     json_of = (\<lambda>s. if s = ''n'' then Ok JNull else Err []),
     layout_to = (\<lambda>_. Err []), layout_of = (\<lambda>_. Err []),
     scope_to = (\<lambda>sc. case sc of ScopeObservation \<Rightarrow> Ok ''*'' | ScopeParts ps \<Rightarrow> Err []),
     scope_of = (\<lambda>s. if s = ''*'' then Ok ScopeObservation else Err []),
     digest = (\<lambda>b. ''aaaaaaaaaaaaaaaaaaaaaaaaaaaaaaaa''), base64 = id\<rparr>"

definition demo_sha :: string where
  "demo_sha = ''6161616161616161616161616161616161616161616161616161616161616161''"

definition demo_part :: PartManifest where
  "demo_part = \<lparr>pm_name = ''p'', pm_content_type = ''t'', pm_content_encoding = None, pm_kind = KindUtf8,
     pm_bytes = 2, pm_sha256 = demo_sha, pm_layout = None, pm_metadata = JNull, pm_coverage = JNull\<rparr>"

definition demo_request :: ReserveObservation where
  "demo_request = \<lparr>ro_ttl = 1000000000, ro_metadata = JNull, ro_coverage = JNull, ro_parts = [demo_part]\<rparr>"

definition demo_append :: AppendChunk where
  "demo_append = \<lparr>ac_upload_id = ''u_1'', ac_part = ''p'', ac_offset = 0, ac_bytes = ''hi''\<rparr>"

definition demo_obs :: "string \<Rightarrow> string \<Rightarrow> obs_row" where
  "demo_obs i s = \<lparr>ob_id = i, ob_owner = ''al'', ob_status = s, ob_created = 1, ob_expires = 1001,
     ob_pinned = False, ob_reserved = 2, ob_metadata = ''n'', ob_coverage = ''n''\<rparr>"

definition demo_row :: "string \<Rightarrow> bool \<Rightarrow> part_row" where
  "demo_row i b = \<lparr>pr_obs = i, pr_name = ''p'', pr_ordinal = 0, pr_content_type = ''t'',
     pr_content_encoding = None, pr_kind = ''utf8'', pr_len = 2, pr_sha = demo_sha, pr_layout = None,
     pr_metadata = ''n'', pr_coverage = ''n'', pr_finalized = b\<rparr>"

definition demo_chunk :: "string \<Rightarrow> chunk_row" where
  "demo_chunk i = \<lparr>ck_obs = i, ck_part = ''p'', ck_ordinal = 0, ck_offset = 0, ck_len = 2, ck_hash = demo_sha\<rparr>"

definition demo_db :: "string \<Rightarrow> string \<Rightarrow> bool \<Rightarrow> ev_db" where
  "demo_db i s b = \<lparr>t_obs = [demo_obs i s], t_parts = [demo_row i b], t_chunks = [demo_chunk i],
     t_grants = [], t_cursors = []\<rparr>"

definition demo_store :: "string \<Rightarrow> string \<Rightarrow> bool \<Rightarrow> ev_store" where
  "demo_store i s b = \<lparr>es_db = demo_db i s b, es_blobs = [demo_sha \<mapsto> ''hi'']\<rparr>"

definition demo_empty :: ev_store where
  "demo_empty = \<lparr>es_db = empty_db, es_blobs = Map.empty\<rparr>"

definition demo_reserved :: ev_store where
  "demo_reserved = \<lparr>es_db = empty_db\<lparr>t_obs := [demo_obs ''u_1'' ''uploading''], t_parts := [demo_row ''u_1'' False]\<rparr>,
     es_blobs = Map.empty\<rparr>"

abbreviation demo_committed :: ev_store where
  "demo_committed \<equiv> demo_store ''e_1'' ''complete'' True"

section \<open>Evaluation\<close>

lemma demo_hash: "sha256_hex demo_codec b = demo_sha"
  by (simp add: sha256_hex_def demo_codec_def hex_digest_def demo_sha_def byte_def hex_digit_def)

lemma demo_sha_ok: "length demo_sha = 64" "list_all lower_hex demo_sha"
  by (simp_all add: demo_sha_def lower_hex_def byte_def)

lemma demo_name: "validate_part_name ''p'' = Ok ()"
  by (simp add: validate_part_name_def fail_if_def byte_def)

lemma demo_env_simps:
  "sql (demo_env e) k v = Ok v" "now_ms (demo_env e) k = Ok 1" "ev_fail (demo_env e) f = Ok ()"
  "ev_commit (demo_env e) = None" "ev_uuid (demo_env e) = e" "ev_sql (demo_env e) k = None"
  "constraint (demo_env e) True = Ok ()"
  by (simp_all add: sql_def demo_env_def now_ms_def constraint_def)

lemma demo_row_simps:
  "pr_obs (demo_row i b) = i" "pr_name (demo_row i b) = ''p''" "pr_len (demo_row i b) = 2"
  "pr_sha (demo_row i b) = demo_sha" "pr_kind (demo_row i b) = ''utf8''" "pr_finalized (demo_row i b) = b"
  "pr_layout (demo_row i b) = None" "pr_ordinal (demo_row i b) = 0"
  "(demo_row i b)\<lparr>pr_finalized := c\<rparr> = demo_row i c"
  by (simp_all add: demo_row_def)

lemma demo_obs_simps:
  "ob_id (demo_obs i s) = i" "ob_owner (demo_obs i s) = ''al''" "ob_status (demo_obs i s) = s"
  "ob_expires (demo_obs i s) = 1001" "ob_reserved (demo_obs i s) = 2"
  by (simp_all add: demo_obs_def)

lemma demo_chunk_simps:
  "ck_obs (demo_chunk i) = i" "ck_part (demo_chunk i) = ''p''" "ck_ordinal (demo_chunk i) = 0"
  "ck_offset (demo_chunk i) = 0" "ck_len (demo_chunk i) = 2" "ck_hash (demo_chunk i) = demo_sha"
  by (simp_all add: demo_chunk_def)

lemma demo_db_simps:
  "t_obs (demo_db i s b) = [demo_obs i s]" "t_parts (demo_db i s b) = [demo_row i b]"
  "t_chunks (demo_db i s b) = [demo_chunk i]" "t_grants (demo_db i s b) = []" "t_cursors (demo_db i s b) = []"
  "es_db (demo_store i s b) = demo_db i s b" "es_blobs (demo_store i s b) = [demo_sha \<mapsto> ''hi'']"
  by (simp_all add: demo_db_def demo_store_def)

lemmas demo_eval = demo_env_simps demo_row_simps demo_obs_simps demo_chunk_simps demo_db_simps demo_name demo_hash

lemma demo_lookups:
  "find_obs (demo_db i s b) i = Some (demo_obs i s)" "find_part (demo_db i s b) i ''p'' = Some (demo_row i b)"
  "part_chunks (demo_db i s b) i ''p'' = [demo_chunk i]" "chunk_rows (demo_db i s b) i ''p'' = [demo_chunk i]"
  by (simp_all add: find_obs_def find_part_def part_chunks_def chunk_rows_def demo_eval)

lemma demo_owner: "parse_owner ''al'' = Ok ''al''"
  by (simp add: parse_owner_def byte_def)

lemma demo_header:
  "load_observation_header (demo_env e) k i (demo_db i s b) = Ok (s, ''al'', 1001)"
  by (simp add: load_observation_header_def demo_eval demo_lookups demo_owner)

lemma demo_upload_owner: "require_upload_owner (demo_env e) k ''al'' ''al'' ''uploading'' 1001 = Ok ()"
  by (simp add: require_upload_owner_def demo_eval fail_if_def status_defs)

lemma demo_checked: "checked_chunk demo_codec [demo_sha \<mapsto> ''hi''] (demo_chunk i) = Ok ''hi''"
  by (simp add: checked_chunk_def blob_get_def demo_eval len_u64_def)

section \<open>The upload\<close>

lemma demo_admit: "admit_observation evidence_config_default demo_codec demo_request = Ok 2"
  by (simp add: admit_observation_def demo_request_def demo_part_def demo_codec_def evidence_config_default_def
      validate_ttl_def from_secs_def json_size_bounded_def json_string_def len_u64_def add_metadata_def
      checked_add_def validate_part_def demo_name demo_sha_ok fail_if_def)

lemma demo_reserve:
  "reserve (demo_env ''1'') evidence_config_default demo_codec ''al'' demo_request demo_empty
     = (Ok \<lparr>rs_upload_id = ''u_1'', rs_reserved_bytes = 2, rs_max_chunk_bytes = 1024 * 1024\<rparr>, demo_reserved)"
  by (simp add: reserve_def reserve_call_def demo_admit transact_def demo_eval)
     (simp add: demo_eval demo_request_def demo_part_def demo_codec_def demo_empty_def demo_reserved_def
      add_duration_def as_millis_def parse_id_def byte_def reserve_tx_def
      subtract_duration_def evidence_config_default_def from_secs_def expire_rows_def empty_db_def
      sql_sum_def sum_u64_def owner_active_def all_active_def delete_obs_def delete_grants_def delete_chunks_def delete_cursors_def
      update_obs_def stale_ids_def fail_if_def json_string_def to_sql_def saturating_add_def insert_obs_def
      constraint_def insert_part_def kind_name_def demo_obs_def demo_row_def status_defs)

lemma demo_append_step:
  "append_chunk (demo_env ''2'') evidence_config_default demo_codec ''al'' demo_append demo_reserved
     = (Ok \<lparr>tp_next_offset = 2, tp_total_bytes = 2\<rparr>, demo_store ''u_1'' ''uploading'' False)"
  by (simp add: append_chunk_def demo_hash)
     (simp add: append_admit_def demo_append_def demo_reserved_def evidence_config_default_def demo_eval
      demo_store_def demo_db_def demo_chunk_def empty_db_def blob_put_def append_tx_def insert_chunk_def
      load_observation_header_def find_obs_def find_part_def part_chunks_def demo_owner demo_upload_owner
      fail_if_def len_u64_def sql_sum_def sum_u64_def saturating_add_def to_sql_def transact_def constraint_def)

lemma demo_push: "validator_push [] ''hi'' = Ok []"
  by (simp add: validator_push_def from_utf8_def utf8_from.simps utf8_head.simps byte_def)

lemma demo_finalize:
  "finalize_part (demo_env ''3'') demo_codec ''al'' ''u_1'' ''p'' (demo_store ''u_1'' ''uploading'' False)
     = (Ok (), demo_store ''u_1'' ''uploading'' True)"
  by (simp add: finalize_part_def transact_def finalize_tx_def demo_header demo_upload_owner demo_lookups
      demo_checked demo_push demo_eval checked_add_def validator_finish_def)

lemma demo_load_part: "load_part_row (demo_env e) k demo_codec i ''p'' (demo_db i s b) = Ok demo_part"
  by (simp add: load_part_row_def demo_eval demo_lookups demo_row_def demo_part_def demo_codec_def)

definition demo_record :: EvidenceRecord where
  "demo_record = \<lparr>er_evidence_id = ''e_1'', er_owner = ''al'', er_created = 1, er_expires = 1001, er_pinned = False,
     er_bytes = 2, er_metadata = JNull, er_coverage = JNull, er_parts = [demo_part], er_complete = True\<rparr>"

lemma demo_inspect: "inspect (demo_env e) t k demo_codec ''al'' ''e_1'' demo_committed = Ok demo_record"
  by (simp add: inspect_def authorize_def load_record_def demo_eval demo_lookups demo_load_part demo_owner
      sort_key_def status_defs)
     (simp add: demo_obs_def demo_record_def demo_codec_def)

lemma demo_store_update: "(demo_store i s b)\<lparr>es_db := demo_db j t c\<rparr> = demo_store j t c"
  by (simp add: demo_store_def)

lemma demo_commit:
  "commit (demo_env ''4'') demo_codec ''al'' ''u_1'' (demo_store ''u_1'' ''uploading'' True)
     = (Ok demo_record, demo_committed)"
proof -
  have "commit_tx (demo_env ''4'') ''al'' ''u_1'' (demo_db ''u_1'' ''uploading'' True)
      = Ok (''e_1'', demo_db ''e_1'' ''complete'' True)"
    by (simp add: commit_tx_def demo_header demo_upload_owner demo_eval fail_if_def parse_id_def byte_def status_defs)
       (simp add: demo_db_def demo_obs_def demo_row_def demo_chunk_def rename_obs_def rename_def update_obs_def)
  then show ?thesis by (simp add: commit_def demo_eval Let_def demo_store_update demo_inspect)
qed


section \<open>The committed store is reachable\<close>

lemma demo_start: "ev_reachable evidence_config_default demo_codec demo_empty"
  by (rule reach_init)
     (simp add: ev_init_def memory_store_new_def config_validate_def evidence_config_default_def from_secs_def
      SQLITE_U64_MAX_def fail_if_def demo_empty_def)

lemma ev_reachable_call:
  assumes "ev_reachable cfg cd st" "call_ok call" "apply_call env cfg cd call st = st'"
  shows "ev_reachable cfg cd st'"
  using reach_step [OF assms(1)] ev_step.intros [OF assms(2)] assms(3) by metis

lemma demo_uploaded: "ev_reachable evidence_config_default demo_codec (demo_store ''u_1'' ''uploading'' True)"
proof -
  have a: "ev_reachable evidence_config_default demo_codec demo_reserved"
    by (rule ev_reachable_call [OF demo_start, where call = "CallReserve ''al'' demo_request" and env = "demo_env ''1''"])
      (simp_all add: demo_owner demo_reserve)
  have b: "ev_reachable evidence_config_default demo_codec (demo_store ''u_1'' ''uploading'' False)"
    by (rule ev_reachable_call [OF a, where call = "CallAppend ''al'' demo_append" and env = "demo_env ''2''"])
      (simp_all add: demo_append_step)
  show ?thesis
    by (rule ev_reachable_call [OF b, where call = "CallFinalize ''al'' ''u_1'' ''p''" and env = "demo_env ''3''"])
      (simp_all add: demo_finalize)
qed

lemma demo_reachable: "ev_reachable evidence_config_default demo_codec demo_committed"
  by (rule ev_reachable_call [OF demo_uploaded, where call = "CallCommit ''al'' ''u_1''" and env = "demo_env ''4''"])
    (simp_all add: demo_commit)

section \<open>Two pages\<close>

definition demo_read :: "u64 \<Rightarrow> EvidenceCursor option \<Rightarrow> ReadRequest" where
  "demo_read m c = \<lparr>rr_evidence_id = ''e_1'', rr_part = ''p'', rr_cursor = c, rr_max_bytes = m,
     rr_encoding = EncUtf8\<rparr>"

definition demo_page :: "u64 \<Rightarrow> u64 \<Rightarrow> string \<Rightarrow> EvidenceCursor option \<Rightarrow> EvidencePage" where
  "demo_page a b v c = \<lparr>pg_evidence_id = ''e_1'', pg_part = ''p'', pg_content_type = ''t'',
     pg_content_encoding = None, pg_byte_start = a, pg_byte_end = b, pg_total_bytes = 2,
     pg_returned_bytes = b - a, pg_content = PageUtf8 v, pg_next_cursor = c, pg_complete = (c = None),
     pg_layout = None\<rparr>"

definition demo_cursor :: cursor_row where
  "demo_cursor = \<lparr>cu_token = ''c_5'', cu_reader = ''al'', cu_evidence = ''e_1'', cu_part = ''p'',
     cu_encoding = ''utf8'', cu_projection = ''bytes'', cu_next = 1, cu_page = 1, cu_grant = None\<rparr>"

definition demo_paged :: ev_store where
  "demo_paged = demo_committed\<lparr>es_db := (demo_db ''e_1'' ''complete'' True)\<lparr>t_cursors := [demo_cursor]\<rparr>\<rparr>"

lemma demo_read_simps:
  "rr_evidence_id (demo_read m c) = ''e_1''" "rr_part (demo_read m c) = ''p''" "rr_cursor (demo_read m c) = c"
  "rr_max_bytes (demo_read m c) = m" "rr_encoding (demo_read m c) = EncUtf8"
  "(demo_read m c)\<lparr>rr_cursor := d\<rparr> = demo_read m d"
  by (simp_all add: demo_read_def)

lemma demo_part_simps:
  "pm_bytes demo_part = 2" "pm_kind demo_part = KindUtf8" "pm_content_type demo_part = ''t''"
  "pm_content_encoding demo_part = None" "pm_layout demo_part = None"
  by (simp_all add: demo_part_def)

lemma demo_utf8: "from_utf8 ''h'' = Utf8Ok" "from_utf8 ''i'' = Utf8Ok" "from_utf8 ''hi'' = Utf8Ok"
  by (simp_all add: from_utf8_def utf8_from.simps utf8_head.simps byte_def)

lemma demo_bytes:
  "page_bytes (demo_env e) demo_codec (demo_read 1 c) demo_part 0 demo_committed = Ok ''h''"
  by (simp add: page_bytes_def demo_read_simps demo_part_simps read_range_def demo_eval demo_lookups demo_checked
      saturating_add_def fail_if_def trim_utf8_id demo_utf8)

lemmas demo_read_eval =
  read_def transact_def read_tx_def demo_eval demo_lookups demo_load_part fail_if_def demo_read_simps
  demo_part_simps read_position_def authorize_def check_readable_status_def
  demo_bytes status_defs constraint_def byte_def
  len_u64_def parse_id_def to_sql_def insert_cursor_def encoding_name_def

lemma demo_first_page:
  "read (demo_env ''5'') evidence_config_default demo_codec ''al'' (demo_read 1 None) demo_committed
     = (Ok (demo_page 0 1 ''h'' (Some ''c_5'')), demo_paged)"
  by (simp add: demo_read_eval evidence_config_default_def Let_def demo_page_def demo_paged_def demo_cursor_def)


lemma demo_frame:
  "find_obs (db\<lparr>t_cursors := cs\<rparr>) i = find_obs db i" "find_part (db\<lparr>t_cursors := cs\<rparr>) i n = find_part db i n"
  "chunk_rows (db\<lparr>t_cursors := cs\<rparr>) i n = chunk_rows db i n"
  "load_part_row env k cd i n (db\<lparr>t_cursors := cs\<rparr>) = load_part_row env k cd i n db"
  by (simp_all add: find_obs_def find_part_def chunk_rows_def part_chunks_def load_part_row_def)

lemma demo_bytes_2:
  "page_bytes (demo_env e) demo_codec (demo_read 1 c) demo_part 1
     (demo_committed\<lparr>es_db := (demo_db ''e_1'' ''complete'' True)\<lparr>t_cursors := cs\<rparr>\<rparr>) = Ok ''i''"
  by (simp add: page_bytes_def demo_read_simps demo_part_simps read_range_def demo_eval demo_frame demo_lookups
      demo_checked saturating_add_def fail_if_def demo_utf8)
     (simp add: word_le_nat_alt)

lemma demo_second_page:
  "read (demo_env ''6'') evidence_config_default demo_codec ''al'' (demo_read 1 (Some ''c_5'')) demo_paged
     = (Ok (demo_page 1 2 ''i'' None), demo_paged)"
  by (simp add: demo_read_eval demo_paged_def demo_frame demo_cursor_def authorize_exact_grant_def
      evidence_config_default_def Let_def demo_page_def demo_bytes_2)

lemma demo_chain:
  "page_chain evidence_config_default demo_codec ''al'' (demo_read 1 None) demo_committed
     [demo_page 0 1 ''h'' (Some ''c_5''), demo_page 1 2 ''i'' None]"
proof (rule next_page [OF demo_first_page])
  show "pg_next_cursor (demo_page 0 1 ''h'' (Some ''c_5'')) = Some ''c_5''" by (simp add: demo_page_def)
  show "other_reads evidence_config_default demo_codec demo_paged demo_paged" by (simp add: other_reads_def)
  show "page_chain evidence_config_default demo_codec ''al'' ((demo_read 1 None)\<lparr>rr_cursor := Some ''c_5''\<rparr>)
      demo_paged [demo_page 1 2 ''i'' None]"
    unfolding demo_read_simps by (rule last_page [OF demo_second_page]) (simp add: demo_page_def)
qed

section \<open>The properties at this run\<close>

theorem read_page_intact_witness:
  "fst (read (demo_env ''5'') evidence_config_default demo_codec ''al'' (demo_read 1 None) demo_committed)
     = Ok (demo_page 0 1 ''h'' (Some ''c_5''))
   \<and> (\<exists>content. sha256_hex demo_codec content = demo_sha \<and> length content = 2 \<and> ''h'' = segment 0 1 content)"
proof -
  obtain content where "length content = 2" "PageUtf8 ''h'' = page_payload demo_codec EncUtf8 (segment 0 1 content)"
    using read_page_intact [OF demo_reachable demo_first_page]
    by (auto simp: demo_read_simps demo_page_def demo_eval demo_lookups)
  then show ?thesis
    by (intro conjI exI [of _ content]) (simp_all add: demo_first_page demo_eval demo_lookups page_payload_def)
qed


theorem read_authorized_witness:
  "fst (read (demo_env ''5'') evidence_config_default demo_codec ''al'' (demo_read 1 None) demo_committed)
     = Ok (demo_page 0 1 ''h'' (Some ''c_5''))
   \<and> (\<exists>r. find_obs (es_db demo_committed) ''e_1'' = Some r \<and> ob_status r = STATUS_COMPLETE \<and> 1 < ob_expires r)"
  using read_authorized [OF demo_first_page] demo_first_page by (auto simp: demo_read_simps demo_eval)

theorem inspect_lists_granted_parts_witness:
  "inspect (demo_env ''4'') 1 5 demo_codec ''al'' ''e_1'' demo_committed = Ok demo_record
   \<and> (\<exists>r. find_obs (es_db demo_committed) ''e_1'' = Some r \<and> 1 < ob_expires r)"
  using inspect_lists_granted_parts [OF demo_inspect [of "''4''" 1 5]] demo_inspect by (auto simp: demo_eval)

theorem evidence_quotas_witness:
  "ev_reachable evidence_config_default demo_codec demo_committed
   \<and> sum_u64 (map ob_reserved (owner_active ''al'' (es_db demo_committed))) = 2
   \<and> 2 \<le> unat (max_owner_bytes evidence_config_default)"
proof -
  have "sum_u64 (map ob_reserved (owner_active ''al'' (es_db demo_committed))) = 2"
    by (simp add: sum_u64_def owner_active_def active_def demo_eval status_defs)
  with evidence_quotas [OF demo_reachable, of "''al''"] demo_reachable show ?thesis by simp
qed

theorem reserve_manifest_roundtrip_witness:
  "codec_round_trips demo_codec
   \<and> load_part_row (demo_env ''2'') 0 demo_codec ''u_1'' ''p'' (es_db demo_reserved) = Ok demo_part"
proof -
  have c: "codec_round_trips demo_codec" by (simp add: codec_round_trips_def demo_codec_def)
  have n: "pm_name demo_part = ''p''" by (simp add: demo_part_def)
  show ?thesis
    using reserve_manifest_roundtrip [OF demo_reserve demo_start demo_owner c, of demo_part "demo_env ''2''" 0] c n
    by (simp add: demo_request_def demo_env_simps)
qed

theorem commit_tells_the_truth_witness:
  "fst (commit (demo_env ''4'') demo_codec ''al'' ''u_1'' (demo_store ''u_1'' ''uploading'' True)) = Ok demo_record
   \<and> complete_in (es_db demo_committed) ''e_1''"
  using commit_tells_the_truth [OF demo_uploaded demo_commit] demo_commit
  by (simp add: demo_env_simps demo_record_def)

theorem evidence_immutable_witness:
  "ev_step evidence_config_default demo_codec demo_committed demo_paged
   \<and> part_content demo_paged ''e_1'' ''p'' = part_content demo_committed ''e_1'' ''p''
   \<and> part_content demo_committed ''e_1'' ''p'' = ''hi''"
proof -
  have c: "complete_in (es_db demo_committed) ''e_1''" "complete_in (es_db demo_paged) ''e_1''"
    by (simp_all add: complete_in_def demo_paged_def demo_eval status_defs)
  have s: "ev_step evidence_config_default demo_codec demo_committed demo_paged"
    using ev_step.intros [of "CallRead ''al'' (demo_read 1 None)" evidence_config_default demo_codec demo_committed "demo_env ''5''"]
    by (simp add: demo_first_page)
  have "(\<lambda>s t. ev_step evidence_config_default demo_codec s t \<and> complete_in (es_db t) ''e_1'')\<^sup>*\<^sup>*
      demo_committed demo_paged" using s c by blast
  from evidence_immutable [OF demo_reachable c(1) this, of "''p''"] s show ?thesis
    by (simp add: part_content_def demo_eval demo_lookups)
qed

section \<open>Release and restart\<close>

definition demo_released :: ev_store where
  "demo_released = \<lparr>es_db = (demo_db ''e_1'' ''complete'' True)\<lparr>
       t_obs := [(demo_obs ''e_1'' ''released'')\<lparr>ob_expires := 1\<rparr>], t_chunks := []\<rparr>, es_blobs = Map.empty\<rparr>"

lemma demo_release: "release (demo_env ''7'') ''al'' ''e_1'' demo_committed = (Ok (), demo_released)"
  by (simp add: release_def bind_st_def transact_def release_tx_def demo_eval demo_lookups require_owned_complete_def
      check_readable_status_def fail_if_def status_defs delete_chunks_def delete_grants_def delete_cursors_def
      update_obs_def cleanup_orphans_def)
     (simp add: demo_store_def demo_db_def demo_released_def demo_obs_def demo_chunk_def remove_unreferenced_def)


lemma demo_restart: "reconcile_startup (demo_env ''7'') evidence_config_default demo_committed = (Ok (), demo_committed)"
  by (simp add: reconcile_startup_def bind_st_def transact_def reconcile_startup_tx_def demo_eval subtract_duration_def
      as_millis_def evidence_config_default_def from_secs_def expire_rows_def delete_obs_def delete_chunks_def
      delete_grants_def delete_cursors_def update_obs_def stale_ids_def stale_def cleanup_orphans_def status_defs del: set_filter)
     (simp add: demo_store_def demo_db_def demo_obs_def demo_chunk_def remove_unreferenced_def fun_eq_iff)


end
