(* ===== verification/FileSystem.thy ===== *)
theory FileSystem
  imports EvidenceStore
begin

text \<open>
  The file system as \<open>crates/tdmcp-daemon/src/evidence_store.rs\<close> and
  \<open>crates/tdmcp-projectio/src/publish.rs\<close> use it: paths are lists of components from the root,
  a node is a regular file with its mode and bytes, a directory with its mode, a symbolic link
  or something else.  Every primitive is one tick; the environment decides for each tick whether
  it succeeds, fails with an I/O error, or is the point where the process is killed, and how much
  of a write had reached the file by then.  What a completed primitive did survives the process.
\<close>

section \<open>Outcomes\<close>

datatype ('a, 'e) outcome = Done 'a | Failed 'e | Crashed

type_synonym path = "string list"

datatype node = RegularFile nat string | Directory nat | Symlink bool | Special

type_synonym nodes = "(path \<times> node) list"

abbreviation lookup :: "nodes \<Rightarrow> path \<Rightarrow> node option" where
  "lookup \<equiv> map_of"

datatype io_kind = IoNotFound | IoAlreadyExists | IoOther string

datatype fault = Fine | IoFails io_kind nat | Killed nat

datatype ExportJournalState = Prepared | DestinationBackedUp | Published

record ExportJournal =
  ej_id :: string
  ej_state :: ExportJournalState
  ej_temp :: path
  ej_destination :: path
  ej_backup :: "path option"
  ej_sha256 :: string
  ej_bytes :: u64

text \<open>
  \<open>fs_text\<close> is the text of an I/O error, \<open>fs_canonical\<close> the resolution of a path,
  \<open>fs_inode\<close> the identity of an entry at a tick, \<open>fs_locked\<close> whether another process holds the
  writer lock; \<open>fs_journal_to\<close> and \<open>fs_journal_of\<close> are \<open>serde_json\<close> on export journals.
\<close>

record fs_env =
  fs_fault :: "nat \<Rightarrow> fault"
  fs_uuid :: "nat \<Rightarrow> string"
  fs_text :: "io_kind \<Rightarrow> string"
  fs_canonical :: "path \<Rightarrow> path"
  fs_inode :: "nat \<Rightarrow> path \<Rightarrow> nat"
  fs_locked :: bool
  fs_inject :: "FailurePoint \<Rightarrow> (unit, EvidenceError) result"
  fs_journal_to :: "ExportJournal \<Rightarrow> (string, string) result"
  fs_journal_of :: "string \<Rightarrow> (ExportJournal, string) result"

record disk =
  fs_nodes :: nodes
  fs_tick :: nat

type_synonym ('a, 'e) io = "fs_env \<Rightarrow> disk \<Rightarrow> ('a, 'e) outcome \<times> disk"

definition io_pure :: "'a \<Rightarrow> ('a, 'e) io" where
  "io_pure a env d = (Done a, d)"

definition io_raise :: "'e \<Rightarrow> ('a, 'e) io" where
  "io_raise e env d = (Failed e, d)"

definition io_match :: "('a, 'e) io \<Rightarrow> ('a \<Rightarrow> ('b, 'f) io) \<Rightarrow> ('e \<Rightarrow> ('b, 'f) io) \<Rightarrow> ('b, 'f) io" where
  "io_match m f h env d =
     (case m env d of
        (Done a, d') \<Rightarrow> f a env d'
      | (Failed e, d') \<Rightarrow> h e env d'
      | (Crashed, d') \<Rightarrow> (Crashed, d'))"

definition io_bind :: "('a, 'e) io \<Rightarrow> ('a \<Rightarrow> ('b, 'e) io) \<Rightarrow> ('b, 'e) io" where
  "io_bind m f = io_match m f io_raise"

definition io_map_err :: "('e \<Rightarrow> 'f) \<Rightarrow> ('a, 'e) io \<Rightarrow> ('a, 'f) io" where
  "io_map_err g m = io_match m io_pure (\<lambda>e. io_raise (g e))"

definition io_ignore :: "('a, 'e) io \<Rightarrow> (unit, 'f) io" where
  "io_ignore m = io_match m (\<lambda>_. io_pure ()) (\<lambda>_. io_pure ())"

definition io_lift :: "('a, 'e) result \<Rightarrow> ('a, 'e) io" where
  "io_lift r = (case r of Ok a \<Rightarrow> io_pure a | Err e \<Rightarrow> io_raise e)"

definition or_io :: "('a, io_kind) io \<Rightarrow> ('a, EvidenceError) io" where
  "or_io m env = io_map_err (\<lambda>e. EvIo (fs_text env e)) m env"

section \<open>Primitives\<close>

definition fs_step :: "(nat \<Rightarrow> nodes \<Rightarrow> nodes) \<Rightarrow> (nodes \<Rightarrow> ('a \<times> nodes, io_kind) result) \<Rightarrow> ('a, io_kind) io" where
  "fs_step part eff env d =
     (let tick = fs_tick d; ns = fs_nodes d; d = d\<lparr>fs_tick := Suc tick\<rparr> in
      case fs_fault env tick of
        Killed n \<Rightarrow> (Crashed, d\<lparr>fs_nodes := part n ns\<rparr>)
      | IoFails e n \<Rightarrow> (Failed e, d\<lparr>fs_nodes := part n ns\<rparr>)
      | Fine \<Rightarrow> (case eff ns of Ok (a, ns) \<Rightarrow> (Done a, d\<lparr>fs_nodes := ns\<rparr>) | Err e \<Rightarrow> (Failed e, d)))"

definition fs_query :: "(nodes \<Rightarrow> ('a, io_kind) result) \<Rightarrow> ('a, io_kind) io" where
  "fs_query q = fs_step (\<lambda>_ ns. ns) (\<lambda>ns. map_ok (\<lambda>a. (a, ns)) (q ns))"

definition fs_effect :: "(nodes \<Rightarrow> (nodes, io_kind) result) \<Rightarrow> (unit, io_kind) io" where
  "fs_effect f = fs_step (\<lambda>_ ns. ns) (\<lambda>ns. map_ok (Pair ()) (f ns))"

definition is_directory :: "node option \<Rightarrow> bool" where
  "is_directory n = (case n of Some (Directory _) \<Rightarrow> True | _ \<Rightarrow> False)"

definition symlink_metadata :: "path \<Rightarrow> (node, io_kind) io" where
  "symlink_metadata p = fs_query (\<lambda>ns. case lookup ns p of None \<Rightarrow> Err IoNotFound | Some n \<Rightarrow> Ok n)"

text \<open>\<open>Path::exists\<close>: an error counts as absent.\<close>

definition path_exists :: "path \<Rightarrow> (bool, 'e) io" where
  "path_exists p = io_match
     (fs_query (\<lambda>ns. case lookup ns p of None \<Rightarrow> Ok False | Some (Symlink target) \<Rightarrow> Ok target | Some _ \<Rightarrow> Ok True))
     io_pure (\<lambda>_. io_pure False)"

definition new_uuid :: "(string, 'e) io" where
  "new_uuid env d = (Done (fs_uuid env (fs_tick d)), d\<lparr>fs_tick := Suc (fs_tick d)\<rparr>)"

definition create_new :: "nat \<Rightarrow> path \<Rightarrow> (unit, io_kind) io" where
  "create_new mode p = fs_effect (\<lambda>ns.
     if lookup ns p \<noteq> None then Err IoAlreadyExists
     else if \<not> is_directory (lookup ns (butlast p)) then Err IoNotFound
     else Ok (AList.update p (RegularFile mode []) ns))"

definition append_bytes :: "path \<Rightarrow> string \<Rightarrow> nodes \<Rightarrow> nodes" where
  "append_bytes p bytes ns =
     (case lookup ns p of
        Some (RegularFile m b) \<Rightarrow> AList.update p (RegularFile m (b @ bytes)) ns
      | _ \<Rightarrow> ns)"

definition write_all :: "path \<Rightarrow> string \<Rightarrow> (unit, io_kind) io" where
  "write_all p bytes = fs_step (\<lambda>n. append_bytes p (take n bytes)) (\<lambda>ns. Ok ((), append_bytes p bytes ns))"

definition sync_all :: "path \<Rightarrow> (unit, io_kind) io" where
  "sync_all p = fs_query (\<lambda>_. Ok ())"

definition remove_file :: "path \<Rightarrow> (unit, io_kind) io" where
  "remove_file p = fs_effect (\<lambda>ns.
     case lookup ns p of
       None \<Rightarrow> Err IoNotFound
     | Some (Directory _) \<Rightarrow> Err (IoOther ''is a directory'')
     | Some _ \<Rightarrow> Ok (AList.delete p ns))"

definition contains_nul :: "path \<Rightarrow> bool" where
  "contains_nul p \<longleftrightarrow> list_ex (\<lambda>c. list_ex (\<lambda>b. byte b = 0) c) p"

definition reject_nul :: "path \<Rightarrow> (unit, io_kind) io" where
  "reject_nul p = (if contains_nul p then io_raise (IoOther ''path contains an embedded NUL'') else io_pure ())"

definition move :: "path \<Rightarrow> path \<Rightarrow> node \<Rightarrow> nodes \<Rightarrow> nodes" where
  "move a b n ns = AList.update b n (AList.delete a ns)"

text \<open>The store renames files only; a directory is refused here.\<close>

definition rename_exclusive :: "path \<Rightarrow> path \<Rightarrow> (unit, io_kind) io" where
  "rename_exclusive a b = fs_effect (\<lambda>ns.
     case lookup ns a of
       None \<Rightarrow> Err IoNotFound
     | Some (Directory _) \<Rightarrow> Err (IoOther ''is a directory'')
     | Some n \<Rightarrow>
         if lookup ns b \<noteq> None then Err IoAlreadyExists
         else if \<not> is_directory (lookup ns (butlast b)) then Err IoNotFound
         else Ok (move a b n ns))"

definition rename_noreplace :: "path \<Rightarrow> path \<Rightarrow> (unit, io_kind) io" where
  "rename_noreplace a b =
     io_bind (reject_nul a) (\<lambda>_. io_bind (reject_nul b) (\<lambda>_. rename_exclusive a b))"

definition rename_over :: "path \<Rightarrow> path \<Rightarrow> (unit, io_kind) io" where
  "rename_over a b = fs_effect (\<lambda>ns.
     case lookup ns a of
       None \<Rightarrow> Err IoNotFound
     | Some (Directory _) \<Rightarrow> Err (IoOther ''is a directory'')
     | Some n \<Rightarrow>
         if is_directory (lookup ns b) then Err (IoOther ''is a directory'')
         else if \<not> is_directory (lookup ns (butlast b)) then Err IoNotFound
         else Ok (if a = b then ns else move a b n ns))"

definition rename_replace :: "path \<Rightarrow> path \<Rightarrow> (unit, io_kind) io" where
  "rename_replace a b =
     io_bind (reject_nul a) (\<lambda>_. io_bind (reject_nul b) (\<lambda>_. rename_over a b))"

definition children :: "nodes \<Rightarrow> path \<Rightarrow> string list" where
  "children ns p = map last (filter (\<lambda>q. q \<noteq> [] \<and> butlast q = p) (map fst ns))"

definition read_dir :: "path \<Rightarrow> (string list, io_kind) io" where
  "read_dir p = fs_query (\<lambda>ns.
     case lookup ns p of
       None \<Rightarrow> Err IoNotFound
     | Some (Directory _) \<Rightarrow> Ok (children ns p)
     | Some _ \<Rightarrow> Err (IoOther ''not a directory''))"

text \<open>Opening for reading and reading at most \<open>limit\<close> bytes; a link is not followed here, because
  the callers have refused links before.\<close>

definition read_file :: "path \<Rightarrow> nat option \<Rightarrow> (string, io_kind) io" where
  "read_file p limit = fs_query (\<lambda>ns.
     case lookup ns p of
       None \<Rightarrow> Err IoNotFound
     | Some (RegularFile _ b) \<Rightarrow> Ok (case limit of None \<Rightarrow> b | Some n \<Rightarrow> take n b)
     | Some _ \<Rightarrow> Err (IoOther ''not a file''))"

definition create_dir :: "nat \<Rightarrow> path \<Rightarrow> (unit, io_kind) io" where
  "create_dir mode p = fs_effect (\<lambda>ns.
     if lookup ns p \<noteq> None then Err IoAlreadyExists
     else if \<not> is_directory (lookup ns (butlast p)) then Err IoNotFound
     else Ok (AList.update p (Directory mode) ns))"

definition set_permissions :: "nat \<Rightarrow> path \<Rightarrow> (unit, io_kind) io" where
  "set_permissions mode p = fs_effect (\<lambda>ns.
     case lookup ns p of
       None \<Rightarrow> Err IoNotFound
     | Some (RegularFile _ b) \<Rightarrow> Ok (AList.update p (RegularFile mode b) ns)
     | Some (Directory _) \<Rightarrow> Ok (AList.update p (Directory mode) ns)
     | Some _ \<Rightarrow> Ok ns)"

definition canonicalize :: "path \<Rightarrow> (path, io_kind) io" where
  "canonicalize p env = fs_query (\<lambda>ns. if lookup ns p = None then Err IoNotFound else Ok (fs_canonical env p)) env"

definition identity :: "path \<Rightarrow> (nat, io_kind) io" where
  "identity p env d = fs_query (\<lambda>ns. if lookup ns p = None then Err IoNotFound
     else Ok (fs_inode env (fs_tick d) p)) env d"

section \<open>Helpers of the store\<close>

definition reject_destination_symlink :: "path \<Rightarrow> (unit, EvidenceError) io" where
  "reject_destination_symlink p env = io_match (symlink_metadata p)
     (\<lambda>n. case n of Symlink _ \<Rightarrow> io_raise (InvalidInput ''export destination may not be a symlink'')
           | _ \<Rightarrow> io_pure ())
     (\<lambda>e. if e = IoNotFound then io_pure () else io_raise (EvIo (fs_text env e))) env"

definition reject_symlink :: "path \<Rightarrow> (unit, EvidenceError) io" where
  "reject_symlink p env = io_match (symlink_metadata p)
     (\<lambda>n. case n of Symlink _ \<Rightarrow> io_raise (InvalidInput ''evidence spool paths may not be symlinks'')
           | _ \<Rightarrow> io_pure ())
     (\<lambda>e. if e = IoNotFound then io_pure () else io_raise (EvIo (fs_text env e))) env"

text \<open>\<open>Path::ancestors\<close>: the path itself, then its parents up to the root.\<close>

definition ancestors :: "path \<Rightarrow> path list" where
  "ancestors p = map (\<lambda>n. take n p) (rev [0..<length p + 1])"

fun reject_symlinks :: "path list \<Rightarrow> (unit, EvidenceError) io" where
  "reject_symlinks [] = io_pure ()"
| "reject_symlinks (p # ps) = io_bind (reject_symlink p) (\<lambda>_. reject_symlinks ps)"

definition reject_symlink_components :: "path \<Rightarrow> (unit, EvidenceError) io" where
  "reject_symlink_components p = reject_symlinks (ancestors p)"

text \<open>Modes: \<open>0o700\<close> is 448, \<open>0o600\<close> is 384, \<open>mode & 0o077\<close> the remainder modulo 64.\<close>

definition verify_private_directory :: "path \<Rightarrow> (unit, EvidenceError) io" where
  "verify_private_directory p =
     io_bind (or_io (symlink_metadata p)) (\<lambda>n.
     case n of
       Directory mode \<Rightarrow>
         if mode mod 64 \<noteq> 0 then io_raise (EvIo (''evidence directory is not owner-private: ''
           @ concat (map (\<lambda>c. ''/'' @ c) p)))
         else io_pure ()
     | _ \<Rightarrow> io_raise (EvIo (''evidence directory is not owner-private: ''
           @ concat (map (\<lambda>c. ''/'' @ c) p))))"

definition is_empty_directory :: "path \<Rightarrow> (bool, EvidenceError) io" where
  "is_empty_directory p =
     io_match (read_dir p) (\<lambda>entries. io_pure (entries = [])) (\<lambda>_. io_pure False)"

definition create_private_directory :: "path \<Rightarrow> (unit, EvidenceError) io" where
  "create_private_directory p env = io_match (create_dir 448 p) io_pure
     (\<lambda>e. if e = IoAlreadyExists then
            io_bind (is_empty_directory p) (\<lambda>empty.
            if empty then or_io (set_permissions 448 p) else verify_private_directory p)
          else io_raise (EvIo (fs_text env e))) env"

definition secure_file :: "path \<Rightarrow> (unit, EvidenceError) io" where
  "secure_file p = or_io (set_permissions 384 p)"

definition create_private_file :: "path \<Rightarrow> (unit, EvidenceError) io" where
  "create_private_file p = or_io (create_new 384 p)"

definition open_private_regular_file :: "path \<Rightarrow> (unit, EvidenceError) io" where
  "open_private_regular_file p env = io_match (symlink_metadata p)
     (\<lambda>n. case n of
        RegularFile _ _ \<Rightarrow>
          io_bind (or_io (identity p)) (\<lambda>before.
          io_bind (secure_file p) (\<lambda>_.
          io_bind (or_io (fs_query (\<lambda>_. Ok ()))) (\<lambda>_.
          io_bind (or_io (identity p)) (\<lambda>now.
          if now \<noteq> before then io_raise (EvIo (''private store file identity changed while opening: ''
            @ concat (map (\<lambda>c. ''/'' @ c) p)))
          else io_pure ()))))
      | _ \<Rightarrow> io_raise (InvalidInput (''private store file must be a regular non-symlink file: ''
            @ concat (map (\<lambda>c. ''/'' @ c) p))))
     (\<lambda>e. if e = IoNotFound then or_io (create_new 384 p) else io_raise (EvIo (fs_text env e))) env"

definition read_bounded_file :: "path \<Rightarrow> nat \<Rightarrow> (string, EvidenceError) io" where
  "read_bounded_file p expected_max =
     io_bind (or_io (read_file p (Some (expected_max + 1)))) (\<lambda>bytes.
     if expected_max < length bytes then io_raise Corrupt else io_pure bytes)"

definition sync_directory :: "path \<Rightarrow> (unit, EvidenceError) io" where
  "sync_directory p = or_io (io_bind (fs_query (\<lambda>ns. if lookup ns p = None then Err IoNotFound else Ok ()))
     (\<lambda>_. sync_all p))"

definition file_has_content :: "codec \<Rightarrow> path \<Rightarrow> u64 \<Rightarrow> string \<Rightarrow> (bool, EvidenceError) io" where
  "file_has_content cd p expected_len expected_sha env = io_match (symlink_metadata p)
     (\<lambda>n. case n of
        RegularFile _ b \<Rightarrow>
          if length b \<noteq> unat expected_len then io_pure False
          else io_bind (read_bounded_file p (unat expected_len)) (\<lambda>bytes.
               io_pure (sha256_hex cd bytes = expected_sha))
      | _ \<Rightarrow> io_pure False)
     (\<lambda>e. if e = IoNotFound then io_pure False else io_raise (EvIo (fs_text env e))) env"

end
