(* ===== verification/DiskBlobs.thy ===== *)
theory DiskBlobs
  imports FileSystem
begin

text \<open>
  \<open>DiskBlobs\<close> of \<open>crates/tdmcp-daemon/src/evidence_store.rs\<close>: the private root directory, the
  content-addressed chunk files, the journals of pending exports and the repair of an export that
  an interruption left half done.
\<close>

record disk_blobs =
  db_root :: path
  db_blobs :: path
  db_staging :: path
  db_journals :: path

definition disk_open :: "path \<Rightarrow> (disk_blobs, EvidenceError) io" where
  "disk_open root env =
     io_bind (reject_symlink_components root) (\<lambda>_.
     io_bind (create_private_directory root) (\<lambda>_.
     io_bind (or_io (canonicalize root)) (\<lambda>root.
     io_bind (or_io (symlink_metadata root)) (\<lambda>n.
     io_bind (case n of Directory _ \<Rightarrow> io_pure ()
       | _ \<Rightarrow> io_raise (InvalidInput ''evidence root must be a real directory'')) (\<lambda>_.
     io_bind (verify_private_directory root) (\<lambda>_.
     io_bind (open_private_regular_file (root @ [''.writer.lock''])) (\<lambda>_.
     io_bind (or_io (fs_query (\<lambda>_. Ok ()))) (\<lambda>_.
     io_bind (if fs_locked env then io_raise Conflict else io_pure ()) (\<lambda>_.
     let blobs = root @ [''blobs'']; staging = root @ [''staging'']; journals = root @ [''exports''] in
     io_bind (reject_symlink blobs) (\<lambda>_.
     io_bind (reject_symlink staging) (\<lambda>_.
     io_bind (reject_symlink journals) (\<lambda>_.
     io_bind (create_private_directory blobs) (\<lambda>_.
     io_bind (create_private_directory staging) (\<lambda>_.
     io_bind (create_private_directory journals) (\<lambda>_.
     io_bind (verify_private_directory blobs) (\<lambda>_.
     io_bind (verify_private_directory staging) (\<lambda>_.
     io_bind (verify_private_directory journals) (\<lambda>_.
     io_pure \<lparr>db_root = root, db_blobs = blobs, db_staging = staging, db_journals = journals\<rparr>
     )))))))))))))))))) env"

definition blob_path :: "disk_blobs \<Rightarrow> string \<Rightarrow> path" where
  "blob_path b hash = db_blobs b @ [hash]"

definition journal_path :: "disk_blobs \<Rightarrow> string \<Rightarrow> path" where
  "journal_path b i = db_journals b @ [i @ ''.json'']"

section \<open>Chunk files\<close>

definition disk_get :: "disk_blobs \<Rightarrow> string \<Rightarrow> u64 \<Rightarrow> (string, EvidenceError) io" where
  "disk_get b hash expected_len env =
     (let p = blob_path b hash in
      io_match (symlink_metadata p)
        (\<lambda>n. case n of
           RegularFile _ bytes \<Rightarrow>
             if length bytes \<noteq> unat expected_len then io_raise Corrupt
             else read_bounded_file p (unat expected_len)
         | _ \<Rightarrow> io_raise Corrupt)
        (\<lambda>e. if e = IoNotFound then io_raise Corrupt else io_raise (EvIo (fs_text env e)))) env"

definition disk_put :: "disk_blobs \<Rightarrow> codec \<Rightarrow> string \<Rightarrow> string \<Rightarrow> (unit, EvidenceError) io" where
  "disk_put b cd hash bytes env =
     (let target = blob_path b hash;
          check_existing = io_bind (disk_get b hash (len_u64 bytes)) (\<lambda>existing.
            if existing \<noteq> bytes \<or> sha256_hex cd existing \<noteq> hash then io_raise Corrupt else io_pure ()) in
      io_bind (path_exists target) (\<lambda>present.
      if present then
        io_bind (io_lift (fail_if (2 ^ 64 \<le> length bytes) TransferTooLarge)) (\<lambda>_. check_existing)
      else
        io_bind (io_lift (fs_inject env BlobWrite)) (\<lambda>_.
        io_bind new_uuid (\<lambda>uuid.
        let temp = db_staging b @ [uuid @ ''.tmp''] in
        io_bind (create_private_file temp) (\<lambda>_.
        io_bind (io_match (io_bind (write_all temp bytes) (\<lambda>_. sync_all temp)) io_pure
            (\<lambda>e. io_bind (io_ignore (remove_file temp)) (\<lambda>_. io_raise (EvIo (fs_text env e))))) (\<lambda>_.
        io_bind (case fs_inject env BlobPublish of Ok _ \<Rightarrow> io_pure ()
            | Err e \<Rightarrow> io_bind (io_ignore (remove_file temp)) (\<lambda>_. io_raise e)) (\<lambda>_.
        io_match (rename_noreplace temp target) (\<lambda>_. sync_directory (db_blobs b))
          (\<lambda>e. if e = IoAlreadyExists then
                 io_bind (io_ignore (remove_file temp)) (\<lambda>_.
                 io_bind (io_lift (fail_if (2 ^ 64 \<le> length bytes) TransferTooLarge)) (\<lambda>_.
                 check_existing))
               else io_bind (io_ignore (remove_file temp)) (\<lambda>_. io_raise (EvIo (fs_text env e))))))))))) env"

text \<open>Every entry of a directory is a regular file, and is removed when \<open>doomed\<close>.\<close>

fun remove_entries :: "path \<Rightarrow> (string \<Rightarrow> bool) \<Rightarrow> string list \<Rightarrow> (unit, EvidenceError) io" where
  "remove_entries dir doomed [] = io_pure ()"
| "remove_entries dir doomed (name # names) =
     io_bind (or_io (symlink_metadata (dir @ [name]))) (\<lambda>n.
     io_bind (case n of RegularFile _ _ \<Rightarrow> io_pure () | _ \<Rightarrow> io_raise Corrupt) (\<lambda>_.
     io_bind (if doomed name then or_io (remove_file (dir @ [name])) else io_pure ()) (\<lambda>_.
     remove_entries dir doomed names)))"

definition disk_remove_unreferenced :: "disk_blobs \<Rightarrow> string set \<Rightarrow> (unit, EvidenceError) io" where
  "disk_remove_unreferenced b referenced =
     io_bind (or_io (read_dir (db_blobs b))) (\<lambda>names.
     io_bind (remove_entries (db_blobs b) (\<lambda>n. n \<notin> referenced) names) (\<lambda>_.
     sync_directory (db_blobs b)))"

definition cleanup_staging :: "disk_blobs \<Rightarrow> (unit, EvidenceError) io" where
  "cleanup_staging b =
     io_bind (or_io (read_dir (db_staging b))) (\<lambda>names.
     io_bind (remove_entries (db_staging b) (\<lambda>_. True) names) (\<lambda>_.
     sync_directory (db_staging b)))"

definition disk_checked_chunk :: "disk_blobs \<Rightarrow> codec \<Rightarrow> chunk_row \<Rightarrow> (string, EvidenceError) io" where
  "disk_checked_chunk b cd r =
     io_bind (disk_get b (ck_hash r) (ck_len r)) (\<lambda>bytes.
     io_bind (io_lift (fail_if (len_u64 bytes \<noteq> ck_len r \<or> sha256_hex cd bytes \<noteq> ck_hash r) Corrupt)) (\<lambda>_.
     io_pure bytes))"

section \<open>Export journals\<close>

definition reject_export_destination :: "disk_blobs \<Rightarrow> path \<Rightarrow> (unit, EvidenceError) io" where
  "reject_export_destination b destination =
     io_bind (if destination = [] then io_raise (InvalidInput ''export destination requires a parent directory'')
       else io_pure ()) (\<lambda>_.
     io_bind (or_io (canonicalize (butlast destination))) (\<lambda>parent.
     if take (length (db_root b)) parent = db_root b then
       io_raise (InvalidInput ''export destination may not be inside the evidence store'')
     else io_pure ()))"

definition journal_export :: "disk_blobs \<Rightarrow> ExportJournal \<Rightarrow> (unit, EvidenceError) io" where
  "journal_export b j env =
     io_bind (io_lift (json_string (fs_journal_to env j))) (\<lambda>body.
     io_bind new_uuid (\<lambda>uuid.
     let temp = db_journals b @ [uuid @ ''.tmp''] in
     io_bind (create_private_file temp) (\<lambda>_.
     io_bind (io_match (io_bind (write_all temp body) (\<lambda>_. sync_all temp)) io_pure
        (\<lambda>e. io_bind (io_ignore (remove_file temp)) (\<lambda>_. io_raise (EvIo (fs_text env e))))) (\<lambda>_.
     io_bind (io_match (rename_replace temp (journal_path b (ej_id j))) io_pure
        (\<lambda>e. io_bind (io_ignore (remove_file temp)) (\<lambda>_. io_raise (EvIo (fs_text env e))))) (\<lambda>_.
     sync_directory (db_journals b)))))) env"

definition clear_export_journal :: "disk_blobs \<Rightarrow> string \<Rightarrow> (unit, EvidenceError) io" where
  "clear_export_journal b i env = io_match (remove_file (journal_path b i))
     (\<lambda>_. sync_directory (db_journals b))
     (\<lambda>e. if e = IoNotFound then io_pure () else io_raise (EvIo (fs_text env e))) env"

definition ends_with :: "string \<Rightarrow> string \<Rightarrow> bool" where
  "ends_with suf s \<longleftrightarrow> length suf \<le> length s \<and> drop (length s - length suf) s = suf"

fun collect_journals :: "disk_blobs \<Rightarrow> string list \<Rightarrow> (ExportJournal list, EvidenceError) io" where
  "collect_journals b [] env = io_pure [] env"
| "collect_journals b (name # names) env =
     io_bind (or_io (symlink_metadata (db_journals b @ [name]))) (\<lambda>n.
     io_bind (case n of RegularFile _ _ \<Rightarrow> io_pure () | _ \<Rightarrow> io_raise Corrupt) (\<lambda>_.
     if \<not> ends_with ''.json'' name then collect_journals b names
     else
       io_bind (or_io (read_file (db_journals b @ [name]) None)) (\<lambda>body.
       io_bind (io_lift (map_err json_error (fs_journal_of env body))) (\<lambda>j.
       io_bind (collect_journals b names) (\<lambda>js. io_pure (j # js)))))) env"

definition list_export_journals :: "disk_blobs \<Rightarrow> (ExportJournal list, EvidenceError) io" where
  "list_export_journals b =
     io_bind (or_io (read_dir (db_journals b))) (\<lambda>names.
     io_bind (collect_journals b names) (\<lambda>js.
     io_pure (sort_key ej_id js)))"

text \<open>\<open>Display\<close> of the error type and of a path.\<close>

definition show_int :: "int \<Rightarrow> string" where
  "show_int i = (if i < 0 then ''-'' @ show_nat (nat (- i)) else show_nat (nat i))"

fun error_text :: "EvidenceError \<Rightarrow> string" where
  "error_text (InvalidInput m) = ''invalid evidence input: '' @ m"
| "error_text NotFound = ''evidence object not found''"
| "error_text AccessDenied = ''evidence access denied''"
| "error_text Expired = ''evidence has expired''"
| "error_text Released = ''evidence was released''"
| "error_text (QuotaExceeded m) = ''evidence quota exceeded: '' @ m"
| "error_text TransferTooLarge = ''evidence transfer exceeds configured bound''"
| "error_text (OffsetMismatch expected actual) = ''chunk offset mismatch: expected ''
     @ show_nat (unat expected) @ '', got '' @ show_nat (unat actual)"
| "error_text HashMismatch = ''evidence hash mismatch''"
| "error_text Corrupt = ''stored evidence is corrupt''"
| "error_text (UnknownRepresentation m) = ''stored evidence uses an unrecognized representation: '' @ m"
| "error_text InvalidCursor = ''invalid evidence cursor''"
| "error_text AlreadyFinalized = ''evidence object is already finalized''"
| "error_text (EvIncomplete m) = ''evidence upload is incomplete: '' @ m"
| "error_text Conflict = ''evidence state conflict''"
| "error_text (EvIo m) = ''evidence I/O failed: '' @ m"
| "error_text (Backend m) = ''evidence backend failed: '' @ m"
| "error_text (CommitUncertain m) = ''evidence commit outcome is uncertain: '' @ m"
| "error_text (IncompatibleSchema found supported) = ''incompatible evidence schema version ''
     @ show_int found @ ''; supported version is '' @ show_int supported"
| "error_text (UnsupportedPlatform m) = ''evidence backend unsupported on this platform: '' @ m"
| "error_text (InjectedFailure m) = ''injected evidence failure at '' @ m"

definition show_path :: "path \<Rightarrow> string" where
  "show_path p = (if p = [] then ''/'' else concat (map (\<lambda>c. ''/'' @ c) p))"

definition export_uncertain :: "ExportJournal \<Rightarrow> string \<Rightarrow> EvidenceError" where
  "export_uncertain j detail = CommitUncertain (''export '' @ ej_id j @ '' to '' @ show_path (ej_destination j)
     @ '': '' @ detail @ ''; staged artifact at '' @ show_path (ej_temp j) @ '', displaced original at ''
     @ (case ej_backup j of None \<Rightarrow> ''<none>'' | Some p \<Rightarrow> show_path p))"

definition publish_staged :: "path \<Rightarrow> path \<Rightarrow> (unit, EvidenceError) io" where
  "publish_staged temp destination =
     io_bind (reject_symlink_components destination) (\<lambda>_.
     io_bind (or_io (rename_noreplace temp destination)) (\<lambda>_.
     if destination = [] then io_pure () else sync_directory (butlast destination)))"

definition resolve_export_journal :: "disk_blobs \<Rightarrow> codec \<Rightarrow> ExportJournal \<Rightarrow> (unit, EvidenceError) io" where
  "resolve_export_journal b cd j env =
     io_bind (file_has_content cd (ej_destination j) (ej_bytes j) (ej_sha256 j)) (\<lambda>destination_intact.
     io_bind (file_has_content cd (ej_temp j) (ej_bytes j) (ej_sha256 j)) (\<lambda>staged.
     case ej_state j of
       Prepared \<Rightarrow>
         io_bind (io_ignore (remove_file (ej_temp j))) (\<lambda>_. clear_export_journal b (ej_id j))
     | Published \<Rightarrow>
         if destination_intact then
           io_bind (io_ignore (remove_file (ej_temp j))) (\<lambda>_. clear_export_journal b (ej_id j))
         else if staged then
           io_bind (publish_staged (ej_temp j) (ej_destination j)) (\<lambda>_. clear_export_journal b (ej_id j))
         else io_raise (export_uncertain j
           ''the export destination neither holds the artifact nor can it be republished'')
     | DestinationBackedUp \<Rightarrow>
         if staged then
           io_bind (publish_staged (ej_temp j) (ej_destination j)) (\<lambda>_. clear_export_journal b (ej_id j))
         else
           (let gone = io_raise (export_uncertain j
              ''the displaced original is gone and the artifact cannot be republished'') in
            case ej_backup j of
              None \<Rightarrow> gone
            | Some backup \<Rightarrow>
                io_bind (path_exists backup) (\<lambda>present.
                if \<not> present then gone
                else
                  io_bind (io_map_err (\<lambda>e. export_uncertain j (''restoring the displaced original failed (''
                    @ fs_text env e @ '')'')) (rename_noreplace backup (ej_destination j))) (\<lambda>_.
                  io_bind (if ej_destination j = [] then io_pure ()
                    else io_map_err (\<lambda>e. export_uncertain j (''restored original could not be synced (''
                      @ error_text e @ '')'')) (sync_directory (butlast (ej_destination j)))) (\<lambda>_.
                  clear_export_journal b (ej_id j))))))) env"

fun resolve_all :: "disk_blobs \<Rightarrow> codec \<Rightarrow> ExportJournal list \<Rightarrow> (unit, EvidenceError) io" where
  "resolve_all b cd [] = io_pure ()"
| "resolve_all b cd (j # js) = io_bind (resolve_export_journal b cd j) (\<lambda>_. resolve_all b cd js)"

definition reconcile_exports :: "disk_blobs \<Rightarrow> codec \<Rightarrow> (unit, EvidenceError) io" where
  "reconcile_exports b cd = io_bind (list_export_journals b) (resolve_all b cd)"

end
