(* ===== verification/EvidenceExport.thy ===== *)
theory EvidenceExport
  imports DiskBlobs
begin

text \<open>
  \<open>Store::export\<close> of \<open>crates/tdmcp-daemon/src/evidence_store.rs\<close> over the disk backend: the
  artifact is staged beside its destination, a journal announces the publication, and the
  destination is created or replaced.  The phases are separate definitions, composed by
  \<open>export_part\<close>.
\<close>

datatype ExportPolicy = NoOverwrite | BackupAndReplace

record ExportRequest =
  xr_evidence_id :: EvidenceId
  xr_part :: string
  xr_destination :: path
  xr_policy :: ExportPolicy

record ExportReceipt =
  xp_destination :: path
  xp_backup :: "path option"
  xp_bytes :: u64
  xp_sha256 :: string

section \<open>Staging\<close>

text \<open>The loop that streams the chunks into the staged file; \<open>acc\<close> is what was hashed so far.\<close>

fun write_chunks :: "disk_blobs \<Rightarrow> codec \<Rightarrow> path \<Rightarrow> string \<Rightarrow> u64 \<Rightarrow> chunk_row list
    \<Rightarrow> (string \<times> u64, EvidenceError) io" where
  "write_chunks b cd temp acc written [] = io_pure (acc, written)"
| "write_chunks b cd temp acc written (r # rs) =
     io_bind (io_lift (fail_if (ck_offset r \<noteq> written) Corrupt)) (\<lambda>_.
     io_bind (disk_checked_chunk b cd r) (\<lambda>bytes.
     io_bind (io_lift (fail_if (2 ^ 64 \<le> length bytes \<or> len_u64 bytes \<noteq> ck_len r) Corrupt)) (\<lambda>_.
     io_bind (io_lift (checked_add written (ck_len r) Corrupt)) (\<lambda>written.
     io_bind (or_io (write_all temp bytes)) (\<lambda>_.
     write_chunks b cd temp (acc @ bytes) written rs)))))"

definition write_artifact :: "disk_blobs \<Rightarrow> codec \<Rightarrow> path \<Rightarrow> PartManifest \<Rightarrow> chunk_row list
    \<Rightarrow> (unit, EvidenceError) io" where
  "write_artifact b cd temp manifest chunks =
     io_bind (write_chunks b cd temp [] 0 chunks) (\<lambda>(bytes, written).
     io_bind (io_lift (fail_if (written \<noteq> pm_bytes manifest) Corrupt)) (\<lambda>_.
     io_bind (io_lift (fail_if (sha256_hex cd bytes \<noteq> pm_sha256 manifest) HashMismatch)) (\<lambda>_.
     or_io (sync_all temp))))"

definition or_discard :: "path \<Rightarrow> ('a, EvidenceError) io \<Rightarrow> ('a, EvidenceError) io" where
  "or_discard temp m = io_match m io_pure
     (\<lambda>e. io_bind (io_ignore (remove_file temp)) (\<lambda>_. io_raise e))"

definition stage_artifact :: "ev_env \<Rightarrow> disk_blobs \<Rightarrow> codec \<Rightarrow> ExportRequest \<Rightarrow> PartManifest \<Rightarrow> ev_db \<Rightarrow> path
    \<Rightarrow> (unit, EvidenceError) io" where
  "stage_artifact ev b cd req manifest db temp env =
     io_bind (create_private_file temp) (\<lambda>_.
     io_bind (io_lift (sql ev 3 (chunk_rows db (xr_evidence_id req) (xr_part req)))) (\<lambda>chunks.
     io_bind (or_discard temp (write_artifact b cd temp manifest chunks)) (\<lambda>_.
     or_discard temp (io_lift (fs_inject env ExportPublish))))) env"

section \<open>Publishing\<close>

definition publish_new :: "disk_blobs \<Rightarrow> ExportJournal \<Rightarrow> (ExportJournal, EvidenceError) io" where
  "publish_new b j env = io_match (rename_noreplace (ej_temp j) (ej_destination j))
     (\<lambda>_. let j = j\<lparr>ej_state := Published\<rparr> in
        io_bind (journal_export b j) (\<lambda>_. io_pure j))
     (\<lambda>e. io_bind (io_ignore (remove_file (ej_temp j))) (\<lambda>_.
        io_bind (io_ignore (clear_export_journal b (ej_id j))) (\<lambda>_.
        io_raise (EvIo (fs_text env e))))) env"

text \<open>The destination, when there is one, moves to a backup, and the journal follows.\<close>

definition displace :: "disk_blobs \<Rightarrow> ExportJournal \<Rightarrow> (ExportJournal, EvidenceError) io" where
  "displace b j env =
     io_bind (path_exists (ej_destination j)) (\<lambda>present.
     if \<not> present then io_pure j
     else
       io_bind (or_io (symlink_metadata (ej_destination j))) (\<lambda>n.
       io_bind (case n of RegularFile _ _ \<Rightarrow> io_pure ()
         | _ \<Rightarrow>
             io_bind (io_ignore (remove_file (ej_temp j))) (\<lambda>_.
             io_bind (io_ignore (clear_export_journal b (ej_id j))) (\<lambda>_.
             io_raise (InvalidInput ''existing export destination must be a regular non-symlink file'')))) (\<lambda>_.
       io_bind new_uuid (\<lambda>uuid.
       let backup = butlast (ej_destination j) @ [''.tdmcp-backup-'' @ uuid] in
       io_bind (or_io (rename_noreplace (ej_destination j) backup)) (\<lambda>_.
       let j = j\<lparr>ej_backup := Some backup, ej_state := DestinationBackedUp\<rparr> in
       io_match (journal_export b j) (\<lambda>_. io_pure j)
         (\<lambda>e. io_raise (export_uncertain j (error_text e)))))))) env"

definition publish_replacing :: "disk_blobs \<Rightarrow> ExportJournal \<Rightarrow> (ExportJournal, EvidenceError) io" where
  "publish_replacing b j env =
     io_bind (case fs_inject env ExportReplaceWindow of Ok _ \<Rightarrow> io_pure ()
       | Err e \<Rightarrow> io_raise (export_uncertain j
           (''interrupted before publication ('' @ error_text e @ '')''))) (\<lambda>_.
     io_match (rename_noreplace (ej_temp j) (ej_destination j))
       (\<lambda>_. let j = j\<lparr>ej_state := Published\<rparr> in
          io_bind (journal_export b j) (\<lambda>_. io_pure j))
       (\<lambda>e. io_bind (io_ignore (remove_file (ej_temp j))) (\<lambda>_.
          io_bind (case ej_backup j of None \<Rightarrow> io_pure ()
            | Some backup \<Rightarrow> io_map_err (\<lambda>rollback. export_uncertain j (''publication failed ('' @ fs_text env e
                @ '') and rollback failed ('' @ fs_text env rollback @ '')''))
                (rename_noreplace backup (ej_destination j))) (\<lambda>_.
          io_bind (io_ignore (clear_export_journal b (ej_id j))) (\<lambda>_.
          io_raise (EvIo (fs_text env e))))))) env"

definition publish :: "disk_blobs \<Rightarrow> ExportPolicy \<Rightarrow> ExportJournal \<Rightarrow> (ExportJournal, EvidenceError) io" where
  "publish b policy j =
     (case policy of
        NoOverwrite \<Rightarrow> publish_new b j
      | BackupAndReplace \<Rightarrow> io_bind (displace b j) (publish_replacing b))"

definition confirm :: "disk_blobs \<Rightarrow> path \<Rightarrow> ExportJournal \<Rightarrow> (unit, EvidenceError) io" where
  "confirm b parent j env =
     io_bind (io_map_err (\<lambda>e. export_uncertain j
         (''published but the directory entry could not be synced ('' @ error_text e @ '')''))
       (io_bind (io_lift (fs_inject env DirectorySync)) (\<lambda>_. sync_directory parent))) (\<lambda>_.
     clear_export_journal b (ej_id j)) env"

section \<open>The call\<close>

text \<open>What the call checks before it touches the disk outside the store: the manifest of the part.\<close>

definition export_admit :: "ev_env \<Rightarrow> disk_blobs \<Rightarrow> codec \<Rightarrow> OwnerId \<Rightarrow> ExportRequest \<Rightarrow> ev_db
    \<Rightarrow> (PartManifest, EvidenceError) io" where
  "export_admit ev b cd owner req db =
     io_bind (io_lift (validate_part_name (xr_part req))) (\<lambda>_.
     io_bind (reject_export_destination b (xr_destination req)) (\<lambda>_.
     io_bind (io_lift (now_ms ev 0)) (\<lambda>now.
     io_bind (io_lift (authorize ev 0 cd owner (xr_evidence_id req) (Some (xr_part req)) now db)) (\<lambda>_.
     io_bind (io_lift (load_part_row ev 2 cd (xr_evidence_id req) (xr_part req) db)) (\<lambda>manifest.
     io_bind (reject_destination_symlink (xr_destination req)) (\<lambda>_.
     io_bind (if xr_destination req = [] then
         io_raise (InvalidInput ''export destination requires a parent directory'') else io_pure ()) (\<lambda>_.
     io_bind (or_io (symlink_metadata (butlast (xr_destination req)))) (\<lambda>n.
     case n of Directory _ \<Rightarrow> io_pure manifest
     | _ \<Rightarrow> io_raise (InvalidInput ''export parent must be a real directory'')))))))))"

definition export_part :: "ev_env \<Rightarrow> disk_blobs \<Rightarrow> codec \<Rightarrow> OwnerId \<Rightarrow> ExportRequest \<Rightarrow> ev_db
    \<Rightarrow> (ExportReceipt, EvidenceError) io" where
  "export_part ev b cd owner req db =
     io_bind (export_admit ev b cd owner req db) (\<lambda>manifest.
     let parent = butlast (xr_destination req) in
     io_bind new_uuid (\<lambda>uuid.
     let temp = parent @ [''.tdmcp-export-'' @ uuid @ ''.tmp''] in
     io_bind (stage_artifact ev b cd req manifest db temp) (\<lambda>_.
     io_bind new_uuid (\<lambda>i.
     let j = \<lparr>ej_id = i, ej_state = Prepared, ej_temp = temp, ej_destination = xr_destination req,
       ej_backup = None, ej_sha256 = pm_sha256 manifest, ej_bytes = pm_bytes manifest\<rparr> in
     io_bind (or_discard temp (journal_export b j)) (\<lambda>_.
     io_bind (publish b (xr_policy req) j) (\<lambda>j.
     io_bind (confirm b parent j) (\<lambda>_.
     io_pure \<lparr>xp_destination = xr_destination req, xp_backup = ej_backup j,
       xp_bytes = pm_bytes manifest, xp_sha256 = pm_sha256 manifest\<rparr>)))))))"

end
