(* ===== verification/FileSpecs.thy ===== *)
theory FileSpecs
  imports EvidenceExport
begin

text \<open>
  A small program logic for the file-system programs: \<open>post\<close> says what holds of the outcome and
  the disk after a program, killed or not, and every primitive and helper has a specification in
  it.  Export journals belong to the store; \<open>view\<close> is the disk without them.
\<close>

section \<open>Postconditions\<close>

definition post :: "('a, 'e) io \<Rightarrow> fs_env \<Rightarrow> disk \<Rightarrow> (('a, 'e) outcome \<Rightarrow> disk \<Rightarrow> bool) \<Rightarrow> bool" where
  "post m env d Q \<longleftrightarrow> Q (fst (m env d)) (snd (m env d))"

lemma postD: "post m env d Q \<Longrightarrow> m env d = (r, d') \<Longrightarrow> Q r d'"
  by (simp add: post_def)

lemma postI: "(\<And>r d'. m env d = (r, d') \<Longrightarrow> Q r d') \<Longrightarrow> post m env d Q"
  by (simp add: post_def prod_eq_iff)

lemma post_mono: "post m env d P \<Longrightarrow> (\<And>r d'. P r d' \<Longrightarrow> Q r d') \<Longrightarrow> post m env d Q"
  by (simp add: post_def)

lemma post_pure [simp]: "post (io_pure a) env d Q \<longleftrightarrow> Q (Done a) d"
  by (simp add: post_def io_pure_def)

lemma post_raise [simp]: "post (io_raise e) env d Q \<longleftrightarrow> Q (Failed e) d"
  by (simp add: post_def io_raise_def)

lemma io_bind_simps [simp]: "io_bind (io_pure a) f = f a" "io_bind (io_raise e) f = io_raise e"
  by (simp_all add: io_bind_def io_match_def io_pure_def io_raise_def fun_eq_iff)

lemma io_lift_simps [simp]: "io_lift (Ok a) = io_pure a" "io_lift (Err e) = io_raise e"
  by (simp_all add: io_lift_def)

lemma post_lift [simp]:
  "post (io_lift r) env d Q \<longleftrightarrow> (case r of Ok a \<Rightarrow> Q (Done a) d | Err e \<Rightarrow> Q (Failed e) d)"
  by (simp add: io_lift_def split: result.splits)

lemma post_match:
  assumes "post m env d P"
    and "\<And>a d'. P (Done a) d' \<Longrightarrow> post (f a) env d' Q"
    and "\<And>e d'. P (Failed e) d' \<Longrightarrow> post (h e) env d' Q"
    and "\<And>d'. P Crashed d' \<Longrightarrow> Q Crashed d'"
  shows "post (io_match m f h) env d Q"
proof -
  obtain r d' where m: "m env d = (r, d')" by fastforce
  with assms(1) have "P r d'" by (simp add: post_def)
  with assms(2-4) m show ?thesis by (cases r) (auto simp: post_def io_match_def)
qed

lemma post_bind:
  assumes "post m env d P"
    and "\<And>a d'. P (Done a) d' \<Longrightarrow> post (f a) env d' Q"
    and "\<And>e d'. P (Failed e) d' \<Longrightarrow> Q (Failed e) d'"
    and "\<And>d'. P Crashed d' \<Longrightarrow> Q Crashed d'"
  shows "post (io_bind m f) env d Q"
  unfolding io_bind_def by (rule post_match [OF assms(1,2)]) (auto intro: assms(3,4))

text \<open>The same rules for a definition that takes the environment as an argument.\<close>

lemma post_bind_def:
  assumes "m env = io_bind g f env" and "post g env d P"
    and "\<And>a d'. P (Done a) d' \<Longrightarrow> post (f a) env d' Q"
    and "\<And>e d'. P (Failed e) d' \<Longrightarrow> Q (Failed e) d'"
    and "\<And>d'. P Crashed d' \<Longrightarrow> Q Crashed d'"
  shows "post m env d Q"
  using post_bind [OF assms(2-5)] assms(1) by (simp add: post_def)

lemma post_match_def:
  assumes "m env = io_match g f h env" and "post g env d P"
    and "\<And>a d'. P (Done a) d' \<Longrightarrow> post (f a) env d' Q"
    and "\<And>e d'. P (Failed e) d' \<Longrightarrow> post (h e) env d' Q"
    and "\<And>d'. P Crashed d' \<Longrightarrow> Q Crashed d'"
  shows "post m env d Q"
  using post_match [OF assms(2-5)] assms(1) by (simp add: post_def)

lemma post_map_err:
  assumes "post m env d P" and "\<And>a d'. P (Done a) d' \<Longrightarrow> Q (Done a) d'"
    and "\<And>e d'. P (Failed e) d' \<Longrightarrow> Q (Failed (g e)) d'" and "\<And>d'. P Crashed d' \<Longrightarrow> Q Crashed d'"
  shows "post (io_map_err g m) env d Q"
  unfolding io_map_err_def by (rule post_match [OF assms(1)]) (auto intro: assms(2-4))

lemma post_or_io:
  assumes "post m env d P" and "\<And>a d'. P (Done a) d' \<Longrightarrow> Q (Done a) d'"
    and "\<And>e d'. P (Failed e) d' \<Longrightarrow> Q (Failed (EvIo (fs_text env e))) d'" and "\<And>d'. P Crashed d' \<Longrightarrow> Q Crashed d'"
  shows "post (or_io m) env d Q"
  using post_map_err [OF assms] by (simp add: post_def or_io_def)

lemma post_ignore:
  assumes "post m env d P" and "\<And>a d'. P (Done a) d' \<Longrightarrow> Q (Done ()) d'"
    and "\<And>e d'. P (Failed e) d' \<Longrightarrow> Q (Done ()) d'" and "\<And>d'. P Crashed d' \<Longrightarrow> Q Crashed d'"
  shows "post (io_ignore m) env d Q"
  unfolding io_ignore_def by (rule post_match [OF assms(1)]) (auto intro: assms(2-4))

section \<open>Primitives\<close>

abbreviation node_at :: "disk \<Rightarrow> path \<Rightarrow> node option" where
  "node_at d \<equiv> lookup (fs_nodes d)"

definition same_nodes :: "disk \<Rightarrow> disk \<Rightarrow> bool" where
  "same_nodes d d' \<longleftrightarrow> node_at d' = node_at d"

lemma same_nodes_refl [simp]: "same_nodes d d"
  by (simp add: same_nodes_def)

lemma same_nodes_trans: "same_nodes a b \<Longrightarrow> same_nodes b c \<Longrightarrow> same_nodes a c"
  by (simp add: same_nodes_def)

lemma post_query:
  "post (fs_query q) env d (\<lambda>r d'. same_nodes d d' \<and> (\<forall>a. r = Done a \<longrightarrow> q (fs_nodes d) = Ok a))"
  by (auto simp: post_def fs_query_def fs_step_def same_nodes_def Let_def map_ok_def
      split: fault.splits result.splits)

lemma post_effect:
  "post (fs_effect f) env d (\<lambda>r d'. case r of
     Done _ \<Rightarrow> (\<exists>ns. f (fs_nodes d) = Ok ns \<and> node_at d' = lookup ns) | _ \<Rightarrow> same_nodes d d')"
  by (auto simp: post_def fs_effect_def fs_step_def same_nodes_def Let_def map_ok_def
      split: fault.splits result.splits)

lemma post_symlink_metadata:
  "post (symlink_metadata p) env d (\<lambda>r d'. same_nodes d d' \<and> (\<forall>n. r = Done n \<longrightarrow> node_at d p = Some n))"
  unfolding symlink_metadata_def by (rule post_mono [OF post_query]) (auto split: option.splits)

lemma post_uuid: "post new_uuid env d (\<lambda>r d'. same_nodes d d' \<and> (\<exists>u. r = Done u))"
  by (simp add: post_def new_uuid_def same_nodes_def)

lemma post_exists:
  "post (path_exists p) env d (\<lambda>r d'. same_nodes d d' \<and> (r = Done True \<longrightarrow> node_at d p \<noteq> None)
     \<and> (\<forall>e. r \<noteq> Failed e))"
  unfolding path_exists_def
  by (rule post_match [OF post_query]) (auto split: option.splits node.splits)

lemma post_create_new:
  "post (create_new mode p) env d (\<lambda>r d'. case r of
     Done _ \<Rightarrow> node_at d p = None \<and> node_at d' = (node_at d)(p \<mapsto> RegularFile mode []) | _ \<Rightarrow> same_nodes d d')"
  unfolding create_new_def by (rule post_mono [OF post_effect]) (auto split: outcome.splits if_splits)

lemma lookup_append_bytes:
  "lookup ns p = Some (RegularFile m c) \<Longrightarrow> lookup (append_bytes p bytes ns) = (lookup ns)(p \<mapsto> RegularFile m (c @ bytes))"
  by (simp add: append_bytes_def)

lemma post_write_all:
  assumes "node_at d p = Some (RegularFile m c)"
  shows "post (write_all p bytes) env d (\<lambda>r d'. \<exists>x. node_at d' = (node_at d)(p \<mapsto> RegularFile m x)
    \<and> (r = Done () \<longrightarrow> x = c @ bytes))"
  using assms
  by (auto simp: post_def write_all_def fs_step_def Let_def lookup_append_bytes split: fault.splits)

lemma post_sync_all: "post (sync_all p) env d (\<lambda>r d'. same_nodes d d')"
  unfolding sync_all_def by (rule post_mono [OF post_query]) simp

lemma post_remove_file:
  "post (remove_file p) env d (\<lambda>r d'. case r of
     Done _ \<Rightarrow> node_at d' = (node_at d)(p := None) | _ \<Rightarrow> same_nodes d d')"
  unfolding remove_file_def
  by (rule post_mono [OF post_effect]) (auto split: outcome.splits option.splits node.splits)

definition moved :: "path \<Rightarrow> path \<Rightarrow> disk \<Rightarrow> disk \<Rightarrow> bool" where
  "moved a b d d' \<longleftrightarrow> a \<noteq> b \<and> (\<exists>n. node_at d a = Some n \<and> node_at d b = None
     \<and> node_at d' = (node_at d)(a := None, b \<mapsto> n))"

lemma post_rename_noreplace:
  "post (rename_noreplace a b) env d (\<lambda>r d'. case r of Done _ \<Rightarrow> moved a b d d' | _ \<Rightarrow> same_nodes d d')"
proof -
  have "post (rename_exclusive a b) env d (\<lambda>r d'. case r of Done _ \<Rightarrow> moved a b d d' | _ \<Rightarrow> same_nodes d d')"
    unfolding rename_exclusive_def
    by (rule post_mono [OF post_effect])
      (auto simp: moved_def move_def split: outcome.splits option.splits node.splits if_splits)
  then show ?thesis
    by (simp add: rename_noreplace_def reject_nul_def same_nodes_def)
qed

lemma post_rename_replace:
  "post (rename_replace a b) env d (\<lambda>r d'. \<forall>p. p \<noteq> a \<and> p \<noteq> b \<longrightarrow> node_at d' p = node_at d p)"
proof -
  have "post (rename_over a b) env d (\<lambda>r d'. \<forall>p. p \<noteq> a \<and> p \<noteq> b \<longrightarrow> node_at d' p = node_at d p)"
    unfolding rename_over_def
    by (rule post_mono [OF post_effect])
      (auto simp: move_def same_nodes_def split: outcome.splits option.splits node.splits if_splits)
  then show ?thesis
    by (simp add: rename_replace_def reject_nul_def same_nodes_def)
qed

section \<open>Programs that only look\<close>

text \<open>A program that leaves every node alone, whatever its outcome.\<close>

definition looks :: "('a, 'e) io \<Rightarrow> bool" where
  "looks m \<longleftrightarrow> (\<forall>env d. post m env d (\<lambda>r d'. same_nodes d d'))"

named_theorems looks_rules

lemma post_looks: "looks m \<Longrightarrow> post m env d (\<lambda>r d'. same_nodes d d')"
  by (simp add: looks_def)

lemma looks_match [looks_rules]:
  assumes "looks m" "\<And>a. looks (f a)" "\<And>e. looks (h e)" shows "looks (io_match m f h)"
  unfolding looks_def
proof (intro allI)
  fix env d show "post (io_match m f h) env d (\<lambda>r d'. same_nodes d d')"
    by (rule post_match [OF post_looks [OF assms(1)]])
      (use post_looks [OF assms(2)] post_looks [OF assms(3)] same_nodes_trans in \<open>blast intro: post_mono\<close>)+
qed

lemma looks_pure [looks_rules]: "looks (io_pure a)" "looks (io_raise e)" "looks (io_lift r)"
  by (simp_all add: looks_def split: result.splits)

lemma looks_bind [looks_rules]: "looks m \<Longrightarrow> (\<And>a. looks (f a)) \<Longrightarrow> looks (io_bind m f)"
  unfolding io_bind_def by (intro looks_match looks_pure)

lemma looks_map_err [looks_rules]: "looks m \<Longrightarrow> looks (io_map_err g m)"
  unfolding io_map_err_def by (intro looks_match looks_pure)

lemma looks_env: "(\<And>env. looks (\<lambda>e. m env e)) \<Longrightarrow> looks (\<lambda>env. m env env)"
  by (simp add: looks_def post_def)

lemma looks_or_io [looks_rules]: "looks m \<Longrightarrow> looks (or_io m)"
  unfolding looks_def by (intro allI, rule post_or_io [OF post_looks]) (simp_all add: looks_def)

lemma looks_query [looks_rules]: "looks (fs_query q)"
  unfolding looks_def by (intro allI, rule post_mono [OF post_query]) simp

lemma looks_uuid [looks_rules]: "looks new_uuid"
  unfolding looks_def by (intro allI, rule post_mono [OF post_uuid]) simp

lemma looks_prims [looks_rules]:
  "looks (symlink_metadata p)" "looks (path_exists p)" "looks (sync_all p)" "looks (read_dir q)" "looks (read_file p n)"
  by (simp_all add: symlink_metadata_def path_exists_def sync_all_def read_dir_def read_file_def looks_rules)

lemma looks_canonicalize [looks_rules]: "looks (canonicalize p)"
  unfolding looks_def
proof (intro allI)
  fix env :: fs_env and d :: disk
  have "looks (fs_query (\<lambda>ns. if lookup ns p = None then Err IoNotFound else Ok (fs_canonical env p)))"
    by (rule looks_query)
  then show "post (canonicalize p) env d (\<lambda>r d'. same_nodes d d')"
    by (simp add: looks_def post_def canonicalize_def)
qed

lemma looks_reject [looks_rules]: "looks (reject_destination_symlink p)" "looks (reject_symlink p)"
proof -
  have "looks (\<lambda>env. io_match (symlink_metadata p)
     (\<lambda>n. case n of Symlink _ \<Rightarrow> io_raise (InvalidInput v) | _ \<Rightarrow> io_pure ())
     (\<lambda>e. if e = IoNotFound then io_pure () else io_raise (EvIo (fs_text env e))) env)" for v
    by (rule looks_env, rule looks_match) (auto simp: looks_rules split: node.splits)
  from this [of "''export destination may not be a symlink''"] this [of "''evidence spool paths may not be symlinks''"]
  show "looks (reject_destination_symlink p)" "looks (reject_symlink p)"
    by (simp_all add: reject_destination_symlink_def [abs_def] reject_symlink_def [abs_def])
qed

lemma looks_reject_symlinks [looks_rules]: "looks (reject_symlinks ps)"
  by (induction ps) (auto intro!: looks_rules)

lemma looks_reject_components [looks_rules]: "looks (reject_symlink_components p)"
  by (simp add: reject_symlink_components_def looks_rules)

lemma looks_sync_directory [looks_rules]: "looks (sync_directory p)"
  by (auto simp: sync_directory_def intro!: looks_rules)

lemma looks_read_bounded [looks_rules]: "looks (read_bounded_file p n)"
  by (auto simp: read_bounded_file_def intro!: looks_rules)

lemma looks_file_has_content [looks_rules]: "looks (file_has_content cd p n sha)"
  unfolding file_has_content_def [abs_def]
  by (rule looks_env, rule looks_match) (auto intro!: looks_rules split: node.splits)

lemma looks_disk_get [looks_rules]: "looks (disk_get b hash n)"
  unfolding disk_get_def [abs_def] Let_def
  by (rule looks_env, rule looks_match) (auto intro!: looks_rules split: node.splits)

lemma looks_checked_chunk [looks_rules]: "looks (disk_checked_chunk b cd r)"
  by (auto simp: disk_checked_chunk_def intro!: looks_rules)

lemma looks_export_admit: "looks (export_admit ev b cd owner req db)"
  unfolding export_admit_def reject_export_destination_def
  by (auto intro!: looks_rules split: node.splits)

section \<open>The store's journals\<close>

definition in_journals :: "disk_blobs \<Rightarrow> path \<Rightarrow> bool" where
  "in_journals b p \<longleftrightarrow> p \<noteq> [] \<and> butlast p = db_journals b"

definition view :: "disk_blobs \<Rightarrow> disk \<Rightarrow> path \<Rightarrow> node option" where
  "view b d = (\<lambda>p. if in_journals b p then None else node_at d p)"

lemma in_journals_simps [simp]: "in_journals b (db_journals b @ [n])" "in_journals b (journal_path b i)"
  by (simp_all add: in_journals_def journal_path_def)

lemma view_same: "same_nodes d d' \<Longrightarrow> view b d' = view b d"
  by (simp only: same_nodes_def view_def)

lemma view_upd: "node_at d' = (node_at d)(p := x) \<Longrightarrow> \<not> in_journals b p \<Longrightarrow> view b d' = (view b d)(p := x)"
  by (auto simp: view_def fun_eq_iff)

lemma view_upd_journal: "node_at d' = (node_at d)(p := x) \<Longrightarrow> in_journals b p \<Longrightarrow> view b d' = view b d"
  by (auto simp: view_def fun_eq_iff)

lemma view_at: "\<not> in_journals b p \<Longrightarrow> view b d p = node_at d p"
  by (simp add: view_def)

definition keeps_view :: "disk_blobs \<Rightarrow> ('a, 'e) io \<Rightarrow> bool" where
  "keeps_view b m \<longleftrightarrow> (\<forall>env d. post m env d (\<lambda>r d'. view b d' = view b d))"

lemma post_keeps: "keeps_view b m \<Longrightarrow> post m env d (\<lambda>r d'. view b d' = view b d)"
  by (simp add: keeps_view_def)

named_theorems keeps_rules

lemma keeps_looks: "looks m \<Longrightarrow> keeps_view b m"
  unfolding keeps_view_def by (auto intro: post_mono [OF post_looks] view_same)

lemma keeps_match [keeps_rules]:
  assumes "keeps_view b m" "\<And>a. keeps_view b (f a)" "\<And>e. keeps_view b (h e)"
  shows "keeps_view b (io_match m f h)"
  unfolding keeps_view_def
proof (intro allI)
  fix env d show "post (io_match m f h) env d (\<lambda>r d'. view b d' = view b d)"
    by (rule post_match [OF post_keeps [OF assms(1)]])
      (use post_keeps [OF assms(2)] post_keeps [OF assms(3)] in \<open>force intro: post_mono\<close>)+
qed

lemma keeps_pure [keeps_rules]:
  "keeps_view b (io_pure a)" "keeps_view b (io_raise e)" "keeps_view b (io_lift r)" "keeps_view b new_uuid"
  by (intro keeps_looks looks_rules)+

lemma keeps_bind [keeps_rules]: "keeps_view b m \<Longrightarrow> (\<And>a. keeps_view b (f a)) \<Longrightarrow> keeps_view b (io_bind m f)"
  unfolding io_bind_def by (intro keeps_match keeps_pure)

lemma keeps_or_io [keeps_rules]: "keeps_view b m \<Longrightarrow> keeps_view b (or_io m)"
  unfolding keeps_view_def by (auto intro: post_or_io)

lemma keeps_ignore [keeps_rules]: "keeps_view b m \<Longrightarrow> keeps_view b (io_ignore m)"
  unfolding keeps_view_def by (auto intro: post_ignore)

lemma keeps_env: "(\<And>env. keeps_view b (\<lambda>e. m env e)) \<Longrightarrow> keeps_view b (\<lambda>env. m env env)"
  by (simp add: keeps_view_def post_def)

lemma keeps_journal_files [keeps_rules]:
  "keeps_view b (create_new mode (db_journals b @ [n]))" "keeps_view b (remove_file (db_journals b @ [n]))"
  "keeps_view b (remove_file (journal_path b i))"
  "keeps_view b (rename_replace (db_journals b @ [n]) (journal_path b i))"
  "keeps_view b (write_all (db_journals b @ [n]) bytes)"
proof -
  show "keeps_view b (create_new mode (db_journals b @ [n]))"
    unfolding keeps_view_def
    by (intro allI, rule post_mono [OF post_create_new]) (auto simp: view_same view_upd_journal split: outcome.splits)
  have "keeps_view b (remove_file p)" if "in_journals b p" for p
    unfolding keeps_view_def
    by (intro allI, rule post_mono [OF post_remove_file])
      (use that in \<open>auto simp: view_same view_upd_journal split: outcome.splits\<close>)
  then show "keeps_view b (remove_file (db_journals b @ [n]))" "keeps_view b (remove_file (journal_path b i))"
    by simp_all
  show "keeps_view b (rename_replace (db_journals b @ [n]) (journal_path b i))"
    unfolding keeps_view_def
    by (intro allI, rule post_mono [OF post_rename_replace])
      (auto simp: view_def fun_eq_iff, metis in_journals_simps)
  show "keeps_view b (write_all (db_journals b @ [n]) bytes)"
    by (auto simp: keeps_view_def post_def write_all_def fs_step_def Let_def append_bytes_def view_def fun_eq_iff
        split: fault.splits option.splits node.splits)
qed

lemma keeps_journal_export: "keeps_view b (journal_export b j)"
  unfolding journal_export_def [abs_def] create_private_file_def Let_def
  by (rule keeps_env) (auto intro!: keeps_rules keeps_looks [OF looks_sync_directory] keeps_looks [OF looks_prims(3)])

lemma keeps_clear_journal: "keeps_view b (clear_export_journal b i)"
  unfolding clear_export_journal_def [abs_def]
  by (rule keeps_env) (auto intro!: keeps_rules keeps_looks [OF looks_sync_directory])

end
