(* ===== verification/ExportSafety.thy ===== *)
theory ExportSafety
  imports FileSpecs
begin

text \<open>
  What an export does to the files outside the store, on every path through it, killed processes
  included: each phase has a specification over the \<open>view\<close>, and the call composes them.
\<close>

section \<open>Staging\<close>

lemma post_disk_get:
  "post (disk_get b hash n) env d (\<lambda>r d'. same_nodes d d')"
  by (rule post_looks [OF looks_disk_get])

lemma post_checked_chunk:
  "post (disk_checked_chunk b cd r) env d (\<lambda>res d'. same_nodes d d' \<and> (\<forall>bytes. res = Done bytes \<longrightarrow> len_u64 bytes = ck_len r))"
  unfolding disk_checked_chunk_def
  by (rule post_bind [OF post_disk_get], rule post_bind [where P = "\<lambda>res d'. same_nodes d d'
        \<and> (\<forall>u. res = Done u \<longrightarrow> len_u64 a = ck_len r)" for a])
    (auto simp: fail_if_def split: result.splits)

text \<open>The one difference between two disks is the content of a file.\<close>

definition refilled :: "path \<Rightarrow> nat \<Rightarrow> string \<Rightarrow> disk \<Rightarrow> disk \<Rightarrow> bool" where
  "refilled p m x d d' \<longleftrightarrow> node_at d' = (node_at d)(p \<mapsto> RegularFile m x)"

lemma refilled_rules:
  "refilled p m x d d1 \<Longrightarrow> refilled p m y d1 d2 \<Longrightarrow> refilled p m y d d2"
  "same_nodes d d1 \<Longrightarrow> refilled p m y d1 d2 \<Longrightarrow> refilled p m y d d2"
  "refilled p m x d d1 \<Longrightarrow> same_nodes d1 d2 \<Longrightarrow> refilled p m x d d2"
  "node_at d p = Some (RegularFile m x) \<Longrightarrow> same_nodes d d1 \<Longrightarrow> refilled p m x d d1"
  "refilled p m x d d1 \<Longrightarrow> node_at d1 p = Some (RegularFile m x)"
  by (simp_all add: refilled_def same_nodes_def fun_upd_idem)

lemma post_write:
  assumes "node_at d p = Some (RegularFile m c)"
  shows "post (or_io (write_all p bytes)) env d (\<lambda>r d'. \<exists>x. refilled p m x d d' \<and> (r = Done () \<longrightarrow> x = c @ bytes))"
  unfolding refilled_def by (rule post_or_io [OF post_write_all [OF assms]]) auto

lemma post_create:
  "post (create_private_file p) env d (\<lambda>r d'. case r of
     Done _ \<Rightarrow> node_at d p = None \<and> refilled p 384 [] d d' | _ \<Rightarrow> same_nodes d d')"
  unfolding create_private_file_def refilled_def by (rule post_or_io [OF post_create_new]) auto

definition wrote :: "path \<Rightarrow> nat \<Rightarrow> disk \<Rightarrow> (string \<times> u64, EvidenceError) outcome \<Rightarrow> disk \<Rightarrow> bool" where
  "wrote p m d r d' \<longleftrightarrow> (\<exists>x. refilled p m x d d' \<and> (\<forall>acc w. r = Done (acc, w) \<longrightarrow> x = acc \<and> unat w = length acc))"

lemma wrote_Failed [intro]: "refilled p m x d d' \<Longrightarrow> wrote p m d (Failed e) d'"
  and wrote_Crashed [intro]: "refilled p m x d d' \<Longrightarrow> wrote p m d Crashed d'"
  by (auto simp: wrote_def)

lemma wrote_trans: "refilled p m x d d1 \<Longrightarrow> wrote p m d1 r d2 \<Longrightarrow> wrote p m d r d2"
  by (auto simp: wrote_def intro: refilled_rules(1))

lemma post_write_chunks:
  assumes "node_at d temp = Some (RegularFile m acc)" "unat written = length acc"
  shows "post (write_chunks b cd temp acc written rs) env d (wrote temp m d)"
  using assms
proof (induction rs arbitrary: d acc written)
  case Nil
  then show ?case by (auto simp: wrote_def intro!: exI [of _ acc] refilled_rules(4))
next
  case (Cons row rs)
  have idem: "refilled temp m acc d d'" if "same_nodes d d'" for d'
    using that Cons.prems(1) by (auto intro: refilled_rules(4))
  have append: "post (io_bind (or_io (write_all temp bytes)) (\<lambda>_. write_chunks b cd temp (acc @ bytes) w rs)) env d' (wrote temp m d)"
    if d': "same_nodes d d'" and w: "unat w = length acc + length bytes" for d' bytes w
  proof (rule post_bind [OF post_write [of d' temp m acc]], goal_cases)
    case 1
    show ?case using d' Cons.prems(1) by (simp add: same_nodes_def)
  next
    case (2 u d'')
    then have r: "refilled temp m (acc @ bytes) d d''" using d' by (auto intro: refilled_rules(2))
    show ?case
      by (rule post_mono [OF Cons.IH]) (use r w in \<open>auto intro: wrote_trans refilled_rules(5)\<close>)
  qed (use d' in \<open>auto intro: refilled_rules(2)\<close>)
  show ?case
    unfolding write_chunks.simps
  proof (rule post_bind [where P = "\<lambda>r d'. same_nodes d d'"], goal_cases)
    case (2 a d')
    show ?case
    proof (rule post_bind [OF post_checked_chunk], goal_cases)
      case (1 bytes d1)
      have d1: "same_nodes d d1" using 1 2 same_nodes_trans by blast
      show ?case
      proof (cases "2 ^ 64 \<le> length bytes \<or> len_u64 bytes \<noteq> ck_len row")
        case True
        with idem [OF d1] show ?thesis by (auto simp: fail_if_def)
      next
        case False
        then have len: "unat (ck_len row) = length bytes" using unat_len_u64 [of bytes] by auto
        show ?thesis
        proof (cases "checked_add written (ck_len row) Corrupt")
          case (Ok w)
          then have "unat w = length acc + length bytes"
            using Cons.prems(2) len by (auto simp: unat_word_ariths)
          with append [OF d1] False Ok show ?thesis by (simp add: fail_if_def del: checked_add_eq_Ok)
        next
          case (Err e)
          with False idem [OF d1] show ?thesis by (auto simp: fail_if_def)
        qed
      qed
    next
      case (2 e d1)
      with \<open>same_nodes d d'\<close> idem same_nodes_trans show ?case by blast
    next
      case (3 d1)
      with \<open>same_nodes d d'\<close> idem same_nodes_trans show ?case by blast
    qed
  qed (use idem in \<open>auto simp: fail_if_def\<close>)
qed

definition artifact :: "codec \<Rightarrow> PartManifest \<Rightarrow> string \<Rightarrow> bool" where
  "artifact cd manifest x \<longleftrightarrow> length x = unat (pm_bytes manifest) \<and> sha256_hex cd x = pm_sha256 manifest"

lemma post_write_artifact:
  assumes "node_at d temp = Some (RegularFile m [])"
  shows "post (write_artifact b cd temp manifest rows) env d (\<lambda>r d'. \<exists>x. refilled temp m x d d'
    \<and> (r = Done () \<longrightarrow> artifact cd manifest x))" (is "post _ _ _ ?Q")
  unfolding write_artifact_def
proof (rule post_bind [OF post_write_chunks [OF assms]], goal_cases)
  case (2 a d')
  obtain bytes w where a: "a = (bytes, w)" by fastforce
  from 2 a have d': "refilled temp m bytes d d'" "unat w = length bytes" by (auto simp: wrote_def)
  show ?case
  proof (cases "w \<noteq> pm_bytes manifest \<or> sha256_hex cd bytes \<noteq> pm_sha256 manifest")
    case True
    with d'(1) show ?thesis by (auto simp: a fail_if_def)
  next
    case False
    have l: "looks (or_io (sync_all temp))" by (intro looks_rules)
    have "post (or_io (sync_all temp)) env d' ?Q"
    proof (rule post_mono [OF post_looks [OF l]])
      fix r d'' assume "same_nodes d' d''"
      then have "refilled temp m bytes d d''" by (rule refilled_rules(3) [OF d'(1)])
      moreover have "artifact cd manifest bytes" using False d' by (auto simp: artifact_def)
      ultimately show "?Q r d''" by blast
    qed
    with False show ?thesis by (simp add: a fail_if_def)
  qed
qed (auto simp: wrote_def)


section \<open>Views\<close>

lemma view_refilled: "refilled p m x d d' \<Longrightarrow> \<not> in_journals b p \<Longrightarrow> view b d' = (view b d)(p \<mapsto> RegularFile m x)"
  by (simp add: refilled_def view_upd)

definition discarded :: "disk_blobs \<Rightarrow> path \<Rightarrow> disk \<Rightarrow> disk \<Rightarrow> bool" where
  "discarded b p d d' \<longleftrightarrow> (\<exists>x. view b d' = (view b d)(p := x))"

lemma discarded_rules:
  "view b d' = view b d \<Longrightarrow> discarded b p d d'"
  "discarded b p d d1 \<Longrightarrow> discarded b p d1 d2 \<Longrightarrow> discarded b p d d2"
  "view b d' = (view b d)(p := x) \<Longrightarrow> discarded b p d d'"
  by (auto simp: discarded_def) (metis fun_upd_triv)

lemma post_remove:
  assumes "\<not> in_journals b p"
  shows "post (io_ignore (remove_file p)) env d (\<lambda>r d'. discarded b p d d' \<and> (\<forall>e. r \<noteq> Failed e))"
proof (rule post_ignore [OF post_remove_file], goal_cases)
  case (1 u d')
  then show ?case using assms by (auto intro: discarded_rules(3) view_upd)
qed (auto intro: discarded_rules(1) view_same)

lemma post_or_discard:
  assumes "\<not> in_journals b p" "post m env d P"
    and "\<And>a d'. P (Done a) d' \<Longrightarrow> Q (Done a) d'" "\<And>d'. P Crashed d' \<Longrightarrow> Q Crashed d'"
    and "\<And>e d' d''. P (Failed e) d' \<Longrightarrow> discarded b p d' d'' \<Longrightarrow> Q (Failed e) d'' \<and> Q Crashed d''"
  shows "post (or_discard p m) env d Q"
  unfolding or_discard_def
proof (rule post_match [OF assms(2)], goal_cases)
  case (2 e d')
  show ?case by (rule post_bind [OF post_remove [OF assms(1)]]) (use assms(5) [OF 2] in auto)
qed (use assms(3,4) in auto)

text \<open>What staging leaves: nothing, a partial file, or the artifact.\<close>

definition staged :: "disk_blobs \<Rightarrow> codec \<Rightarrow> PartManifest \<Rightarrow> path \<Rightarrow> disk \<Rightarrow> disk \<Rightarrow> bool" where
  "staged b cd manifest temp d d' \<longleftrightarrow> view b d temp = None
     \<and> (\<exists>x. artifact cd manifest x \<and> view b d' = (view b d)(temp \<mapsto> RegularFile 384 x))"

definition unstaged :: "disk_blobs \<Rightarrow> path \<Rightarrow> disk \<Rightarrow> disk \<Rightarrow> bool" where
  "unstaged b temp d d' \<longleftrightarrow> view b d' = view b d \<or> (view b d temp = None \<and> discarded b temp d d')"

lemma unstaged_trans: "unstaged b temp d d1 \<Longrightarrow> view b d temp = None \<Longrightarrow> discarded b temp d1 d2 \<Longrightarrow> unstaged b temp d d2"
  by (auto simp: unstaged_def intro: discarded_rules)

lemma staged_unstaged: "staged b cd manifest temp d d' \<Longrightarrow> unstaged b temp d d'"
  by (auto simp: staged_def unstaged_def intro: discarded_rules(3))

lemma post_stage:
  assumes "\<not> in_journals b temp"
  shows "post (stage_artifact ev b cd req manifest db temp) env d (\<lambda>r d'.
    case r of Done _ \<Rightarrow> staged b cd manifest temp d d' | _ \<Rightarrow> unstaged b temp d d')" (is "post _ _ _ ?Q")
proof (rule post_bind_def [OF stage_artifact_def post_create], goal_cases)
  case (1 u d1)
  then have none: "view b d temp = None" and d1: "view b d1 = (view b d)(temp \<mapsto> RegularFile 384 [])"
    and at: "node_at d1 temp = Some (RegularFile 384 [])"
    using assms view_refilled [OF _ assms] by (auto simp: view_at refilled_rules(5))
  have u1: "unstaged b temp d d1" using none d1 by (auto simp: unstaged_def intro: discarded_rules(3))
  have writing: "post (or_discard temp (write_artifact b cd temp manifest rows)) env d1 ?Q" for rows
  proof (rule post_or_discard [OF assms post_write_artifact [OF at]], goal_cases)
    case (1 a d')
    then obtain x where "view b d' = (view b d1)(temp \<mapsto> RegularFile 384 x)" "artifact cd manifest x"
      using view_refilled [OF _ assms] by (metis (full_types) old.unit.exhaust)
    then show ?case using none d1 by (auto simp: staged_def)
  next
    case (2 d')
    then show ?case using view_refilled [OF _ assms] u1 none
      by (auto intro!: unstaged_trans [OF u1] discarded_rules(3))
  next
    case (3 e d' d'')
    then have "discarded b temp d1 d'" using view_refilled [OF _ assms] by (auto intro: discarded_rules(3))
    with 3(2) have "unstaged b temp d d''" using unstaged_trans [OF u1 none] discarded_rules(2) by blast
    then show ?case by simp
  qed
  have inject: "post (or_discard temp (io_lift (fs_inject env ExportPublish))) env d' ?Q"
    if "staged b cd manifest temp d d'" for d'
    by (rule post_or_discard [where P = "\<lambda>r d''. d'' = d'", OF assms])
      (use that none staged_unstaged [OF that] unstaged_trans in \<open>auto split: result.splits\<close>)
  have seq: "post (io_bind (or_discard temp (write_artifact b cd temp manifest rows))
      (\<lambda>_. or_discard temp (io_lift (fs_inject env ExportPublish)))) env d1 ?Q" for rows
    by (rule post_bind [OF writing]) (use inject in auto)
  show ?case
    by (cases "sql ev 3 (chunk_rows db (xr_evidence_id req) (xr_part req))") (use seq u1 in \<open>auto simp del: sql_eq_Ok\<close>)
qed (auto simp: unstaged_def intro: view_same)


section \<open>Publishing\<close>

text \<open>
  The stages of a publication, as views before (\<open>f\<close>) and after (\<open>g\<close>): the staged file may be
  gone, the destination may have moved to its backup, the artifact may have arrived.
\<close>

type_synonym files = "path \<Rightarrow> node option"

definition kept :: "files \<Rightarrow> path \<Rightarrow> files \<Rightarrow> bool" where
  "kept f temp g \<longleftrightarrow> (\<exists>x. g = f(temp := x))"

definition displaced :: "files \<Rightarrow> path \<Rightarrow> path \<Rightarrow> path \<Rightarrow> files \<Rightarrow> bool" where
  "displaced f temp dest backup g \<longleftrightarrow> dest \<noteq> backup
     \<and> (\<exists>n x. f dest = Some n \<and> f backup = None \<and> g = f(temp := x, dest := None, backup \<mapsto> n))"

definition moved_aside :: "files \<Rightarrow> path \<Rightarrow> path \<Rightarrow> files \<Rightarrow> bool" where
  "moved_aside f dest backup g \<longleftrightarrow> dest \<noteq> backup
     \<and> (\<exists>n. f dest = Some n \<and> f backup = None \<and> g = f(dest := None, backup \<mapsto> n))"

lemma moved_aside_displaced: "moved_aside f dest backup g \<Longrightarrow> displaced f temp dest backup g"
  by (auto simp: moved_aside_def displaced_def intro!: exI [of _ "f temp"])

definition published :: "files \<Rightarrow> path \<Rightarrow> path \<Rightarrow> path option \<Rightarrow> files \<Rightarrow> bool" where
  "published f temp dest backup g \<longleftrightarrow> (\<exists>t. f temp = Some t \<and> temp \<noteq> dest
     \<and> (case backup of
          None \<Rightarrow> f dest = None \<and> g = f(temp := None, dest \<mapsto> t)
        | Some b \<Rightarrow> dest \<noteq> b \<and> (\<exists>n. f dest = Some n \<and> f b = None
            \<and> g = f(temp := None, dest \<mapsto> t, b \<mapsto> n))))"

lemma kept_refl [simp]: "kept f temp f"
  by (auto simp: kept_def intro!: exI [of _ "f temp"])

lemma post_rename:
  assumes "\<not> in_journals b p" "\<not> in_journals b q"
  shows "post (rename_noreplace p q) env d (\<lambda>r d'. case r of
     Done _ \<Rightarrow> p \<noteq> q \<and> (\<exists>n. view b d p = Some n \<and> view b d q = None \<and> view b d' = (view b d)(p := None, q \<mapsto> n))
   | _ \<Rightarrow> view b d' = view b d)"
proof (rule post_mono [OF post_rename_noreplace])
  fix r d' assume h: "case r of Done _ \<Rightarrow> moved p q d d' | _ \<Rightarrow> same_nodes d d'"
  show "case r of
     Done _ \<Rightarrow> p \<noteq> q \<and> (\<exists>n. view b d p = Some n \<and> view b d q = None \<and> view b d' = (view b d)(p := None, q \<mapsto> n))
   | _ \<Rightarrow> view b d' = view b d"
  proof (cases r)
    case (Done u)
    with h obtain n where n: "p \<noteq> q" "node_at d p = Some n" "node_at d q = None"
      "node_at d' = (node_at d)(p := None, q \<mapsto> n)" by (auto simp: moved_def)
    have "view b d' = (view b d)(p := None, q \<mapsto> n)"
      using n(4) assms by (auto simp: view_def fun_eq_iff)
    with n Done assms show ?thesis by (auto simp: view_at)
  qed (use h in \<open>auto intro: view_same\<close>)
qed

lemma post_ignore_keeps:
  "keeps_view b m \<Longrightarrow> post (io_ignore m) env d (\<lambda>r d'. view b d' = view b d \<and> (\<forall>e. r \<noteq> Failed e))"
  by (rule post_ignore [OF post_keeps]) auto

text \<open>Throwing the staged file and the journal away, then reporting an error.\<close>

lemma post_give_up:
  assumes "\<not> in_journals b temp" "kept f temp (view b d)"
  shows "post (io_bind (io_ignore (remove_file temp)) (\<lambda>_.
      io_bind (io_ignore (clear_export_journal b i)) (\<lambda>_. io_raise e))) env d
    (\<lambda>r d'. kept f temp (view b d') \<and> (r = Failed e \<or> r = Crashed))"
proof (rule post_bind [OF post_remove [OF assms(1)]], goal_cases)
  case (1 u d1)
  then have k: "kept f temp (view b d1)" using assms(2) by (auto simp: kept_def discarded_def)
  show ?case
    by (rule post_bind [OF post_ignore_keeps [OF keeps_clear_journal]]) (use k in auto)
qed (use assms(2) in \<open>auto simp: kept_def discarded_def\<close>)

definition same_export :: "ExportJournal \<Rightarrow> path option \<Rightarrow> ExportJournal \<Rightarrow> bool" where
  "same_export j backup j' \<longleftrightarrow> j' = j\<lparr>ej_state := Published, ej_backup := backup\<rparr>"

lemma post_announce:
  assumes "P (Done j') (view b d)" "\<And>e. P (Failed e) (view b d)" "P Crashed (view b d)"
  shows "post (io_bind (journal_export b j) (\<lambda>_. io_pure j')) env d (\<lambda>r d'. P r (view b d'))"
  by (rule post_bind [OF post_keeps [OF keeps_journal_export]]) (use assms in auto)

lemma post_publish_new:
  assumes "\<not> in_journals b (ej_temp j)" "\<not> in_journals b (ej_destination j)" "ej_backup j = None"
    and f: "f = view b d"
  shows "post (publish_new b j) env d (\<lambda>r d'. case r of
     Done j' \<Rightarrow> published f (ej_temp j) (ej_destination j) None (view b d') \<and> same_export j None j'
   | _ \<Rightarrow> kept f (ej_temp j) (view b d') \<or> published f (ej_temp j) (ej_destination j) None (view b d'))"
proof (rule post_match_def [OF publish_new_def post_rename [OF assms(1,2)]], goal_cases)
  case (1 u d1)
  then have "published f (ej_temp j) (ej_destination j) None (view b d1)"
    by (auto simp: published_def f)
  with assms(3) show ?case
    unfolding Let_def by (intro post_announce) (auto simp: same_export_def)
next
  case (2 e d1)
  then have "kept f (ej_temp j) (view b d1)" by (simp add: f)
  from post_give_up [OF assms(1) this] show ?case by (rule post_mono) auto
qed (simp add: f)

section \<open>Displacing and replacing\<close>

definition backup_of :: "path \<Rightarrow> path \<Rightarrow> bool" where
  "backup_of dest backup \<longleftrightarrow> (\<exists>u. backup = butlast dest @ [''.tdmcp-backup-'' @ u])"

lemma backup_not_journal:
  "\<not> in_journals b dest \<Longrightarrow> dest \<noteq> [] \<Longrightarrow> backup_of dest backup \<Longrightarrow> \<not> in_journals b backup"
  by (auto simp: backup_of_def in_journals_def)

definition uncertain :: "EvidenceError \<Rightarrow> bool" where
  "uncertain e \<longleftrightarrow> (\<exists>m. e = CommitUncertain m)"

lemma uncertain_export [simp]: "uncertain (export_uncertain j v)"
  by (simp add: uncertain_def export_uncertain_def)

lemma post_displace:
  assumes "\<not> in_journals b (ej_temp j)" "\<not> in_journals b (ej_destination j)" "ej_destination j \<noteq> []"
    and f: "f = view b d"
  shows "post (displace b j) env d (\<lambda>r d'. case r of
     Done j' \<Rightarrow> (j' = j \<and> view b d' = f)
       \<or> (\<exists>backup. backup_of (ej_destination j) backup \<and> j' = j\<lparr>ej_backup := Some backup, ej_state := DestinationBackedUp\<rparr>
          \<and> moved_aside f (ej_destination j) backup (view b d'))
   | Failed e \<Rightarrow> kept f (ej_temp j) (view b d')
       \<or> (uncertain e \<and> (\<exists>backup. backup_of (ej_destination j) backup
            \<and> displaced f (ej_temp j) (ej_destination j) backup (view b d')))
   | Crashed \<Rightarrow> kept f (ej_temp j) (view b d')
       \<or> (\<exists>backup. backup_of (ej_destination j) backup
            \<and> displaced f (ej_temp j) (ej_destination j) backup (view b d')))" (is "post _ _ _ ?Q")
proof (rule post_bind_def [OF displace_def post_exists], goal_cases)
  case (1 present d1)
  let ?D = "ej_destination j" and ?T = "ej_temp j"
  have v1: "view b d1 = f" using 1 f view_same by blast
  have renamed: "post (io_bind (or_io (rename_noreplace ?D backup)) (\<lambda>_.
       let j = j\<lparr>ej_backup := Some backup, ej_state := DestinationBackedUp\<rparr> in
       io_match (journal_export b j) (\<lambda>_. io_pure j)
         (\<lambda>e. io_raise (export_uncertain j (error_text e))))) env d' ?Q"
    if v: "view b d' = f" and bk: "backup_of ?D backup" for d' backup
  proof (rule post_bind [OF post_or_io [OF post_rename [OF assms(2) backup_not_journal [OF assms(2,3) bk]]],
        where P = "\<lambda>r d''. case r of Done _ \<Rightarrow> moved_aside f ?D backup (view b d'') | _ \<Rightarrow> view b d'' = f"], goal_cases)
    case (1 u d'')
    then show ?case using v by (auto simp: moved_aside_def)
  next
    case (4 u d'')
    then have dis: "moved_aside f ?D backup (view b d'')" by simp
    show ?case
      unfolding Let_def
      by (rule post_match [OF post_keeps [OF keeps_journal_export]])
        (use dis moved_aside_displaced [OF dis] bk in auto)
  qed (use v in auto)
  have going: "post (io_bind (case n of RegularFile _ _ \<Rightarrow> io_pure ()
         | _ \<Rightarrow>
             io_bind (io_ignore (remove_file ?T)) (\<lambda>_.
             io_bind (io_ignore (clear_export_journal b (ej_id j))) (\<lambda>_.
             io_raise (InvalidInput ''existing export destination must be a regular non-symlink file'')))) (\<lambda>_.
       io_bind new_uuid (\<lambda>uuid.
       let backup = butlast ?D @ [''.tdmcp-backup-'' @ uuid] in
       io_bind (or_io (rename_noreplace ?D backup)) (\<lambda>_.
       let j = j\<lparr>ej_backup := Some backup, ej_state := DestinationBackedUp\<rparr> in
       io_match (journal_export b j) (\<lambda>_. io_pure j)
         (\<lambda>e. io_raise (export_uncertain j (error_text e))))))) env d' ?Q" if v: "view b d' = f" for n d'
  proof (rule post_bind [where P = "\<lambda>r d''. case r of Done _ \<Rightarrow> view b d'' = f | _ \<Rightarrow> kept f ?T (view b d'')"], goal_cases)
    case 1
    have "post (io_bind (io_ignore (remove_file ?T)) (\<lambda>_.
             io_bind (io_ignore (clear_export_journal b (ej_id j))) (\<lambda>_.
             io_raise (InvalidInput ''existing export destination must be a regular non-symlink file'')))) env d'
        (\<lambda>r d''. case r of Done _ \<Rightarrow> view b d'' = f | _ \<Rightarrow> kept f ?T (view b d''))"
      by (rule post_mono [OF post_give_up [OF assms(1)]]) (use v in \<open>auto split: outcome.splits\<close>)
    then show ?case using v by (cases n) auto
  next
    case (2 u d'')
    show ?case
    proof (rule post_bind [OF post_uuid], goal_cases)
      case (1 uuid d3)
      then have "view b d3 = f" using 2 view_same by fastforce
      moreover have "backup_of ?D (butlast ?D @ [''.tdmcp-backup-'' @ uuid])" by (auto simp: backup_of_def)
      ultimately show ?case unfolding Let_def [of "butlast ?D @ _"] by (rule renamed)
    qed auto
  qed auto
  show ?case
  proof (cases present)
    case True
    have "post (io_bind (or_io (symlink_metadata ?D)) (\<lambda>n.
       io_bind (case n of RegularFile _ _ \<Rightarrow> io_pure ()
         | _ \<Rightarrow>
             io_bind (io_ignore (remove_file ?T)) (\<lambda>_.
             io_bind (io_ignore (clear_export_journal b (ej_id j))) (\<lambda>_.
             io_raise (InvalidInput ''existing export destination must be a regular non-symlink file'')))) (\<lambda>_.
       io_bind new_uuid (\<lambda>uuid.
       let backup = butlast ?D @ [''.tdmcp-backup-'' @ uuid] in
       io_bind (or_io (rename_noreplace ?D backup)) (\<lambda>_.
       let j = j\<lparr>ej_backup := Some backup, ej_state := DestinationBackedUp\<rparr> in
       io_match (journal_export b j) (\<lambda>_. io_pure j)
         (\<lambda>e. io_raise (export_uncertain j (error_text e)))))))) env d1 ?Q"
      by (rule post_bind [OF post_looks [where m = "or_io (symlink_metadata ?D)"]], intro looks_rules)
        (use going v1 view_same in \<open>auto\<close>)
    with True show ?thesis by simp
  qed (use v1 in simp)
qed (use f view_same in \<open>auto\<close>)


text \<open>Where \<open>publish_replacing\<close> starts: nothing displaced, or the destination moved aside.\<close>

definition set_aside :: "files \<Rightarrow> ExportJournal \<Rightarrow> files \<Rightarrow> bool" where
  "set_aside f j g \<longleftrightarrow> (case ej_backup j of
     None \<Rightarrow> g = f
   | Some backup \<Rightarrow> backup_of (ej_destination j) backup \<and> moved_aside f (ej_destination j) backup g)"

definition still_there :: "files \<Rightarrow> ExportJournal \<Rightarrow> files \<Rightarrow> bool" where
  "still_there f j g \<longleftrightarrow> kept f (ej_temp j) g
     \<or> (\<exists>backup. backup_of (ej_destination j) backup \<and> displaced f (ej_temp j) (ej_destination j) backup g)"

definition arrived :: "files \<Rightarrow> ExportJournal \<Rightarrow> path option \<Rightarrow> files \<Rightarrow> bool" where
  "arrived f j backup g \<longleftrightarrow> published f (ej_temp j) (ej_destination j) backup g
     \<and> (case backup of None \<Rightarrow> True | Some p \<Rightarrow> backup_of (ej_destination j) p)"

lemma set_aside_still: "set_aside f j g \<Longrightarrow> still_there f j g"
  by (auto simp: set_aside_def still_there_def intro: moved_aside_displaced split: option.splits)

text \<open>Removing the staged file changes nothing else; restoring the backup undoes the displacement.\<close>

lemma still_there_discard:
  assumes "set_aside f j g" "f (ej_temp j) = Some t" "ej_temp j \<noteq> ej_destination j" "h = g(ej_temp j := x)"
  shows "still_there f j h"
    and "ej_backup j = Some backup \<Longrightarrow> h backup = Some n \<Longrightarrow> h(backup := None, ej_destination j \<mapsto> n) = f(ej_temp j := x)"
proof -
  show "still_there f j h"
  proof (cases "ej_backup j")
    case None
    with assms(1,4) show ?thesis by (auto simp: set_aside_def still_there_def kept_def)
  next
    case (Some backup)
    then obtain n where n: "ej_destination j \<noteq> backup" "f (ej_destination j) = Some n" "f backup = None"
      "g = f(ej_destination j := None, backup \<mapsto> n)" "backup_of (ej_destination j) backup"
      using assms(1) by (auto simp: set_aside_def moved_aside_def)
    have "backup \<noteq> ej_temp j" using n(3) assms(2) by auto
    then have "h = f(ej_temp j := x, ej_destination j := None, backup \<mapsto> n)"
      unfolding assms(4) n(4) using assms(3) by (auto simp: fun_eq_iff)
    with n show ?thesis unfolding still_there_def displaced_def by blast
  qed
  show "h(backup := None, ej_destination j \<mapsto> n) = f(ej_temp j := x)"
    if b: "ej_backup j = Some backup" "h backup = Some n"
  proof -
    obtain n' where n: "ej_destination j \<noteq> backup" "f (ej_destination j) = Some n'" "f backup = None"
      "g = f(ej_destination j := None, backup \<mapsto> n')"
      using assms(1) b(1) by (auto simp: set_aside_def moved_aside_def)
    have bt: "backup \<noteq> ej_temp j" using n(3) assms(2) by auto
    with b(2) n(4) assms(4) have "n' = n" by simp
    with n assms(3) bt show ?thesis unfolding assms(4) n(4) by (auto simp: fun_eq_iff)
  qed
qed

lemma published_from:
  assumes "set_aside f j g" "f (ej_temp j) = Some t" "ej_temp j \<noteq> ej_destination j" "g (ej_temp j) = Some n"
    "g (ej_destination j) = None" "h = g(ej_temp j := None, ej_destination j \<mapsto> n)"
  shows "arrived f j (ej_backup j) h"
proof (cases "ej_backup j")
  case None
  with assms show ?thesis by (auto simp: set_aside_def arrived_def published_def)
next
  case (Some backup)
  then obtain n' where n: "ej_destination j \<noteq> backup" "f (ej_destination j) = Some n'" "f backup = None"
    "g = f(ej_destination j := None, backup \<mapsto> n')" "backup_of (ej_destination j) backup"
    using assms(1) by (auto simp: set_aside_def moved_aside_def)
  have bt: "backup \<noteq> ej_temp j" using n(3) assms(2) by auto
  then have t: "n = t" using assms(2-4) n(4) by simp
  have "h = f(ej_temp j := None, ej_destination j \<mapsto> t, backup \<mapsto> n')"
    unfolding assms(6) n(4) t using assms(3) bt n(1) by (auto simp: fun_eq_iff)
  with n assms(2,3) Some show ?thesis by (auto simp: arrived_def published_def)
qed

text \<open>The end of a failed replacement: the staged file thrown away, the destination restored.\<close>

lemma post_roll_back:
  assumes "\<not> in_journals b (ej_temp j)" "\<not> in_journals b (ej_destination j)" "ej_destination j \<noteq> []"
    and "set_aside f j (view b d)" "f (ej_temp j) = Some t" "ej_temp j \<noteq> ej_destination j"
  shows "post (io_bind (io_ignore (remove_file (ej_temp j))) (\<lambda>_.
          io_bind (case ej_backup j of None \<Rightarrow> io_pure ()
            | Some backup \<Rightarrow> io_map_err (\<lambda>rollback. export_uncertain j (msg rollback))
                (rename_noreplace backup (ej_destination j))) (\<lambda>_.
          io_bind (io_ignore (clear_export_journal b (ej_id j))) (\<lambda>_.
          io_raise e)))) env d (\<lambda>r d'. case r of
     Done _ \<Rightarrow> False
   | Failed e \<Rightarrow> kept f (ej_temp j) (view b d') \<or> (uncertain e \<and> still_there f j (view b d'))
   | Crashed \<Rightarrow> still_there f j (view b d'))" (is "post _ _ _ ?Q")
proof (rule post_bind [OF post_remove [OF assms(1)]], goal_cases)
  case (1 u d1)
  then obtain x where x: "view b d1 = (view b d)(ej_temp j := x)" by (auto simp: discarded_def)
  note st = still_there_discard [OF assms(4-6) x]
  have fin: "post (io_bind (io_ignore (clear_export_journal b (ej_id j))) (\<lambda>_. io_raise e)) env d' ?Q"
    if "kept f (ej_temp j) (view b d')" for d'
    by (rule post_bind [OF post_ignore_keeps [OF keeps_clear_journal]]) (use that in \<open>auto simp: still_there_def\<close>)
  show ?case
  proof (cases "ej_backup j")
    case None
    with assms(4) x have "kept f (ej_temp j) (view b d1)" by (auto simp: set_aside_def kept_def)
    with fin None show ?thesis by simp
  next
    case (Some backup)
    then have "backup_of (ej_destination j) backup" using assms(4) by (simp add: set_aside_def)
    then have nb: "\<not> in_journals b backup" by (rule backup_not_journal [OF assms(2,3)])
    have "post (io_bind (io_map_err (\<lambda>rollback. export_uncertain j (msg rollback))
        (rename_noreplace backup (ej_destination j))) (\<lambda>_.
        io_bind (io_ignore (clear_export_journal b (ej_id j))) (\<lambda>_. io_raise e))) env d1 ?Q"
    proof (rule post_bind [OF post_map_err [OF post_rename [OF nb assms(2)]], where P = "\<lambda>r d'. case r of
        Done _ \<Rightarrow> kept f (ej_temp j) (view b d')
      | Failed e \<Rightarrow> uncertain e \<and> still_there f j (view b d')
      | Crashed \<Rightarrow> still_there f j (view b d')"], goal_cases)
      case (1 u d')
      then show ?case using st(2) [OF Some] by (auto simp: kept_def)
    qed (use fin st(1) in auto)
    with Some show ?thesis by simp
  qed
next
  case (3 d1)
  then obtain x where x: "view b d1 = (view b d)(ej_temp j := x)" by (auto simp: discarded_def)
  show ?case using still_there_discard(1) [OF assms(4-6) x] by simp
qed simp

lemma post_publish_replacing:
  assumes "\<not> in_journals b (ej_temp j)" "\<not> in_journals b (ej_destination j)" "ej_destination j \<noteq> []"
    and "set_aside f j (view b d)" "f (ej_temp j) = Some t" "ej_temp j \<noteq> ej_destination j"
  shows "post (publish_replacing b j) env d (\<lambda>r d'. case r of
     Done j' \<Rightarrow> arrived f j (ej_backup j) (view b d') \<and> same_export j (ej_backup j) j'
   | Failed e \<Rightarrow> kept f (ej_temp j) (view b d') \<or> arrived f j (ej_backup j) (view b d')
       \<or> (uncertain e \<and> still_there f j (view b d'))
   | Crashed \<Rightarrow> still_there f j (view b d') \<or> arrived f j (ej_backup j) (view b d'))" (is "post _ _ _ ?Q")
proof (rule post_bind_def [OF publish_replacing_def, where P = "\<lambda>r d'. d' = d \<and> (\<forall>e. r = Failed e \<longrightarrow> uncertain e)"],
    goal_cases)
  case 1
  show ?case by (auto split: result.splits)
next
  case (2 u d1)
  then have d1: "d1 = d" by simp
  have "post (io_match (rename_noreplace (ej_temp j) (ej_destination j))
       (\<lambda>_. let j = j\<lparr>ej_state := Published\<rparr> in
          io_bind (journal_export b j) (\<lambda>_. io_pure j))
       (\<lambda>e. io_bind (io_ignore (remove_file (ej_temp j))) (\<lambda>_.
          io_bind (case ej_backup j of None \<Rightarrow> io_pure ()
            | Some backup \<Rightarrow> io_map_err (\<lambda>rollback. export_uncertain j (''publication failed ('' @ fs_text env e
                @ '') and rollback failed ('' @ fs_text env rollback @ '')''))
                (rename_noreplace backup (ej_destination j))) (\<lambda>_.
          io_bind (io_ignore (clear_export_journal b (ej_id j))) (\<lambda>_.
          io_raise (EvIo (fs_text env e))))))) env d ?Q"
  proof (rule post_match [OF post_rename [OF assms(1,2)]], goal_cases)
    case (1 u d')
    then have "arrived f j (ej_backup j) (view b d')" using published_from [OF assms(4-6)] by auto
    then show ?case unfolding Let_def by (intro post_announce) (auto simp: same_export_def)
  next
    case (2 e d')
    then have "set_aside f j (view b d')" using assms(4) by simp
    from post_roll_back [OF assms(1-3) this assms(5,6)] show ?case by (rule post_mono) (auto split: outcome.splits)
  qed (use set_aside_still [OF assms(4)] in auto)
  with d1 show ?case by simp
qed (use set_aside_still [OF assms(4)] in auto)


section \<open>The whole call\<close>

text \<open>Where a publication may have got to, by policy.\<close>

definition touched :: "files \<Rightarrow> ExportJournal \<Rightarrow> ExportPolicy \<Rightarrow> files \<Rightarrow> bool" where
  "touched f j policy g \<longleftrightarrow> (case policy of
     NoOverwrite \<Rightarrow> kept f (ej_temp j) g \<or> arrived f j None g
   | BackupAndReplace \<Rightarrow> still_there f j g \<or> (\<exists>backup. arrived f j backup g))"

definition settled :: "files \<Rightarrow> ExportJournal \<Rightarrow> files \<Rightarrow> bool" where
  "settled f j g \<longleftrightarrow> kept f (ej_temp j) g \<or> (\<exists>backup. arrived f j backup g)"

definition publish_post :: "files \<Rightarrow> ExportJournal \<Rightarrow> ExportPolicy \<Rightarrow> (path option \<Rightarrow> 'a \<Rightarrow> bool)
    \<Rightarrow> ('a, EvidenceError) outcome \<Rightarrow> files \<Rightarrow> bool" where
  "publish_post f j policy ok r g \<longleftrightarrow> touched f j policy g
     \<and> (\<forall>a. r = Done a \<longrightarrow> (\<exists>backup. arrived f j backup g \<and> ok backup a))
     \<and> (\<forall>e. r = Failed e \<and> \<not> uncertain e \<longrightarrow> settled f j g)"

lemma touched_still: "set_aside f j g \<Longrightarrow> touched f j BackupAndReplace g"
  by (simp add: touched_def set_aside_still)

lemma post_publish:
  assumes "\<not> in_journals b (ej_temp j)" "\<not> in_journals b (ej_destination j)" "ej_destination j \<noteq> []"
    and "ej_backup j = None" "f = view b d" "f (ej_temp j) = Some t" "ej_temp j \<noteq> ej_destination j"
  shows "post (publish b policy j) env d (\<lambda>r d'. publish_post f j policy (same_export j) r (view b d'))"
proof (cases policy)
  case NoOverwrite
  have "post (publish_new b j) env d (\<lambda>r d'. publish_post f j policy (same_export j) r (view b d'))"
    by (rule post_mono [OF post_publish_new [OF assms(1,2,4,5)]])
      (auto simp: publish_post_def touched_def settled_def arrived_def NoOverwrite split: outcome.splits)
  with NoOverwrite show ?thesis by (simp add: publish_def)
next
  case BackupAndReplace
  have "post (io_bind (displace b j) (publish_replacing b)) env d
      (\<lambda>r d'. publish_post f j policy (same_export j) r (view b d'))"
  proof (rule post_bind [OF post_displace [OF assms(1-3,5)]], goal_cases)
    case (1 j' d1)
    have j': "set_aside f j' (view b d1)" "ej_temp j' = ej_temp j" "ej_destination j' = ej_destination j"
      "same_export j' (ej_backup j') = same_export j (ej_backup j')"
      using 1 assms(4) by (auto simp: set_aside_def same_export_def fun_eq_iff)
    have "still_there f j' = still_there f j" "arrived f j' = arrived f j"
      by (simp_all add: still_there_def arrived_def j' fun_eq_iff cong: option.case_cong)
    note same = this
    have pre: "\<not> in_journals b (ej_temp j')" "\<not> in_journals b (ej_destination j')" "ej_destination j' \<noteq> []"
      "f (ej_temp j') = Some t" "ej_temp j' \<noteq> ej_destination j'" using assms j' by simp_all
    show ?case
    proof (rule post_mono [OF post_publish_replacing [OF pre(1-3) j'(1) pre(4,5)]])
      fix r d' assume h: "case r of
         Done j'' \<Rightarrow> arrived f j' (ej_backup j') (view b d') \<and> same_export j' (ej_backup j') j''
       | Failed e \<Rightarrow> kept f (ej_temp j') (view b d') \<or> arrived f j' (ej_backup j') (view b d')
           \<or> (uncertain e \<and> still_there f j' (view b d'))
       | Crashed \<Rightarrow> still_there f j' (view b d') \<or> arrived f j' (ej_backup j') (view b d')"
      have k: "kept f (ej_temp j) g \<Longrightarrow> still_there f j g" for g by (simp add: still_there_def)
      show "publish_post f j policy (same_export j) r (view b d')"
        using h k unfolding publish_post_def touched_def settled_def BackupAndReplace same j'
        by (cases r) auto
    qed
  next
    case (2 e d1)
    then show ?case
      by (auto simp: publish_post_def touched_def settled_def BackupAndReplace still_there_def)
  next
    case (3 d1)
    then show ?case
      by (auto simp: publish_post_def touched_def settled_def BackupAndReplace still_there_def)
  qed
  with BackupAndReplace show ?thesis by (simp add: publish_def)
qed

lemma post_confirm:
  "post (confirm b parent j) env d (\<lambda>r d'. view b d' = view b d)"
proof (rule post_bind_def [OF confirm_def, where P = "\<lambda>r d'. view b d' = view b d"], goal_cases)
  case 1
  have l: "looks (io_bind (io_lift (fs_inject env DirectorySync)) (\<lambda>_. sync_directory parent))" by (intro looks_rules)
  show ?case by (rule post_map_err [OF post_looks [OF l]]) (auto intro: view_same)
next
  case (2 u d')
  then show ?case by (intro post_mono [OF post_keeps [OF keeps_clear_journal]]) simp
qed auto

definition staged_name :: "path \<Rightarrow> bool" where
  "staged_name p \<longleftrightarrow> (\<exists>u. p \<noteq> [] \<and> last p = ''.tdmcp-export-'' @ u @ ''.tmp'')"


lemma post_admit:
  "post (export_admit ev b cd owner req db) env d (\<lambda>r d'. same_nodes d d' \<and> (\<forall>manifest. r = Done manifest \<longrightarrow>
     xr_destination req \<noteq> []
     \<and> take (length (db_root b)) (fs_canonical env (butlast (xr_destination req))) \<noteq> db_root b
     \<and> load_part_row ev 2 cd (xr_evidence_id req) (xr_part req) db = Ok manifest
     \<and> (\<exists>now access. now_ms ev 0 = Ok now
         \<and> authorize ev 0 cd owner (xr_evidence_id req) (Some (xr_part req)) now db = Ok access)))"
proof (rule postI)
  fix r d' assume run: "export_admit ev b cd owner req db env d = (r, d')"
  have "post (export_admit ev b cd owner req db) env d (\<lambda>r d'. same_nodes d d')"
    by (rule post_looks [OF looks_export_admit])
  then have s: "same_nodes d d'" using run by (simp add: post_def)
  show "same_nodes d d' \<and> (\<forall>manifest. r = Done manifest \<longrightarrow>
     xr_destination req \<noteq> []
     \<and> take (length (db_root b)) (fs_canonical env (butlast (xr_destination req))) \<noteq> db_root b
     \<and> load_part_row ev 2 cd (xr_evidence_id req) (xr_part req) db = Ok manifest
     \<and> (\<exists>now access. now_ms ev 0 = Ok now
         \<and> authorize ev 0 cd owner (xr_evidence_id req) (Some (xr_part req)) now db = Ok access))"
  proof (intro conjI allI impI s)
    fix manifest assume r: "r = Done manifest"
    show "xr_destination req \<noteq> []"
      "take (length (db_root b)) (fs_canonical env (butlast (xr_destination req))) \<noteq> db_root b"
      "load_part_row ev 2 cd (xr_evidence_id req) (xr_part req) db = Ok manifest"
      "\<exists>now access. now_ms ev 0 = Ok now
         \<and> authorize ev 0 cd owner (xr_evidence_id req) (Some (xr_part req)) now db = Ok access"
      using run unfolding r export_admit_def reject_export_destination_def
      by (auto simp: io_bind_def io_match_def io_raise_def io_pure_def io_lift_def or_io_def io_map_err_def
          canonicalize_def fs_query_def fs_step_def Let_def map_ok_def
          split: prod.splits outcome.splits result.splits if_splits node.splits fault.splits)
  qed
qed


definition receipt_of :: "ExportRequest \<Rightarrow> PartManifest \<Rightarrow> path option \<Rightarrow> ExportReceipt \<Rightarrow> bool" where
  "receipt_of req manifest backup a \<longleftrightarrow> a = \<lparr>xp_destination = xr_destination req, xp_backup = backup,
     xp_bytes = pm_bytes manifest, xp_sha256 = pm_sha256 manifest\<rparr>"

text \<open>The files before (\<open>f\<close>) and after (\<open>g\<close>) an export with outcome \<open>r\<close>.\<close>

definition export_effect :: "codec \<Rightarrow> ExportRequest \<Rightarrow> PartManifest \<Rightarrow> files
    \<Rightarrow> (ExportReceipt, EvidenceError) outcome \<Rightarrow> files \<Rightarrow> bool" where
  "export_effect cd req manifest f r g \<longleftrightarrow>
     (\<exists>j. f (ej_temp j) = None \<and> ej_temp j \<noteq> ej_destination j \<and> ej_destination j = xr_destination req
       \<and> (((\<forall>a. r \<noteq> Done a) \<and> kept f (ej_temp j) g)
          \<or> (\<exists>x. artifact cd manifest x \<and> publish_post (f(ej_temp j \<mapsto> RegularFile 384 x)) j (xr_policy req)
               (receipt_of req manifest) r g)))"

lemma export_effect_unstaged:
  "unstaged b temp d d' \<Longrightarrow> temp \<noteq> xr_destination req \<Longrightarrow> f = view b d \<Longrightarrow> (\<And>a. r \<noteq> Done a)
     \<Longrightarrow> view b d' = f \<or> export_effect cd req manifest f r (view b d')"
  by (auto simp: export_effect_def unstaged_def discarded_def kept_def
      intro!: exI [of _ "\<lparr>ej_id = [], ej_state = Prepared, ej_temp = temp, ej_destination = xr_destination req,
        ej_backup = None, ej_sha256 = [], ej_bytes = 0\<rparr>"])

lemma publish_post_after:
  assumes "publish_post f j policy (same_export j) (Done j') g" "ej_backup j = None"
  shows "publish_post f j policy ok Crashed g" "publish_post f j policy ok (Failed e) g"
    and "(\<And>backup. j' = j\<lparr>ej_state := Published, ej_backup := backup\<rparr> \<Longrightarrow> ok backup a) \<Longrightarrow> publish_post f j policy ok (Done a) g"
  using assms by (auto simp: publish_post_def settled_def same_export_def)

lemma post_export_published:
  assumes "\<not> in_journals b (ej_temp j)" "\<not> in_journals b (ej_destination j)" "ej_destination j \<noteq> []"
    and "ej_backup j = None" "f = view b d" "f (ej_temp j) = Some t" "ej_temp j \<noteq> ej_destination j"
    and ok: "ok = receipt_of req manifest"
  shows "post (io_bind (publish b policy j) (\<lambda>j.
     io_bind (confirm b parent j) (\<lambda>_.
     io_pure \<lparr>xp_destination = xr_destination req, xp_backup = ej_backup j,
       xp_bytes = pm_bytes manifest, xp_sha256 = pm_sha256 manifest\<rparr>))) env d
     (\<lambda>r d'. publish_post f j policy ok r (view b d'))"
proof (rule post_bind [OF post_publish [OF assms(1-7)]], goal_cases)
  case (1 j' d1)
  note after = publish_post_after [OF 1 assms(4)]
  show ?case
    by (rule post_bind [OF post_confirm]) (auto simp: ok receipt_of_def intro!: after)
qed (auto simp: publish_post_def)


lemma post_export:
  assumes "db_journals b = db_root b @ [''exports'']" and "\<not> staged_name (xr_destination req)"
    and "fs_canonical env (butlast (xr_destination req)) = butlast (xr_destination req)"
    and f: "f = view b d"
  shows "post (export_part ev b cd owner req db) env d (\<lambda>r d'.
    ((\<forall>a. r \<noteq> Done a) \<and> view b d' = f)
    \<or> (\<exists>manifest. load_part_row ev 2 cd (xr_evidence_id req) (xr_part req) db = Ok manifest
         \<and> export_effect cd req manifest f r (view b d')))" (is "post _ _ _ ?Q")
  unfolding export_part_def
proof (rule post_bind [OF post_admit], goal_cases)
  case (1 manifest d1)
  let ?D = "xr_destination req"
  let ?P = "butlast ?D"
  have v1: "view b d1 = f" using 1 f by (auto intro: view_same)
  have dne: "?D \<noteq> []" and load: "load_part_row ev 2 cd (xr_evidence_id req) (xr_part req) db = Ok manifest" using 1 by auto
  have "take (length (db_root b)) ?P \<noteq> db_root b" using 1 assms(3) by auto
  then have pj: "?P \<noteq> db_journals b" using assms(1) by auto
  have nD: "\<not> in_journals b ?D" using pj by (simp add: in_journals_def)
  have eff: "?Q r d'" if "export_effect cd req manifest f r (view b d')" for r d' using that load by blast
  show ?case
    unfolding Let_def
  proof (rule post_bind [OF post_uuid], goal_cases)
    case (1 uuid d2)
    then have v2: "view b d2 = f" using v1 view_same by fastforce
    let ?T = "?P @ [''.tdmcp-export-'' @ uuid @ ''.tmp'']"
    have nT: "\<not> in_journals b ?T" using pj by (simp add: in_journals_def)
    have TD: "?T \<noteq> ?D" using assms(2) dne by (auto simp: staged_name_def) (metis last_snoc)
    note un = export_effect_unstaged [OF _ TD, of b _ _ f]
    show ?case
    proof (rule post_bind [OF post_stage [OF nT]], goal_cases)
      case (1 u d3)
      then obtain x where x: "artifact cd manifest x" "f ?T = None" and v3: "view b d3 = f(?T \<mapsto> RegularFile 384 x)"
        by (auto simp: staged_def v2)
      have gone: "export_effect cd req manifest f r g" if "kept f ?T g" "\<And>a. r \<noteq> Done a" for r g
        using that x(2) TD
        by (auto simp: export_effect_def intro!: exI [of _ "\<lparr>ej_id = [], ej_state = Prepared, ej_temp = ?T,
            ej_destination = ?D, ej_backup = None, ej_sha256 = [], ej_bytes = 0\<rparr>"])
      show ?case
      proof (rule post_bind [OF post_uuid], goal_cases)
        case (1 i d4)
        let ?j = "\<lparr>ej_id = i, ej_state = Prepared, ej_temp = ?T, ej_destination = ?D, ej_backup = None,
          ej_sha256 = pm_sha256 manifest, ej_bytes = pm_bytes manifest\<rparr>"
        have v4: "view b d4 = f(?T \<mapsto> RegularFile 384 x)" using 1 v3 view_same by fastforce
        show ?case
        proof (rule post_bind [where P = "\<lambda>r d'. case r of Done _ \<Rightarrow> view b d' = view b d4 | _ \<Rightarrow> kept f ?T (view b d')"],
            goal_cases)
          case 1
          show ?case
            by (rule post_or_discard [OF nT post_keeps [OF keeps_journal_export]])
              (auto simp: v4 kept_def discarded_def)
        next
          case (2 u d5)
          have "post (io_bind (publish b (xr_policy req) ?j) (\<lambda>j.
             io_bind (confirm b ?P j) (\<lambda>_.
             io_pure \<lparr>xp_destination = ?D, xp_backup = ej_backup j,
               xp_bytes = pm_bytes manifest, xp_sha256 = pm_sha256 manifest\<rparr>))) env d5
             (\<lambda>r d'. publish_post (f(?T \<mapsto> RegularFile 384 x)) ?j (xr_policy req) (receipt_of req manifest) r (view b d'))"
            by (rule post_export_published) (use nT nD dne TD 2 v4 in auto)
          then show ?case
            by (rule post_mono) (rule eff, unfold export_effect_def, use x TD in \<open>auto intro!: exI [of _ ?j]\<close>)
        qed (use eff gone in auto)
      qed (use eff gone v3 in \<open>auto simp: kept_def dest: view_same\<close>)
    next
      case (2 e d3)
      then show ?case using un [of d2 d3 "Failed e"] v2 eff by auto
    next
      case (3 d3)
      then show ?case using un [of d2 d3 Crashed] v2 eff by auto
    qed
  qed (use v1 view_same in fastforce)+
qed (use f view_same in fastforce)+

end
