(* ===== verification/ExportClaims.thy ===== *)
theory ExportClaims
  imports ExportSafety
begin

text \<open>
  The claims about exports and their repair after an interruption: what happens to the files
  outside the store, what a success delivers, what an error leaves, and what reopening the store
  makes of a journal it finds.
\<close>

section \<open>Files, from the effect of an export\<close>

lemma kept_at: "kept f temp g \<Longrightarrow> p \<noteq> temp \<Longrightarrow> g p = f p"
  by (auto simp: kept_def)

lemma export_effect_cases:
  assumes "export_effect cd req manifest f r g"
  obtains (kept) temp where "f temp = None" "temp \<noteq> xr_destination req" "\<forall>a. r \<noteq> Done a" "kept f temp g"
  | (ran) temp x j where "f temp = None" "temp = ej_temp j" "temp \<noteq> xr_destination req" "ej_destination j = xr_destination req"
      "artifact cd manifest x" "publish_post (f(temp \<mapsto> RegularFile 384 x)) j (xr_policy req) (receipt_of req manifest) r g"
  using assms unfolding export_effect_def by metis

lemma published_at:
  assumes "published (f(temp \<mapsto> t)) temp dest backup g" "f temp = None"
  shows "g dest = Some t" and "\<And>p. p \<noteq> dest \<Longrightarrow> Some p \<noteq> backup \<Longrightarrow> g p = f p"
    and "case backup of None \<Rightarrow> f dest = None | Some q \<Rightarrow> f dest \<noteq> None \<and> g q = f dest \<and> f q = None \<and> q \<noteq> dest"
proof -
  have td: "temp \<noteq> dest" using assms(1) by (auto simp: published_def)
  show "g dest = Some t" using assms(1) by (auto simp: published_def split: option.splits if_splits)
  show "g p = f p" if "p \<noteq> dest" "Some p \<noteq> backup" for p
    using assms that by (cases backup) (auto simp: published_def)
  show "case backup of None \<Rightarrow> f dest = None | Some q \<Rightarrow> f dest \<noteq> None \<and> g q = f dest \<and> f q = None \<and> q \<noteq> dest"
    using assms td by (cases backup) (auto simp: published_def split: if_splits)
qed

lemma displaced_at:
  assumes "displaced (f(temp \<mapsto> t)) temp dest backup g" "f temp = None" "temp \<noteq> dest"
  shows "f dest \<noteq> None" "g backup = f dest" "\<And>p. p \<noteq> dest \<Longrightarrow> p \<noteq> temp \<Longrightarrow> p \<noteq> backup \<Longrightarrow> g p = f p" "f backup = None"
  using assms by (auto simp: displaced_def split: if_splits)

definition file_safe :: "ExportRequest \<Rightarrow> path \<Rightarrow> node \<Rightarrow> files \<Rightarrow> bool" where
  "file_safe req p n g \<longleftrightarrow> g p = Some n
     \<or> (p = xr_destination req \<and> xr_policy req = BackupAndReplace
        \<and> (\<exists>backup. backup_of (xr_destination req) backup \<and> g backup = Some n))"

lemma arrived_safe:
  assumes "arrived (f(temp \<mapsto> t)) j backup g" "temp = ej_temp j" "ej_destination j = xr_destination req" "f temp = None"
    "f p = Some n" "backup = None \<or> xr_policy req = BackupAndReplace"
  shows "file_safe req p n g"
proof (cases "p = xr_destination req")
  case True
  with published_at [OF assms(1) [unfolded arrived_def, folded assms(2), THEN conjunct1] assms(4)] assms show ?thesis
    by (cases backup) (auto simp: file_safe_def arrived_def)
next
  case False
  with published_at [OF assms(1) [unfolded arrived_def, folded assms(2), THEN conjunct1] assms(4)] assms(3,5) show ?thesis
    by (cases backup) (force simp: file_safe_def)+
qed

lemma export_effect_safe:
  assumes "export_effect cd req manifest f r g" "f p = Some n"
  shows "file_safe req p n g"
  using assms(1)
proof (cases rule: export_effect_cases)
  case (kept temp)
  with assms(2) have "p \<noteq> temp" by auto
  with kept assms(2) show ?thesis by (simp add: file_safe_def kept_at)
next
  case (ran temp x j)
  then have pt: "p \<noteq> temp" using assms(2) by auto
  let ?f = "f(temp \<mapsto> RegularFile 384 x)"
  have t: "touched ?f j (xr_policy req) g" using ran(6) by (simp add: publish_post_def)
  have k: "file_safe req p n g" if "kept ?f (ej_temp j) g"
    using kept_at [OF that] pt ran(2) assms(2) by (simp add: file_safe_def)
  show ?thesis
  proof (cases "xr_policy req")
    case NoOverwrite
    then show ?thesis using t k arrived_safe [OF _ ran(2,4,1) assms(2), of _ None] by (auto simp: touched_def)
  next
    case BackupAndReplace
    have "file_safe req p n g" if "backup_of (ej_destination j) backup" "displaced ?f (ej_temp j) (ej_destination j) backup g" for backup
    proof -
      have d: "displaced ?f temp (xr_destination req) backup g" using that(2) ran(2,4) by simp
      note at = displaced_at [OF d ran(1,3)]
      have "p \<noteq> backup" using at(4) assms(2) by auto
      with at(2,3) that(1) pt ran(4) assms(2) BackupAndReplace show ?thesis
        by (cases "p = xr_destination req") (auto simp: file_safe_def)
    qed
    then show ?thesis
      using t k arrived_safe [OF _ ran(2,4,1) assms(2)] BackupAndReplace by (auto simp: touched_def still_there_def)
  qed
qed


section \<open>The claims about an export\<close>

text \<open>C10: Whatever an export does, killed or failing at any point, every file outside the store's journals that
  was there is still there with its content, except that the destination of a replacing export may
  be found under a backup name beside it.\<close>

theorem export_preserves_files:
  assumes "export_part ev b cd owner req db env d = (r, d')"
    and "db_journals b = db_root b @ [''exports'']" and "\<not> staged_name (xr_destination req)"
    and "fs_canonical env (butlast (xr_destination req)) = butlast (xr_destination req)"
    and "node_at d p = Some n" and "\<not> in_journals b p"
  shows "node_at d' p = Some n
    \<or> (p = xr_destination req \<and> xr_policy req = BackupAndReplace
       \<and> (\<exists>u. node_at d' (butlast p @ [''.tdmcp-backup-'' @ u]) = Some n))"
proof -
  have p: "view b d p = Some n" using assms(5,6) by (simp add: view_at)
  have "file_safe req p n (view b d')"
    using postD [OF post_export [OF assms(2-4) refl] assms(1)]
  proof (elim disjE conjE exE)
    assume "view b d' = view b d"
    with p show ?thesis by (simp add: file_safe_def)
  qed (rule export_effect_safe, assumption, rule p)
  then show ?thesis
    by (auto simp: file_safe_def backup_of_def view_def split: if_splits)
qed

lemma export_done:
  assumes "export_effect cd req manifest f (Done a) g"
  obtains x where "artifact cd manifest x" "g (xr_destination req) = Some (RegularFile 384 x)"
    "receipt_of req manifest (xp_backup a) a"
    "case xp_backup a of None \<Rightarrow> f (xr_destination req) = None
     | Some q \<Rightarrow> backup_of (xr_destination req) q \<and> xr_policy req = BackupAndReplace
         \<and> f (xr_destination req) \<noteq> None \<and> g q = f (xr_destination req) \<and> f q = None"
    "\<forall>p. p \<noteq> xr_destination req \<longrightarrow> Some p \<noteq> xp_backup a \<longrightarrow> g p = f p"
  using assms
proof (cases rule: export_effect_cases)
  case (ran temp x j)
  then obtain backup where b: "arrived (f(temp \<mapsto> RegularFile 384 x)) j backup g" "receipt_of req manifest backup a"
    by (auto simp: publish_post_def)
  have bk: "xp_backup a = backup" using b(2) by (simp add: receipt_of_def)
  have pub: "published (f(temp \<mapsto> RegularFile 384 x)) temp (xr_destination req) backup g"
    using b(1) ran(2,4) by (simp add: arrived_def)
  note at = published_at [OF pub ran(1)]
  have pol: "backup = None" if "xr_policy req = NoOverwrite"
  proof (rule ccontr)
    assume "backup \<noteq> None"
    then obtain q where q: "backup = Some q" by blast
    have old: "f (xr_destination req) \<noteq> None" using at(3) q by simp
    from ran(6) that have "kept (f(temp \<mapsto> RegularFile 384 x)) (ej_temp j) g \<or> arrived (f(temp \<mapsto> RegularFile 384 x)) j None g"
      by (simp add: publish_post_def touched_def)
    then show False
    proof
      assume "kept (f(temp \<mapsto> RegularFile 384 x)) (ej_temp j) g"
      moreover have "q \<noteq> temp" using pub q by (auto simp: published_def)
      ultimately have "g q = f q" using ran(2) kept_at by fastforce
      with at(3) q old show False by auto
    next
      assume "arrived (f(temp \<mapsto> RegularFile 384 x)) j None g"
      then have "published (f(temp \<mapsto> RegularFile 384 x)) temp (xr_destination req) None g" using ran(2,4) by (simp add: arrived_def)
      from published_at(3) [OF this ran(1)] old show False by simp
    qed
  qed
  have "backup = Some q \<Longrightarrow> backup_of (xr_destination req) q" for q using b(1) ran(4) by (simp add: arrived_def)
  moreover have "backup = Some q \<Longrightarrow> xr_policy req = BackupAndReplace" for q using pol by (cases "xr_policy req") auto
  ultimately have "case xp_backup a of None \<Rightarrow> f (xr_destination req) = None
     | Some q \<Rightarrow> backup_of (xr_destination req) q \<and> xr_policy req = BackupAndReplace
         \<and> f (xr_destination req) \<noteq> None \<and> g q = f (xr_destination req) \<and> f q = None"
    using at(3) bk by (auto split: option.splits)
  with ran(5) at(1,2) b(2) bk show ?thesis by (intro that [of x]) auto
qed simp


text \<open>C11: An export that returns a receipt has put exactly the declared bytes, by length and SHA-256, at the
  destination; what was there before is at the backup the receipt names, and there is a backup only
  when the request allowed one; nothing else outside the journals has changed.\<close>

theorem export_delivers:
  assumes "export_part ev b cd owner req db env d = (Done a, d')"
    and "db_journals b = db_root b @ [''exports'']" and "\<not> staged_name (xr_destination req)"
    and "fs_canonical env (butlast (xr_destination req)) = butlast (xr_destination req)"
  shows "\<exists>manifest x. load_part_row ev 2 cd (xr_evidence_id req) (xr_part req) db = Ok manifest
    \<and> node_at d' (xr_destination req) = Some (RegularFile 384 x)
    \<and> length x = unat (pm_bytes manifest) \<and> sha256_hex cd x = pm_sha256 manifest
    \<and> xp_bytes a = pm_bytes manifest \<and> xp_sha256 a = pm_sha256 manifest \<and> xp_destination a = xr_destination req
    \<and> (case xp_backup a of None \<Rightarrow> node_at d (xr_destination req) = None
       | Some q \<Rightarrow> xr_policy req = BackupAndReplace \<and> node_at d q = None
           \<and> node_at d (xr_destination req) \<noteq> None \<and> node_at d' q = node_at d (xr_destination req))
    \<and> (\<forall>p. p = xr_destination req \<or> Some p = xp_backup a \<or> in_journals b p \<or> node_at d' p = node_at d p)"
proof -
  obtain manifest where m: "load_part_row ev 2 cd (xr_evidence_id req) (xr_part req) db = Ok manifest"
    and e: "export_effect cd req manifest (view b d) (Done a) (view b d')"
    using postD [OF post_export [OF assms(2-4) refl] assms(1)] by auto
  obtain x where x: "artifact cd manifest x" "view b d' (xr_destination req) = Some (RegularFile 384 x)"
    "receipt_of req manifest (xp_backup a) a"
    and bk: "case xp_backup a of None \<Rightarrow> view b d (xr_destination req) = None
     | Some q \<Rightarrow> backup_of (xr_destination req) q \<and> xr_policy req = BackupAndReplace
         \<and> view b d (xr_destination req) \<noteq> None \<and> view b d' q = view b d (xr_destination req) \<and> view b d q = None"
    and rest: "\<forall>p. p \<noteq> xr_destination req \<longrightarrow> Some p \<noteq> xp_backup a \<longrightarrow> view b d' p = view b d p"
    by (rule export_done [OF e])
  have nD: "\<not> in_journals b (xr_destination req)" using x(2) by (auto simp: view_def split: if_splits)
  have rec: "xp_bytes a = pm_bytes manifest" "xp_sha256 a = pm_sha256 manifest" "xp_destination a = xr_destination req"
    using x(3) by (cases a; simp add: receipt_of_def)+
  have "case xp_backup a of None \<Rightarrow> node_at d (xr_destination req) = None
       | Some q \<Rightarrow> xr_policy req = BackupAndReplace \<and> node_at d q = None
           \<and> node_at d (xr_destination req) \<noteq> None \<and> node_at d' q = node_at d (xr_destination req)"
  proof (cases "xp_backup a")
    case None
    with bk nD show ?thesis by (simp add: view_at)
  next
    case (Some q)
    with bk have "\<not> in_journals b q" by (auto simp: view_def split: if_splits)
    with Some bk nD show ?thesis by (simp add: view_at)
  qed
  moreover have "\<forall>p. p = xr_destination req \<or> Some p = xp_backup a \<or> in_journals b p \<or> node_at d' p = node_at d p"
    using rest by (metis view_at)
  ultimately show ?thesis using m x rec nD by (auto simp: artifact_def view_at)
qed

text \<open>C12: An export that fails, other than by reporting an uncertain outcome, leaves the destination either as
  it was or holding exactly the declared bytes; a partial file is never left there.\<close>

theorem export_error_is_definite:
  assumes "export_part ev b cd owner req db env d = (Failed e, d')"
    and "db_journals b = db_root b @ [''exports'']" and "\<not> staged_name (xr_destination req)"
    and "fs_canonical env (butlast (xr_destination req)) = butlast (xr_destination req)"
    and "\<not> uncertain e" and "\<not> in_journals b (xr_destination req)"
  shows "node_at d' (xr_destination req) = node_at d (xr_destination req)
    \<or> (\<exists>manifest x. load_part_row ev 2 cd (xr_evidence_id req) (xr_part req) db = Ok manifest
        \<and> node_at d' (xr_destination req) = Some (RegularFile 384 x)
        \<and> length x = unat (pm_bytes manifest) \<and> sha256_hex cd x = pm_sha256 manifest)"
  using postD [OF post_export [OF assms(2-4) refl] assms(1)]
proof (elim disjE conjE exE)
  assume "view b d' = view b d"
  then show ?thesis using assms(6) by (metis view_at)
next
  fix manifest assume m: "load_part_row ev 2 cd (xr_evidence_id req) (xr_part req) db = Ok manifest"
    and e: "export_effect cd req manifest (view b d) (Failed e) (view b d')"
  from e show ?thesis
  proof (cases rule: export_effect_cases)
    case (kept temp)
    then show ?thesis using assms(6) kept_at [of "view b d" temp "view b d'" "xr_destination req"] by (simp add: view_at)
  next
    case (ran temp x j)
    then have "settled ((view b d)(temp \<mapsto> RegularFile 384 x)) j (view b d')"
      using assms(5) by (simp add: publish_post_def)
    then show ?thesis
      unfolding settled_def
    proof (elim disjE exE)
      assume "kept ((view b d)(temp \<mapsto> RegularFile 384 x)) (ej_temp j) (view b d')"
      from kept_at [OF this, of "xr_destination req"] ran show ?thesis using assms(6) by (simp add: view_at)
    next
      fix backup assume "arrived ((view b d)(temp \<mapsto> RegularFile 384 x)) j backup (view b d')"
      then have "published ((view b d)(temp \<mapsto> RegularFile 384 x)) temp (xr_destination req) backup (view b d')"
        using ran(2,4) by (simp add: arrived_def)
      from published_at(1) [OF this ran(1)] ran(5) m show ?thesis using assms(6) by (auto simp: view_at artifact_def)
    qed
  qed
qed

end
