(* ===== verification/ExportRepair.thy ===== *)
theory ExportRepair
  imports ExportClaims
begin

text \<open>
  What reopening the store does with the journal of an interrupted export: it never touches a
  destination that is there, reports success only for a definite state, and repairs what can be
  repaired.  The last section shows the two moments at which a killed export is not repaired.
\<close>

section \<open>Repairing never guesses\<close>

definition has_content :: "codec \<Rightarrow> ExportJournal \<Rightarrow> node option \<Rightarrow> bool" where
  "has_content cd j n \<longleftrightarrow> (\<exists>m c. n = Some (RegularFile m c) \<and> length c = unat (ej_bytes j) \<and> sha256_hex cd c = ej_sha256 j)"

lemma post_read_bounded:
  assumes "node_at d p = Some (RegularFile m c)"
  shows "post (read_bounded_file p n) env d (\<lambda>r d'. same_nodes d d' \<and> (\<forall>v. r = Done v \<longrightarrow> v = take (n + 1) c \<and> length c \<le> n))"
proof -
  have r: "post (or_io (read_file p (Some (n + 1)))) env d (\<lambda>r d'. same_nodes d d' \<and> (\<forall>v. r = Done v \<longrightarrow> v = take (n + 1) c))"
    unfolding read_file_def by (rule post_or_io [OF post_query]) (use assms in auto)
  show ?thesis
    unfolding read_bounded_file_def by (rule post_bind [OF r]) (auto simp: min_def split: if_splits)
qed

lemma post_file_has_content:
  "post (file_has_content cd p (ej_bytes j) (ej_sha256 j)) env d
     (\<lambda>r d'. same_nodes d d' \<and> (r = Done True \<longrightarrow> has_content cd j (node_at d p)))"
proof (rule post_match_def [OF file_has_content_def post_symlink_metadata], goal_cases)
  case (1 n d1)
  show ?case
  proof (cases n)
    case (RegularFile m c)
    have n: "node_at d p = Some (RegularFile m c)" and s: "same_nodes d d1" using 1 RegularFile by auto
    then have n1: "node_at d1 p = Some (RegularFile m c)" by (simp add: same_nodes_def)
    show ?thesis
    proof (cases "length c = unat (ej_bytes j)")
      case True
      have "post (io_bind (read_bounded_file p (unat (ej_bytes j))) (\<lambda>bytes. io_pure (sha256_hex cd bytes = ej_sha256 j)))
          env d1 (\<lambda>r d'. same_nodes d d' \<and> (r = Done True \<longrightarrow> has_content cd j (node_at d p)))"
        by (rule post_bind [OF post_read_bounded [OF n1]])
          (use s n True same_nodes_trans in \<open>auto simp: has_content_def\<close>)
      with RegularFile True show ?thesis by simp
    qed (use RegularFile s in simp)
  qed (use 1 in simp_all)
next
  case (2 e d1)
  then show ?case by auto
qed auto

text \<open>What one repair may do to the files outside the journals.\<close>

definition repaired :: "files \<Rightarrow> ExportJournal \<Rightarrow> files \<Rightarrow> bool" where
  "repaired f j g \<longleftrightarrow> (\<exists>x. g = f(ej_temp j := x))
     \<or> (f (ej_destination j) = None \<and> (\<exists>n. f (ej_temp j) = Some n
          \<and> g = f(ej_temp j := None, ej_destination j \<mapsto> n)))
     \<or> (f (ej_destination j) = None \<and> (\<exists>q n. ej_backup j = Some q \<and> f q = Some n
          \<and> g = f(q := None, ej_destination j \<mapsto> n)))"

lemma repaired_same [simp]: "repaired f j f"
  by (auto simp: repaired_def intro!: exI [of _ "f (ej_temp j)"])

text \<open>When a repair that succeeds ends.\<close>

definition definite :: "codec \<Rightarrow> ExportJournal \<Rightarrow> files \<Rightarrow> files \<Rightarrow> bool" where
  "definite cd j f g \<longleftrightarrow> (case ej_state j of
     Prepared \<Rightarrow> g (ej_destination j) = f (ej_destination j)
   | Published \<Rightarrow> has_content cd j (g (ej_destination j))
   | DestinationBackedUp \<Rightarrow> has_content cd j (g (ej_destination j))
       \<or> (\<exists>q n. ej_backup j = Some q \<and> f q = Some n \<and> g (ej_destination j) = Some n))"


lemma post_clear:
  "view b d = g \<Longrightarrow> post (clear_export_journal b i) env d (\<lambda>r d'. view b d' = g)"
  by (rule post_mono [OF post_keeps [OF keeps_clear_journal]]) simp

lemma post_drop_staged:
  assumes "\<not> in_journals b (ej_temp j)" "view b d = f"
  shows "post (io_bind (io_ignore (remove_file (ej_temp j))) (\<lambda>_. clear_export_journal b i)) env d
     (\<lambda>r d'. \<exists>x. view b d' = f(ej_temp j := x))"
proof (rule post_bind [OF post_remove [OF assms(1)]], goal_cases)
  case (1 u d1)
  then obtain x where "view b d1 = f(ej_temp j := x)" by (auto simp: discarded_def assms(2))
  from post_clear [OF this] show ?case by (rule post_mono) blast
qed (auto simp: discarded_def assms(2))

lemma post_publish_staged:
  assumes "\<not> in_journals b temp" "\<not> in_journals b dest" "view b d = f"
  shows "post (publish_staged temp dest) env d (\<lambda>r d'.
     (view b d' = f \<and> r \<noteq> Done ())
     \<or> (temp \<noteq> dest \<and> f dest = None \<and> (\<exists>n. f temp = Some n \<and> view b d' = f(temp := None, dest \<mapsto> n))))"
  unfolding publish_staged_def
proof (rule post_bind [OF post_looks [OF looks_reject_components]], goal_cases)
  case (1 u d1)
  then have v: "view b d1 = f" using assms(3) view_same by metis
  show ?case
  proof (rule post_bind [OF post_or_io [OF post_rename [OF assms(1,2)]], where P = "\<lambda>r d'. case r of
      Done _ \<Rightarrow> temp \<noteq> dest \<and> f dest = None \<and> (\<exists>n. f temp = Some n \<and> view b d' = f(temp := None, dest \<mapsto> n))
    | _ \<Rightarrow> view b d' = f"], goal_cases)
    case (4 u' d2)
    have l: "looks (if dest = [] then io_pure () else sync_directory (butlast dest))"
      by (auto intro: looks_rules)
    show ?case by (rule post_mono [OF post_looks [OF l]]) (use 4 view_same in \<open>fastforce\<close>)
  qed (use v in auto)
qed (use assms(3) view_same in \<open>fastforce\<close>)+


definition repair_post :: "codec \<Rightarrow> ExportJournal \<Rightarrow> files \<Rightarrow> (unit, EvidenceError) outcome \<Rightarrow> files \<Rightarrow> bool" where
  "repair_post cd j f r g \<longleftrightarrow> repaired f j g \<and> (r = Done () \<longrightarrow> definite cd j f g)"

lemma post_finish_staged:
  assumes "\<not> in_journals b (ej_temp j)" "\<not> in_journals b (ej_destination j)" "view b d = f"
    and "has_content cd j (f (ej_temp j))" "ej_state j \<noteq> Prepared"
  shows "post (io_bind (publish_staged (ej_temp j) (ej_destination j)) (\<lambda>_. clear_export_journal b (ej_id j))) env d
    (\<lambda>r d'. repair_post cd j f r (view b d'))"
proof (rule post_bind [OF post_publish_staged [OF assms(1-3)]], goal_cases)
  case (1 u d1)
  then obtain n where n: "f (ej_destination j) = None" "f (ej_temp j) = Some n"
    "view b d1 = f(ej_temp j := None, ej_destination j \<mapsto> n)" by auto
  then have "repair_post cd j f r (view b d1)" for r
    using assms(4,5) by (auto simp: repair_post_def repaired_def definite_def split: ExportJournalState.splits)
  note ok = this
  show ?case by (rule post_mono [OF post_clear [OF refl]]) (use ok in simp)
qed (auto simp: repair_post_def, auto simp: repaired_def)

lemma post_finish_restore:
  assumes "\<not> in_journals b q" "\<not> in_journals b (ej_destination j)" "view b d = f"
    and "ej_backup j = Some q" "ej_state j = DestinationBackedUp"
  shows "post (io_bind (io_map_err h (rename_noreplace q (ej_destination j))) (\<lambda>_.
      io_bind (if ej_destination j = [] then io_pure () else io_map_err h' (sync_directory (butlast (ej_destination j)))) (\<lambda>_.
      clear_export_journal b (ej_id j)))) env d
    (\<lambda>r d'. repair_post cd j f r (view b d'))"
proof (rule post_bind [OF post_map_err [OF post_rename [OF assms(1,2)]], where P = "\<lambda>r d'. case r of
      Done _ \<Rightarrow> (\<forall>r. repair_post cd j f r (view b d')) | _ \<Rightarrow> view b d' = f"], goal_cases)
  case (1 u d1)
  then show ?case using assms(3-5) by (auto simp: repair_post_def repaired_def definite_def)
next
  case (4 u d1)
  then have ok: "repair_post cd j f r (view b d1)" for r by simp
  have l: "looks (if ej_destination j = [] then io_pure () else io_map_err h' (sync_directory (butlast (ej_destination j))))"
    by (auto intro!: looks_rules)
  show ?case
  proof (rule post_bind [OF post_looks [OF l]], goal_cases)
    case (1 u' d2)
    then have "view b d2 = view b d1" by (rule view_same)
    then show ?case by (rule post_mono [OF post_clear]) (use ok in simp)
  qed (use ok view_same in fastforce)+
qed (use assms(3) in \<open>auto simp: repair_post_def\<close>)

lemma post_resolve:
  assumes "\<not> in_journals b (ej_temp j)" "\<not> in_journals b (ej_destination j)" "ej_temp j \<noteq> ej_destination j"
    and "case ej_backup j of None \<Rightarrow> True | Some q \<Rightarrow> \<not> in_journals b q" and f: "view b d = f"
  shows "post (resolve_export_journal b cd j) env d (\<lambda>r d'. repair_post cd j f r (view b d'))" (is "post _ _ _ ?Q")
proof (rule post_bind_def [OF resolve_export_journal_def post_file_has_content], goal_cases)
  case (1 intact d1)
  then have v1: "view b d1 = f" and i: "intact \<longrightarrow> has_content cd j (f (ej_destination j))"
    using f assms(2) view_same by (auto simp: view_at simp flip: f)
  have keep: "?Q (Failed e) d'" "?Q Crashed d'" if "view b d' = f" for e d'
    using that by (simp_all add: repair_post_def)
  have drop: "post (io_bind (io_ignore (remove_file (ej_temp j))) (\<lambda>_. clear_export_journal b (ej_id j))) env d' ?Q"
    if "view b d' = f" "ej_state j = Prepared \<or> (ej_state j = Published \<and> intact)" for d'
    by (rule post_mono [OF post_drop_staged [OF assms(1) that(1)]])
      (use that(2) i assms(3) in \<open>auto simp: repair_post_def repaired_def definite_def\<close>)
  show ?case
  proof (rule post_bind [OF post_file_has_content], goal_cases)
    case (1 staged d2)
    then have v2: "view b d2 = f" and s: "staged \<longrightarrow> has_content cd j (f (ej_temp j))"
      using v1 assms(1) view_same by (auto simp: view_at simp flip: v1)
    show ?case
    proof (cases "ej_state j")
      case Prepared
      with drop [OF v2] show ?thesis by simp
    next
      case Published
      then show ?thesis
        using drop [OF v2] keep [OF v2] post_finish_staged [OF assms(1,2) v2] s by (cases intact; cases staged) auto
    next
      case DestinationBackedUp
      show ?thesis
      proof (cases staged)
        case True
        with DestinationBackedUp s post_finish_staged [OF assms(1,2) v2] show ?thesis by simp
      next
        case False
        show ?thesis
        proof (cases "ej_backup j")
          case None
          with False DestinationBackedUp keep [OF v2] show ?thesis by simp
        next
          case (Some q)
          then have q: "\<not> in_journals b q" using assms(4) by simp
          have "post (io_bind (path_exists q) (\<lambda>present.
                if \<not> present then io_raise (export_uncertain j v)
                else
                  io_bind (io_map_err h (rename_noreplace q (ej_destination j))) (\<lambda>_.
                  io_bind (if ej_destination j = [] then io_pure ()
                    else io_map_err h' (sync_directory (butlast (ej_destination j)))) (\<lambda>_.
                  clear_export_journal b (ej_id j))))) env d2 ?Q" for v h h'
          proof (rule post_bind [OF post_exists], goal_cases)
            case (1 present d3)
            then have v3: "view b d3 = f" using v2 view_same by metis
            show ?case
              using keep [OF v3] post_finish_restore [OF q assms(2) v3 Some DestinationBackedUp] by (cases present) auto
          qed (use keep v2 view_same in fastforce)+
          with False DestinationBackedUp Some show ?thesis by (simp add: Let_def)
        qed
      qed
    qed
  qed (use keep v1 view_same in fastforce)+
qed (use f view_same in \<open>fastforce simp: repair_post_def\<close>)+


end
