(* ===== verification/ExportDemo.thy ===== *)
theory ExportDemo
  imports ExportRepair EvidenceDemo
begin

text \<open>
  One evidence store on one disk, evaluated: the committed observation of \<open>EvidenceDemo\<close> is
  exported over an existing file, killed in the middle, and the store is opened again.
\<close>

section \<open>The disk\<close>

definition demo_blobs :: disk_blobs where
  "demo_blobs = \<lparr>db_root = [''s''], db_blobs = [''s'', ''blobs''], db_staging = [''s'', ''staging''],
     db_journals = [''s'', ''exports'']\<rparr>"

definition demo_dirs :: nodes where
  "demo_dirs = [([], Directory 493), ([''s''], Directory 448), ([''s'', ''blobs''], Directory 448),
     ([''s'', ''staging''], Directory 448), ([''s'', ''exports''], Directory 448),
     ([''s'', ''blobs'', demo_sha], RegularFile 384 ''hi''), ([''o''], Directory 493)]"

abbreviation demo_dest :: path where "demo_dest \<equiv> [''o'', ''f'']"

abbreviation demo_temp :: path where "demo_temp \<equiv> [''o'', ''.tdmcp-export-1.tmp'']"

abbreviation demo_backup :: path where "demo_backup \<equiv> [''o'', ''.tdmcp-backup-3'']"

definition demo_disk :: disk where
  "demo_disk = \<lparr>fs_nodes = demo_dirs @ [(demo_dest, RegularFile 420 ''old'')], fs_tick = 0\<rparr>"

definition demo_journal :: "ExportJournalState \<Rightarrow> path option \<Rightarrow> ExportJournal" where
  "demo_journal s q = \<lparr>ej_id = ''2'', ej_state = s, ej_temp = demo_temp, ej_destination = demo_dest,
     ej_backup = q, ej_sha256 = demo_sha, ej_bytes = 2\<rparr>"

text \<open>A serialiser that knows the journals of this run.\<close>

definition demo_journal_to :: "ExportJournal \<Rightarrow> (string, string) result" where
  "demo_journal_to j = (case (ej_state j, ej_backup j) of
      (Prepared, None) \<Rightarrow> Ok ''P'' | (DestinationBackedUp, Some _) \<Rightarrow> Ok ''B''
    | (Published, Some _) \<Rightarrow> Ok ''U'' | (Published, None) \<Rightarrow> Ok ''N'' | _ \<Rightarrow> Err [])"

definition demo_journal_of :: "string \<Rightarrow> (ExportJournal, string) result" where
  "demo_journal_of s = (if s = ''P'' then Ok (demo_journal Prepared None)
     else if s = ''B'' then Ok (demo_journal DestinationBackedUp (Some demo_backup))
     else if s = ''U'' then Ok (demo_journal Published (Some demo_backup))
     else if s = ''N'' then Ok (demo_journal Published None) else Err [])"

text \<open>The UUIDs that end up in names are drawn at ticks 3, 9 and 19.\<close>

definition demo_uuid :: "nat \<Rightarrow> string" where
  "demo_uuid t = (if t = 3 then ''1'' else if t = 9 then ''2'' else if t = 19 then ''3'' else ''0'')"

definition demo_fs :: "(nat \<Rightarrow> fault) \<Rightarrow> fs_env" where
  "demo_fs faults = \<lparr>fs_fault = faults, fs_uuid = demo_uuid, fs_text = (\<lambda>_. ''io''), fs_canonical = (\<lambda>p. p),
     fs_inode = (\<lambda>_ _. 0), fs_locked = False, fs_inject = (\<lambda>_. Ok ()), fs_journal_to = demo_journal_to,
     fs_journal_of = demo_journal_of\<rparr>"

definition demo_export :: "ExportPolicy \<Rightarrow> ExportRequest" where
  "demo_export policy = \<lparr>xr_evidence_id = ''e_1'', xr_part = ''p'', xr_destination = demo_dest, xr_policy = policy\<rparr>"

section \<open>Evaluating file-system programs\<close>

lemma bind_eval:
  "io_bind m f env d = (case m env d of (Done a, d') \<Rightarrow> f a env d' | (Failed e, d') \<Rightarrow> (Failed e, d')
     | (Crashed, d') \<Rightarrow> (Crashed, d'))"
  by (simp add: io_bind_def io_match_def io_raise_def split: prod.splits outcome.splits)

lemma pure_eval:
  "io_pure a env d = (Done a, d)" "io_raise e env d = (Failed e, d)"
  "io_lift r env d = (case r of Ok a \<Rightarrow> (Done a, d) | Err e \<Rightarrow> (Failed e, d))"
  by (simp_all add: io_pure_def io_raise_def io_lift_def split: result.splits)

text \<open>Only the next program is evaluated, not what follows it.\<close>

lemma bind_cong: "m = m' \<Longrightarrow> io_bind m f = io_bind m' f"
  by simp

lemma match_cong: "m = m' \<Longrightarrow> io_match m f h = io_match m' f h"
  by simp

lemma demo_fs_simps:
  "fs_fault (demo_fs fl) = fl" "fs_text (demo_fs fl) k = ''io''" "fs_uuid (demo_fs fl) t = demo_uuid t"
  "fs_canonical (demo_fs fl) p = p" "fs_inject (demo_fs fl) pt = Ok ()"
  "fs_journal_to (demo_fs fl) = demo_journal_to" "fs_journal_of (demo_fs fl) = demo_journal_of"
  by (simp_all add: demo_fs_def)

lemmas io_eval = bind_eval io_match_def pure_eval or_io_def io_map_err_def io_ignore_def fs_query_def fs_effect_def
  fs_step_def Let_def map_ok_def new_uuid_def demo_fs_simps

lemmas fs_prims = symlink_metadata_def path_exists_def create_new_def write_all_def append_bytes_def sync_all_def
  remove_file_def reject_nul_def contains_nul_def rename_noreplace_def rename_exclusive_def rename_replace_def
  rename_over_def move_def read_file_def canonicalize_def is_directory_def

text \<open>The directories stay; \<open>ns\<close> is what a run changes.\<close>

definition demo_nodes :: "nodes \<Rightarrow> nodes" where
  "demo_nodes ns = demo_dirs @ ns"

definition demo_tick :: "nodes \<Rightarrow> nat \<Rightarrow> disk" where
  "demo_tick ns t = \<lparr>fs_nodes = demo_nodes ns, fs_tick = t\<rparr>"

abbreviation demo_old :: "path \<times> node" where
  "demo_old \<equiv> (demo_dest, RegularFile 420 ''old'')"

abbreviation demo_kept :: "path \<times> node" where
  "demo_kept \<equiv> (demo_backup, RegularFile 420 ''old'')"

abbreviation demo_staged :: "path \<times> node" where
  "demo_staged \<equiv> (demo_temp, RegularFile 384 ''hi'')"

abbreviation demo_note :: "string \<Rightarrow> path \<times> node" where
  "demo_note s \<equiv> ([''s'', ''exports'', ''2.json''], RegularFile 384 s)"

lemma demo_lookup:
  "lookup (demo_nodes ns) [] = Some (Directory 493)" "lookup (demo_nodes ns) [''s''] = Some (Directory 448)"
  "lookup (demo_nodes ns) [''o''] = Some (Directory 493)"
  "lookup (demo_nodes ns) [''s'', ''exports''] = Some (Directory 448)"
  "lookup (demo_nodes ns) [''o'', n] = lookup ns [''o'', n]"
  "lookup (demo_nodes ns) [''s'', ''exports'', n] = lookup ns [''s'', ''exports'', n]"
  "lookup (demo_nodes ns) [''s'', ''blobs'', demo_sha] = Some (RegularFile 384 ''hi'')"
  by (simp_all add: demo_nodes_def demo_dirs_def)

lemma demo_update:
  "AList.update [''o'', n] x (demo_nodes ns) = demo_nodes (AList.update [''o'', n] x ns)"
  "AList.update [''s'', ''exports'', n] x (demo_nodes ns) = demo_nodes (AList.update [''s'', ''exports'', n] x ns)"
  "AList.delete [''o'', n] (demo_nodes ns) = demo_nodes (AList.delete [''o'', n] ns)"
  "AList.delete [''s'', ''exports'', n] (demo_nodes ns) = demo_nodes (AList.delete [''s'', ''exports'', n] ns)"
  by (simp_all add: demo_nodes_def demo_dirs_def)

lemmas demo_disk_eval = demo_tick_def demo_lookup demo_update demo_blobs_def demo_uuid_def

section \<open>The phases of the run\<close>

lemma demo_admitted:
  assumes "\<And>t. t < 17 \<Longrightarrow> fl t = Fine"
  shows "export_admit (demo_env ''5'') demo_blobs demo_codec ''al'' (demo_export pol) (demo_db ''e_1'' ''complete'' True)
    (demo_fs fl) (demo_tick [demo_old] 0) = (Done demo_part, demo_tick [demo_old] 3)"
  by (simp add: export_admit_def io_eval fs_prims demo_disk_eval demo_eval demo_export_def demo_load_part assms
      reject_export_destination_def authorize_def reject_destination_symlink_def demo_lookups check_readable_status_def
      fail_if_def status_defs cong: bind_cong match_cong)

lemma demo_stage:
  assumes "\<And>t. t < 17 \<Longrightarrow> fl t = Fine"
  shows "stage_artifact (demo_env ''5'') demo_blobs demo_codec (demo_export pol) demo_part (demo_db ''e_1'' ''complete'' True)
    demo_temp (demo_fs fl) (demo_tick [demo_old] 4) = (Done (), demo_tick [demo_old, demo_staged] 9)"
  by (simp add: stage_artifact_def create_private_file_def io_eval fs_prims demo_disk_eval demo_eval demo_export_def demo_lookups assms
      or_discard_def write_artifact_def disk_checked_chunk_def disk_get_def read_bounded_file_def blob_path_def fail_if_def
      len_u64_def checked_add_def demo_part_def cong: bind_cong match_cong)

lemmas demo_journal_eval = journal_export_def json_string_def io_eval fs_prims demo_disk_eval create_private_file_def
  journal_path_def sync_directory_def demo_journal_def demo_journal_to_def byte_def

lemma demo_write_prepared:
  assumes "\<And>t. t < 17 \<Longrightarrow> fl t = Fine"
  shows "journal_export demo_blobs (demo_journal Prepared None) (demo_fs fl) (demo_tick [demo_old, demo_staged] 10)
    = (Done (), demo_tick [demo_old, demo_staged, demo_note ''P''] 17)"
  by (simp add: demo_journal_eval assms cong: bind_cong match_cong)

lemma demo_started:
  assumes "\<And>t. t < 17 \<Longrightarrow> fl t = Fine"
  shows "export_part (demo_env ''5'') demo_blobs demo_codec ''al'' (demo_export pol) (demo_db ''e_1'' ''complete'' True)
      (demo_fs fl) (demo_tick [demo_old] 0)
    = io_bind (publish demo_blobs pol (demo_journal Prepared None)) (\<lambda>j.
      io_bind (confirm demo_blobs [''o''] j) (\<lambda>_.
      io_pure \<lparr>xp_destination = demo_dest, xp_backup = ej_backup j, xp_bytes = 2, xp_sha256 = demo_sha\<rparr>))
      (demo_fs fl) (demo_tick [demo_old, demo_staged, demo_note ''P''] 17)"
proof -
  note ev = bind_eval new_uuid_def Let_def demo_fs_simps demo_uuid_def demo_tick_def
  have x: "xr_destination (demo_export pol) = demo_dest" "xr_policy (demo_export pol) = pol" by (simp_all add: demo_export_def)
  have p: "pm_sha256 demo_part = demo_sha" "pm_bytes demo_part = 2" by (simp_all add: demo_part_def)
  have w: "or_discard demo_temp (journal_export demo_blobs (demo_journal Prepared None)) (demo_fs fl) (demo_tick [demo_old, demo_staged] 10)
    = (Done (), demo_tick [demo_old, demo_staged, demo_note ''P''] 17)"
    by (simp add: or_discard_def io_match_def demo_write_prepared assms pure_eval)
  show ?thesis
    using demo_admitted [of fl pol] demo_stage [of fl pol] w assms
    by (simp add: export_part_def ev x p demo_journal_def cong: bind_cong)
      (simp add: x p split: prod.splits outcome.splits)
qed

lemma demo_displaced:
  assumes "\<And>t. t < 21 \<Longrightarrow> fl t = Fine"
  shows "publish demo_blobs BackupAndReplace (demo_journal Prepared None) (demo_fs fl)
      (demo_tick [demo_old, demo_staged, demo_note ''P''] 17)
    = io_bind (io_match (journal_export demo_blobs (demo_journal DestinationBackedUp (Some demo_backup)))
          (\<lambda>_. io_pure (demo_journal DestinationBackedUp (Some demo_backup)))
          (\<lambda>e. io_raise (export_uncertain (demo_journal DestinationBackedUp (Some demo_backup)) (error_text e))))
        (publish_replacing demo_blobs) (demo_fs fl) (demo_tick [demo_staged, demo_note ''P'', demo_kept] 21)"
  by (simp add: publish_def displace_def io_eval fs_prims demo_disk_eval demo_journal_def byte_def assms cong: bind_cong match_cong)
    (simp add: demo_blobs_def demo_journal_def split: prod.splits outcome.splits)

lemma demo_write_displaced:
  assumes "\<And>t. t < 28 \<Longrightarrow> fl t = Fine"
  shows "journal_export demo_blobs (demo_journal DestinationBackedUp (Some demo_backup)) (demo_fs fl)
      (demo_tick [demo_staged, demo_note ''P'', demo_kept] 21)
    = (Done (), demo_tick [demo_staged, demo_note ''B'', demo_kept] 28)"
  by (simp add: demo_journal_eval assms cong: bind_cong match_cong)

lemma demo_replacing:
  assumes "\<And>t. t < 29 \<Longrightarrow> fl t = Fine"
  shows "publish_replacing demo_blobs (demo_journal DestinationBackedUp (Some demo_backup)) (demo_fs fl)
      (demo_tick [demo_staged, demo_note ''B'', demo_kept] 28)
    = io_bind (journal_export demo_blobs (demo_journal Published (Some demo_backup)))
        (\<lambda>_. io_pure (demo_journal Published (Some demo_backup)))
        (demo_fs fl) (demo_tick [demo_note ''B'', demo_kept, (demo_dest, RegularFile 384 ''hi'')] 29)"
  by (simp add: publish_replacing_def io_eval fs_prims demo_disk_eval demo_journal_def byte_def assms cong: bind_cong match_cong)
    (simp add: demo_blobs_def demo_journal_def split: prod.splits outcome.splits)

lemma demo_write_published:
  assumes "\<And>t. t < 36 \<Longrightarrow> fl t = Fine"
  shows "journal_export demo_blobs (demo_journal Published (Some demo_backup)) (demo_fs fl)
      (demo_tick [demo_note ''B'', demo_kept, (demo_dest, RegularFile 384 ''hi'')] 29)
    = (Done (), demo_tick [demo_note ''U'', demo_kept, (demo_dest, RegularFile 384 ''hi'')] 36)"
  by (simp add: demo_journal_eval assms cong: bind_cong match_cong)

lemma demo_confirmed:
  assumes "\<And>t. fl t = Fine"
  shows "confirm demo_blobs [''o''] (demo_journal Published (Some demo_backup)) (demo_fs fl)
      (demo_tick [demo_note ''U'', demo_kept, (demo_dest, RegularFile 384 ''hi'')] 36)
    = (Done (), demo_tick [demo_kept, (demo_dest, RegularFile 384 ''hi'')] 41)"
  by (simp add: confirm_def clear_export_journal_def demo_journal_eval assms cong: bind_cong match_cong)

section \<open>Three runs\<close>

definition demo_run :: "ExportPolicy \<Rightarrow> (nat \<Rightarrow> fault) \<Rightarrow> (ExportReceipt, EvidenceError) outcome \<times> disk" where
  "demo_run pol fl = export_part (demo_env ''5'') demo_blobs demo_codec ''al'' (demo_export pol)
     (demo_db ''e_1'' ''complete'' True) (demo_fs fl) (demo_tick [demo_old] 0)"

definition killed_at :: "nat \<Rightarrow> nat \<Rightarrow> fault" where
  "killed_at k t = (if t = k then Killed 0 else Fine)"

text \<open>Undisturbed.\<close>

lemma demo_calm_run:
  "demo_run BackupAndReplace (\<lambda>_. Fine)
     = (Done \<lparr>xp_destination = demo_dest, xp_backup = Some demo_backup, xp_bytes = 2, xp_sha256 = demo_sha\<rparr>,
        demo_tick [demo_kept, (demo_dest, RegularFile 384 ''hi'')] 41)"
  by (simp add: demo_run_def demo_started demo_displaced demo_write_displaced demo_replacing demo_write_published
      demo_confirmed bind_eval io_match_def pure_eval cong: bind_cong match_cong) (simp add: demo_journal_def)

text \<open>Refused, because the destination exists.\<close>

lemma demo_refused_run:
  "demo_run NoOverwrite (\<lambda>_. Fine) = (Failed (EvIo ''io''), demo_tick [demo_old] 22)"
  by (simp add: demo_run_def demo_started)
    (simp add: publish_def publish_new_def clear_export_journal_def demo_journal_eval cong: bind_cong match_cong)

text \<open>Killed after the original moved away, and killed after the artifact arrived: each time before the
  journal says so.\<close>

lemma demo_killed_moving:
  "demo_run BackupAndReplace (killed_at 22) = (Crashed, demo_tick [demo_staged, demo_note ''P'', demo_kept] 23)"
  by (simp add: demo_run_def demo_started demo_displaced killed_at_def bind_eval)
    (simp add: demo_journal_eval killed_at_def cong: bind_cong match_cong)

lemma demo_killed_publishing:
  "demo_run BackupAndReplace (killed_at 30)
     = (Crashed, demo_tick [demo_note ''B'', demo_kept, (demo_dest, RegularFile 384 ''hi'')] 31)"
  by (simp add: demo_run_def demo_started demo_displaced demo_write_displaced demo_replacing killed_at_def bind_eval
      io_match_def pure_eval)
    (simp add: demo_journal_eval killed_at_def cong: bind_cong match_cong)

section \<open>Opening the store again\<close>

lemma demo_children: "children (demo_nodes ns) [''s'', ''exports''] 
    = map last (filter (\<lambda>q. q \<noteq> [] \<and> butlast q = [''s'', ''exports'']) (map fst ns))"
  by (simp add: demo_nodes_def demo_dirs_def children_def)

lemmas demo_reopen_eval = reconcile_exports_def list_export_journals_def read_dir_def demo_children
  collect_journals.simps ends_with_def demo_journal_of_def sort_key_def resolve_export_journal_def file_has_content_def
  read_bounded_file_def clear_export_journal_def publish_staged_def

lemma demo_reopen_moved:
  "reconcile_exports demo_blobs demo_codec (demo_fs (\<lambda>_. Fine)) (demo_tick [demo_staged, demo_note ''P'', demo_kept] n)
     = (Done (), demo_tick [demo_kept] (n + 10))"
  by (simp add: demo_reopen_eval demo_journal_eval demo_hash cong: bind_cong match_cong)

lemma demo_reopen_published:
  "reconcile_exports demo_blobs demo_codec (demo_fs (\<lambda>_. Fine))
       (demo_tick [demo_note ''B'', demo_kept, (demo_dest, RegularFile 384 ''hi'')] n)
     = (Failed (export_uncertain (demo_journal DestinationBackedUp (Some demo_backup))
          (''restoring the displaced original failed (io)'')),
        demo_tick [demo_note ''B'', demo_kept, (demo_dest, RegularFile 384 ''hi'')] (n + 8))"
  by (simp add: demo_reopen_eval demo_journal_eval demo_hash cong: bind_cong match_cong)

section \<open>The properties at these runs\<close>

lemma demo_export_simps:
  "xr_destination (demo_export pol) = demo_dest" "xr_policy (demo_export pol) = pol"
  "xr_evidence_id (demo_export pol) = ''e_1''" "xr_part (demo_export pol) = ''p''"
  by (simp_all add: demo_export_def)

lemma demo_admissible:
  "db_journals demo_blobs = db_root demo_blobs @ [''exports'']" "\<not> staged_name demo_dest"
  "fs_canonical (demo_fs fl) (butlast demo_dest) = butlast demo_dest" "\<not> in_journals demo_blobs [''o'', n]"
  by (simp_all add: demo_blobs_def staged_name_def demo_fs_simps in_journals_def)

lemma demo_tick_simps:
  "fs_nodes (demo_tick ns t) = demo_nodes ns" "(demo_tick ns t)\<lparr>fs_tick := n\<rparr> = demo_tick ns n"
  by (simp_all add: demo_tick_def)

lemmas demo_there = demo_export_simps demo_admissible demo_tick_simps demo_lookup demo_fs_simps

theorem export_preserves_files_witness:
  "fst (demo_run BackupAndReplace (killed_at 22)) = Crashed
   \<and> node_at (snd (demo_run BackupAndReplace (killed_at 22))) demo_dest = None
   \<and> (\<exists>u. node_at (snd (demo_run BackupAndReplace (killed_at 22))) [''o'', ''.tdmcp-backup-'' @ u]
        = Some (RegularFile 420 ''old''))"
  using export_preserves_files [OF demo_killed_moving [unfolded demo_run_def], of demo_dest "RegularFile 420 ''old''"]
    demo_killed_moving
  by (auto simp: demo_there)

theorem export_delivers_witness:
  "fst (demo_run BackupAndReplace (\<lambda>_. Fine))
     = Done \<lparr>xp_destination = demo_dest, xp_backup = Some demo_backup, xp_bytes = 2, xp_sha256 = demo_sha\<rparr>
   \<and> (\<exists>x. node_at (snd (demo_run BackupAndReplace (\<lambda>_. Fine))) demo_dest = Some (RegularFile 384 x) \<and> length x = 2)"
  using export_delivers [OF demo_calm_run [unfolded demo_run_def]] demo_calm_run
  by (auto simp: demo_there demo_load_part demo_part_def)

theorem export_error_is_definite_witness:
  "fst (demo_run NoOverwrite (\<lambda>_. Fine)) = Failed (EvIo ''io'')
   \<and> node_at (snd (demo_run NoOverwrite (\<lambda>_. Fine))) demo_dest = Some (RegularFile 420 ''old'')"
proof -
  have "\<not> uncertain (EvIo ''io'')" by (simp add: uncertain_def)
  from export_error_is_definite [OF demo_refused_run [unfolded demo_run_def] _ _ _ this] demo_refused_run show ?thesis
    by (simp add: demo_there)
qed

text \<open>C14: An export killed between moving the original away and recording that in its journal is not repaired:
  reopening reports success, drops the staged artifact and leaves the destination missing.  One
  killed between publishing the artifact and recording that is never repaired: every reopening
  fails with an uncertain outcome, although the destination holds the artifact.\<close>

theorem export_crash_windows:
  "fst (demo_run BackupAndReplace (killed_at 22)) = Crashed
   \<and> fst (reconcile_exports demo_blobs demo_codec (demo_fs (\<lambda>_. Fine)) (snd (demo_run BackupAndReplace (killed_at 22)))) = Done ()
   \<and> node_at (snd (reconcile_exports demo_blobs demo_codec (demo_fs (\<lambda>_. Fine)) (snd (demo_run BackupAndReplace (killed_at 22)))))
       = (node_at (demo_tick [demo_old] 0))(demo_dest := None, demo_backup \<mapsto> RegularFile 420 ''old'')
   \<and> fst (demo_run BackupAndReplace (killed_at 30)) = Crashed
   \<and> node_at (snd (demo_run BackupAndReplace (killed_at 30))) demo_dest = Some (RegularFile 384 ''hi'')
   \<and> (\<forall>n. \<exists>e. uncertain e \<and> reconcile_exports demo_blobs demo_codec (demo_fs (\<lambda>_. Fine))
        ((snd (demo_run BackupAndReplace (killed_at 30)))\<lparr>fs_tick := n\<rparr>)
        = (Failed e, (snd (demo_run BackupAndReplace (killed_at 30)))\<lparr>fs_tick := n + 8\<rparr>))"
proof -
  have a: "node_at (demo_tick [demo_kept] 33) = (node_at (demo_tick [demo_old] 0))(demo_dest := None, demo_backup \<mapsto> RegularFile 420 ''old'')"
    by (simp add: demo_tick_def demo_nodes_def demo_dirs_def fun_eq_iff)
  have "reconcile_exports demo_blobs demo_codec (demo_fs (\<lambda>_. Fine)) (snd (demo_run BackupAndReplace (killed_at 22)))
      = (Done (), demo_tick [demo_kept] 33)"
    by (simp add: demo_killed_moving demo_reopen_moved)
  with a show ?thesis
    by (simp add: demo_killed_moving demo_killed_publishing demo_reopen_published demo_tick_simps demo_lookup)
qed

lemma demo_resolve:
  "resolve_export_journal demo_blobs demo_codec (demo_journal DestinationBackedUp (Some demo_backup))
     (demo_fs (\<lambda>_. Fine)) (demo_tick [demo_staged, demo_note ''B'', demo_kept] 0)
   = (Done (), demo_tick [demo_kept, (demo_dest, RegularFile 384 ''hi'')] 12)"
  by (simp add: resolve_export_journal_def file_has_content_def read_bounded_file_def clear_export_journal_def
      publish_staged_def reject_symlink_components_def ancestors_def reject_symlink_def upt_rec
      demo_journal_eval demo_hash cong: bind_cong match_cong)


end
