(* ===== verification/DaemonLink.thy ===== *)
theory DaemonLink
  imports Rust_Std
begin

text \<open>
  The link of the stdio proxy to the daemon, \<open>crates/tdmcp-mcp/src/daemon_link.rs\<close>: its timing
  configuration, the health mark, the reconnect (\<open>heal\<close>) cut at its \<open>await\<close>s, and the watcher.
  Durations and instants are natural numbers of nanoseconds; \<open>Instant::elapsed\<close> is the truncated
  difference.  HTTP is an input: whether the health probe succeeded and which session a connect
  gave.  None of the mutexes can be poisoned: nothing that runs under them panics.
\<close>

section \<open>Configuration\<close>

definition from_millis :: "nat \<Rightarrow> nat" where
  "from_millis n = n * 1000000"

definition DURATION_MAX :: nat where
  "DURATION_MAX = (2 ^ 64 - 1) * 1000000000 + 999999999"

definition duration_add :: "nat \<Rightarrow> nat \<Rightarrow> nat" where
  "duration_add a b = min (a + b) DURATION_MAX"

definition duration_mul :: "nat \<Rightarrow> nat \<Rightarrow> nat" where
  "duration_mul a k = min (a * k) DURATION_MAX"

definition HEAL_GATE_WAIT :: nat where
  "HEAL_GATE_WAIT = from_millis 5000"

definition RESPAWN_COOLDOWN :: nat where
  "RESPAWN_COOLDOWN = from_millis 10000"

definition DEFAULT_SPAWN_WAIT :: nat where
  "DEFAULT_SPAWN_WAIT = from_millis 60000"

record ReconnectConfig =
  rc_recent :: nat
  rc_stale :: nat
  rc_debounce :: nat
  rc_probe_interval :: nat
  rc_probe_max :: nat
  rc_call_timeout :: nat
  rc_script_timeout :: nat
  rc_list_timeout :: nat
  rc_launch_margin :: nat
  rc_launch_max :: nat

definition reconnect_default :: ReconnectConfig where
  "reconnect_default = \<lparr>rc_recent = from_millis 3000, rc_stale = from_millis 15000, rc_debounce = from_millis 250,
     rc_probe_interval = from_millis 500, rc_probe_max = from_millis 5000, rc_call_timeout = from_millis 105000,
     rc_script_timeout = from_millis 180000, rc_list_timeout = from_millis 30000,
     rc_launch_margin = from_millis 15000, rc_launch_max = from_millis (10 * 60000)\<rparr>"

definition parse_ms :: "string option \<Rightarrow> nat \<Rightarrow> nat" where
  "parse_ms raw preset =
     (case raw of
        None \<Rightarrow> preset
      | Some s \<Rightarrow> (case parse_uint (2 ^ 64 - 1) (trim s) of Some ms \<Rightarrow> from_millis ms | None \<Rightarrow> preset))"

definition from_env_vars :: "string option \<Rightarrow> string option \<Rightarrow> string option \<Rightarrow> string option \<Rightarrow> string option
    \<Rightarrow> string option \<Rightarrow> string option \<Rightarrow> string option \<Rightarrow> ReconnectConfig" where
  "from_env_vars recent stale debounce probe_interval probe_max call_timeout script_timeout list_timeout =
     (let d = reconnect_default in
      \<lparr>rc_recent = parse_ms recent (rc_recent d), rc_stale = parse_ms stale (rc_stale d),
       rc_debounce = parse_ms debounce (rc_debounce d),
       rc_probe_interval = parse_ms probe_interval (rc_probe_interval d),
       rc_probe_max = parse_ms probe_max (rc_probe_max d),
       rc_call_timeout = parse_ms call_timeout (rc_call_timeout d),
       rc_script_timeout = parse_ms script_timeout (rc_script_timeout d),
       rc_list_timeout = parse_ms list_timeout (rc_list_timeout d),
       rc_launch_margin = rc_launch_margin d, rc_launch_max = rc_launch_max d\<rparr>)"

definition tool_call_budget :: "ReconnectConfig \<Rightarrow> string \<Rightarrow> nat" where
  "tool_call_budget cfg name =
     (if name = ''execute_python'' \<or> name = ''mutate_nodes'' \<or> name = ''palette_probe'' then rc_script_timeout cfg
      else rc_call_timeout cfg)"

definition launch_budget :: "ReconnectConfig \<Rightarrow> nat option \<Rightarrow> nat" where
  "launch_budget cfg requested_wait =
     (let requested = (case requested_wait of Some w \<Rightarrow> w | None \<Rightarrow> DEFAULT_SPAWN_WAIT)
      in min (duration_add requested (rc_launch_margin cfg)) (rc_launch_max cfg))"

section \<open>The link\<close>

text \<open>A session is the number of the connection it came from; \<open>0\<close> is the one made at start.\<close>

record link =
  lk_session :: nat
  lk_generation :: u64
  lk_unhealthy :: "nat option"
  lk_last_downtime :: "nat option"
  lk_last_probe :: "nat option"
  lk_reconnects :: u64
  lk_can_respawn :: bool
  lk_last_respawn :: "nat option"

definition connect_with_respawn :: "bool \<Rightarrow> link" where
  "connect_with_respawn respawn = \<lparr>lk_session = 0, lk_generation = 0, lk_unhealthy = None, lk_last_downtime = None,
     lk_last_probe = None, lk_reconnects = 0, lk_can_respawn = respawn, lk_last_respawn = None\<rparr>"

definition is_unhealthy :: "link \<Rightarrow> bool" where
  "is_unhealthy l \<longleftrightarrow> lk_unhealthy l \<noteq> None"

definition mark_unhealthy :: "nat \<Rightarrow> link \<Rightarrow> link" where
  "mark_unhealthy now l = (if lk_unhealthy l = None then l\<lparr>lk_unhealthy := Some now\<rparr> else l)"

definition downtime :: "nat \<Rightarrow> link \<Rightarrow> nat option" where
  "downtime now l = (case lk_unhealthy l of Some since \<Rightarrow> Some (now - since) | None \<Rightarrow> lk_last_downtime l)"

definition debounced :: "ReconnectConfig \<Rightarrow> nat \<Rightarrow> link \<Rightarrow> bool" where
  "debounced cfg now l = (case lk_last_probe l of Some t \<Rightarrow> now - t < rc_debounce cfg | None \<Rightarrow> False)"

definition note_probe :: "nat \<Rightarrow> link \<Rightarrow> link" where
  "note_probe now l = l\<lparr>lk_last_probe := Some now\<rparr>"

definition clear_unhealthy :: "nat \<Rightarrow> link \<Rightarrow> nat option \<times> link" where
  "clear_unhealthy now l =
     (let downtime = map_option (\<lambda>t. now - t) (lk_unhealthy l)
      in (downtime, l\<lparr>lk_unhealthy := None, lk_last_downtime := downtime\<rparr>))"

definition unmark_unhealthy :: "link \<Rightarrow> link" where
  "unmark_unhealthy l = l\<lparr>lk_unhealthy := None\<rparr>"

definition option_or :: "'a option \<Rightarrow> 'a option \<Rightarrow> 'a option" where
  "option_or a b = (case a of Some _ \<Rightarrow> a | None \<Rightarrow> b)"

text \<open>\<open>true\<close> when the hook is fired.\<close>

definition maybe_trigger_respawn :: "ReconnectConfig \<Rightarrow> nat \<Rightarrow> link \<Rightarrow> bool \<times> link" where
  "maybe_trigger_respawn cfg now l =
     (if \<not> lk_can_respawn l then (False, l)
      else case downtime now l of
        None \<Rightarrow> (False, l)
      | Some d \<Rightarrow>
          if d < rc_stale cfg then (False, l)
          else if (case lk_last_respawn l of Some t \<Rightarrow> now - t < RESPAWN_COOLDOWN | None \<Rightarrow> False) then (False, l)
          else (True, l\<lparr>lk_last_respawn := Some now\<rparr>))"

section \<open>Healing\<close>

record HealOutcome =
  ho_healed :: bool
  ho_downtime :: "nat option"

text \<open>What a caller read from the link: \<open>current_peer\<close>.\<close>

record caller =
  cl_session :: nat
  cl_generation :: u64

definition current_peer :: "link \<Rightarrow> caller" where
  "current_peer l = \<lparr>cl_session = lk_session l, cl_generation = lk_generation l\<rparr>"

text \<open>
  Where a heal is suspended: before it reads the generation, waiting for the gate, holding it
  before the second look, in the health probe, in the connect, and cancelling the session it
  replaced.  From \<open>HealHeld\<close> on it holds the gate.
\<close>

datatype heal =
    HealCheck caller "nat option"
  | HealWait caller "nat option"
  | HealHeld caller "nat option"
  | HealProbe caller
  | HealConnect caller
  | HealDrop caller nat "nat option"

datatype heal_next = Goes heal | Ends HealOutcome

definition ends :: "bool \<Rightarrow> nat option \<Rightarrow> heal_next" where
  "ends healed d = Ends \<lparr>ho_healed = healed, ho_downtime = d\<rparr>"

definition heal_enter :: "nat \<Rightarrow> caller \<Rightarrow> link \<Rightarrow> heal_next \<times> link" where
  "heal_enter now c l = (let l = mark_unhealthy now l in (Goes (HealCheck c (downtime now l)), l))"

definition heal_check :: "nat \<Rightarrow> caller \<Rightarrow> nat option \<Rightarrow> link \<Rightarrow> heal_next \<times> link" where
  "heal_check now c d l =
     (if lk_generation l \<noteq> cl_generation c then
        let l = unmark_unhealthy l in (ends True (option_or (downtime now l) d), l)
      else (Goes (HealWait c d), l))"

definition heal_gate_timeout :: "nat \<Rightarrow> nat option \<Rightarrow> link \<Rightarrow> heal_next \<times> link" where
  "heal_gate_timeout now d l = (ends False (option_or (downtime now l) d), l)"

definition heal_recheck :: "ReconnectConfig \<Rightarrow> nat \<Rightarrow> caller \<Rightarrow> nat option \<Rightarrow> link \<Rightarrow> heal_next \<times> link" where
  "heal_recheck cfg now c d l =
     (if lk_generation l \<noteq> cl_generation c then
        let l = unmark_unhealthy l in (ends True (option_or (downtime now l) d), l)
      else if debounced cfg now l then (ends False (option_or (downtime now l) d), l)
      else (Goes (HealProbe c), note_probe now l))"

definition heal_probed :: "nat \<Rightarrow> bool \<Rightarrow> caller \<Rightarrow> link \<Rightarrow> heal_next \<times> link" where
  "heal_probed now health_ok c l =
     (if \<not> health_ok then (ends False (downtime now l), l) else (Goes (HealConnect c), l))"

text \<open>\<open>None\<close> when the connect failed or timed out.\<close>

definition heal_connected :: "nat \<Rightarrow> nat option \<Rightarrow> caller \<Rightarrow> link \<Rightarrow> heal_next \<times> link" where
  "heal_connected now new_session c l =
     (case new_session of
        None \<Rightarrow> (ends False (downtime now l), l)
      | Some s \<Rightarrow>
          let old = lk_session l;
              l = l\<lparr>lk_session := s, lk_generation := lk_generation l + 1\<rparr>;
              (d, l) = clear_unhealthy now l
          in (Goes (HealDrop c old d), l\<lparr>lk_reconnects := lk_reconnects l + 1\<rparr>))"

definition heal_dropped :: "nat option \<Rightarrow> link \<Rightarrow> heal_next \<times> link" where
  "heal_dropped d l = (ends True d, l)"

section \<open>The watcher\<close>

text \<open>How long it sleeps, and the next backoff from what it found awake.\<close>

definition watcher_sleep :: "ReconnectConfig \<Rightarrow> nat \<Rightarrow> link \<Rightarrow> nat" where
  "watcher_sleep cfg backoff l = (if is_unhealthy l then backoff else rc_probe_interval cfg)"

text \<open>\<open>healed\<close> is \<open>None\<close> when the link was healthy, else the outcome of its heal.\<close>

definition watcher_backoff :: "ReconnectConfig \<Rightarrow> nat \<Rightarrow> bool option \<Rightarrow> nat" where
  "watcher_backoff cfg backoff healed =
     (case healed of
        None \<Rightarrow> rc_probe_interval cfg
      | Some True \<Rightarrow> rc_probe_interval cfg
      | Some False \<Rightarrow> min (duration_mul backoff 2) (rc_probe_max cfg))"

fun watcher_backoffs :: "ReconnectConfig \<Rightarrow> nat \<Rightarrow> bool option list \<Rightarrow> nat" where
  "watcher_backoffs cfg backoff [] = backoff"
| "watcher_backoffs cfg backoff (h # hs) = watcher_backoffs cfg (watcher_backoff cfg backoff h) hs"

section \<open>Runs\<close>

text \<open>
  A run of the link in the proxy.  Forwarded calls are serialised by the call gate, which is held
  until the heal of a failed call has ended, so there are two that heal: the call and the watcher.
  \<open>lr_call\<close> is what the call holding the gate read from the link, \<open>lr_awake\<close> says that the watcher has found
  the link unhealthy and not yet read its generation.  The last four fields record what happened:
  the number of connections made after the first, the sessions on which a call failed, which
  session was replaced for a caller of which session, and how heals were answered while which
  session was live.  A step is what a task does between two \<open>await\<close>s.
\<close>

datatype healer = Call | Watcher

record link_run =
  lr_link :: link
  lr_gate :: "healer option"
  lr_heals :: "healer \<Rightarrow> heal option"
  lr_call :: "caller option"
  lr_awake :: bool
  lr_made :: nat
  lr_failed :: "nat set"
  lr_replaced :: "(nat \<times> nat) list"
  lr_answered :: "(caller \<times> HealOutcome \<times> nat) list"

definition link_start :: "link_run \<Rightarrow> bool" where
  "link_start r \<longleftrightarrow> (\<exists>respawn. r = \<lparr>lr_link = connect_with_respawn respawn, lr_gate = None, lr_heals = (\<lambda>_. None),
     lr_call = None, lr_awake = False, lr_made = 0, lr_failed = {}, lr_replaced = [], lr_answered = []\<rparr>)"

text \<open>Leaving \<open>heal\<close> drops the guard of the reconnect gate, if this heal has it; a call then also
  returns and drops the call gate.\<close>

definition proceed :: "healer \<Rightarrow> caller \<Rightarrow> heal_next \<times> link \<Rightarrow> link_run \<Rightarrow> link_run" where
  "proceed h c p r =
     (case p of
        (Goes k, l) \<Rightarrow> r\<lparr>lr_link := l, lr_heals := (lr_heals r)(h \<mapsto> k)\<rparr>
      | (Ends oc, l) \<Rightarrow> r\<lparr>lr_link := l, lr_heals := (lr_heals r)(h := None),
          lr_gate := (if lr_gate r = Some h then None else lr_gate r),
          lr_call := (if h = Call then None else lr_call r),
          lr_answered := (c, oc, lk_session l) # lr_answered r\<rparr>)"

inductive link_step :: "ReconnectConfig \<Rightarrow> link_run \<Rightarrow> link_run \<Rightarrow> bool" for cfg where
  begin_call: "lr_call r = None \<Longrightarrow> link_step cfg r (r\<lparr>lr_call := Some (current_peer (lr_link r))\<rparr>)"
| returns: "lr_heals r Call = None \<Longrightarrow> link_step cfg r (r\<lparr>lr_call := None\<rparr>)"
| fails: "lr_call r = Some c \<Longrightarrow> lr_heals r Call = None
    \<Longrightarrow> link_step cfg r ((proceed Call c (heal_enter now c (lr_link r)) r)\<lparr>lr_failed := insert (cl_session c) (lr_failed r)\<rparr>)"
| wakes: "is_unhealthy (lr_link r) \<Longrightarrow> lr_heals r Watcher = None \<Longrightarrow> link_step cfg r (r\<lparr>lr_awake := True\<rparr>)"
| watches: "lr_awake r \<Longrightarrow> lr_heals r Watcher = None
    \<Longrightarrow> link_step cfg r ((proceed Watcher (current_peer (lr_link r))
          (heal_enter now (current_peer (lr_link r)) (lr_link r)) r)\<lparr>lr_awake := False\<rparr>)"
| respawn: "lr_heals r Watcher = None \<Longrightarrow> link_step cfg r (r\<lparr>lr_link := snd (maybe_trigger_respawn cfg now (lr_link r))\<rparr>)"
| look: "lr_heals r h = Some (HealCheck c d) \<Longrightarrow> link_step cfg r (proceed h c (heal_check now c d (lr_link r)) r)"
| give_up: "lr_heals r h = Some (HealWait c d) \<Longrightarrow> link_step cfg r (proceed h c (heal_gate_timeout now d (lr_link r)) r)"
| take_gate: "lr_heals r h = Some (HealWait c d) \<Longrightarrow> lr_gate r = None
    \<Longrightarrow> link_step cfg r (r\<lparr>lr_gate := Some h, lr_heals := (lr_heals r)(h \<mapsto> HealHeld c d)\<rparr>)"
| look_again: "lr_heals r h = Some (HealHeld c d)
    \<Longrightarrow> link_step cfg r (proceed h c (heal_recheck cfg now c d (lr_link r)) r)"
| probed: "lr_heals r h = Some (HealProbe c) \<Longrightarrow> link_step cfg r (proceed h c (heal_probed now health_ok c (lr_link r)) r)"
| refused: "lr_heals r h = Some (HealConnect c)
    \<Longrightarrow> link_step cfg r (proceed h c (heal_connected now None c (lr_link r)) r)"
| connected: "lr_heals r h = Some (HealConnect c)
    \<Longrightarrow> link_step cfg r ((proceed h c (heal_connected now (Some (Suc (lr_made r))) c (lr_link r)) r)
          \<lparr>lr_made := Suc (lr_made r), lr_replaced := (cl_session c, lk_session (lr_link r)) # lr_replaced r\<rparr>)"
| dropped: "lr_heals r h = Some (HealDrop c old d) \<Longrightarrow> link_step cfg r (proceed h c (heal_dropped d (lr_link r)) r)"

section \<open>Invariant\<close>

fun heal_caller :: "heal \<Rightarrow> caller" where
  "heal_caller (HealCheck c d) = c"
| "heal_caller (HealWait c d) = c"
| "heal_caller (HealHeld c d) = c"
| "heal_caller (HealProbe c) = c"
| "heal_caller (HealConnect c) = c"
| "heal_caller (HealDrop c old d) = c"

fun holds_gate :: "heal \<Rightarrow> bool" where
  "holds_gate (HealCheck c d) = False"
| "holds_gate (HealWait c d) = False"
| "holds_gate k = True"

definition caller_ok :: "nat \<Rightarrow> caller \<Rightarrow> bool" where
  "caller_ok n c \<longleftrightarrow> cl_generation c = of_nat (cl_session c) \<and> cl_session c \<le> n"

text \<open>What is known of a heal in flight while \<open>n\<close> connections were made.\<close>

definition heal_ok :: "nat \<Rightarrow> heal \<Rightarrow> bool" where
  "heal_ok n k \<longleftrightarrow> (case k of
     HealProbe c \<Rightarrow> cl_session c = n | HealConnect c \<Rightarrow> cl_session c = n | HealDrop c old d \<Rightarrow> cl_session c < n | _ \<Rightarrow> True)"

definition link_inv :: "link_run \<Rightarrow> bool" where
  "link_inv r \<longleftrightarrow> lk_session (lr_link r) = lr_made r
     \<and> lk_generation (lr_link r) = of_nat (lr_made r) \<and> lk_reconnects (lr_link r) = of_nat (lr_made r)
     \<and> (\<forall>c. lr_call r = Some c \<longrightarrow> caller_ok (lr_made r) c)
     \<and> (\<forall>h k. lr_heals r h = Some k \<longrightarrow> caller_ok (lr_made r) (heal_caller k) \<and> (holds_gate k \<longrightarrow> lr_gate r = Some h))
     \<and> (lr_made r < 2 ^ 64 \<longrightarrow> (\<forall>h k. lr_heals r h = Some k \<longrightarrow> heal_ok (lr_made r) k)
         \<and> lr_replaced r = rev (map (\<lambda>n. (n, n)) [0..<lr_made r])
         \<and> (\<forall>(c, oc, s) \<in> set (lr_answered r). ho_healed oc \<longrightarrow> cl_session c < s \<and> s \<le> lr_made r))"

lemma generation_eq:
  assumes "a \<le> n" "n < 2 ^ 64" shows "(of_nat n :: u64) = of_nat a \<longleftrightarrow> n = a"
proof
  assume "(of_nat n :: u64) = of_nat a"
  then have "unat (of_nat n :: u64) = unat (of_nat a :: u64)" by simp
  with assms show "n = a" by (simp add: unat_of_nat)
qed simp

lemma caller_current: "link_inv r \<Longrightarrow> caller_ok (lr_made r) (current_peer (lr_link r))"
  by (simp add: link_inv_def caller_ok_def current_peer_def)

lemma caller_ok_Suc: "caller_ok n c \<Longrightarrow> caller_ok (Suc n) c"
  by (simp add: caller_ok_def)

lemma link_marks [simp]:
  "lk_session (mark_unhealthy now l) = lk_session l" "lk_generation (mark_unhealthy now l) = lk_generation l"
  "lk_reconnects (mark_unhealthy now l) = lk_reconnects l"
  "lk_session (unmark_unhealthy l) = lk_session l" "lk_generation (unmark_unhealthy l) = lk_generation l"
  "lk_reconnects (unmark_unhealthy l) = lk_reconnects l"
  "lk_session (note_probe now l) = lk_session l" "lk_generation (note_probe now l) = lk_generation l"
  "lk_reconnects (note_probe now l) = lk_reconnects l"
  "lk_session (snd (maybe_trigger_respawn cfg now l)) = lk_session l"
  "lk_generation (snd (maybe_trigger_respawn cfg now l)) = lk_generation l"
  "lk_reconnects (snd (maybe_trigger_respawn cfg now l)) = lk_reconnects l"
  by (auto simp: mark_unhealthy_def unmark_unhealthy_def note_probe_def maybe_trigger_respawn_def split: option.splits)

lemma link_inv_ghost [simp]:
  "link_inv (r\<lparr>lr_failed := fs\<rparr>) = link_inv r" "link_inv (r\<lparr>lr_awake := b\<rparr>) = link_inv r"
  by (simp_all add: link_inv_def)

text \<open>The steps that leave the session alone: what they may turn a heal into.\<close>

lemma proceed_inv:
  assumes inv: "link_inv r"
    and l: "lk_session l = lk_session (lr_link r)" "lk_generation l = lk_generation (lr_link r)"
      "lk_reconnects l = lk_reconnects (lr_link r)"
    and c: "caller_ok (lr_made r) c"
    and g: "\<And>k. n = Goes k \<Longrightarrow> heal_caller k = c \<and> (holds_gate k \<longrightarrow> lr_gate r = Some h)
         \<and> (lr_made r < 2 ^ 64 \<longrightarrow> heal_ok (lr_made r) k)"
    and e: "\<And>oc. n = Ends oc \<Longrightarrow> ho_healed oc \<Longrightarrow> lr_made r < 2 ^ 64 \<Longrightarrow> cl_session c < lr_made r"
  shows "link_inv (proceed h c (n, l) r)"
proof (cases n)
  case (Goes k)
  with inv l c g [OF Goes] show ?thesis by (auto simp: link_inv_def proceed_def)
next
  case (Ends oc)
  have "\<not> holds_gate k" if "lr_heals r h' = Some k" "h' \<noteq> h" "lr_gate r = Some h" for h' k
    using inv that by (auto simp: link_inv_def)
  with inv l c e [OF Ends] Ends show ?thesis by (auto simp: link_inv_def proceed_def split: if_splits)
qed

lemma link_behind:
  assumes "link_inv r" "caller_ok (lr_made r) c" "lr_made r < 2 ^ 64"
  shows "lk_generation (lr_link r) \<noteq> cl_generation c \<Longrightarrow> cl_session c < lr_made r"
    and "lk_generation (lr_link r) = cl_generation c \<Longrightarrow> cl_session c = lr_made r"
  using assms generation_eq [of "cl_session c" "lr_made r"] by (auto simp: link_inv_def caller_ok_def le_less)

lemma link_step_inv:
  assumes "link_step cfg r r'" "link_inv r" shows "link_inv r'"
  using assms
proof (cases rule: link_step.cases)
  case begin_call
  with assms(2) caller_current [OF assms(2)] show ?thesis by (simp add: link_inv_def)
next
  case returns
  with assms(2) show ?thesis by (simp add: link_inv_def)
next
  case (fails c now)
  have c: "caller_ok (lr_made r) c" using assms(2) fails(2) by (simp add: link_inv_def)
  show ?thesis unfolding fails(1) heal_enter_def Let_def link_inv_ghost
    by (rule proceed_inv [OF assms(2)]) (use c in \<open>auto simp: heal_ok_def\<close>)
next
  case wakes
  with assms(2) show ?thesis by simp
next
  case (watches now)
  show ?thesis unfolding watches(1) heal_enter_def Let_def link_inv_ghost
    by (rule proceed_inv [OF assms(2)]) (use caller_current [OF assms(2)] in \<open>auto simp: heal_ok_def\<close>)
next
  case (respawn now)
  with assms(2) show ?thesis by (simp add: link_inv_def)
next
  case (look h c d now)
  have c: "caller_ok (lr_made r) c" using assms(2) look(2) by (force simp: link_inv_def)
  show ?thesis unfolding look(1) heal_check_def Let_def
    by (simp only: ends_def split: if_split, intro conjI impI; rule proceed_inv [OF assms(2)])
      (use c link_behind [OF assms(2) c] in \<open>auto simp: heal_ok_def\<close>)
next
  case (give_up h c d now)
  have c: "caller_ok (lr_made r) c" using assms(2) give_up(2) by (force simp: link_inv_def)
  show ?thesis unfolding give_up(1) heal_gate_timeout_def ends_def
    by (rule proceed_inv [OF assms(2)]) (use c in \<open>auto simp: heal_ok_def\<close>)
next
  case (take_gate h c d)
  with assms(2) show ?thesis by (force simp: link_inv_def heal_ok_def)
next
  case (look_again h c d now)
  have c: "caller_ok (lr_made r) c" and g: "lr_gate r = Some h"
    using assms(2) look_again(2) by (force simp: link_inv_def)+
  show ?thesis unfolding look_again(1) heal_recheck_def Let_def
    by (simp only: ends_def split: if_split, intro conjI impI; rule proceed_inv [OF assms(2)])
      (use c g link_behind [OF assms(2) c] in \<open>auto simp: heal_ok_def\<close>)
next
  case (probed h c now health_ok)
  have c: "caller_ok (lr_made r) c" and g: "lr_gate r = Some h" and m: "lr_made r < 2 ^ 64 \<Longrightarrow> cl_session c = lr_made r"
    using assms(2) probed(2) by (force simp: link_inv_def heal_ok_def)+
  show ?thesis unfolding probed(1) heal_probed_def
    by (simp only: ends_def split: if_split, intro conjI impI; rule proceed_inv [OF assms(2)])
      (use c g m in \<open>auto simp: heal_ok_def\<close>)
next
  case (refused h c now)
  have c: "caller_ok (lr_made r) c" using assms(2) refused(2) by (force simp: link_inv_def)
  show ?thesis unfolding refused(1) heal_connected_def option.case ends_def
    by (rule proceed_inv [OF assms(2)]) (use c in \<open>auto simp: heal_ok_def\<close>)
next
  case (connected h c now)
  have c: "caller_ok (lr_made r) c" and g: "lr_gate r = Some h" and m: "lr_made r < 2 ^ 64 \<Longrightarrow> cl_session c = lr_made r"
    using assms(2) connected(2) by (force simp: link_inv_def heal_ok_def)+
  have only: "h' = h" if "lr_heals r h' = Some k" "holds_gate k" for h' k
    using assms(2) g that by (auto simp: link_inv_def)
  have other: "heal_ok n k" if "\<not> holds_gate k" for n k
    using that by (cases k) (auto simp: heal_ok_def)
  show ?thesis using assms(2) c g m only other
    unfolding connected(1) heal_connected_def
    by (auto simp: link_inv_def proceed_def clear_unhealthy_def Let_def heal_ok_def intro: caller_ok_Suc)
next
  case (dropped h c old d)
  have c: "caller_ok (lr_made r) c" and m: "lr_made r < 2 ^ 64 \<Longrightarrow> cl_session c < lr_made r"
    using assms(2) dropped(2) by (force simp: link_inv_def heal_ok_def)+
  show ?thesis unfolding dropped(1) heal_dropped_def ends_def
    by (rule proceed_inv [OF assms(2)]) (use c m in \<open>auto simp: heal_ok_def\<close>)
qed

interpretation links: transition_system link_start "link_step cfg" link_inv for cfg
proof unfold_locales
  show "link_start s \<Longrightarrow> link_inv s" for s
    by (auto simp: link_start_def link_inv_def connect_with_respawn_def)
qed (rule link_step_inv)

abbreviation link_reachable :: "ReconnectConfig \<Rightarrow> link_run \<Rightarrow> bool" where
  "link_reachable cfg \<equiv> reachable link_start (link_step cfg)"

section \<open>What healing guarantees\<close>

text \<open>C25: However calls, failures and heals interleave, the sessions are replaced one after the other, each
  once and only for a caller whose own session it was, so a heal never cancels a newer session;
  the generation counts the reconnects; and whoever is told that the link healed was using a
  session older than the live one.\<close>

theorem heal_replaces_what_failed:
  assumes "link_reachable cfg r" "lr_made r < 2 ^ 64"
  shows "lr_replaced r = rev (map (\<lambda>n. (n, n)) [0..<lr_made r])
    \<and> lk_session (lr_link r) = lr_made r
    \<and> unat (lk_generation (lr_link r)) = lr_made r \<and> unat (lk_reconnects (lr_link r)) = lr_made r
    \<and> (\<forall>(c, oc, s) \<in> set (lr_answered r). ho_healed oc \<longrightarrow> cl_session c < s)"
proof -
  have "link_inv r" by (rule links.reachable_inv [OF assms(1)])
  then show ?thesis using assms(2) by (auto simp: link_inv_def unat_of_nat)
qed

text \<open>At most one heal is between its second look and its end: probes and connects never overlap.\<close>

theorem heal_single_flight:
  assumes "link_reachable cfg r"
    and "lr_heals r h = Some k" "holds_gate k" "lr_heals r h' = Some k'" "holds_gate k'"
  shows "h = h'"
proof -
  have "lr_gate r = Some x" if "lr_heals r x = Some y" "holds_gate y" for x y
    using links.reachable_inv [OF assms(1)] that by (simp add: link_inv_def)
  from this [OF assms(2,3)] this [OF assms(4,5)] show ?thesis by simp
qed

section \<open>A healthy session replaced\<close>

definition demo_link :: "nat \<Rightarrow> nat option \<Rightarrow> nat option \<Rightarrow> nat option \<Rightarrow> link" where
  "demo_link n u d p = \<lparr>lk_session = n, lk_generation = of_nat n, lk_unhealthy = u, lk_last_downtime = d,
     lk_last_probe = p, lk_reconnects = of_nat n, lk_can_respawn = False, lk_last_respawn = None\<rparr>"

abbreviation demo_caller :: "nat \<Rightarrow> caller" where
  "demo_caller n \<equiv> \<lparr>cl_session = n, cl_generation = of_nat n\<rparr>"

definition demo_answer :: "nat \<Rightarrow> bool \<Rightarrow> nat \<Rightarrow> nat \<Rightarrow> caller \<times> HealOutcome \<times> nat" where
  "demo_answer n b d s = (demo_caller n, \<lparr>ho_healed = b, ho_downtime = Some d\<rparr>, s)"

lemma link_next: "link_reachable cfg r \<Longrightarrow> link_step cfg r r' \<Longrightarrow> r' = r'' \<Longrightarrow> link_reachable cfg r''"
  by (auto intro: reach_step)

lemmas link_eval = demo_link_def demo_answer_def proceed_def current_peer_def heal_enter_def heal_check_def heal_recheck_def
  heal_probed_def heal_connected_def heal_dropped_def ends_def mark_unhealthy_def unmark_unhealthy_def
  clear_unhealthy_def downtime_def note_probe_def debounced_def option_or_def Let_def fun_eq_iff is_unhealthy_def
  reconnect_default_def from_millis_def

abbreviation demo_late :: nat where
  "demo_late \<equiv> 1000000000"

definition demo_at :: "link \<Rightarrow> healer option \<Rightarrow> (healer \<Rightarrow> heal option) \<Rightarrow> caller option \<Rightarrow> bool \<Rightarrow> nat \<Rightarrow> nat set
    \<Rightarrow> (nat \<times> nat) list \<Rightarrow> (caller \<times> HealOutcome \<times> nat) list \<Rightarrow> link_run" where
  "demo_at l g hs c w n f rs as = \<lparr>lr_link = l, lr_gate = g, lr_heals = hs, lr_call = c, lr_awake = w, lr_made = n,
     lr_failed = f, lr_replaced = rs, lr_answered = as\<rparr>"

text \<open>A call fails and its heal finds the daemon down; the next call starts on the dead session; the watcher
  finds the daemon up again.\<close>

lemma demo_connecting:
  "link_reachable reconnect_default (demo_at (demo_link 0 (Some 0) None (Some demo_late)) (Some Watcher) [Watcher \<mapsto> HealConnect (demo_caller 0)] (Some (demo_caller 0)) False 0 {0} [] [demo_answer 0 False 0 0])"
proof -
  have init: "link_reachable reconnect_default (demo_at (demo_link 0 None None None) None (\<lambda>_. None) None False 0 {} [] [])"
    by (rule reach_init) (auto simp: link_start_def connect_with_respawn_def demo_link_def demo_at_def)
  from link_next [OF init begin_call]
  have "link_reachable reconnect_default (demo_at (demo_link 0 None None None) None (\<lambda>_. None) (Some (demo_caller 0)) False 0 {} [] [])"
    by (simp add: link_eval demo_at_def)
  from link_next [OF this fails [where now = 0]]
  have "link_reachable reconnect_default (demo_at (demo_link 0 (Some 0) None None) None [Call \<mapsto> HealCheck (demo_caller 0) (Some 0)] (Some (demo_caller 0)) False 0 {0} [] [])"
    by (simp add: link_eval demo_at_def)
  from link_next [OF this look [where h = Call and now = 0]]
  have "link_reachable reconnect_default (demo_at (demo_link 0 (Some 0) None None) None [Call \<mapsto> HealWait (demo_caller 0) (Some 0)] (Some (demo_caller 0)) False 0 {0} [] [])"
    by (simp add: link_eval demo_at_def)
  from link_next [OF this take_gate [where h = Call]]
  have "link_reachable reconnect_default (demo_at (demo_link 0 (Some 0) None None) (Some Call) [Call \<mapsto> HealHeld (demo_caller 0) (Some 0)] (Some (demo_caller 0)) False 0 {0} [] [])"
    by (simp add: link_eval demo_at_def)
  from link_next [OF this look_again [where h = Call and now = 0]]
  have "link_reachable reconnect_default (demo_at (demo_link 0 (Some 0) None (Some 0)) (Some Call) [Call \<mapsto> HealProbe (demo_caller 0)] (Some (demo_caller 0)) False 0 {0} [] [])"
    by (simp add: link_eval demo_at_def)
  from link_next [OF this probed [where h = Call and now = 0 and health_ok = False]]
  have "link_reachable reconnect_default (demo_at (demo_link 0 (Some 0) None (Some 0)) None (\<lambda>_. None) None False 0 {0} [] [demo_answer 0 False 0 0])"
    by (simp add: link_eval demo_at_def)
  from link_next [OF this begin_call]
  have "link_reachable reconnect_default (demo_at (demo_link 0 (Some 0) None (Some 0)) None (\<lambda>_. None) (Some (demo_caller 0)) False 0 {0} [] [demo_answer 0 False 0 0])"
    by (simp add: link_eval demo_at_def)
  from link_next [OF this wakes]
  have "link_reachable reconnect_default (demo_at (demo_link 0 (Some 0) None (Some 0)) None (\<lambda>_. None) (Some (demo_caller 0)) True 0 {0} [] [demo_answer 0 False 0 0])"
    by (simp add: link_eval demo_at_def)
  from link_next [OF this watches [where now = demo_late]]
  have "link_reachable reconnect_default (demo_at (demo_link 0 (Some 0) None (Some 0)) None [Watcher \<mapsto> HealCheck (demo_caller 0) (Some demo_late)] (Some (demo_caller 0)) False 0 {0} [] [demo_answer 0 False 0 0])"
    by (simp add: link_eval demo_at_def)
  from link_next [OF this look [where h = Watcher and now = demo_late]]
  have "link_reachable reconnect_default (demo_at (demo_link 0 (Some 0) None (Some 0)) None [Watcher \<mapsto> HealWait (demo_caller 0) (Some demo_late)] (Some (demo_caller 0)) False 0 {0} [] [demo_answer 0 False 0 0])"
    by (simp add: link_eval demo_at_def)
  from link_next [OF this take_gate [where h = Watcher]]
  have "link_reachable reconnect_default (demo_at (demo_link 0 (Some 0) None (Some 0)) (Some Watcher) [Watcher \<mapsto> HealHeld (demo_caller 0) (Some demo_late)] (Some (demo_caller 0)) False 0 {0} [] [demo_answer 0 False 0 0])"
    by (simp add: link_eval demo_at_def)
  from link_next [OF this look_again [where h = Watcher and now = demo_late]]
  have "link_reachable reconnect_default (demo_at (demo_link 0 (Some 0) None (Some demo_late)) (Some Watcher) [Watcher \<mapsto> HealProbe (demo_caller 0)] (Some (demo_caller 0)) False 0 {0} [] [demo_answer 0 False 0 0])"
    by (simp add: link_eval demo_at_def)
  from link_next [OF this probed [where h = Watcher and now = demo_late and health_ok = True]]
  show ?thesis
    by (simp add: link_eval demo_at_def)
qed

text \<open>The watcher reconnects.\<close>

lemma demo_reconnected:
  "link_reachable reconnect_default (demo_at (demo_link 1 None (Some demo_late) (Some demo_late)) None (\<lambda>_. None) (Some (demo_caller 0)) False 1 {0} [(0, 0)] [demo_answer 0 True demo_late 1, demo_answer 0 False 0 0])"
proof -
  from link_next [OF demo_connecting connected [where h = Watcher and now = demo_late]]
  have "link_reachable reconnect_default (demo_at (demo_link 1 None (Some demo_late) (Some demo_late)) (Some Watcher) [Watcher \<mapsto> HealDrop (demo_caller 0) 0 (Some demo_late)] (Some (demo_caller 0)) False 1 {0} [(0, 0)] [demo_answer 0 False 0 0])"
    by (simp add: link_eval demo_at_def)
  from link_next [OF this dropped [where h = Watcher]]
  show ?thesis
    by (simp add: link_eval demo_at_def)
qed

text \<open>The call on the dead session fails: its heal sets the mark before it notices that the session was
  replaced, and the watcher wakes in between.  The next call starts on the new session; the
  watcher replaces that one too.\<close>

lemma demo_replaced:
  "link_reachable reconnect_default (demo_at (demo_link 2 None (Some 0) (Some (2 * demo_late))) (Some Watcher) [Watcher \<mapsto> HealDrop (demo_caller 1) 1 (Some 0)] (Some (demo_caller 1)) False 2 {0} [(1, 1), (0, 0)] [demo_answer 0 True demo_late 1, demo_answer 0 True demo_late 1, demo_answer 0 False 0 0])"
proof -
  from link_next [OF demo_reconnected fails [where now = "2 * demo_late"]]
  have "link_reachable reconnect_default (demo_at (demo_link 1 (Some (2 * demo_late)) (Some demo_late) (Some demo_late)) None [Call \<mapsto> HealCheck (demo_caller 0) (Some 0)] (Some (demo_caller 0)) False 1 {0} [(0, 0)] [demo_answer 0 True demo_late 1, demo_answer 0 False 0 0])"
    by (simp add: link_eval demo_at_def)
  from link_next [OF this wakes]
  have "link_reachable reconnect_default (demo_at (demo_link 1 (Some (2 * demo_late)) (Some demo_late) (Some demo_late)) None [Call \<mapsto> HealCheck (demo_caller 0) (Some 0)] (Some (demo_caller 0)) True 1 {0} [(0, 0)] [demo_answer 0 True demo_late 1, demo_answer 0 False 0 0])"
    by (simp add: link_eval demo_at_def)
  from link_next [OF this look [where h = Call and now = "2 * demo_late"]]
  have "link_reachable reconnect_default (demo_at (demo_link 1 None (Some demo_late) (Some demo_late)) None (\<lambda>_. None) None True 1 {0} [(0, 0)] [demo_answer 0 True demo_late 1, demo_answer 0 True demo_late 1, demo_answer 0 False 0 0])"
    by (simp add: link_eval demo_at_def)
  from link_next [OF this begin_call]
  have "link_reachable reconnect_default (demo_at (demo_link 1 None (Some demo_late) (Some demo_late)) None (\<lambda>_. None) (Some (demo_caller 1)) True 1 {0} [(0, 0)] [demo_answer 0 True demo_late 1, demo_answer 0 True demo_late 1, demo_answer 0 False 0 0])"
    by (simp add: link_eval demo_at_def)
  from link_next [OF this watches [where now = "2 * demo_late"]]
  have "link_reachable reconnect_default (demo_at (demo_link 1 (Some (2 * demo_late)) (Some demo_late) (Some demo_late)) None [Watcher \<mapsto> HealCheck (demo_caller 1) (Some 0)] (Some (demo_caller 1)) False 1 {0} [(0, 0)] [demo_answer 0 True demo_late 1, demo_answer 0 True demo_late 1, demo_answer 0 False 0 0])"
    by (simp add: link_eval demo_at_def)
  from link_next [OF this look [where h = Watcher and now = "2 * demo_late"]]
  have "link_reachable reconnect_default (demo_at (demo_link 1 (Some (2 * demo_late)) (Some demo_late) (Some demo_late)) None [Watcher \<mapsto> HealWait (demo_caller 1) (Some 0)] (Some (demo_caller 1)) False 1 {0} [(0, 0)] [demo_answer 0 True demo_late 1, demo_answer 0 True demo_late 1, demo_answer 0 False 0 0])"
    by (simp add: link_eval demo_at_def)
  from link_next [OF this take_gate [where h = Watcher]]
  have "link_reachable reconnect_default (demo_at (demo_link 1 (Some (2 * demo_late)) (Some demo_late) (Some demo_late)) (Some Watcher) [Watcher \<mapsto> HealHeld (demo_caller 1) (Some 0)] (Some (demo_caller 1)) False 1 {0} [(0, 0)] [demo_answer 0 True demo_late 1, demo_answer 0 True demo_late 1, demo_answer 0 False 0 0])"
    by (simp add: link_eval demo_at_def)
  from link_next [OF this look_again [where h = Watcher and now = "2 * demo_late"]]
  have "link_reachable reconnect_default (demo_at (demo_link 1 (Some (2 * demo_late)) (Some demo_late) (Some (2 * demo_late))) (Some Watcher) [Watcher \<mapsto> HealProbe (demo_caller 1)] (Some (demo_caller 1)) False 1 {0} [(0, 0)] [demo_answer 0 True demo_late 1, demo_answer 0 True demo_late 1, demo_answer 0 False 0 0])"
    by (simp add: link_eval demo_at_def)
  from link_next [OF this probed [where h = Watcher and now = "2 * demo_late" and health_ok = True]]
  have "link_reachable reconnect_default (demo_at (demo_link 1 (Some (2 * demo_late)) (Some demo_late) (Some (2 * demo_late))) (Some Watcher) [Watcher \<mapsto> HealConnect (demo_caller 1)] (Some (demo_caller 1)) False 1 {0} [(0, 0)] [demo_answer 0 True demo_late 1, demo_answer 0 True demo_late 1, demo_answer 0 False 0 0])"
    by (simp add: link_eval demo_at_def)
  from link_next [OF this connected [where h = Watcher and now = "2 * demo_late"]]
  show ?thesis
    by (simp add: link_eval demo_at_def)
qed

text \<open>C26: The watcher can replace, and so cancel, a session on which no call ever failed, with a call in
  flight on it: the heal of a call on an older session marks the link before it notices that it is
  late, and the watcher that wakes in between reads the new generation.\<close>

theorem healthy_session_replaced:
  "\<exists>r. link_reachable reconnect_default r \<and> (1, 1) \<in> set (lr_replaced r) \<and> 1 \<notin> lr_failed r
     \<and> map_option cl_session (lr_call r) = Some 1"
  by (intro exI, rule conjI, rule demo_replaced) (simp add: demo_at_def)

theorem heal_replaces_what_failed_witness:
  "\<exists>r. link_reachable reconnect_default r \<and> lr_made r = 1 \<and> lr_replaced r = [(0, 0)]
     \<and> lk_session (lr_link r) = 1 \<and> length (lr_answered r) = 2"
  using demo_reconnected heal_replaces_what_failed [OF demo_reconnected] by (auto simp: demo_at_def)

theorem heal_single_flight_witness:
  "\<exists>r. link_reachable reconnect_default r \<and> (\<exists>!h. \<exists>k. lr_heals r h = Some k \<and> holds_gate k)"
proof -
  from demo_connecting obtain r where r: "link_reachable reconnect_default r"
    "lr_heals r Watcher = Some (HealConnect (demo_caller 0))" by (force simp: demo_at_def)
  have "\<exists>!h. \<exists>k. lr_heals r h = Some k \<and> holds_gate k"
  proof (rule ex1I [of _ Watcher])
    show "\<exists>k. lr_heals r Watcher = Some k \<and> holds_gate k" using r(2) by simp
    show "h = Watcher" if "\<exists>k. lr_heals r h = Some k \<and> holds_gate k" for h
      using that heal_single_flight [OF r(1), of h _ Watcher "HealConnect (demo_caller 0)"] r(2) by auto
  qed
  with r(1) show ?thesis by blast
qed

section \<open>Budgets and the watcher\<close>

lemma watcher_backoff_le:
  "b \<le> max (rc_probe_interval cfg) (rc_probe_max cfg) \<Longrightarrow>
     watcher_backoff cfg b h \<le> max (rc_probe_interval cfg) (rc_probe_max cfg)"
  by (auto simp: watcher_backoff_def split: option.splits bool.splits)

lemma capped_mult:
  fixes a g D M :: nat
  assumes "1 \<le> g" shows "min (min (min (min a D) M * g) D) M = min (min (a * g) D) M"
proof -
  have up: "x \<le> y * g" if "x \<le> y" for x y
    using mult_le_mono [OF that assms] by simp
  consider "a \<le> D" "a \<le> M" | "D \<le> M" "D < a" | "M \<le> D" "M < a" by linarith
  then show ?thesis
  proof cases
    case 2
    then have "min (min a D) M = D" "D \<le> D * g" "D \<le> a * g" using up by simp_all
    with 2 show ?thesis by simp
  next
    case 3
    then have "min (min a D) M = M" "M \<le> M * g" "M \<le> a * g" using up by simp_all
    with 3 show ?thesis by simp
  qed simp
qed

lemma watcher_failures:
  "watcher_backoffs cfg b (replicate (Suc k) (Some False)) = min (min (b * 2 ^ Suc k) DURATION_MAX) (rc_probe_max cfg)"
proof (induction k arbitrary: b)
  case 0
  show ?case by (simp add: watcher_backoff_def duration_mul_def mult.commute)
next
  case (Suc k)
  have g: "1 \<le> (2 :: nat) ^ Suc k" by simp
  have "watcher_backoffs cfg b (replicate (Suc (Suc k)) (Some False))
      = watcher_backoffs cfg (min (min (b * 2) DURATION_MAX) (rc_probe_max cfg)) (replicate (Suc k) (Some False))"
    by (simp add: watcher_backoff_def duration_mul_def)
  also have "\<dots> = min (min (min (min (b * 2) DURATION_MAX) (rc_probe_max cfg) * 2 ^ Suc k) DURATION_MAX) (rc_probe_max cfg)"
    by (rule Suc.IH)
  also have "\<dots> = min (min (b * 2 * 2 ^ Suc k) DURATION_MAX) (rc_probe_max cfg)"
    by (rule capped_mult [OF g])
  also have "b * 2 * 2 ^ Suc k = b * 2 ^ Suc (Suc k)" by simp
  finally show ?case .
qed

text \<open>While heals fail the watcher sleeps the probe interval doubled each time and capped; its sleep never
  exceeds the larger of the probe interval and the cap, and returns to the probe interval once
  the link is healthy.\<close>

theorem watcher_backs_off:
  "watcher_backoffs cfg (rc_probe_interval cfg) (hs @ Some True # replicate (Suc k) (Some False))
     = min (min (rc_probe_interval cfg * 2 ^ Suc k) DURATION_MAX) (rc_probe_max cfg)
   \<and> watcher_backoffs cfg (rc_probe_interval cfg) hs \<le> max (rc_probe_interval cfg) (rc_probe_max cfg)
   \<and> watcher_sleep cfg b (unmark_unhealthy l) = rc_probe_interval cfg"
proof (intro conjI)
  have app: "watcher_backoffs cfg b (xs @ ys) = watcher_backoffs cfg (watcher_backoffs cfg b xs) ys" for b xs ys
    by (induction xs arbitrary: b) simp_all
  show "watcher_backoffs cfg (rc_probe_interval cfg) (hs @ Some True # replicate (Suc k) (Some False))
     = min (min (rc_probe_interval cfg * 2 ^ Suc k) DURATION_MAX) (rc_probe_max cfg)"
    unfolding app watcher_backoffs.simps(2) by (subst watcher_failures) (simp add: watcher_backoff_def)
  have "b \<le> max (rc_probe_interval cfg) (rc_probe_max cfg) \<Longrightarrow>
      watcher_backoffs cfg b hs \<le> max (rc_probe_interval cfg) (rc_probe_max cfg)" for b
    by (induction hs arbitrary: b) (simp_all add: watcher_backoff_le)
  then show "watcher_backoffs cfg (rc_probe_interval cfg) hs \<le> max (rc_probe_interval cfg) (rc_probe_max cfg)" by simp
  show "watcher_sleep cfg b (unmark_unhealthy l) = rc_probe_interval cfg"
    by (simp add: watcher_sleep_def is_unhealthy_def unmark_unhealthy_def)
qed

text \<open>Two respawns the link triggers are at least the cooldown apart, and each happens only after the link
  was down for the stale bound.\<close>

theorem respawn_spaced:
  assumes "maybe_trigger_respawn cfg t1 l1 = (True, l1')" "lk_last_respawn l2 = lk_last_respawn l1'"
    and "maybe_trigger_respawn cfg t2 l2 = (True, l2')" "t1 \<le> t2"
  shows "t1 + RESPAWN_COOLDOWN \<le> t2 \<and> (\<exists>d. downtime t2 l2 = Some d \<and> rc_stale cfg \<le> d)"
  using assms by (auto simp: maybe_trigger_respawn_def split: if_splits option.splits)

definition demo_down :: "nat option \<Rightarrow> link" where
  "demo_down t = (connect_with_respawn True)\<lparr>lk_unhealthy := Some 0, lk_last_respawn := t\<rparr>"

theorem respawn_spaced_witness:
  "fst (maybe_trigger_respawn reconnect_default (from_millis 20000) (demo_down None))
   \<and> fst (maybe_trigger_respawn reconnect_default (from_millis 30000) (demo_down (Some (from_millis 20000))))
   \<and> from_millis 20000 + RESPAWN_COOLDOWN \<le> from_millis 30000"
proof -
  note ev = maybe_trigger_respawn_def demo_down_def connect_with_respawn_def downtime_def reconnect_default_def
    from_millis_def RESPAWN_COOLDOWN_def
  have a: "maybe_trigger_respawn reconnect_default (from_millis 20000) (demo_down None)
      = (True, demo_down (Some (from_millis 20000)))" by (simp add: ev)
  have b: "maybe_trigger_respawn reconnect_default (from_millis 30000) (demo_down (Some (from_millis 20000)))
      = (True, demo_down (Some (from_millis 30000)))" by (simp add: ev)
  have "from_millis 20000 \<le> from_millis 30000" by (simp add: from_millis_def)
  from respawn_spaced [OF a refl b this] a b show ?thesis by simp
qed

text \<open>The deadline of a forwarded launch exceeds the wait the caller asked for by the whole margin, until the
  absolute ceiling cuts it, and it depends on no other timeout.\<close>

theorem launch_budget_exceeds_wait:
  "(launch_budget (from_env_vars a b c d e f g h) (Some w) = w + from_millis 15000 \<longleftrightarrow> w + from_millis 15000 \<le> from_millis 600000)
   \<and> launch_budget (from_env_vars a b c d e f g h) (Some w) \<le> from_millis 600000
   \<and> launch_budget (from_env_vars a b c d e f g h) None = from_millis 75000"
  by (auto simp: launch_budget_def from_env_vars_def reconnect_default_def duration_add_def DURATION_MAX_def
      from_millis_def DEFAULT_SPAWN_WAIT_def Let_def)

end
