(* ===== verification/ClientIdentity.thy ===== *)
theory ClientIdentity
  imports EvidenceTypes Numeric
begin

text \<open>
  Who a request belongs to, \<open>crates/tdmcp-mcp/src/client_id.rs\<close>: the label a client claims, the
  credential realm the transport verified, and the owner id under which evidence and receipts are
  kept.
\<close>

definition ANONYMOUS_LABEL :: string where
  "ANONYMOUS_LABEL = ''anonymous''"

definition MAX_LABEL_BYTES :: nat where
  "MAX_LABEL_BYTES = 64"

definition SCOPE_DIGEST_BYTES :: nat where
  "SCOPE_DIGEST_BYTES = 16"

datatype Assurance = VerifiedCredential | Unauthenticated

datatype Scope = Credential string | Local

record ClientIdentity =
  ci_label :: string
  ci_scope :: Scope
  ci_assurance :: Assurance

definition label_char :: "char \<Rightarrow> bool" where
  "label_char c \<longleftrightarrow> (48 \<le> byte c \<and> byte c \<le> 57) \<or> (65 \<le> byte c \<and> byte c \<le> 90) \<or> (97 \<le> byte c \<and> byte c \<le> 122)
     \<or> c = CHR ''.'' \<or> c = CHR ''_'' \<or> c = CHR ''-''"

definition label_rejected :: "string \<Rightarrow> ('a, EvidenceError) result" where
  "label_rejected why = Err (InvalidInput (''client identity label '' @ why
     @ '' (send 1-64 characters from A-Z a-z 0-9 . _ -)''))"

definition validate_label :: "string \<Rightarrow> (string, EvidenceError) result" where
  "validate_label claim =
     (let label = trim claim in
      if label = [] then label_rejected ''must not be empty''
      else if MAX_LABEL_BYTES < length label then label_rejected ''is too long''
      else if \<not> list_all label_char label then label_rejected ''contains an unsupported character''
      else Ok label)"

definition credential_digest :: "codec \<Rightarrow> string \<Rightarrow> string" where
  "credential_digest cd psk = hex_digest (take SCOPE_DIGEST_BYTES (digest cd psk))"

definition identity_resolve :: "codec \<Rightarrow> string option \<Rightarrow> string \<Rightarrow> string \<Rightarrow> (ClientIdentity, EvidenceError) result" where
  "identity_resolve cd claim auth_mode psk =
     res_bind (case claim of Some c \<Rightarrow> validate_label c | None \<Rightarrow> Ok ANONYMOUS_LABEL) (\<lambda>label.
     let (scope, assurance) =
       (if auth_mode = ''psk'' \<and> psk \<noteq> [] then (Credential (credential_digest cd psk), VerifiedCredential)
        else (Local, Unauthenticated))
     in Ok \<lparr>ci_label = label, ci_scope = scope, ci_assurance = assurance\<rparr>)"

definition is_authenticated :: "ClientIdentity \<Rightarrow> bool" where
  "is_authenticated i \<longleftrightarrow> ci_assurance i = VerifiedCredential"

definition owner_id :: "ClientIdentity \<Rightarrow> (OwnerId, EvidenceError) result" where
  "owner_id i = parse_owner (case ci_scope i of
     Credential d \<Rightarrow> ''client:'' @ d @ '':'' @ ci_label i
   | Local \<Rightarrow> ''local:'' @ ci_label i)"

section \<open>Labels and digests\<close>

definition plain :: "string \<Rightarrow> bool" where
  "plain s \<longleftrightarrow> list_all label_char s"

lemma label_char_plain: "label_char c \<Longrightarrow> 32 < byte c \<and> byte c < 127 \<and> c \<noteq> CHR '':''"
  by (auto simp: label_char_def byte_def)

lemma has_control_plain: "list_all (\<lambda>c. 32 \<le> byte c \<and> byte c < 127) s \<Longrightarrow> \<not> has_control s"
  by (induction s) auto

lemma ws_len_visible: "32 < b \<Longrightarrow> b < 127 \<Longrightarrow> ws_len (b # bs) = 0"
  by (auto split: list.splits)

lemma ws_len_plain:
  assumes "plain xs" shows "ws_len (map byte xs) = 0"
proof (cases xs)
  case (Cons c cs)
  with assms label_char_plain [of c] show ?thesis by (simp add: plain_def ws_len_visible del: ws_len.simps)
qed simp

lemma plain_rev [simp]: "plain (rev s) = plain s"
  by (simp add: plain_def)

lemma plain_take: "plain s \<Longrightarrow> plain (take n s)"
  by (auto simp: plain_def list_all_iff dest: in_set_takeD)

lemma trim_plain:
  assumes "plain s" shows "trim s = s"
proof (rule trim_ident)
  show "ws_len (map byte s) = 0" by (rule ws_len_plain [OF assms])
  have "ws_len (rev (take n (map byte (rev s)))) = 0" for n
    using ws_len_plain [of "rev (take n (rev s))"] plain_take [of "rev s" n] assms by (simp add: take_map rev_map)
  moreover have "ws_len (take 1 (map byte (rev s))) = 0"
    using ws_len_plain [of "take 1 (rev s)"] plain_take [of "rev s" 1] assms by (simp add: take_map)
  ultimately show "ws_len_rev (map byte (rev s)) = 0" by (simp add: ws_len_rev_def)
qed

lemma validate_label_Ok:
  "validate_label claim = Ok l \<longleftrightarrow> l = trim claim \<and> l \<noteq> [] \<and> length l \<le> MAX_LABEL_BYTES \<and> plain l"
  by (auto simp: validate_label_def label_rejected_def plain_def Let_def)

lemma hex_digit_plain:
  assumes "n < 16" shows "label_char (hex_digit n)"
proof -
  have "list_all label_char ''0123456789abcdef''" by (simp add: label_char_def byte_def)
  with assms show ?thesis unfolding hex_digit_def by (auto simp only: list_all_length) simp
qed

lemma credential_digest_plain: "plain (credential_digest cd psk)" "length (credential_digest cd psk) \<le> 32"
proof -
  have b: "byte c < 256" for c :: char by (simp add: byte_def)
  have p: "plain (hex_digest xs)" "length (hex_digest xs) = 2 * length xs" for xs
    using b by (induction xs) (auto simp: hex_digest_def plain_def less_mult_imp_div_less intro!: hex_digit_plain)
  show "plain (credential_digest cd psk)" "length (credential_digest cd psk) \<le> 32"
    by (simp_all add: credential_digest_def p SCOPE_DIGEST_BYTES_def)
qed

lemma resolved:
  assumes "identity_resolve cd claim auth_mode psk = Ok i"
  shows "plain (ci_label i)" "ci_label i \<noteq> []" "length (ci_label i) \<le> 64"
    and "case ci_scope i of Local \<Rightarrow> \<not> is_authenticated i | Credential d \<Rightarrow> is_authenticated i \<and> plain d \<and> length d \<le> 32"
  using assms credential_digest_plain [of cd psk]
  by (auto simp: identity_resolve_def validate_label_Ok MAX_LABEL_BYTES_def ANONYMOUS_LABEL_def is_authenticated_def
      plain_def label_char_def byte_def split: option.splits if_splits)

definition owner_text :: "ClientIdentity \<Rightarrow> string" where
  "owner_text i = (case ci_scope i of
     Credential d \<Rightarrow> ''client:'' @ d @ '':'' @ ci_label i
   | Local \<Rightarrow> ''local:'' @ ci_label i)"

lemma owner_id_total:
  assumes "identity_resolve cd claim auth_mode psk = Ok i" shows "owner_id i = Ok (owner_text i)"
proof -
  note r = resolved [OF assms]
  have b: "list_all (\<lambda>c. 32 \<le> byte c \<and> byte c < 127) s" if "plain s" for s
    using that label_char_plain by (fastforce simp: plain_def list_all_iff)
  have "list_all (\<lambda>c. 32 \<le> byte c \<and> byte c < 127) (owner_text i)"
    using r(1,4) b by (auto simp: owner_text_def byte_def split: Scope.splits)
  from has_control_plain [OF this] r show ?thesis
    by (auto simp: owner_id_def owner_text_def parse_owner_def parse_id_def split: Scope.splits)
qed

lemma split_colon:
  assumes "plain a" "plain b" "a @ CHR '':'' # x = b @ CHR '':'' # y" shows "a = b \<and> x = y"
proof -
  have t: "takeWhile (\<lambda>c. c \<noteq> CHR '':'') (s @ CHR '':'' # z) = s" if "plain s" for s z
    using that label_char_plain by (subst takeWhile_append2) (auto simp: plain_def list_all_iff)
  from t [OF assms(1)] t [OF assms(2)] assms(3) have "a = b" by metis
  with assms(3) show ?thesis by simp
qed

text \<open>C32: The owner id of a resolved identity always exists, and two requests share one exactly when they claim
  the same label in the same realm: an unauthenticated caller, however it labels itself, never gets
  the owner id of an authenticated one, nor a caller of one credential that of another's digest.\<close>

theorem owners_separate:
  assumes "identity_resolve cd c1 m1 p1 = Ok i" "identity_resolve cd c2 m2 p2 = Ok j"
  shows "(\<exists>w. owner_id i = Ok w)
    \<and> (owner_id i = owner_id j \<longleftrightarrow> ci_label i = ci_label j \<and> ci_scope i = ci_scope j)
    \<and> (owner_id i = owner_id j \<longrightarrow> is_authenticated i = is_authenticated j)"
proof -
  note r = resolved [OF assms(1)] and s = resolved [OF assms(2)]
  have "owner_text i = owner_text j \<longleftrightarrow> ci_label i = ci_label j \<and> ci_scope i = ci_scope j"
    using r(4) s(4) split_colon by (auto simp: owner_text_def split: Scope.splits)
  with owner_id_total [OF assms(1)] owner_id_total [OF assms(2)] r(4) s(4) show ?thesis
    by (auto split: Scope.splits)
qed

text \<open>A label that was accepted is accepted again unchanged, so a client that sends back the label it was
  known by keeps its identity; no claim is the same as claiming to be anonymous.\<close>

theorem label_stable:
  "(\<forall>l. validate_label claim = Ok l \<longrightarrow> validate_label l = Ok l)
   \<and> identity_resolve cd None m p = identity_resolve cd (Some ANONYMOUS_LABEL) m p"
proof -
  have "plain ANONYMOUS_LABEL" by (simp add: plain_def ANONYMOUS_LABEL_def label_char_def byte_def)
  then have "validate_label ANONYMOUS_LABEL = Ok ANONYMOUS_LABEL"
    by (simp add: validate_label_Ok trim_plain ANONYMOUS_LABEL_def MAX_LABEL_BYTES_def)
  moreover have "validate_label l = Ok l" if "validate_label claim = Ok l" for l
  proof -
    have "l \<noteq> []" "length l \<le> MAX_LABEL_BYTES" and p: "plain l" using that by (auto simp: validate_label_Ok)
    with trim_plain [OF p] show ?thesis by (simp add: validate_label_Ok)
  qed
  ultimately show ?thesis by (simp add: identity_resolve_def)
qed

section \<open>A concrete pair\<close>

definition toy_codec :: codec where
  "toy_codec = \<lparr>json_to = (\<lambda>_. Err []), json_of = (\<lambda>_. Err []), layout_to = (\<lambda>_. Err []), layout_of = (\<lambda>_. Err []),
     scope_to = (\<lambda>_. Err []), scope_of = (\<lambda>_. Err []), digest = (\<lambda>b. b), base64 = (\<lambda>b. b)\<rparr>"

lemma resolve_anonymous:
  "identity_resolve toy_codec None ''none'' [] = Ok \<lparr>ci_label = ANONYMOUS_LABEL, ci_scope = Local, ci_assurance = Unauthenticated\<rparr>"
  "identity_resolve toy_codec None ''psk'' ''k''
     = Ok \<lparr>ci_label = ANONYMOUS_LABEL, ci_scope = Credential (credential_digest toy_codec ''k''), ci_assurance = VerifiedCredential\<rparr>"
  by (simp_all add: identity_resolve_def)

theorem owners_separate_witness:
  "owner_id \<lparr>ci_label = ANONYMOUS_LABEL, ci_scope = Local, ci_assurance = Unauthenticated\<rparr>
   \<noteq> owner_id \<lparr>ci_label = ANONYMOUS_LABEL, ci_scope = Credential (credential_digest toy_codec ''k''), ci_assurance = VerifiedCredential\<rparr>"
  using owners_separate [OF resolve_anonymous] by simp

theorem label_stable_witness:
  "validate_label '' a '' = Ok ''a'' \<and> validate_label ''a'' = Ok ''a''"
proof -
  have t: "trim '' a '' = ''a''"
    by (simp add: trim_def trim_start.simps [of "'' a ''"] trim_start.simps [of "''a ''"] trim_end.simps [of "''a ''"]
        trim_end.simps [of "''a''"] byte_def ws_len_rev_def)
  then have "validate_label '' a '' = Ok ''a''"
    by (simp add: validate_label_Ok MAX_LABEL_BYTES_def plain_def label_char_def byte_def)
  with label_stable [of "'' a ''"] show ?thesis by blast
qed

end
