(* ===== verification/ProjectFormats.thy ===== *)
theory ProjectFormats
  imports FileSystem
begin

text \<open>
  The file formats of \<open>crates/tdmcp-projectio\<close>: the table of contents of an expanded project
  (\<open>toc.rs\<close>), the envelope of a text sidecar (\<open>sidecar.rs\<close>) and the magic of a packed project
  (\<open>sniff.rs\<close>), on byte sequences.
\<close>

datatype ProjectIoError =
    Fs path io_kind
  | SourceNotFound path
  | NotPackedFormat path
  | ToolMissing string "string list"
  | ToolPairPartial
  | PaletteStore path string
  | ExpandOutputMissing path
  | CollapseOutputMissing path
  | DestExists path
  | SrcNotExpandDir path string
  | TocEscape string
  | TocInvalid path string
  | RoundtripMismatch string
  | BackupFailed path io_kind
  | BuildSkew string string

section \<open>Strings\<close>

text \<open>\<open>str::split\<close> at a character.\<close>

fun split_on :: "char \<Rightarrow> string \<Rightarrow> string list" where
  "split_on c [] = [[]]"
| "split_on c (x # xs) =
     (if x = c then [] # split_on c xs
      else case split_on c xs of [] \<Rightarrow> [[x]] | w # ws \<Rightarrow> (x # w) # ws)"

text \<open>\<open>str::contains\<close> of a nonempty pattern.\<close>

fun contains_str :: "string \<Rightarrow> string \<Rightarrow> bool" where
  "contains_str pat [] = (pat = [])"
| "contains_str pat (x # xs) = (take (length pat) (x # xs) = pat \<or> contains_str pat xs)"

text \<open>\<open>String::from_utf8_lossy\<close>: an invalid sequence becomes U+FFFD.\<close>

definition REPLACEMENT :: string where
  "REPLACEMENT = [CHR 0xEF, CHR 0xBF, CHR 0xBD]"

lemma utf8_head_Invalid_pos: "utf8_head s = Invalid k \<Longrightarrow> 0 < k"
  by (cases s) (auto simp: utf8_head.simps Let_def split: if_splits list.splits)

lemma from_utf8_Error_pos: "from_utf8 s = Utf8Error v (Some k) \<Longrightarrow> 0 < k \<and> s \<noteq> []"
  by (elim from_utf8_ErrorE) (auto dest: utf8_head_Invalid_pos)

function utf8_lossy :: "string \<Rightarrow> string" where
  "utf8_lossy s = (case from_utf8 s of
     Utf8Ok \<Rightarrow> s
   | Utf8Error v None \<Rightarrow> take v s @ REPLACEMENT
   | Utf8Error v (Some k) \<Rightarrow> take v s @ REPLACEMENT @ utf8_lossy (drop (v + k) s))"
  by pat_completeness auto
termination
  by (relation "measure length") (auto dest: from_utf8_Error_pos)

declare utf8_lossy.simps [simp del]

lemma utf8_lossy_valid: "valid_utf8 s \<Longrightarrow> utf8_lossy s = s"
  by (simp add: utf8_lossy.simps)

section \<open>Tables of contents\<close>

definition BOM :: string where
  "BOM = [CHR 0xEF, CHR 0xBB, CHR 0xBF]"

definition strip_suffix_or :: "string \<Rightarrow> string \<Rightarrow> string" where
  "strip_suffix_or suf s =
     (if length suf \<le> length s \<and> drop (length s - length suf) s = suf then take (length s - length suf) s else s)"

fun toc_lines :: "string list \<Rightarrow> string list" where
  "toc_lines [] = []"
| "toc_lines (l # ls) =
     (let line = strip_suffix_or [CHR 0x0A] l in
      if line = [] \<or> take 1 line = ''#'' then toc_lines ls else line # toc_lines ls)"

definition toc_parse_bytes :: "path \<Rightarrow> string \<Rightarrow> (string list, ProjectIoError) result" where
  "toc_parse_bytes p bytes =
     (if take 3 bytes = BOM then Err (TocInvalid p ''UTF-8 BOM not allowed'')
      else if CHR 0x0D \<in> set bytes then Err (TocInvalid p ''CR found - toc must be strict LF'')
      else Ok (toc_lines (split_on (CHR 0x0A) (utf8_lossy bytes))))"

text \<open>\<open>Path::join\<close> with a segment without a slash: an empty segment and \<open>.\<close> add no component.\<close>

definition join_segment :: "path \<Rightarrow> string \<Rightarrow> path" where
  "join_segment p seg = (if seg = [] \<or> seg = ''.'' then p else p @ [seg])"

definition entry_path :: "path \<Rightarrow> string \<Rightarrow> path" where
  "entry_path root entry = foldl join_segment root (split_on (CHR ''/'') entry)"

definition bad_entry :: "string \<Rightarrow> bool" where
  "bad_entry e \<longleftrightarrow> take 1 e = [CHR 0x5C] \<or> take 1 e = ''/'' \<or> CHR 0x5C \<in> set e \<or> contains_str ''..'' e \<or> CHR '':'' \<in> set e"

fun validate_entries :: "path \<Rightarrow> string list \<Rightarrow> (unit, ProjectIoError) result" where
  "validate_entries root [] = Ok ()"
| "validate_entries root (e # es) =
     (if bad_entry e then Err (TocEscape e)
      else if take (length root) (entry_path root e) \<noteq> root then Err (TocEscape e)
      else validate_entries root es)"

definition toc_path_for :: "path \<Rightarrow> path" where
  "toc_path_for dir = butlast dir @ [strip_suffix_or ''.dir'' (last dir) @ ''.toc'']"

section \<open>Text sidecars\<close>

definition HEADER_LEN :: nat where
  "HEADER_LEN = 27"

definition sidecar_prefix :: string where
  "sidecar_prefix = [CHR ''2'', CHR 0x0A, CHR 0x2A, CHR 0x00, CHR 0x00, CHR 0x00]
     @ concat (replicate 4 [CHR 0x01, CHR 0x00, CHR 0x00, CHR 0x00]) @ [CHR 0x02]"

text \<open>\<open>u32::to_be_bytes\<close> and back, of a number taken modulo \<open>2 ^ 32\<close>.\<close>

definition be_bytes :: "nat \<Rightarrow> string" where
  "be_bytes n = map (\<lambda>i. char_of (n div 256 ^ i)) [3, 2, 1, 0]"

definition of_be_bytes :: "string \<Rightarrow> nat" where
  "of_be_bytes bs = foldl (\<lambda>n b. n * 256 + byte b) 0 bs"

definition matches_envelope :: "string \<Rightarrow> bool" where
  "matches_envelope bytes \<longleftrightarrow> HEADER_LEN \<le> length bytes \<and> take 23 bytes = sidecar_prefix"

definition sidecar_parse :: "string \<Rightarrow> string" where
  "sidecar_parse bytes =
     (if \<not> matches_envelope bytes then bytes
      else
        let len = of_be_bytes (take 4 (drop 23 bytes)); body = drop HEADER_LEN bytes in
        if len \<le> length body then take len body else body)"

definition sidecar_encode :: "string \<Rightarrow> string" where
  "sidecar_encode payload = sidecar_prefix @ be_bytes (length payload) @ payload"

definition normalize_lf :: "string \<Rightarrow> string" where
  "normalize_lf bytes = filter (\<lambda>b. b \<noteq> CHR 0x0D) bytes"

section \<open>Packed projects\<close>

datatype PackedKind = Toe | Tox

text \<open>\<open>head\<close> is filled from the first eight bytes, the rest of it stays zero.\<close>

definition sniff_bytes :: "path \<Rightarrow> string \<Rightarrow> (PackedKind, ProjectIoError) result" where
  "sniff_bytes p bytes =
     (let n = min 8 (length bytes); head = take 8 bytes @ replicate (8 - n) (CHR 0x00) in
      if take 2 head = ''10'' then Ok Toe
      else if 6 \<le> n \<and> take 2 (drop 4 head) = ''10'' then Ok Tox
      else Err (NotPackedFormat p))"

section \<open>What the checks guarantee\<close>

lemma split_on_no: "w \<in> set (split_on c s) \<Longrightarrow> c \<notin> set w"
  by (induction s arbitrary: w) (auto split: if_splits list.splits)

lemma split_on_sub: "w \<in> set (split_on c s) \<Longrightarrow> set w \<subseteq> set s"
  by (induction s arbitrary: w) (fastforce split: if_splits list.splits)+

lemma split_on_Nil [simp]: "split_on c s \<noteq> []"
  by (induction s) (auto split: list.splits)

lemma split_on_plain: "c \<notin> set s \<Longrightarrow> split_on c s = [s]"
  by (induction s) auto

lemma split_on_append: "c \<notin> set s \<Longrightarrow> split_on c (s @ c # t) = s # split_on c t"
  by (induction s) auto

lemma contains_str_prefix: "contains_str p s \<Longrightarrow> contains_str p (x # s)"
  by simp

lemma split_on_contains:
  "w \<in> set (split_on c s) \<Longrightarrow> contains_str ''..'' w \<Longrightarrow> contains_str ''..'' s"
proof (induction s arbitrary: w)
  case (Cons x xs)
  show ?case
  proof (cases "x = c")
    case True
    with Cons show ?thesis by auto
  next
    case False
    obtain v vs where sp: "split_on c xs = v # vs" by (cases "split_on c xs") auto
    with False Cons.prems consider "w = x # v" | "w \<in> set vs" by auto
    then show ?thesis
    proof cases
      case 1
      have pre: "\<exists>t. xs = v @ t" using sp by (induction xs arbitrary: v vs) (auto split: if_splits list.splits)
      from 1 Cons.prems(2) consider "take 2 (x # v) = ''..''" | "contains_str ''..'' v" by auto
      then show ?thesis
      proof cases
        case 1
        with pre show ?thesis by (cases v) auto
      next
        case 2
        with Cons.IH [of v] sp show ?thesis by simp
      qed
    next
      case 2
      with Cons.IH [of w] sp Cons.prems(2) show ?thesis by simp
    qed
  qed
qed simp

lemma foldl_join: "foldl join_segment p ws = p @ filter (\<lambda>w. w \<noteq> [] \<and> w \<noteq> ''.'') ws"
  by (induction ws arbitrary: p) (auto simp: join_segment_def)

lemma entry_path_eq: "entry_path root e = root @ filter (\<lambda>w. w \<noteq> [] \<and> w \<noteq> ''.'') (split_on (CHR ''/'') e)"
  by (simp add: entry_path_def foldl_join)

lemma validate_entries_iff: "validate_entries root es = Ok () \<longleftrightarrow> (\<forall>e \<in> set es. \<not> bad_entry e)"
  by (induction es) (auto simp: entry_path_eq)

text \<open>C31: A table of contents that passes the check names only paths inside its root: every entry is the root
  followed by components none of which is empty, \<open>.\<close> or \<open>..\<close> or holds a separator or a drive
  colon; and the second check of the code, that the path starts with the root, never decides.\<close>

theorem toc_entries_inside:
  assumes "validate_entries root es = Ok ()"
  shows "(\<forall>e \<in> set es. \<exists>segs. entry_path root e = root @ segs
      \<and> (\<forall>s \<in> set segs. s \<noteq> [] \<and> s \<noteq> ''.'' \<and> s \<noteq> ''..'' \<and> CHR ''/'' \<notin> set s \<and> CHR 0x5C \<notin> set s \<and> CHR '':'' \<notin> set s))
    \<and> (\<forall>root' es'. validate_entries root' es' = Ok () \<longleftrightarrow> (\<forall>e \<in> set es'. \<not> bad_entry e))"
proof (intro conjI ballI allI)
  fix e assume "e \<in> set es"
  with assms have ok: "\<not> bad_entry e" by (simp add: validate_entries_iff)
  have "s \<noteq> ''..'' \<and> CHR ''/'' \<notin> set s \<and> CHR 0x5C \<notin> set s \<and> CHR '':'' \<notin> set s"
    if s: "s \<in> set (split_on (CHR ''/'') e)" for s
  proof (intro conjI)
    show "s \<noteq> ''..''" using split_on_contains [OF s] ok by (auto simp: bad_entry_def)
    show "CHR ''/'' \<notin> set s" by (rule split_on_no [OF s])
    show "CHR 0x5C \<notin> set s" "CHR '':'' \<notin> set s" using split_on_sub [OF s] ok by (auto simp: bad_entry_def)
  qed
  then show "\<exists>segs. entry_path root e = root @ segs
      \<and> (\<forall>s \<in> set segs. s \<noteq> [] \<and> s \<noteq> ''.'' \<and> s \<noteq> ''..'' \<and> CHR ''/'' \<notin> set s \<and> CHR 0x5C \<notin> set s \<and> CHR '':'' \<notin> set s)"
    by (intro exI [of _ "filter (\<lambda>w. w \<noteq> [] \<and> w \<noteq> ''.'') (split_on (CHR ''/'') e)"]) (auto simp: entry_path_eq)
qed (rule validate_entries_iff)

theorem toc_entries_inside_witness:
  "validate_entries [''r''] [''a/b.n''] = Ok () \<and> entry_path [''r''] ''a/b.n'' = [''r'', ''a'', ''b.n'']"
proof -
  have v: "validate_entries [''r''] [''a/b.n''] = Ok ()" by (simp add: bad_entry_def entry_path_def join_segment_def)
  from toc_entries_inside [OF v] v show ?thesis by (simp add: entry_path_def join_segment_def)
qed

section \<open>Round trips\<close>

text \<open>The text of a table of contents: one entry a line.\<close>

definition toc_text :: "string list \<Rightarrow> string" where
  "toc_text es = concat (map (\<lambda>e. e @ [CHR 0x0A]) es)"

definition toc_entry :: "string \<Rightarrow> bool" where
  "toc_entry e \<longleftrightarrow> e \<noteq> [] \<and> hd e \<noteq> CHR ''#'' \<and> CHR 0x0A \<notin> set e \<and> CHR 0x0D \<notin> set e \<and> valid_utf8 e"

lemma split_toc_text: "\<forall>e \<in> set es. CHR 0x0A \<notin> set e \<Longrightarrow> split_on (CHR 0x0A) (toc_text es) = es @ [[]]"
proof (induction es)
  case (Cons e es)
  then show ?case using split_on_append [of "CHR 0x0A" e "toc_text es"] by (simp add: toc_text_def)
qed (simp add: toc_text_def)

lemma toc_lines_entries: "\<forall>e \<in> set es. toc_entry e \<Longrightarrow> toc_lines (es @ [[]]) = es"
proof (induction es)
  case (Cons e es)
  then have e: "e \<noteq> []" "hd e \<noteq> CHR ''#''" "CHR 0x0A \<notin> set e" by (simp_all add: toc_entry_def)
  have "strip_suffix_or [CHR 0x0A] e = e"
    using e(1,3) by (cases e rule: rev_cases) (auto simp: strip_suffix_or_def)
  with Cons e show ?case by (cases e) (simp_all add: Let_def)
qed (simp add: strip_suffix_or_def)

lemma valid_toc_text: "\<forall>e \<in> set es. valid_utf8 e \<Longrightarrow> valid_utf8 (toc_text es)"
proof (induction es)
  case (Cons e es)
  have nl: "valid_utf8 [CHR 0x0A]" by (simp add: from_utf8_def utf8_from.simps utf8_head.simps byte_def)
  from Cons show ?case by (simp add: toc_text_def valid_utf8_append valid_utf8_append [OF nl, simplified])
qed (simp add: toc_text_def)

text \<open>Entries written one a line are parsed back, in order, when none is empty, a comment, or holds a line
  break; and no text with a carriage return or a byte order mark is ever parsed.\<close>

theorem toc_roundtrip:
  assumes "\<forall>e \<in> set es. toc_entry e" "take 3 (toc_text es) \<noteq> BOM"
  shows "toc_parse_bytes p (toc_text es) = Ok es
    \<and> (\<forall>bytes. is_ok (toc_parse_bytes p bytes) \<longrightarrow> CHR 0x0D \<notin> set bytes \<and> take 3 bytes \<noteq> BOM)"
proof -
  have cr: "CHR 0x0D \<notin> set (toc_text es)" using assms(1) by (auto simp: toc_text_def toc_entry_def)
  have "utf8_lossy (toc_text es) = toc_text es"
    using assms(1) by (intro utf8_lossy_valid valid_toc_text) (auto simp: toc_entry_def)
  moreover have "split_on (CHR 0x0A) (toc_text es) = es @ [[]]"
    using assms(1) by (intro split_toc_text) (auto simp: toc_entry_def)
  ultimately have "toc_parse_bytes p (toc_text es) = Ok es"
    using assms(2) cr toc_lines_entries [OF assms(1)] by (simp add: toc_parse_bytes_def)
  then show ?thesis by (auto simp: toc_parse_bytes_def split: if_splits)
qed

lemma be_bytes_roundtrip:
  shows "n < 2 ^ 32 \<Longrightarrow> of_be_bytes (be_bytes n) = n" "length (be_bytes n) = 4"
proof -
  show "length (be_bytes n) = 4" by (simp add: be_bytes_def)
  assume n: "n < 2 ^ 32"
  have b: "of_be_bytes (be_bytes n)
      = (((n div 256 div 256 div 256 mod 256) * 256 + n div 256 div 256 mod 256) * 256 + n div 256 mod 256) * 256 + n mod 256"
    by (simp add: of_be_bytes_def be_bytes_def byte_def div_mult2_eq [symmetric])
  have "n div 256 div 256 div 256 < 256" using n by (simp add: div_mult2_eq [symmetric] less_mult_imp_div_less)
  then show "of_be_bytes (be_bytes n) = n" unfolding b by (simp only: mod_less div_mult_mod_eq)
qed

text \<open>A payload below four gibibytes is read back from its sidecar unchanged; bytes that are no envelope pass
  through; and whatever the length field says, the payload is part of the file.\<close>

theorem sidecar_roundtrip:
  "(length payload < 2 ^ 32 \<longrightarrow> sidecar_parse (sidecar_encode payload) = payload)
   \<and> (\<not> matches_envelope bytes \<longrightarrow> sidecar_parse bytes = bytes)
   \<and> (matches_envelope bytes \<longrightarrow> (\<exists>n. sidecar_parse bytes = take n (drop HEADER_LEN bytes)))"
proof (intro conjI impI)
  have p: "length sidecar_prefix = 23" by (simp add: sidecar_prefix_def eval_nat_numeral)
  assume n: "length payload < 2 ^ 32"
  have m: "matches_envelope (sidecar_encode payload)"
    by (simp add: matches_envelope_def sidecar_encode_def p be_bytes_roundtrip HEADER_LEN_def)
  have l: "take 4 (drop 23 (sidecar_encode payload)) = be_bytes (length payload)"
    by (simp add: sidecar_encode_def p be_bytes_roundtrip)
  have b: "drop HEADER_LEN (sidecar_encode payload) = payload"
    by (simp add: sidecar_encode_def p be_bytes_roundtrip HEADER_LEN_def)
  show "sidecar_parse (sidecar_encode payload) = payload"
    unfolding sidecar_parse_def l b Let_def using m n by (simp add: be_bytes_roundtrip)
next
  assume "matches_envelope bytes"
  then show "\<exists>n. sidecar_parse bytes = take n (drop HEADER_LEN bytes)"
    by (auto simp: sidecar_parse_def Let_def intro: exI [of _ "length bytes"])
qed (simp add: sidecar_parse_def)

text \<open>A file counts as a packed project exactly when it begins with the magic, or has it after four bytes;
  shorter files are refused, not read past their end.\<close>

theorem sniff_iff:
  "(sniff_bytes p bytes = Ok Toe \<longleftrightarrow> (\<exists>t. bytes = ''10'' @ t))
   \<and> (sniff_bytes p bytes = Ok Tox \<longleftrightarrow> (\<exists>h t. length h = 4 \<and> bytes = h @ ''10'' @ t) \<and> \<not> (\<exists>t. bytes = ''10'' @ t))
   \<and> (length bytes < 2 \<longrightarrow> sniff_bytes p bytes = Err (NotPackedFormat p))"
proof -
  let ?r = "replicate (8 - min 8 (length bytes)) (CHR 0x00)"
  have two: "take 2 xs = ''10'' \<longleftrightarrow> (\<exists>t. xs = ''10'' @ t)" for xs :: string
    by (cases xs; cases "tl xs") (auto simp: numeral_2_eq_2)
  have a: "take 2 (take 8 bytes @ ?r) = ''10'' \<longleftrightarrow> (\<exists>t. bytes = ''10'' @ t)"
  proof (cases "2 \<le> length bytes")
    case True
    then have "take 2 (take 8 bytes @ ?r) = take 2 bytes" by simp
    then show ?thesis by (simp only: two)
  next
    case False
    then show ?thesis by (cases bytes; cases "tl bytes") (auto simp: numeral_eq_Suc)
  qed
  have b: "take 2 (drop 4 (take 8 bytes @ ?r)) = ''10'' \<longleftrightarrow> (\<exists>h t. length h = 4 \<and> bytes = h @ ''10'' @ t)"
    if "6 \<le> length bytes"
  proof -
    have "take 2 (drop 4 (take 8 bytes @ ?r)) = take 2 (drop 4 bytes)"
      using that by (cases "8 \<le> length bytes") (simp_all add: drop_take)
    moreover have "(\<exists>t. drop 4 bytes = ''10'' @ t) \<longleftrightarrow> (\<exists>h t. length h = 4 \<and> bytes = h @ ''10'' @ t)"
    proof
      assume "\<exists>t. drop 4 bytes = ''10'' @ t"
      then obtain t where t: "drop 4 bytes = ''10'' @ t" by blast
      have "bytes = take 4 bytes @ drop 4 bytes" by simp
      with t have "bytes = take 4 bytes @ ''10'' @ t" by metis
      moreover have "length (take 4 bytes) = 4" using that by simp
      ultimately show "\<exists>h t. length h = 4 \<and> bytes = h @ ''10'' @ t" by blast
    qed auto
    ultimately show ?thesis by (simp only: two)
  qed
  have c: "6 \<le> length bytes" if "length h = 4" "bytes = h @ ''10'' @ t" for h t
    using that by simp
  have d: "\<not> (\<exists>t. bytes = ''10'' @ t)" if "length bytes < 2" using that by auto
  show ?thesis
    using a b c d by (auto simp: sniff_bytes_def Let_def)
qed

section \<open>Concrete files\<close>

theorem toc_roundtrip_witness:
  "toc_text [''a'', ''b/c''] = ''a'' @ [CHR 0x0A] @ ''b/c'' @ [CHR 0x0A]
   \<and> toc_parse_bytes [] (''a'' @ [CHR 0x0A] @ ''b/c'' @ [CHR 0x0A]) = Ok [''a'', ''b/c'']"
proof -
  have t: "toc_text [''a'', ''b/c''] = ''a'' @ [CHR 0x0A] @ ''b/c'' @ [CHR 0x0A]" by (simp add: toc_text_def)
  have e: "\<forall>e \<in> set [''a'', ''b/c'']. toc_entry e"
    by (simp add: toc_entry_def from_utf8_def utf8_from.simps utf8_head.simps byte_def)
  have "take 3 (toc_text [''a'', ''b/c'']) \<noteq> BOM" by (simp add: t BOM_def)
  from toc_roundtrip [OF e this, of "[]"] t show ?thesis by simp
qed

theorem sidecar_roundtrip_witness:
  "sidecar_parse (sidecar_encode ''x'') = ''x'' \<and> sidecar_parse ''x'' = ''x''"
proof -
  have "\<not> matches_envelope ''x''" by (simp add: matches_envelope_def HEADER_LEN_def)
  with sidecar_roundtrip [of "''x''" "''x''"] show ?thesis by simp
qed

theorem sniff_iff_witness:
  "sniff_bytes [] ''10abc'' = Ok Toe \<and> sniff_bytes [] ''abcd10'' = Ok Tox \<and> sniff_bytes [] ''1'' = Err (NotPackedFormat [])"
  using sniff_iff [of "[]" "''10abc''"] sniff_iff [of "[]" "''1''"]
  by (simp add: sniff_bytes_def numeral_eq_Suc)

end
