(* ===== verification/ProjectOps.thy ===== *)
theory ProjectOps
  imports ProjectFormats FileSpecs
begin

text \<open>
  The official-tool operations of \<open>crates/tdmcp-projectio/src/ops.rs\<close> over the abstract disk:
  expanding a packed project and collapsing an expanded one.  The tools themselves are the
  runner, a parameter: what a run makes of the disk, whole or interrupted.  Directories are not
  reached through symbolic links here.
\<close>

section \<open>Primitives\<close>

definition is_dir :: "path \<Rightarrow> (bool, 'e) io" where
  "is_dir p = io_match (fs_query (\<lambda>ns. Ok (is_directory (lookup ns p)))) io_pure (\<lambda>_. io_pure False)"

definition is_file :: "path \<Rightarrow> (bool, 'e) io" where
  "is_file p = io_match (fs_query (\<lambda>ns. Ok (case lookup ns p of Some (RegularFile _ _) \<Rightarrow> True | _ \<Rightarrow> False)))
     io_pure (\<lambda>_. io_pure False)"

text \<open>\<open>metadata(p).map(|m| m.len()).unwrap_or(0)\<close>.\<close>

definition file_len :: "path \<Rightarrow> (nat, 'e) io" where
  "file_len p = io_match (fs_query (\<lambda>ns. case lookup ns p of Some (RegularFile _ b) \<Rightarrow> Ok (length b) | _ \<Rightarrow> Err IoNotFound))
     io_pure (\<lambda>_. io_pure 0)"

definition beneath :: "path \<Rightarrow> path \<Rightarrow> bool" where
  "beneath p q \<longleftrightarrow> take (length p) q = p"

text \<open>Neither of two paths is beneath the other.\<close>

definition apart :: "path \<Rightarrow> path \<Rightarrow> bool" where
  "apart p q \<longleftrightarrow> \<not> beneath p q \<and> \<not> beneath q p"

lemma beneath_append: "beneath p q \<longleftrightarrow> (\<exists>r. q = p @ r)"
  unfolding beneath_def by (metis append_eq_conv_conj append_take_drop_id)

text \<open>Interrupted, it has removed some of the entries.\<close>

definition remove_dir_all :: "path \<Rightarrow> (unit, io_kind) io" where
  "remove_dir_all p = fs_step
     (\<lambda>n ns. let gone = take n (filter (beneath p) (map fst ns)) in filter (\<lambda>(q, _). q \<notin> set gone) ns)
     (\<lambda>ns. case lookup ns p of
        None \<Rightarrow> Err IoNotFound
      | Some (Directory _) \<Rightarrow> Ok ((), filter (\<lambda>(q, _). \<not> beneath p q) ns)
      | Some (Symlink _) \<Rightarrow> Ok ((), AList.delete p ns)
      | Some _ \<Rightarrow> Err (IoOther ''not a directory''))"

definition make_dir :: "nodes \<Rightarrow> path \<Rightarrow> nodes" where
  "make_dir ns q = (if lookup ns q = None then AList.update q (Directory 493) ns else ns)"

definition create_dir_all :: "path \<Rightarrow> (unit, io_kind) io" where
  "create_dir_all p =
     (let dirs = map (\<lambda>n. take n p) [0..<length p + 1] in
      fs_step (\<lambda>n ns. foldl make_dir ns (take n dirs))
        (\<lambda>ns. if list_all (\<lambda>q. lookup ns q = None \<or> is_directory (lookup ns q)) dirs
           then Ok ((), foldl make_dir ns dirs) else Err (IoOther ''not a directory'')))"

text \<open>\<open>std::fs::copy\<close>, with the first \<open>n\<close> bytes when it is interrupted.\<close>

definition copied :: "path \<Rightarrow> path \<Rightarrow> nat option \<Rightarrow> nodes \<Rightarrow> (nodes, io_kind) result" where
  "copied src dest n ns =
     (case lookup ns src of
        Some (RegularFile m b) \<Rightarrow>
          let f = RegularFile m (case n of None \<Rightarrow> b | Some n \<Rightarrow> take n b) in
          (case lookup ns dest of
             None \<Rightarrow> if is_directory (lookup ns (butlast dest)) then Ok (AList.update dest f ns) else Err IoNotFound
           | Some (RegularFile _ _) \<Rightarrow> Ok (AList.update dest f ns)
           | Some _ \<Rightarrow> Err (IoOther ''not a file''))
      | None \<Rightarrow> Err IoNotFound
      | Some _ \<Rightarrow> Err (IoOther ''not a file''))"

definition copy_file :: "path \<Rightarrow> path \<Rightarrow> (unit, io_kind) io" where
  "copy_file src dest = fs_step
     (\<lambda>n ns. case copied src dest (Some n) ns of Ok ns' \<Rightarrow> ns' | Err _ \<Rightarrow> ns)
     (\<lambda>ns. map_ok (Pair ()) (copied src dest None ns))"

text \<open>The runner: what a tool run with a path as its argument makes of the disk, and its exit code.\<close>

record runner =
  rn_part :: "path \<Rightarrow> path \<Rightarrow> nat \<Rightarrow> nodes \<Rightarrow> nodes"
  rn_run :: "path \<Rightarrow> path \<Rightarrow> nodes \<Rightarrow> (int \<times> nodes, io_kind) result"

definition run_tool :: "runner \<Rightarrow> path \<Rightarrow> path \<Rightarrow> (int, io_kind) io" where
  "run_tool rn program arg = fs_step (rn_part rn program arg) (rn_run rn program arg)"

section \<open>Tables of contents on the disk\<close>

record OfficialTools =
  ot_expand :: path
  ot_collapse :: path

definition sibling_with_ext :: "path \<Rightarrow> string \<Rightarrow> path" where
  "sibling_with_ext p ext = butlast p @ [last p @ ext]"

definition toc_parse :: "path \<Rightarrow> (string list, ProjectIoError) io" where
  "toc_parse p = io_bind (io_map_err (Fs p) (read_file p None)) (\<lambda>bytes. io_lift (toc_parse_bytes p bytes))"

definition check_expand_dir :: "path \<Rightarrow> (string list, ProjectIoError) io" where
  "check_expand_dir dir =
     io_bind (is_dir dir) (\<lambda>d.
     if \<not> d then io_raise (SrcNotExpandDir dir ''not a directory'')
     else
       io_bind (toc_parse (toc_path_for dir)) (\<lambda>entries.
       if entries = [] then io_raise (SrcNotExpandDir dir ''empty toc'')
       else io_bind (io_lift (validate_entries (if dir = [] then dir else butlast dir) entries)) (\<lambda>_. io_pure entries)))"

definition sniff_packed :: "path \<Rightarrow> (PackedKind, ProjectIoError) io" where
  "sniff_packed p = io_bind (io_map_err (Fs p) (read_file p (Some 8))) (\<lambda>bytes. io_lift (sniff_bytes p bytes))"

section \<open>Expanding\<close>

record ExpandOutcome =
  xo_dir :: path
  xo_toc :: path
  xo_entries :: nat
  xo_exit_code :: int

definition cleanup_partials :: "path \<Rightarrow> (unit, ProjectIoError) io" where
  "cleanup_partials packed =
     io_bind (io_ignore (remove_dir_all (sibling_with_ext packed ''.dir''))) (\<lambda>_.
     io_ignore (remove_file (sibling_with_ext packed ''.toc'')))"

definition clean_fail :: "path \<Rightarrow> ProjectIoError \<Rightarrow> ('a, ProjectIoError) io" where
  "clean_fail packed e = io_bind (cleanup_partials packed) (\<lambda>_. io_raise e)"

fun listed_files :: "path \<Rightarrow> path \<Rightarrow> string list \<Rightarrow> (unit, ProjectIoError) io" where
  "listed_files dir toc [] = io_pure ()"
| "listed_files dir toc (e # es) =
     io_bind (is_file (entry_path dir e)) (\<lambda>f.
     if \<not> f then io_raise (TocInvalid toc (''listed file missing from expanded directory: '' @ e))
     else listed_files dir toc es)"

definition validate_expanded_entries :: "path \<Rightarrow> path \<Rightarrow> string list \<Rightarrow> (unit, ProjectIoError) io" where
  "validate_expanded_entries dir toc entries =
     io_bind (io_lift (validate_entries dir entries)) (\<lambda>_. listed_files dir toc entries)"

definition expand :: "path \<Rightarrow> OfficialTools \<Rightarrow> runner \<Rightarrow> (ExpandOutcome, ProjectIoError) io" where
  "expand packed tools rn =
     (let dir = sibling_with_ext packed ''.dir''; toc = sibling_with_ext packed ''.toc'' in
      io_bind (sniff_packed packed) (\<lambda>_.
      io_bind (path_exists dir) (\<lambda>d.
      io_bind (if d then io_pure True else path_exists toc) (\<lambda>present.
      if present then io_raise (DestExists packed)
      else
        io_bind (io_map_err (Fs (ot_expand tools)) (run_tool rn (ot_expand tools) packed)) (\<lambda>code.
        io_bind (io_match (toc_parse toc) io_pure (\<lambda>e. clean_fail packed (case e of Fs _ _ \<Rightarrow> ExpandOutputMissing packed | _ \<Rightarrow> e))) (\<lambda>entries.
        io_bind (is_dir dir) (\<lambda>d.
        if \<not> d \<or> entries = [] then clean_fail packed (ExpandOutputMissing packed)
        else
          io_bind (io_match (validate_expanded_entries dir toc entries) io_pure (clean_fail packed)) (\<lambda>_.
          io_pure \<lparr>xo_dir = dir, xo_toc = toc, xo_entries = length entries, xo_exit_code = code\<rparr>))))))))"

section \<open>Collapsing\<close>

record CollapseOutcome =
  co_out :: path
  co_bytes :: nat
  co_exit_code :: int

text \<open>The kernel refuses longer paths: at most 4096 bytes, two for a component.\<close>

definition PATH_COMPONENTS :: nat where
  "PATH_COMPONENTS = 2048"

fun copy_entries :: "(path \<Rightarrow> path \<Rightarrow> (unit, ProjectIoError) io) \<Rightarrow> path \<Rightarrow> path \<Rightarrow> string list \<Rightarrow> (unit, ProjectIoError) io" where
  "copy_entries copy src dest [] = io_pure ()"
| "copy_entries copy src dest (n # ns) =
     io_bind (copy (src @ [n]) (dest @ [n])) (\<lambda>_. copy_entries copy src dest ns)"

primrec copy_recursive :: "nat \<Rightarrow> path \<Rightarrow> path \<Rightarrow> (unit, ProjectIoError) io" where
  "copy_recursive 0 src dest = io_raise (Fs dest (IoOther ''file name too long''))"
| "copy_recursive (Suc k) src dest =
     io_bind (is_dir src) (\<lambda>d.
     if d then
       io_bind (io_map_err (Fs dest) (create_dir_all dest)) (\<lambda>_.
       io_bind (io_map_err (Fs src) (read_dir src)) (\<lambda>names.
       copy_entries (copy_recursive k) src dest names))
     else io_map_err (Fs dest) (copy_file src dest))"

definition remove_staged :: "bool \<Rightarrow> path \<Rightarrow> (unit, ProjectIoError) io" where
  "remove_staged staged out =
     (if staged then
        io_bind (io_ignore (remove_dir_all (sibling_with_ext out ''.dir''))) (\<lambda>_.
        io_ignore (remove_file (sibling_with_ext out ''.toc'')))
      else io_pure ())"

definition collapse :: "path \<Rightarrow> path \<Rightarrow> OfficialTools \<Rightarrow> runner \<Rightarrow> (CollapseOutcome, ProjectIoError) io" where
  "collapse src out tools rn =
     io_bind (check_expand_dir src) (\<lambda>_.
     io_bind (path_exists out) (\<lambda>present.
     if present then io_raise (DestExists out)
     else
       let dir = sibling_with_ext out ''.dir''; toc = sibling_with_ext out ''.toc'' in
       io_bind (if src \<noteq> dir then io_pure True else io_bind (path_exists toc) (\<lambda>t. io_pure (\<not> t))) (\<lambda>staged.
       io_bind (remove_staged staged out) (\<lambda>_.
       io_bind (if staged then
           io_bind (copy_recursive PATH_COMPONENTS src dir) (\<lambda>_.
           io_map_err (Fs toc) (copy_file (toc_path_for src) toc))
         else io_pure ()) (\<lambda>_.
       io_bind (io_match (run_tool rn (ot_collapse tools) out) (\<lambda>code. io_pure (Ok code))
           (\<lambda>e. io_pure (Err (Fs (ot_collapse tools) e)))) (\<lambda>output.
       io_bind (remove_staged staged out) (\<lambda>_.
       io_bind (io_lift output) (\<lambda>code.
       io_bind (is_file out) (\<lambda>f.
       io_bind (if f then file_len out else io_pure 0) (\<lambda>n.
       if f \<and> 0 < n then io_pure \<lparr>co_out = out, co_bytes = n, co_exit_code = code\<rparr>
       else io_bind (io_ignore (remove_file out)) (\<lambda>_. io_raise (CollapseOutputMissing out))))))))))))"

section \<open>What is spared\<close>

text \<open>A program that leaves every node alone that was there, outside the paths of \<open>S\<close>, whatever its outcome.\<close>

definition spares :: "path set \<Rightarrow> ('a, 'e) io \<Rightarrow> bool" where
  "spares S m \<longleftrightarrow> (\<forall>env d. post m env d (\<lambda>r d'. \<forall>q n. q \<notin> S \<longrightarrow> node_at d q = Some n \<longrightarrow> node_at d' q = Some n))"

named_theorems spares_rules

lemma post_spares: "spares S m \<Longrightarrow> post m env d (\<lambda>r d'. \<forall>q n. q \<notin> S \<longrightarrow> node_at d q = Some n \<longrightarrow> node_at d' q = Some n)"
  by (simp add: spares_def)

lemma spares_looks: "looks m \<Longrightarrow> spares S m"
  unfolding spares_def by (intro allI, rule post_mono [OF post_looks]) (auto simp: same_nodes_def)

lemma spares_match [spares_rules]:
  assumes "spares S m" "\<And>a. spares S (f a)" "\<And>e. spares S (h e)" shows "spares S (io_match m f h)"
  unfolding spares_def
proof (intro allI)
  fix env d
  show "post (io_match m f h) env d (\<lambda>r d'. \<forall>q n. q \<notin> S \<longrightarrow> node_at d q = Some n \<longrightarrow> node_at d' q = Some n)"
    by (rule post_match [OF post_spares [OF assms(1)]])
      (use post_spares [OF assms(2)] post_spares [OF assms(3)] in \<open>blast intro: post_mono\<close>)+
qed

lemma spares_pure [spares_rules]: "spares S (io_pure a)" "spares S (io_raise e)" "spares S (io_lift r)"
  by (intro spares_looks looks_rules)+

lemma spares_bind [spares_rules]: "spares S m \<Longrightarrow> (\<And>a. spares S (f a)) \<Longrightarrow> spares S (io_bind m f)"
  unfolding io_bind_def by (intro spares_match spares_pure)

lemma spares_if [spares_rules]:
  "(c \<Longrightarrow> spares S m) \<Longrightarrow> (\<not> c \<Longrightarrow> spares S m') \<Longrightarrow> spares S (if c then m else m')"
  by simp

lemma spares_map_err [spares_rules]: "spares S m \<Longrightarrow> spares S (io_map_err g m)"
  unfolding io_map_err_def by (intro spares_match spares_pure)

lemma spares_ignore [spares_rules]: "spares S m \<Longrightarrow> spares S (io_ignore m)"
  unfolding io_ignore_def by (intro spares_match spares_pure)

lemma looks_is_dir [looks_rules]: "looks (is_dir p)" "looks (is_file p)" "looks (file_len p)"
  by (simp_all add: is_dir_def is_file_def file_len_def looks_rules)

lemma looks_exists: "looks (path_exists p)"
  by (rule looks_prims)

lemma looks_prims_read_dir: "looks (read_dir p)"
  by (rule looks_prims)

text \<open>A step spares what both its whole and its partial effect spare.\<close>

lemma spares_step:
  assumes "\<And>n ns q x. q \<notin> S \<Longrightarrow> lookup ns q = Some x \<Longrightarrow> lookup (part n ns) q = Some x"
    and "\<And>ns a ns' q x. eff ns = Ok (a, ns') \<Longrightarrow> q \<notin> S \<Longrightarrow> lookup ns q = Some x \<Longrightarrow> lookup ns' q = Some x"
  shows "spares S (fs_step part eff)"
  using assms
  by (auto simp: spares_def post_def fs_step_def Let_def split: fault.splits result.splits)

lemma spares_remove_file [spares_rules]: "p \<in> S \<Longrightarrow> spares S (remove_file p)"
  unfolding remove_file_def fs_effect_def
  by (rule spares_step) (auto simp: map_ok_def split: option.splits node.splits result.splits)

lemma spares_remove_dir_all [spares_rules]: "(\<And>q. beneath p q \<Longrightarrow> q \<in> S) \<Longrightarrow> spares S (remove_dir_all p)"
  unfolding remove_dir_all_def
proof (rule spares_step, goal_cases)
  case (1 n ns q x)
  then have "q \<notin> set (take n (filter (beneath p) (map fst ns)))" by (auto dest: in_set_takeD)
  with 1 show ?case by (simp add: map_of_filter_fst Let_def)
next
  case (2 ns a ns' q x)
  then have "q \<noteq> p" "\<not> beneath p q" by (auto simp: beneath_def)
  with 2 show ?case by (auto simp: map_of_filter_fst split: option.splits node.splits)
qed

lemma make_dirs_keep: "lookup ns q = Some x \<Longrightarrow> lookup (foldl make_dir ns ps) q = Some x"
proof (induction ps arbitrary: ns)
  case (Cons a ps)
  have "lookup (make_dir ns a) q = Some x"
    using Cons.prems by (cases "q = a") (auto simp: make_dir_def)
  with Cons.IH show ?case by simp
qed simp

lemma spares_create_dir_all [spares_rules]: "spares S (create_dir_all p)"
  unfolding create_dir_all_def Let_def
proof (rule spares_step, goal_cases)
  case (1 n ns q x)
  from 1(2) show ?case by (rule make_dirs_keep)
next
  case (2 ns a ns' q x)
  from 2(1) have "ns' = foldl make_dir ns (map (\<lambda>n. take n p) [0..<length p + 1])"
    by (simp del: upt_Suc split: if_splits)
  with make_dirs_keep [OF 2(3)] show ?case by (simp only:)
qed

lemma copied_other: "copied src dest n ns = Ok ns' \<Longrightarrow> q \<noteq> dest \<Longrightarrow> lookup ns' q = lookup ns q"
  by (auto simp: copied_def Let_def split: option.splits node.splits if_splits)

lemma spares_copy_file [spares_rules]:
  assumes "dest \<in> S" shows "spares S (copy_file src dest)"
  unfolding copy_file_def
proof (rule spares_step, goal_cases)
  case (1 n ns q x)
  then show ?case using copied_other [of src dest _ ns _ q] assms by (auto split: result.splits)
next
  case (2 ns a ns' q x)
  then show ?case using copied_other [of src dest _ ns _ q] assms by (auto simp: map_ok_def split: result.splits)
qed

lemma spares_copy_entries:
  "(\<And>n. n \<in> set names \<Longrightarrow> spares S (copy (src @ [n]) (dest @ [n]))) \<Longrightarrow> spares S (copy_entries copy src dest names)"
  by (induction names) (auto intro!: spares_rules)

lemma beneath_step: "beneath (p @ [n]) q \<Longrightarrow> beneath p q"
  unfolding beneath_def
proof -
  assume a: "take (length (p @ [n])) q = p @ [n]"
  have "take (length p) q = take (length p) (take (length (p @ [n])) q)" by (simp add: min_def)
  then show "take (length p) q = p" unfolding a by simp
qed

lemma spares_copy_recursive [spares_rules]:
  "(\<And>q. beneath dest q \<Longrightarrow> q \<in> S) \<Longrightarrow> spares S (copy_recursive k src dest)"
proof (induction k arbitrary: src dest)
  case (Suc k)
  have d: "dest \<in> S" using Suc.prems [of dest] by (simp add: beneath_def)
  have step: "spares S (copy_recursive k (src @ [n]) (dest @ [n]))" for n
    by (rule Suc.IH, rule Suc.prems, rule beneath_step)
  have dir: "spares S (io_bind (io_map_err (Fs dest) (create_dir_all dest)) (\<lambda>_.
       io_bind (io_map_err (Fs src) (read_dir src)) (\<lambda>names. copy_entries (copy_recursive k) src dest names)))"
    by (intro spares_bind spares_map_err spares_create_dir_all spares_copy_entries step spares_looks [OF looks_prims_read_dir])
  have one: "spares S (io_map_err (Fs dest) (copy_file src dest))"
    by (intro spares_map_err spares_copy_file d)
  show ?case unfolding copy_recursive.simps
    by (rule spares_bind, rule spares_looks [OF looks_is_dir(1)], rule spares_if, rule dir, rule one)
qed (simp add: spares_rules)

text \<open>A runner whose runs with the argument \<open>p\<close> only touch the paths of \<open>S\<close>.\<close>

definition confined :: "runner \<Rightarrow> path \<Rightarrow> path \<Rightarrow> path set \<Rightarrow> bool" where
  "confined rn program p S \<longleftrightarrow>
     (\<forall>ns q x. q \<notin> S \<longrightarrow> lookup ns q = Some x \<longrightarrow> (\<forall>n. lookup (rn_part rn program p n ns) q = Some x)
        \<and> (\<forall>c ns'. rn_run rn program p ns = Ok (c, ns') \<longrightarrow> lookup ns' q = Some x))"

lemma spares_run_tool: "confined rn program p S \<Longrightarrow> spares S (run_tool rn program p)"
  unfolding run_tool_def confined_def by (rule spares_step) blast+

lemma looks_if: "looks m \<Longrightarrow> looks m' \<Longrightarrow> looks (if c then m else m')"
  by simp

lemma looks_toc_parse: "looks (toc_parse p)"
  unfolding toc_parse_def by (intro looks_bind looks_map_err looks_prims looks_pure)

lemma looks_sniff_packed: "looks (sniff_packed p)"
  unfolding sniff_packed_def by (intro looks_bind looks_map_err looks_prims looks_pure)

lemma looks_check_expand_dir: "looks (check_expand_dir dir)"
  unfolding check_expand_dir_def
  by (rule looks_bind, rule looks_is_dir, rule looks_if, rule looks_pure, rule looks_bind, rule looks_toc_parse,
      rule looks_if, rule looks_pure, rule looks_bind, rule looks_pure, rule looks_pure)

text \<open>What an operation on \<open>p\<close> may touch.\<close>

definition artifacts :: "path \<Rightarrow> path set" where
  "artifacts p = {p, sibling_with_ext p ''.toc''} \<union> {q. beneath (sibling_with_ext p ''.dir'') q}"

lemma spares_remove_staged: "spares (artifacts out) (remove_staged b out)"
  by (auto simp: remove_staged_def artifacts_def intro!: spares_rules)


end
