(* ===== verification/ProjectClaims.thy ===== *)
theory ProjectClaims
  imports ProjectOps ExportDemo
begin

text \<open>
  What a successful expansion or collapse says of the disk, whatever the tool did and whatever
  exit code it gave, and one collapse evaluated on a concrete disk.
\<close>

section \<open>Expanding\<close>

definition file_at :: "disk \<Rightarrow> path \<Rightarrow> bool" where
  "file_at d p \<longleftrightarrow> (\<exists>m b. node_at d p = Some (RegularFile m b))"

lemma file_at_same: "same_nodes d d' \<Longrightarrow> file_at d' p = file_at d p"
  by (simp add: file_at_def same_nodes_def)

lemma post_is_file: "post (is_file p) env d (\<lambda>r d'. same_nodes d d' \<and> (r = Done True \<longrightarrow> file_at d p))"
  unfolding is_file_def by (rule post_match [OF post_query]) (auto simp: file_at_def split: option.splits node.splits)

lemma post_is_dir: "post (is_dir p) env d (\<lambda>r d'. same_nodes d d' \<and> (r = Done True \<longrightarrow> is_directory (node_at d p)))"
  unfolding is_dir_def by (rule post_match [OF post_query]) auto

lemma post_file_len: "post (file_len p) env d (\<lambda>r d'. same_nodes d d'
    \<and> (\<forall>n. r = Done n \<longrightarrow> 0 < n \<longrightarrow> (\<exists>m b. node_at d p = Some (RegularFile m b) \<and> length b = n)))"
  unfolding file_len_def by (rule post_match [OF post_query]) (auto split: option.splits node.splits)

lemma post_toc_parse: "post (toc_parse p) env d (\<lambda>r d'. same_nodes d d'
    \<and> (\<forall>es. r = Done es \<longrightarrow> (\<exists>m b. node_at d p = Some (RegularFile m b) \<and> toc_parse_bytes p b = Ok es)))"
proof -
  have "post (read_file p None) env d (\<lambda>r d'. same_nodes d d' \<and> (\<forall>b. r = Done b \<longrightarrow> (\<exists>m. node_at d p = Some (RegularFile m b))))"
    unfolding read_file_def by (rule post_mono [OF post_query]) (auto split: option.splits node.splits)
  then have "post (io_map_err (Fs p) (read_file p None)) env d
      (\<lambda>r d'. same_nodes d d' \<and> (\<forall>b. r = Done b \<longrightarrow> (\<exists>m. node_at d p = Some (RegularFile m b))))"
    by (rule post_map_err) auto
  then show ?thesis
    unfolding toc_parse_def by (rule post_bind) (auto split: result.splits)
qed

lemma post_listed_files: "post (listed_files dir toc es) env d (\<lambda>r d'. same_nodes d d'
    \<and> (r = Done () \<longrightarrow> (\<forall>e \<in> set es. file_at d (entry_path dir e))))"
proof (induction es arbitrary: d)
  case (Cons e es)
  show ?case
    unfolding listed_files.simps
  proof (rule post_bind [OF post_is_file], goal_cases)
    case (1 f d1)
    then have s: "same_nodes d d1" by simp
    show ?case
    proof (cases f)
      case True
      with 1 have f: "file_at d (entry_path dir e)" by simp
      show ?thesis
        by (simp add: True, rule post_mono [OF Cons.IH]) (use s f file_at_same [OF s] same_nodes_trans [OF s] in auto)
    qed (simp add: s)
  qed auto
qed simp

lemma post_clean_fail: "post (clean_fail packed e) env d (\<lambda>r d'. \<forall>a. r \<noteq> Done a)"
proof -
  have a: "post (cleanup_partials packed) env d (\<lambda>r d'. True)" by (simp add: post_def)
  show ?thesis unfolding clean_fail_def by (rule post_bind [OF a]) simp_all
qed

text \<open>The evidence of an expansion.\<close>

definition expanded :: "path \<Rightarrow> ExpandOutcome \<Rightarrow> disk \<Rightarrow> bool" where
  "expanded packed x d \<longleftrightarrow>
     xo_dir x = sibling_with_ext packed ''.dir'' \<and> xo_toc x = sibling_with_ext packed ''.toc'' \<and> is_directory (node_at d (xo_dir x))
     \<and> (\<exists>m b es. node_at d (xo_toc x) = Some (RegularFile m b) \<and> toc_parse_bytes (xo_toc x) b = Ok es
          \<and> es \<noteq> [] \<and> xo_entries x = length es \<and> (\<forall>e \<in> set es. \<not> bad_entry e \<and> file_at d (entry_path (xo_dir x) e)))"

lemma post_any: "post m env d (\<lambda>r d'. True)"
  by (simp add: post_def)

lemma post_expanded_entries: "post (validate_expanded_entries dir toc es) env d (\<lambda>r d'. same_nodes d d'
    \<and> (r = Done () \<longrightarrow> (\<forall>e \<in> set es. \<not> bad_entry e \<and> file_at d (entry_path dir e))))"
proof (cases "validate_entries dir es")
  case (Ok u)
  then have "\<forall>e \<in> set es. \<not> bad_entry e" by (simp add: validate_entries_iff)
  then show ?thesis
    unfolding validate_expanded_entries_def Ok
    by (simp, intro post_mono [OF post_listed_files]) blast
qed (simp add: validate_expanded_entries_def)

text \<open>C30: An expansion that reports success left a directory and a table of contents named after the project; the
  table parses to as many entries as it reports, at least one, none leaves the directory, and
  every one of them is a file there.  The tool's exit code has no part in it.\<close>

theorem expand_evidence:
  assumes "expand packed tools rn env d = (Done x, d')"
  shows "expanded packed x d'"
proof -
  let ?dir = "sibling_with_ext packed ''.dir''" and ?toc = "sibling_with_ext packed ''.toc''"
  let ?Q = "\<lambda>r d'. \<forall>x. r = Done x \<longrightarrow> expanded packed x d'"
  have fail: "post (clean_fail packed e) env d ?Q" for e d
    by (rule post_mono [OF post_clean_fail]) simp
  have check: "post (io_bind (io_match (validate_expanded_entries ?dir ?toc es) io_pure (clean_fail packed)) (\<lambda>_.
      io_pure \<lparr>xo_dir = ?dir, xo_toc = ?toc, xo_entries = length es, xo_exit_code = code\<rparr>)) env d ?Q"
    if "is_directory (node_at d ?dir)" "node_at d ?toc = Some (RegularFile m b)" "toc_parse_bytes ?toc b = Ok es" "es \<noteq> []"
    for es code d m b
  proof -
    have "post (io_match (validate_expanded_entries ?dir ?toc es) io_pure (clean_fail packed)) env d
        (\<lambda>r d'. r = Done () \<longrightarrow> same_nodes d d' \<and> (\<forall>e \<in> set es. \<not> bad_entry e \<and> file_at d (entry_path ?dir e)))"
      by (rule post_match [OF post_expanded_entries]) (auto intro: post_mono [OF post_clean_fail])
    then show ?thesis
    proof (rule post_bind, goal_cases)
      case (1 u d1)
      then have s: "same_nodes d d1" and e: "\<forall>e \<in> set es. \<not> bad_entry e \<and> file_at d (entry_path ?dir e)" by simp_all
      have n: "node_at d1 ?dir = node_at d ?dir" "node_at d1 ?toc = node_at d ?toc" using s by (simp_all add: same_nodes_def)
      show ?case
        using e that by (simp add: expanded_def n file_at_same [OF s])
    qed simp_all
  qed
  have judge: "post (io_bind (is_dir ?dir) (\<lambda>isd.
        if \<not> isd \<or> es = [] then clean_fail packed (ExpandOutputMissing packed)
        else
          io_bind (io_match (validate_expanded_entries ?dir ?toc es) io_pure (clean_fail packed)) (\<lambda>_.
          io_pure \<lparr>xo_dir = ?dir, xo_toc = ?toc, xo_entries = length es, xo_exit_code = code\<rparr>))) env d ?Q"
    if "node_at d ?toc = Some (RegularFile m b)" "toc_parse_bytes ?toc b = Ok es" for es code d m b
  proof (rule post_bind [OF post_is_dir], goal_cases)
    case (1 isd d1)
    show ?case
    proof (cases "isd \<and> es \<noteq> []")
      case True
      with 1 that have "is_directory (node_at d1 ?dir)" "node_at d1 ?toc = Some (RegularFile m b)" by (auto simp: same_nodes_def)
      from check [OF this that(2)] True show ?thesis by simp
    qed (auto simp: fail)
  qed auto
  have parsed: "post (io_match (toc_parse ?toc) io_pure (h :: _ \<Rightarrow> (string list, ProjectIoError) io)) env d
      (\<lambda>r d'. \<forall>es. r = Done es \<longrightarrow> (\<exists>m b. node_at d' ?toc = Some (RegularFile m b) \<and> toc_parse_bytes ?toc b = Ok es))"
    if "\<And>e d. post (h e) env d (\<lambda>r d'. \<forall>a. r \<noteq> Done a)" for h d
    by (rule post_match [OF post_toc_parse]) (auto simp: same_nodes_def intro: post_mono [OF that])
  have "post (expand packed tools rn) env d ?Q"
    unfolding expand_def Let_def
    apply (rule post_bind [OF post_any])
      apply (rule post_bind [OF post_any])
        apply (rule post_bind [OF post_any])
          apply (split if_split, intro conjI impI)
           apply simp
          apply (rule post_bind [OF post_any])
            apply (rule post_bind [OF parsed])
               apply (rule post_clean_fail)
              apply (elim allE impE exE conjE, rule refl)
              apply (erule (1) judge)
    by simp_all
  from postD [OF this assms] show ?thesis by simp
qed

section \<open>Collapsing\<close>

text \<open>A collapse that reports success left a file of the reported size, not empty, whatever the tool's exit
  code.\<close>

theorem collapse_evidence:
  assumes "collapse src out tools rn env d = (Done x, d')"
  shows "co_out x = out \<and> 0 < co_bytes x \<and> (\<exists>m b. node_at d' out = Some (RegularFile m b) \<and> length b = co_bytes x)"
proof -
  let ?Q = "\<lambda>r d'. \<forall>x. r = Done x \<longrightarrow>
    co_out x = out \<and> 0 < co_bytes x \<and> (\<exists>m b. node_at d' out = Some (RegularFile m b) \<and> length b = co_bytes x)"
  have fail: "post (io_bind m (\<lambda>_. io_raise e)) env d ?Q" for m :: "(unit, ProjectIoError) io" and e d
    by (rule post_bind [OF post_any]) simp_all
  have len: "post (if f then file_len out else io_pure 0) env d (\<lambda>r d'. same_nodes d d'
      \<and> (\<forall>n. r = Done n \<longrightarrow> 0 < n \<longrightarrow> (\<exists>m b. node_at d out = Some (RegularFile m b) \<and> length b = n)))" for f d
    by (cases f) (simp_all add: post_file_len)
  have tail: "post (io_bind (is_file out) (\<lambda>f.
       io_bind (if f then file_len out else io_pure 0) (\<lambda>n.
       if f \<and> 0 < n then io_pure \<lparr>co_out = out, co_bytes = n, co_exit_code = code\<rparr>
       else io_bind (io_ignore (remove_file out)) (\<lambda>_. io_raise (CollapseOutputMissing out))))) env d ?Q" for code d
  proof (rule post_bind [OF post_any], goal_cases)
    case (1 f d1)
    show ?case
    proof (rule post_bind [OF len], goal_cases)
      case (1 n d2)
      show ?case
      proof (cases "f \<and> 0 < n")
        case True
        with 1 show ?thesis by (auto simp: same_nodes_def)
      next
        case False
        then show ?thesis by (simp only: if_False) (rule fail)
      qed
    qed simp_all
  qed simp_all
  have "post (collapse src out tools rn) env d ?Q"
    unfolding collapse_def Let_def
    apply (rule post_bind [OF post_any])
      apply (rule post_bind [OF post_any])
        apply (split if_split, intro conjI impI)
         apply simp
        apply (rule post_bind [OF post_any])
          apply (rule post_bind [OF post_any])
            apply (rule post_bind [OF post_any])
              apply (rule post_bind [OF post_any])
                apply (rule post_bind [OF post_any])
                  apply (rule post_bind [OF post_any])
                    apply (rule tail)
    by simp_all
  from postD [OF this assms] show ?thesis by simp
qed

section \<open>A collapse\<close>

definition pd_dirs :: nodes where
  "pd_dirs = [([], Directory 493), ([''w''], Directory 493), ([''w'', ''q.dir''], Directory 493),
     ([''w'', ''q.toc''], RegularFile 420 [CHR ''a'', CHR 0x0A]), ([''w'', ''q.dir'', ''a''], RegularFile 420 ''1'')]"

definition pd_other :: nodes where
  "pd_other = [([''w'', ''p.dir''], Directory 493), ([''w'', ''p.toc''], RegularFile 420 [CHR ''b'', CHR 0x0A]),
     ([''w'', ''p.dir'', ''b''], RegularFile 420 ''keep'')]"

definition pd_nodes :: "nodes \<Rightarrow> nodes" where
  "pd_nodes ns = pd_dirs @ ns"

definition pd_disk :: "nodes \<Rightarrow> nat \<Rightarrow> disk" where
  "pd_disk ns t = \<lparr>fs_nodes = pd_nodes ns, fs_tick = t\<rparr>"

definition pd_runner :: runner where
  "pd_runner = \<lparr>rn_part = (\<lambda>_ _ _ ns. ns), rn_run = (\<lambda>_ p ns. Ok (1, AList.update p (RegularFile 420 ''10'') ns))\<rparr>"

definition pd_tools :: OfficialTools where
  "pd_tools = \<lparr>ot_expand = [''x''], ot_collapse = [''c'']\<rparr>"

abbreviation pd_src :: path where "pd_src \<equiv> [''w'', ''q.dir'']"
abbreviation pd_out :: path where "pd_out \<equiv> [''w'', ''p'']"

abbreviation pd_fs :: fs_env where "pd_fs \<equiv> demo_fs (\<lambda>_. Fine)"

lemma pd_toc: "toc_parse_bytes p [CHR ''a'', CHR 0x0A] = Ok [''a'']"
proof -
  have "utf8_lossy [CHR ''a'', CHR 0x0A] = [CHR ''a'', CHR 0x0A]"
    by (rule utf8_lossy_valid) (simp add: from_utf8_def utf8_from.simps utf8_head.simps byte_def)
  then show ?thesis by (simp add: toc_parse_bytes_def BOM_def strip_suffix_or_def)
qed

lemma pd_names:
  "sibling_with_ext pd_out ''.dir'' = [''w'', ''p.dir'']" "sibling_with_ext pd_out ''.toc'' = [''w'', ''p.toc'']"
  "toc_path_for pd_src = [''w'', ''q.toc'']"
  by (simp_all add: sibling_with_ext_def toc_path_for_def strip_suffix_or_def)

lemma pd_lookup:
  "lookup (pd_nodes ns) [''w''] = Some (Directory 493)"
  "lookup (pd_nodes ns) [] = Some (Directory 493)"
  "lookup (pd_nodes ns) [''w'', ''q.dir''] = Some (Directory 493)"
  "lookup (pd_nodes ns) [''w'', ''q.toc''] = Some (RegularFile 420 [CHR ''a'', CHR 0x0A])"
  "lookup (pd_nodes ns) [''w'', ''q.dir'', ''a''] = Some (RegularFile 420 ''1'')"
  "lookup (pd_nodes ns) [''w'', ''p''] = lookup ns [''w'', ''p'']"
  "lookup (pd_nodes ns) [''w'', ''p.dir''] = lookup ns [''w'', ''p.dir'']"
  "lookup (pd_nodes ns) [''w'', ''p.toc''] = lookup ns [''w'', ''p.toc'']"
  "lookup (pd_nodes ns) [''w'', ''p.dir'', a] = lookup ns [''w'', ''p.dir'', a]"
  by (simp_all add: pd_nodes_def pd_dirs_def)

lemma pd_update:
  "AList.update [''w'', ''p''] x (pd_nodes ns) = pd_nodes (AList.update [''w'', ''p''] x ns)"
  "AList.update [''w'', ''p.dir''] x (pd_nodes ns) = pd_nodes (AList.update [''w'', ''p.dir''] x ns)"
  "AList.update [''w'', ''p.toc''] x (pd_nodes ns) = pd_nodes (AList.update [''w'', ''p.toc''] x ns)"
  "AList.update [''w'', ''p.dir'', a] x (pd_nodes ns) = pd_nodes (AList.update [''w'', ''p.dir'', a] x ns)"
  "AList.delete [''w'', ''p.toc''] (pd_nodes ns) = pd_nodes (AList.delete [''w'', ''p.toc''] ns)"
  "filter (\<lambda>(q, _). \<not> beneath [''w'', ''p.dir''] q) (pd_nodes ns) = pd_nodes (filter (\<lambda>(q, _). \<not> beneath [''w'', ''p.dir''] q) ns)"
  by (simp_all add: pd_nodes_def pd_dirs_def beneath_def)

lemmas pd_eval = io_eval fs_prims pd_disk_def pd_lookup pd_update pd_names is_dir_def is_file_def file_len_def

lemma pd_check: "check_expand_dir pd_src pd_fs (pd_disk ns 0) = (Done [''a''], pd_disk ns 2)"
  by (simp add: check_expand_dir_def toc_parse_def pd_eval pd_toc bad_entry_def entry_path_def join_segment_def
      cong: bind_cong match_cong)

lemma pd_remove_dir:
  assumes "lookup ns [''w'', ''p.dir''] = Some (Directory m)"
  shows "remove_dir_all [''w'', ''p.dir''] pd_fs (pd_disk ns t)
    = (Done (), pd_disk (filter (\<lambda>(q, _). \<not> beneath [''w'', ''p.dir''] q) ns) (t + 1))"
  by (simp add: remove_dir_all_def pd_eval assms)

lemma pd_clear: "remove_staged True pd_out pd_fs (pd_disk pd_other t) = (Done (), pd_disk [] (t + 2))"
proof -
  have l: "lookup pd_other [''w'', ''p.dir''] = Some (Directory 493)" by (simp add: pd_other_def)
  have f: "filter (\<lambda>(q, _). \<not> beneath [''w'', ''p.dir''] q) pd_other = [([''w'', ''p.toc''], RegularFile 420 [CHR ''b'', CHR 0x0A])]"
    by (simp add: pd_other_def beneath_def)
  show ?thesis
    by (simp add: remove_staged_def pd_names bind_eval io_ignore_def io_match_def pd_remove_dir [OF l] f pure_eval)
      (simp add: pd_eval)
qed

definition pd_staged :: nodes where
  "pd_staged = [([''w'', ''p.dir''], Directory 493), ([''w'', ''p.dir'', ''a''], RegularFile 420 ''1''),
     ([''w'', ''p.toc''], RegularFile 420 [CHR ''a'', CHR 0x0A])]"

lemma pd_children: "children (pd_nodes [([''w'', ''p.dir''], Directory 493)]) [''w'', ''q.dir''] = [''a'']"
  by (simp add: children_def pd_nodes_def pd_dirs_def)

lemma path_components: "PATH_COMPONENTS = Suc (Suc 2046)"
  by (simp add: PATH_COMPONENTS_def)

lemma pd_copy_any: "copy_recursive (Suc (Suc k)) pd_src [''w'', ''p.dir''] pd_fs (pd_disk [] t)
  = (Done (), pd_disk [([''w'', ''p.dir''], Directory 493), ([''w'', ''p.dir'', ''a''], RegularFile 420 ''1'')] (t + 5))"
  by (simp add: create_dir_all_def make_dir_def read_dir_def copy_file_def copied_def
       pd_eval pd_children upt_rec cong: bind_cong match_cong)

lemma pd_copy: "copy_recursive PATH_COMPONENTS pd_src [''w'', ''p.dir''] pd_fs (pd_disk [] t)
  = (Done (), pd_disk [([''w'', ''p.dir''], Directory 493), ([''w'', ''p.dir'', ''a''], RegularFile 420 ''1'')] (t + 5))"
  unfolding path_components by (rule pd_copy_any)

lemma pd_copied: "copy_file [''w'', ''q.toc''] [''w'', ''p.toc''] pd_fs
    (pd_disk [([''w'', ''p.dir''], Directory 493), ([''w'', ''p.dir'', ''a''], RegularFile 420 ''1'')] t)
  = (Done (), pd_disk pd_staged (t + 1))"
  by (simp add: copy_file_def copied_def pd_eval pd_staged_def cong: bind_cong match_cong)

abbreviation pd_made :: "path \<times> node" where "pd_made \<equiv> (pd_out, RegularFile 420 ''10'')"

definition pd_ready :: nodes where
  "pd_ready = [([''w'', ''p.dir''], Directory 493), ([''w'', ''p.dir'', ''a''], RegularFile 420 ''1''),
     ([''w'', ''p.toc''], RegularFile 420 [CHR ''a'', CHR 0x0A]), pd_made]"

lemma pd_run: "run_tool pd_runner p pd_out pd_fs (pd_disk pd_staged t) = (Done 1, pd_disk pd_ready (t + 1))"
  by (simp add: run_tool_def pd_runner_def pd_eval pd_staged_def pd_ready_def)

lemma pd_unstage: "remove_staged True pd_out pd_fs (pd_disk pd_ready t) = (Done (), pd_disk [pd_made] (t + 2))"
proof -
  have l: "lookup pd_ready [''w'', ''p.dir''] = Some (Directory 493)" by (simp add: pd_ready_def)
  have f: "filter (\<lambda>(q, _). \<not> beneath [''w'', ''p.dir''] q) pd_ready
      = [([''w'', ''p.toc''], RegularFile 420 [CHR ''a'', CHR 0x0A]), pd_made]"
    by (simp add: pd_ready_def beneath_def)
  show ?thesis
    by (simp add: remove_staged_def pd_names bind_eval io_ignore_def io_match_def pd_remove_dir [OF l] f pure_eval del: append.simps)
      (simp add: pd_eval)
qed

lemma pd_exists: "path_exists pd_out pd_fs (pd_disk pd_other t) = (Done False, pd_disk pd_other (t + 1))"
  by (simp add: pd_eval pd_other_def)

lemma pd_judge:
  "is_file pd_out pd_fs (pd_disk [pd_made] t) = (Done True, pd_disk [pd_made] (t + 1))"
  "file_len pd_out pd_fs (pd_disk [pd_made] t) = (Done 2, pd_disk [pd_made] (t + 1))"
  by (simp_all add: pd_eval)

lemma pd_collapse: "collapse pd_src pd_out pd_tools pd_runner pd_fs (pd_disk pd_other 0)
    = (Done \<lparr>co_out = pd_out, co_bytes = 2, co_exit_code = 1\<rparr>, pd_disk [pd_made] 16)"
  by (simp add: collapse_def Let_def pd_names bind_eval pd_check pd_exists pd_clear pd_copy pd_copied io_map_err_def io_match_def
      pure_eval pd_run pd_unstage pd_judge io_ignore_def cong: bind_cong match_cong)

theorem collapse_evidence_witness:
  "collapse pd_src pd_out pd_tools pd_runner pd_fs (pd_disk pd_other 0)
    = (Done \<lparr>co_out = pd_out, co_bytes = 2, co_exit_code = 1\<rparr>, pd_disk [pd_made] 16)
   \<and> (\<exists>m b. node_at (pd_disk [pd_made] 16) pd_out = Some (RegularFile m b) \<and> length b = 2)"
  using collapse_evidence [OF pd_collapse] pd_collapse by simp

lemma pd_confined: "confined pd_runner p pd_out (artifacts pd_out)"
  by (auto simp: confined_def pd_runner_def artifacts_def update_conv')

lemma pd_source_apart: "[''w'', ''q.dir'', ''a''] \<notin> artifacts pd_out"
  by (simp add: artifacts_def pd_names beneath_def)


text \<open>Packing one expanded directory into a name that already has an expanded directory of its own, with
  other files in it and no packed file yet: the collapse succeeds, and that other directory, its files and its
  table of contents are gone.\<close>

theorem collapse_discards_expansion:
  "node_at (pd_disk pd_other 0) [''w'', ''p.dir'', ''b''] = Some (RegularFile 420 ''keep'')
   \<and> fst (collapse pd_src pd_out pd_tools pd_runner pd_fs (pd_disk pd_other 0)) = Done \<lparr>co_out = pd_out, co_bytes = 2, co_exit_code = 1\<rparr>
   \<and> (let d' = snd (collapse pd_src pd_out pd_tools pd_runner pd_fs (pd_disk pd_other 0)) in
        node_at d' [''w'', ''p.dir'', ''b''] = None \<and> node_at d' [''w'', ''p.dir''] = None \<and> node_at d' [''w'', ''p.toc''] = None)"
  unfolding pd_collapse Let_def by (simp add: pd_disk_def pd_lookup) (simp add: pd_other_def)

section \<open>An expansion\<close>

definition px_runner :: runner where
  "px_runner = \<lparr>rn_part = (\<lambda>_ _ _ ns. ns), rn_run = (\<lambda>_ p ns. Ok (1, AList.update [''w'', ''p.dir'', ''a''] (RegularFile 420 ''1'')
     (AList.update [''w'', ''p.toc''] (RegularFile 420 [CHR ''a'', CHR 0x0A]) (AList.update [''w'', ''p.dir''] (Directory 493) ns))))\<rparr>"

definition px_out :: nodes where
  "px_out = [(pd_out, RegularFile 420 ''10x''), ([''w'', ''p.dir''], Directory 493),
     ([''w'', ''p.toc''], RegularFile 420 [CHR ''a'', CHR 0x0A]), ([''w'', ''p.dir'', ''a''], RegularFile 420 ''1'')]"

lemma px_sniff: "sniff_packed pd_out pd_fs (pd_disk [(pd_out, RegularFile 420 ''10x'')] t)
    = (Done Toe, pd_disk [(pd_out, RegularFile 420 ''10x'')] (t + 1))"
  by (simp add: sniff_packed_def pd_eval sniff_bytes_def numeral_eq_Suc cong: bind_cong match_cong)

lemma px_run: "run_tool px_runner p pd_out pd_fs (pd_disk [(pd_out, RegularFile 420 ''10x'')] t) = (Done 1, pd_disk px_out (t + 1))"
  by (simp add: run_tool_def px_runner_def pd_eval px_out_def)

lemma px_absent:
  "path_exists [''w'', ''p.dir''] pd_fs (pd_disk [(pd_out, n)] t) = (Done False, pd_disk [(pd_out, n)] (t + 1))"
  "path_exists [''w'', ''p.toc''] pd_fs (pd_disk [(pd_out, n)] t) = (Done False, pd_disk [(pd_out, n)] (t + 1))"
  by (simp_all add: pd_eval)

lemma px_judge:
  "toc_parse [''w'', ''p.toc''] pd_fs (pd_disk px_out t) = (Done [''a''], pd_disk px_out (t + 1))"
  "is_dir [''w'', ''p.dir''] pd_fs (pd_disk px_out t) = (Done True, pd_disk px_out (t + 1))"
  "is_file [''w'', ''p.dir'', ''a''] pd_fs (pd_disk px_out t) = (Done True, pd_disk px_out (t + 1))"
  by (simp_all add: toc_parse_def pd_eval px_out_def pd_toc)

lemma px_checked: "validate_expanded_entries [''w'', ''p.dir''] [''w'', ''p.toc''] [''a''] pd_fs (pd_disk px_out t)
    = (Done (), pd_disk px_out (t + 1))"
  by (simp add: validate_expanded_entries_def bind_eval px_judge bad_entry_def entry_path_def join_segment_def pure_eval)

lemma px_expand: "expand pd_out pd_tools px_runner pd_fs (pd_disk [(pd_out, RegularFile 420 ''10x'')] 0)
    = (Done \<lparr>xo_dir = [''w'', ''p.dir''], xo_toc = [''w'', ''p.toc''], xo_entries = 1, xo_exit_code = 1\<rparr>, pd_disk px_out 7)"
  by (simp add: expand_def Let_def pd_names bind_eval io_match_def io_map_err_def px_sniff px_absent px_run px_judge px_checked pure_eval
      cong: bind_cong match_cong) (simp add: eval_nat_numeral)

theorem expand_evidence_witness:
  "expand pd_out pd_tools px_runner pd_fs (pd_disk [(pd_out, RegularFile 420 ''10x'')] 0)
    = (Done \<lparr>xo_dir = [''w'', ''p.dir''], xo_toc = [''w'', ''p.toc''], xo_entries = 1, xo_exit_code = 1\<rparr>, pd_disk px_out 7)
   \<and> expanded pd_out \<lparr>xo_dir = [''w'', ''p.dir''], xo_toc = [''w'', ''p.toc''], xo_entries = 1, xo_exit_code = 1\<rparr> (pd_disk px_out 7)"
  using expand_evidence [OF px_expand] px_expand by simp

end
