(* ===== verification/ProjectCopy.thy ===== *)
theory ProjectCopy
  imports ProjectClaims
begin

text \<open>
  The recursion of \<open>copy_recursive\<close> (\<open>crates/tdmcp-projectio/src/ops.rs\<close>), which the code does not bound:
  it ends when the destination is apart from the source, and does not when it is inside it.
\<close>

section \<open>What a copy leaves alone\<close>

text \<open>A program that leaves the paths of \<open>S\<close> exactly as they were, absent ones included.\<close>

definition leaves :: "path set \<Rightarrow> ('a, 'e) io \<Rightarrow> bool" where
  "leaves S m \<longleftrightarrow> (\<forall>env d. post m env d (\<lambda>r d'. \<forall>q \<in> S. node_at d' q = node_at d q))"

lemma post_leaves: "leaves S m \<Longrightarrow> post m env d (\<lambda>r d'. \<forall>q \<in> S. node_at d' q = node_at d q)"
  by (simp add: leaves_def)

lemma leaves_looks: "looks m \<Longrightarrow> leaves S m"
  unfolding leaves_def by (intro allI, rule post_mono [OF post_looks]) (auto simp: same_nodes_def)

lemma leaves_match:
  assumes "leaves S m" "\<And>a. leaves S (f a)" "\<And>e. leaves S (h e)" shows "leaves S (io_match m f h)"
  unfolding leaves_def
proof (intro allI)
  fix env d
  show "post (io_match m f h) env d (\<lambda>r d'. \<forall>q \<in> S. node_at d' q = node_at d q)"
  proof (rule post_match [OF post_leaves [OF assms(1)]], goal_cases)
    case (1 a d1) then show ?case by (intro post_mono [OF post_leaves [OF assms(2)]]) simp
  next
    case (2 e d1) then show ?case by (intro post_mono [OF post_leaves [OF assms(3)]]) simp
  qed
qed

lemma leaves_pure: "leaves S (io_pure a)" "leaves S (io_raise e)"
  by (intro leaves_looks looks_rules)+

lemma leaves_bind: "leaves S m \<Longrightarrow> (\<And>a. leaves S (f a)) \<Longrightarrow> leaves S (io_bind m f)"
  unfolding io_bind_def by (intro leaves_match leaves_pure)

lemma leaves_map_err: "leaves S m \<Longrightarrow> leaves S (io_map_err g m)"
  unfolding io_map_err_def by (intro leaves_match leaves_pure)

lemma leaves_step:
  assumes "\<And>n ns q. q \<in> S \<Longrightarrow> lookup (part n ns) q = lookup ns q"
    and "\<And>ns a ns' q. eff ns = Ok (a, ns') \<Longrightarrow> q \<in> S \<Longrightarrow> lookup ns' q = lookup ns q"
  shows "leaves S (fs_step part eff)"
  using assms by (auto simp: leaves_def post_def fs_step_def Let_def split: fault.splits result.splits)

lemma make_dirs_other: "q \<notin> set ps \<Longrightarrow> lookup (foldl make_dir ns ps) q = lookup ns q"
proof (induction ps arbitrary: ns)
  case (Cons a ps)
  then have "lookup (make_dir ns a) q = lookup ns q" by (auto simp: make_dir_def)
  with Cons show ?case by simp
qed simp

lemma prefixes_beneath: "q \<in> set (map (\<lambda>n. take n p) [0..<length p + 1]) \<Longrightarrow> beneath q p"
  by (auto simp: beneath_def min_def)

lemma leaves_create_dir_all: "(\<And>q. q \<in> S \<Longrightarrow> \<not> beneath q p) \<Longrightarrow> leaves S (create_dir_all p)"
  unfolding create_dir_all_def Let_def
proof (rule leaves_step, goal_cases)
  case (1 n ns q)
  then have "q \<notin> set (take n (map (\<lambda>n. take n p) [0..<length p + 1]))"
    using prefixes_beneath [of q p] by (meson in_set_takeD)
  then show ?case by (rule make_dirs_other)
next
  case (2 ns a ns' q)
  then have "q \<notin> set (map (\<lambda>n. take n p) [0..<length p + 1])" using prefixes_beneath [of q p] by blast
  from make_dirs_other [OF this, of ns] 2(2) show ?case by (simp del: upt_Suc split: if_splits)
qed

lemma leaves_copy_file: "dest \<notin> S \<Longrightarrow> leaves S (copy_file src dest)"
  unfolding copy_file_def
proof (rule leaves_step, goal_cases)
  case (1 n ns q)
  then show ?case using copied_other [of src dest _ ns _ q] by (auto split: result.splits)
next
  case (2 ns a ns' q)
  then show ?case using copied_other [of src dest _ ns _ q] by (auto simp: map_ok_def split: result.splits)
qed

lemma leaves_copy_entries:
  "(\<And>n. leaves S (copy (src @ [n]) (dest @ [n]))) \<Longrightarrow> leaves S (copy_entries copy src dest names)"
  by (induction names) (auto intro!: leaves_bind leaves_pure)

lemma apart_step: "apart src dest \<Longrightarrow> apart (src @ [n]) (dest @ [m])"
  by (auto simp: apart_def beneath_append append_eq_append_conv2 append_eq_Cons_conv Cons_eq_append_conv)

lemma leaves_copy_recursive: "apart root dest \<Longrightarrow> leaves {q. beneath root q} (copy_recursive k src dest)"
proof (induction k arbitrary: src dest)
  case (Suc k)
  have no: "\<not> beneath q dest" "q \<noteq> dest" if "beneath root q" for q
    using that Suc.prems by (auto simp: apart_def beneath_append)
  have ap: "apart root (dest @ [n])" for n
    using Suc.prems by (auto simp: apart_def beneath_append append_eq_append_conv2 Cons_eq_append_conv append_eq_Cons_conv)
  have dir: "leaves {q. beneath root q} (io_bind (io_map_err (Fs dest) (create_dir_all dest)) (\<lambda>_.
       io_bind (io_map_err (Fs src) (read_dir src)) (\<lambda>names. copy_entries (copy_recursive k) src dest names)))"
    by (intro leaves_bind leaves_map_err leaves_create_dir_all leaves_copy_entries Suc.IH ap leaves_looks [OF looks_prims_read_dir])
      (use no in auto)
  have one: "leaves {q. beneath root q} (io_map_err (Fs dest) (copy_file src dest))"
    using no by (intro leaves_map_err leaves_copy_file) auto
  show ?case unfolding copy_recursive.simps
    by (rule leaves_bind, rule leaves_looks [OF looks_is_dir(1)]) (simp add: dir one)
qed (simp add: leaves_pure)

section \<open>The recursion ends\<close>

lemma io_bind_eq:
  assumes "post m env d P" "\<And>a d'. P (Done a) d' \<Longrightarrow> f a env d' = g a env d'"
  shows "io_bind m f env d = io_bind m g env d"
proof -
  obtain r d' where m: "m env d = (r, d')" by fastforce
  with assms(1) have "P r d'" by (simp add: post_def)
  with assms(2) m show ?thesis by (cases r) (simp_all add: io_bind_def io_match_def)
qed

definition same_beneath :: "path \<Rightarrow> disk \<Rightarrow> disk \<Rightarrow> bool" where
  "same_beneath p d d' \<longleftrightarrow> (\<forall>q. beneath p q \<longrightarrow> node_at d' q = node_at d q)"

lemma leaves_same_beneath: "leaves {q. beneath p q} m \<Longrightarrow> post m env d (\<lambda>r d'. same_beneath p d d')"
  by (rule post_mono [OF post_leaves]) (auto simp: same_beneath_def)

lemma copy_entries_eq:
  assumes "\<And>n d'. n \<in> set names \<Longrightarrow> same_beneath src d d' \<Longrightarrow> f (src @ [n]) (dest @ [n]) env d' = g (src @ [n]) (dest @ [n]) env d'"
    and "\<And>n. leaves {q. beneath src q} (f (src @ [n]) (dest @ [n]))"
  shows "copy_entries f src dest names env d = copy_entries g src dest names env d"
  using assms(1)
proof (induction names arbitrary: d)
  case (Cons n names)
  have first: "f (src @ [n]) (dest @ [n]) env d = g (src @ [n]) (dest @ [n]) env d"
    by (rule Cons.prems) (simp_all add: same_beneath_def)
  have "io_bind (f (src @ [n]) (dest @ [n])) (\<lambda>_. copy_entries f src dest names) env d
      = io_bind (f (src @ [n]) (dest @ [n])) (\<lambda>_. copy_entries g src dest names) env d"
  proof (rule io_bind_eq [OF leaves_same_beneath [OF assms(2)]])
    fix d' assume "same_beneath src d d'"
    then show "copy_entries f src dest names env d' = copy_entries g src dest names env d'"
      by (intro Cons.IH Cons.prems) (auto simp: same_beneath_def)
  qed
  also have "\<dots> = io_bind (g (src @ [n]) (dest @ [n])) (\<lambda>_. copy_entries g src dest names) env d"
    using first by (simp add: io_bind_def io_match_def)
  finally show ?case by simp
qed simp

lemma post_read_dir:
  "post (read_dir p) env d (\<lambda>r d'. same_nodes d d' \<and> (\<forall>ns. r = Done ns \<longrightarrow> (\<forall>n \<in> set ns. node_at d (p @ [n]) \<noteq> None)))"
proof -
  have "map_of ns (p @ [n]) \<noteq> None" if n: "n \<in> set (children ns p)" for ns :: nodes and n
  proof -
    from n obtain q where q: "q \<in> fst ` set ns" "q \<noteq> []" "butlast q = p" "last q = n" by (auto simp: children_def)
    then have "q = p @ [n]" by (metis append_butlast_last_id)
    with q(1) show ?thesis by (simp add: map_of_eq_None_iff)
  qed
  then show ?thesis
    unfolding read_dir_def by (intro post_mono [OF post_query]) (auto split: option.splits node.splits)
qed

text \<open>No node beneath a path is more than \<open>k\<close> levels below it.\<close>

definition deep :: "nat \<Rightarrow> path \<Rightarrow> disk \<Rightarrow> bool" where
  "deep k p d \<longleftrightarrow> (\<forall>q. beneath p q \<longrightarrow> node_at d q \<noteq> None \<longrightarrow> length q \<le> length p + k)"

lemma deep_same: "same_beneath p d d' \<Longrightarrow> deep k p d \<Longrightarrow> deep k p d'"
  by (simp add: deep_def same_beneath_def)

lemma deep_step: "deep (Suc k) p d \<Longrightarrow> deep k (p @ [n]) d"
  by (auto simp: deep_def dest: beneath_step)

lemma apart_leaves: "apart src dest \<Longrightarrow> leaves {q. beneath src q} (copy_recursive k (src @ [n]) (dest @ [n]))"
  by (rule leaves_copy_recursive) (auto simp: apart_def beneath_append append_eq_append_conv2 Cons_eq_append_conv append_eq_Cons_conv)

lemma copy_level:
  assumes ap: "apart src dest"
    and agree: "\<And>n d'. same_beneath src d d' \<Longrightarrow> node_at d (src @ [n]) \<noteq> None
      \<Longrightarrow> copy_recursive a (src @ [n]) (dest @ [n]) env d' = copy_recursive b (src @ [n]) (dest @ [n]) env d'"
  shows "copy_recursive (Suc a) src dest env d = copy_recursive (Suc b) src dest env d"
proof -
  have names: "copy_entries (copy_recursive a) src dest names env d1 = copy_entries (copy_recursive b) src dest names env d1"
    if "same_beneath src d d1" "\<forall>n \<in> set names. node_at d (src @ [n]) \<noteq> None" for names d1
  proof (rule copy_entries_eq)
    fix n d' assume "n \<in> set names" "same_beneath src d1 d'"
    with that show "copy_recursive a (src @ [n]) (dest @ [n]) env d' = copy_recursive b (src @ [n]) (dest @ [n]) env d'"
      by (intro agree) (simp_all add: same_beneath_def)
  qed (rule apart_leaves [OF ap])
  have listing: "io_bind (io_map_err (Fs src) (read_dir src)) (copy_entries (copy_recursive a) src dest) env d1
      = io_bind (io_map_err (Fs src) (read_dir src)) (copy_entries (copy_recursive b) src dest) env d1"
    if s: "same_beneath src d d1" for d1
  proof -
    have "post (io_map_err (Fs src) (read_dir src)) env d1
        (\<lambda>r d'. same_nodes d1 d' \<and> (\<forall>ns. r = Done ns \<longrightarrow> (\<forall>n \<in> set ns. node_at d1 (src @ [n]) \<noteq> None)))"
      by (rule post_map_err [OF post_read_dir]) auto
    then show ?thesis
    proof (rule io_bind_eq)
      fix names d2
      assume "same_nodes d1 d2 \<and> (\<forall>ns. (Done names :: (_, ProjectIoError) outcome) = Done ns \<longrightarrow> (\<forall>n \<in> set ns. node_at d1 (src @ [n]) \<noteq> None))"
      then have n: "same_nodes d1 d2" "\<forall>n \<in> set names. node_at d1 (src @ [n]) \<noteq> None" by simp_all
      have "same_beneath src d d2" using s n(1) by (simp add: same_beneath_def same_nodes_def)
      moreover have "\<forall>n \<in> set names. node_at d (src @ [n]) \<noteq> None" using s n(2) by (simp add: same_beneath_def beneath_append)
      ultimately show "copy_entries (copy_recursive a) src dest names env d2 = copy_entries (copy_recursive b) src dest names env d2"
        by (rule names)
    qed
  qed
  have create: "leaves {q. beneath src q} (io_map_err (Fs dest) (create_dir_all dest))"
    using ap by (intro leaves_map_err leaves_create_dir_all) (auto simp: apart_def beneath_append append_eq_append_conv2)
  show ?thesis
    unfolding copy_recursive.simps
  proof (rule io_bind_eq [OF post_is_dir])
    fix x d1
    assume "same_nodes d d1 \<and> ((Done x :: (_, ProjectIoError) outcome) = Done True \<longrightarrow> is_directory (node_at d src))"
    then have s: "same_beneath src d d1" by (simp add: same_beneath_def same_nodes_def)
    have "io_bind (io_map_err (Fs dest) (create_dir_all dest)) (\<lambda>_. io_bind (io_map_err (Fs src) (read_dir src)) (copy_entries (copy_recursive a) src dest)) env d1
        = io_bind (io_map_err (Fs dest) (create_dir_all dest)) (\<lambda>_. io_bind (io_map_err (Fs src) (read_dir src)) (copy_entries (copy_recursive b) src dest)) env d1"
      by (rule io_bind_eq [OF leaves_same_beneath [OF create]], rule listing) (use s in \<open>simp add: same_beneath_def\<close>)
    then show "(if x then io_bind (io_map_err (Fs dest) (create_dir_all dest)) (\<lambda>_. io_bind (io_map_err (Fs src) (read_dir src)) (copy_entries (copy_recursive a) src dest))
          else io_map_err (Fs dest) (copy_file src dest)) env d1
        = (if x then io_bind (io_map_err (Fs dest) (create_dir_all dest)) (\<lambda>_. io_bind (io_map_err (Fs src) (read_dir src)) (copy_entries (copy_recursive b) src dest))
          else io_map_err (Fs dest) (copy_file src dest)) env d1"
      by simp
  qed
qed



section \<open>Copying a directory into itself\<close>

definition nest :: "nat \<Rightarrow> path" where
  "nest j = ''s.dir'' # replicate j ''o.dir''"

definition nested :: "nat \<Rightarrow> nat \<Rightarrow> disk" where
  "nested j t = \<lparr>fs_nodes = ([], Directory 493) # map (\<lambda>i. (nest i, Directory 493)) [0..<Suc j], fs_tick = t\<rparr>"

lemma nest_inj: "nest i = nest j \<longleftrightarrow> i = j"
  by (auto simp: nest_def replicate_eq_replicate)

lemma nest_step: "nest j @ [''o.dir''] = nest (Suc j)" "butlast (nest (Suc j)) = nest j" "last (nest (Suc j)) = ''o.dir''"
    "nest j \<noteq> []"
  by (simp_all add: nest_def replicate_append_same butlast_append flip: replicate_Suc) (simp_all add: butlast_snoc flip: replicate_append_same)

lemma nested_nest: "node_at (nested j t) (nest i) = (if i \<le> j then Some (Directory 493) else None)"
proof (cases "i \<le> j")
  case True
  have "map_of (map (\<lambda>i. (nest i, Directory 493)) is) (nest i) = (if i \<in> set is then Some (Directory 493) else None)" for "is"
    by (induction "is") (auto simp: nest_inj)
  then show ?thesis using True by (simp add: nested_def nest_step(4) del: upt_Suc)
next
  case False
  have "map_of (map (\<lambda>i. (nest i, Directory 493)) is) (nest i) = (if i \<in> set is then Some (Directory 493) else None)" for "is"
    by (induction "is") (auto simp: nest_inj)
  then show ?thesis using False by (simp add: nested_def nest_step(4) del: upt_Suc)
qed


lemma nest_length: "length (nest j) = Suc j"
  by (simp add: nest_def)

lemma nest_take: "i \<le> j \<Longrightarrow> take (Suc i) (nest j) = nest i"
  by (simp add: nest_def)

lemma nest_prefixes: "map (\<lambda>n. take n (nest j)) [0..<length (nest j) + 1] = [] # map nest [0..<Suc j]"
proof -
  have "[0..<length (nest j) + 1] = 0 # map Suc [0..<Suc j]" 
    by (simp add: nest_length map_Suc_upt upt_conv_Cons del: upt_Suc)
  then show ?thesis by (simp add: nest_take del: upt_Suc)
qed

lemma nest_butlast: "butlast (nest i) = nest j \<longleftrightarrow> i = Suc j"
proof (cases i)
  case 0
  then show ?thesis by (simp add: nest_def)
next
  case (Suc k)
  then show ?thesis by (simp add: nest_step nest_inj)
qed

lemma nested_children: "children (fs_nodes (nested (Suc j) t)) (nest j) = [''o.dir'']"
proof -
  have none: "filter (\<lambda>i. butlast (nest i) = nest j) [0..<Suc j] = []" by (simp add: nest_butlast)
  have "children (fs_nodes (nested (Suc j) t)) (nest j) = map last (map nest (filter (\<lambda>i. butlast (nest i) = nest j) [0..<Suc (Suc j)]))"
    by (simp add: children_def nested_def filter_map comp_def nest_step(4) del: upt_Suc)
  also have "\<dots> = [''o.dir'']" using none by (simp add: nest_step nest_butlast)
  finally show ?thesis .
qed

lemma make_dirs_old: "\<forall>q \<in> set ps. lookup ns q \<noteq> None \<Longrightarrow> foldl make_dir ns ps = ns"
  by (induction ps) (auto simp: make_dir_def)

lemma update_new: "lookup ns q = None \<Longrightarrow> AList.update q x ns = ns @ [(q, x)]"
  by (induction ns) (auto split: if_splits)

lemma nested_create: "create_dir_all (nest (Suc j)) (demo_fs (\<lambda>_. Fine)) (nested j t) = (Done (), nested (Suc j) (Suc t))"
proof -
  let ?ns = "fs_nodes (nested j t)"
  have root: "lookup ?ns [] = Some (Directory 493)" by (simp add: nested_def)
  have old: "lookup ?ns (nest i) = Some (Directory 493)" if "i < Suc j" for i using nested_nest [of j t i] that by simp
  have new: "lookup ?ns (nest (Suc j)) = None" using nested_nest [of j t "Suc j"] by simp
  have keep: "foldl make_dir ?ns ([] # map nest [0..<Suc j]) = ?ns"
    by (rule make_dirs_old) (use root old in auto)
  have "foldl make_dir ?ns ([] # map nest [0..<Suc (Suc j)]) = make_dir (foldl make_dir ?ns ([] # map nest [0..<Suc j])) (nest (Suc j))"
    by simp
  also have "\<dots> = fs_nodes (nested (Suc j) t)"
    unfolding keep by (simp add: make_dir_def new update_new) (simp add: nested_def)
  finally have made: "foldl make_dir ?ns ([] # map nest [0..<Suc (Suc j)]) = fs_nodes (nested (Suc j) t)" .
  have all: "list_all (\<lambda>q. lookup ?ns q = None \<or> is_directory (lookup ?ns q)) ([] # map nest [0..<Suc (Suc j)])"
    using root old new by (auto simp: list_all_iff is_directory_def less_Suc_eq)
  show ?thesis
    unfolding create_dir_all_def Let_def nest_prefixes
    by (simp only: fs_step_def demo_fs_simps Let_def fault.case all made if_True result.case prod.case)
      (simp add: nested_def)
qed


end
