(* ===== verification/Spec2Isabelle.thy ===== *)
theory Spec2Isabelle
  imports TaskQueue Fingerprint Resurrection BridgeMethod BridgeIdentity Registry Federation Numeric
    Framing Receipts MemoryJournal SqliteJournal Journals OpDispatch Dispatching Sessions Idle LogRing WireSession BridgeSessions EvidenceDemo ExportDemo DaemonLink
    ClientIdentity ProjectCopy
begin

text \<open>
  A model of the core of the TouchDesigner daemon (crates under \<open>src/crates/\<close>).
\<close>

end
